(* ===== verification/Go_Time.thy ===== *)
theory Go_Time
  imports Go_Strings
begin

text \<open>
  Go's \<open>time\<close> package as the source uses it. An instant is the number of nanoseconds since
  the Unix epoch; a \<open>Duration\<close> is a signed 64-bit number of nanoseconds, so a product of
  durations wraps around (\<open>dur_mul\<close>) while the difference of two instants saturates
  (\<open>time_sub\<close>). The local time zone is a fixed offset \<open>tz\<close> from UTC (Vietnam, where
  the program runs, has no daylight saving). The calendar is the proleptic Gregorian one; months
  are numbered consecutively, month \<open>k\<close> being month \<open>k mod 12 + 1\<close> of year \<open>k div 12\<close>.
\<close>

type_synonym gtime = int
type_synonym duration = int

definition second_ns :: int where "second_ns = 1000000000"
definition minute_ns :: int where "minute_ns = 60 * second_ns"
definition hour_ns :: int where "hour_ns = 60 * minute_ns"
definition day_ns :: int where "day_ns = 24 * hour_ns"

lemma ns_values [go_time]:
  "second_ns = 1000000000" "minute_ns = 60000000000" "hour_ns = 3600000000000"
  "day_ns = 86400000000000"
  by (simp_all add: second_ns_def minute_ns_def hour_ns_def day_ns_def)

lemma day_ns_pos [simp]: "0 < day_ns"
  by (simp add: go_time)

definition dur_mul :: "int \<Rightarrow> int \<Rightarrow> duration" where
  "dur_mul a b = wrap64 (a * b)"

text \<open>\<open>time.Duration(n) * 24 * time.Hour\<close>, evaluated from the left as Go does.\<close>

definition days_dur :: "int \<Rightarrow> duration" where
  "days_dur n = dur_mul (dur_mul n 24) hour_ns"

definition hours_dur :: "int \<Rightarrow> duration" where
  "hours_dur n = dur_mul n hour_ns"

definition time_sub :: "gtime \<Rightarrow> gtime \<Rightarrow> duration" where
  "time_sub t u = max min_int64 (min max_int64 (t - u))"

definition time_add :: "gtime \<Rightarrow> duration \<Rightarrow> gtime" where
  "time_add t d = t + d"

text \<open>\<open>int(d.Hours() / 24)\<close> and \<open>int(d.Hours())\<close>.\<close>

definition whole_days :: "duration \<Rightarrow> int" where
  "whole_days d = go_div d day_ns"

definition whole_hours :: "duration \<Rightarrow> int" where
  "whole_hours d = go_div d hour_ns"

lemma days_dur_exact: "0 \<le> n \<Longrightarrow> n \<le> 106751 \<Longrightarrow> days_dur n = n * day_ns"
proof -
  assume n: "0 \<le> n" "n \<le> 106751"
  then have "dur_mul n 24 = n * 24"
    by (simp add: dur_mul_def wrap64_id in_int64_def)
  moreover from n have "in_int64 (n * 24 * hour_ns)"
    by (simp add: in_int64_def go_time)
  ultimately show ?thesis
    by (simp add: days_dur_def dur_mul_def wrap64_id go_time)
qed

lemma days_dur_overflow: "days_dur 106752 < 0"
  by (simp add: days_dur_def dur_mul_def wrap64_def go_time)

lemma time_sub_in_range [simp]: "in_int64 (t - u) \<Longrightarrow> time_sub t u = t - u"
  by (simp add: time_sub_def in_int64_def min_int64_def max_int64_def)

lemma time_sub_mono: "t \<le> t' \<Longrightarrow> time_sub t u \<le> time_sub t' u"
  by (auto simp: time_sub_def)

lemma time_sub_ge_iff: "in_int64 d \<Longrightarrow> d \<le> time_sub t u \<longleftrightarrow> d \<le> t - u \<or> d = min_int64"
  by (auto simp: time_sub_def in_int64_def min_int64_def max_int64_def)

subsection \<open>Days and months\<close>

definition day_of :: "int \<Rightarrow> gtime \<Rightarrow> int" where
  "day_of tz t = (t + tz) div day_ns"

text \<open>\<open>time.Date(y, m, d, hour, 0, 0, 0, loc)\<close> on the day of \<open>t\<close>.\<close>

definition at_hour :: "int \<Rightarrow> gtime \<Rightarrow> int \<Rightarrow> gtime" where
  "at_hour tz t h = day_of tz t * day_ns + h * hour_ns - tz"

text \<open>\<open>t.AddDate(0, 0, n)\<close>.\<close>

definition add_days :: "gtime \<Rightarrow> int \<Rightarrow> gtime" where
  "add_days t n = t + n * day_ns"

definition leap :: "int \<Rightarrow> bool" where
  "leap y \<longleftrightarrow> y mod 4 = 0 \<and> (y mod 100 \<noteq> 0 \<or> y mod 400 = 0)"

text \<open>Days from 1 January of year 0 to 1 January of year \<open>y\<close>.\<close>

definition days_to_year :: "int \<Rightarrow> int" where
  "days_to_year y = 365 * y + (y + 3) div 4 - (y + 99) div 100 + (y + 399) div 400"

definition month_cum :: "int list" where
  "month_cum = [0, 31, 59, 90, 120, 151, 181, 212, 243, 273, 304, 334]"

text \<open>The day number (day 0 is 1 January 1970) of the first day of month \<open>k\<close>.\<close>

definition month_day0 :: "int \<Rightarrow> int" where
  "month_day0 k =
     days_to_year (k div 12) + month_cum ! nat (k mod 12)
       + (if 2 \<le> k mod 12 \<and> leap (k div 12) then 1 else 0) - 719528"

lemma div_step:
  fixes y m :: int
  assumes "0 < m"
  shows "(y + m) div m = (y + m - 1) div m + (if y mod m = 0 then 1 else 0)"
proof -
  have y: "y = m * (y div m) + y mod m" by simp
  have r: "0 \<le> y mod m" "y mod m < m" using assms by simp_all
  have "(y + m) div m = y div m + 1"
    by (rule int_div_pos_eq [where r = "y mod m"]) (use y r in \<open>simp_all add: algebra_simps\<close>)
  moreover have "(y + m - 1) div m = y div m + (if y mod m = 0 then 0 else 1)"
  proof (cases "y mod m = 0")
    case True
    with y have "(y + m - 1) div m = y div m"
      by (intro int_div_pos_eq [where r = "m - 1"]) (use assms in \<open>simp_all add: algebra_simps\<close>)
    with True show ?thesis by simp
  next
    case False
    with y r have "(y + m - 1) div m = y div m + 1"
      by (intro int_div_pos_eq [where r = "y mod m - 1"]) (simp_all add: algebra_simps)
    with False show ?thesis by simp
  qed
  ultimately show ?thesis by simp
qed

lemma leap_count:
  fixes a b c y :: int
  assumes "a' = a + (if P then 1 else 0)" "b' = b + (if Q then 1 else 0)"
    "c' = c + (if R then 1 else 0)" "Q \<Longrightarrow> P" "R \<Longrightarrow> Q"
  shows "365 * (y + 1) + a' - b' + c'
    = 365 * y + a - b + c + 365 + (if P \<and> (\<not> Q \<or> R) then 1 else 0)"
  unfolding assms(1-3) using assms(4,5)
  by (cases P; cases Q; cases R) (simp_all add: distrib_left)

lemma days_to_year_step:
  "days_to_year (y + 1) = days_to_year y + 365 + (if leap y then 1 else 0)"
proof -
  have e: "y + 4 - 1 = y + 3" "y + 100 - 1 = y + 99" "y + 400 - 1 = y + 399"
    "y + 1 + 3 = y + 4" "y + 1 + 99 = y + 100" "y + 1 + 399 = y + 400"
    by simp_all
  have m: "y mod 100 mod 4 = y mod 4" "y mod 400 mod 100 = y mod 100"
    by (simp_all add: mod_mod_cancel)
  show ?thesis
    unfolding days_to_year_def leap_def e
    by (rule leap_count [OF div_step [of 4 y, OF zero_less_numeral, unfolded e]
          div_step [of 100 y, OF zero_less_numeral, unfolded e]
          div_step [of 400 y, OF zero_less_numeral, unfolded e]])
      (metis m mod_0)+
qed

lemma month_day0_ym:
  assumes "0 \<le> m" "m < 12"
  shows "month_day0 (12 * y + m) =
    days_to_year y + month_cum ! nat m + (if 2 \<le> m \<and> leap y then 1 else 0) - 719528"
proof -
  have "(12 * y + m) div 12 = y" by (rule int_div_pos_eq [OF refl assms])
  moreover have "(12 * y + m) mod 12 = m" by (rule int_mod_pos_eq [OF refl assms])
  ultimately show ?thesis by (simp only: month_day0_def)
qed

lemma month_day0_december:
  "month_day0 (12 * y + 12) = days_to_year y + 365 + (if leap y then 1 else 0) - 719528"
  using month_day0_ym [of 0 "y + 1"] days_to_year_step [of y]
  by (simp add: month_cum_def distrib_left)

lemma month_len_bounds:
  assumes "0 \<le> m" "m < 12"
  shows "month_day0 (12 * y + m) + 28 \<le> month_day0 (12 * y + (m + 1)) \<and>
    month_day0 (12 * y + (m + 1)) \<le> month_day0 (12 * y + m) + 31"
proof (cases "m = 11")
  case True
  then show ?thesis
    using month_day0_december [of y] month_day0_ym [of 11 y]
    by (auto simp: month_cum_def)
next
  case False
  with assms have "m = 0 \<or> m = 1 \<or> m = 2 \<or> m = 3 \<or> m = 4 \<or> m = 5 \<or> m = 6 \<or> m = 7
      \<or> m = 8 \<or> m = 9 \<or> m = 10"
    by presburger
  then show ?thesis
    using month_day0_ym [of m y] month_day0_ym [of "m + 1" y]
    by (elim disjE) (simp_all add: month_cum_def)
qed

lemma month_day0_step:
  "month_day0 k + 28 \<le> month_day0 (k + 1)" "month_day0 (k + 1) \<le> month_day0 k + 31"
proof -
  have "k = 12 * (k div 12) + k mod 12" by simp
  then have k: "12 * (k div 12) + k mod 12 = k" "12 * (k div 12) + (k mod 12 + 1) = k + 1"
    by linarith+
  have "0 \<le> k mod 12" "k mod 12 < 12" by simp_all
  from month_len_bounds [OF this, of "k div 12", unfolded k]
  show "month_day0 k + 28 \<le> month_day0 (k + 1)" "month_day0 (k + 1) \<le> month_day0 k + 31"
    by simp_all
qed

lemma month_day0_strict: "j < k \<Longrightarrow> month_day0 j < month_day0 k"
proof (induction "nat (k - j)" arbitrary: k)
  case 0
  then show ?case by simp
next
  case (Suc n)
  show ?case
  proof (cases "j = k - 1")
    case True
    with month_day0_step(1) [of "k - 1"] show ?thesis by simp
  next
    case False
    with Suc have "month_day0 j < month_day0 (k - 1)" by simp
    with month_day0_step(1) [of "k - 1"] show ?thesis by simp
  qed
qed

lemma month_day0_mono: "j \<le> k \<Longrightarrow> month_day0 j \<le> month_day0 k"
  using month_day0_strict [of j k] by (cases "j = k") auto

function month_down :: "int \<Rightarrow> int \<Rightarrow> int" where
  "month_down k d = (if d < month_day0 k then month_down (k - 1) d else k)"
  by pat_completeness auto
termination
proof (relation "measure (\<lambda>(k, d). nat (month_day0 k - d))")
  fix k d :: int
  assume "d < month_day0 k"
  with month_day0_step(1) [of "k - 1"]
  show "((k - 1, d), k, d) \<in> measure (\<lambda>(k, d). nat (month_day0 k - d))" by simp
qed simp

function month_up :: "int \<Rightarrow> int \<Rightarrow> int" where
  "month_up k d = (if month_day0 (k + 1) \<le> d then month_up (k + 1) d else k)"
  by pat_completeness auto
termination
proof (relation "measure (\<lambda>(k, d). nat (d - month_day0 k))")
  fix k d :: int
  assume "month_day0 (k + 1) \<le> d"
  with month_day0_step(1) [of k]
  show "((k + 1, d), k, d) \<in> measure (\<lambda>(k, d). nat (d - month_day0 k))" by simp
qed simp

declare month_down.simps [simp del] month_up.simps [simp del]

text \<open>The month of a day: an estimate from the mean length of a month, then corrected.\<close>

definition month_of_day :: "int \<Rightarrow> int" where
  "month_of_day d = month_up (month_down ((d + 719528) * 4800 div 146097) d) d"

lemma month_down_le: "month_day0 (month_down k d) \<le> d"
proof (induction k d rule: month_down.induct)
  case (1 k d)
  then show ?case by (subst month_down.simps) auto
qed

lemma month_up_bounds:
  "month_day0 k \<le> d \<Longrightarrow> month_day0 (month_up k d) \<le> d \<and> d < month_day0 (month_up k d + 1)"
proof (induction k d rule: month_up.induct)
  case (1 k d)
  then show ?case
    by (cases "month_day0 (k + 1) \<le> d") (simp_all add: month_up.simps [of k d])
qed

lemma month_of_day_bounds:
  "month_day0 (month_of_day d) \<le> d" "d < month_day0 (month_of_day d + 1)"
  using month_up_bounds [OF month_down_le] by (simp_all add: month_of_day_def)

lemma month_of_day_unique:
  assumes "month_day0 k \<le> d" "d < month_day0 (k + 1)"
  shows "month_of_day d = k"
proof (rule ccontr)
  assume "month_of_day d \<noteq> k"
  then consider "month_of_day d + 1 \<le> k" | "k + 1 \<le> month_of_day d" by linarith
  then show False
  proof cases
    case 1
    with assms(1) month_of_day_bounds(2) [of d] month_day0_mono show False by fastforce
  next
    case 2
    with assms(2) month_of_day_bounds(1) [of d] month_day0_mono show False by fastforce
  qed
qed

definition month_of :: "int \<Rightarrow> gtime \<Rightarrow> int" where
  "month_of tz t = month_of_day (day_of tz t)"

text \<open>\<open>time.Date(now.Year(), now.Month(), 1, 0, 0, 0, 0, time.Local)\<close> and one month later.\<close>

definition month_start :: "int \<Rightarrow> gtime \<Rightarrow> gtime" where
  "month_start tz t = month_day0 (month_of tz t) * day_ns - tz"

definition month_end :: "int \<Rightarrow> gtime \<Rightarrow> gtime" where
  "month_end tz t = month_day0 (month_of tz t + 1) * day_ns - tz"

lemma day_ge_iff: "b \<le> day_of tz t \<longleftrightarrow> b * day_ns - tz \<le> t"
proof
  assume "b \<le> day_of tz t"
  then have "b * day_ns \<le> day_of tz t * day_ns" by simp
  moreover have "(t + tz) div day_ns * day_ns + (t + tz) mod day_ns = t + tz"
    by (rule div_mult_mod_eq)
  moreover have "0 \<le> (t + tz) mod day_ns"
    by (rule pos_mod_sign) simp
  ultimately have "b * day_ns \<le> t + tz"
    unfolding day_of_def by linarith
  then show "b * day_ns - tz \<le> t" by linarith
next
  assume "b * day_ns - tz \<le> t"
  then have "b * day_ns \<le> t + tz" by linarith
  then have "b * day_ns div day_ns \<le> (t + tz) div day_ns" by (rule zdiv_mono1) simp
  moreover have "b * day_ns div day_ns = b"
    using day_ns_pos by (simp del: day_ns_pos)
  ultimately show "b \<le> day_of tz t" by (simp only: day_of_def)
qed

text \<open>The window of a calendar month holds exactly the instants of that month.\<close>

lemma month_window_iff:
  "month_start tz now \<le> t \<and> t < month_end tz now \<longleftrightarrow> month_of tz t = month_of tz now"
proof -
  let ?k = "month_of tz now"
  have "month_start tz now \<le> t \<longleftrightarrow> month_day0 ?k \<le> day_of tz t"
    by (simp add: month_start_def day_ge_iff)
  moreover have "t < month_end tz now \<longleftrightarrow> day_of tz t < month_day0 (?k + 1)"
    using day_ge_iff [of "month_day0 (?k + 1)" tz t] by (auto simp: month_end_def not_le)
  moreover have "month_day0 ?k \<le> day_of tz t \<and> day_of tz t < month_day0 (?k + 1)
      \<longleftrightarrow> month_of tz t = ?k"
    using month_of_day_bounds [of "day_of tz t"] month_of_day_unique [of ?k "day_of tz t"]
    unfolding month_of_def by metis
  ultimately show ?thesis by blast
qed

lemma at_hour_bounds:
  "at_hour tz t 0 \<le> t" "t < at_hour tz t 24"
proof -
  show "at_hour tz t 0 \<le> t"
    using day_ge_iff [of "day_of tz t" tz t] by (simp add: at_hour_def)
  have "\<not> day_of tz t + 1 \<le> day_of tz t" by simp
  then have "t < (day_of tz t + 1) * day_ns - tz"
    using day_ge_iff [of "day_of tz t + 1" tz t] by linarith
  then show "t < at_hour tz t 24"
    by (simp add: at_hour_def day_ns_def algebra_simps)
qed

subsection \<open>Formatting a date\<close>

definition pad2 :: "nat \<Rightarrow> string" where
  "pad2 n = (if n < 10 then CHR ''0'' # show_nat n else show_nat n)"

text \<open>\<open>t.Format("20060102")\<close>, for a year of four digits.\<close>

definition format_yyyymmdd :: "int \<Rightarrow> gtime \<Rightarrow> string" where
  "format_yyyymmdd tz t =
     (let d = day_of tz t; k = month_of_day d
      in show_nat (nat (k div 12)) @ pad2 (nat (k mod 12 + 1)) @ pad2 (nat (d - month_day0 k + 1)))"

text \<open>\<open>t.Format("2006-01")\<close>.\<close>

definition format_yyyy_mm :: "int \<Rightarrow> gtime \<Rightarrow> string" where
  "format_yyyy_mm tz t =
     (let k = month_of tz t in show_nat (nat (k div 12)) @ ''-'' @ pad2 (nat (k mod 12 + 1)))"

text \<open>\<open>t.Format("02/01/2006")\<close>.\<close>

definition format_dmy :: "int \<Rightarrow> gtime \<Rightarrow> string" where
  "format_dmy tz t =
     (let d = day_of tz t; k = month_of_day d
      in pad2 (nat (d - month_day0 k + 1)) @ ''/'' @ pad2 (nat (k mod 12 + 1)) @ ''/''
           @ show_nat (nat (k div 12)))"

text \<open>
  The next instant at which the local clock shows hour \<open>h\<close>: the daily timers of the balance,
  keep-alive and backup schedulers all wait for it.
\<close>

definition next_at_hour :: "int \<Rightarrow> gtime \<Rightarrow> int \<Rightarrow> gtime" where
  "next_at_hour tz now h =
     (let t = at_hour tz now h in if t > now then t else add_days t 1)"

lemma next_at_hour_props:
  assumes "0 \<le> h" "h < 24"
  shows "now < next_at_hour tz now h" "next_at_hour tz now h \<le> now + day_ns"
    "(next_at_hour tz now h + tz) mod day_ns = h * hour_ns"
proof -
  have h: "at_hour tz now h = at_hour tz now 0 + h * hour_ns" "0 \<le> h * hour_ns"
    "h * hour_ns < day_ns" "at_hour tz now 24 = at_hour tz now 0 + day_ns"
    using assms by (simp_all add: at_hour_def go_time)
  show "now < next_at_hour tz now h" "next_at_hour tz now h \<le> now + day_ns"
    using h at_hour_bounds [where t = now and tz = tz]
    by (auto simp: next_at_hour_def add_days_def Let_def)
  have "next_at_hour tz now h + tz = h * hour_ns + (day_of tz now) * day_ns \<or>
        next_at_hour tz now h + tz = h * hour_ns + (day_of tz now + 1) * day_ns"
    by (auto simp: next_at_hour_def at_hour_def add_days_def Let_def algebra_simps)
  then show "(next_at_hour tz now h + tz) mod day_ns = h * hour_ns"
    using h by (elim disjE) (simp_all only: mod_mult_self1 mod_pos_pos_trivial)
qed

end
