(* ===== verification/Smsie_Model.thy ===== *)
theory Smsie_Model
  imports Go_Time
begin

text \<open>
  The data model of \<open>internal/model/model.go\<close>: one record per struct, in the order of the
  source. A pointer field is an \<open>option\<close>; \<open>float64\<close> is modelled by exact rationals. The
  numeric primary key of a table is the position of the row: a table is the list of its rows in
  the order of their ids. The bookkeeping columns \<open>CreatedAt\<close>/\<open>UpdatedAt\<close> that only gorm
  writes are left out, except where the code reads them.
\<close>

record user =
  u_id :: int
  u_username :: string
  u_password_hash :: string
  u_role :: string
  u_allowed_modems :: string
  u_deleted_at :: "gtime option"

record permission =
  p_user_id :: int
  p_iccid :: string
  p_can_make_call :: bool
  p_can_view_sms :: bool
  p_can_send_sms :: bool
  p_can_send_at :: bool

record api_key =
  k_id :: int
  k_user_id :: int
  k_name :: string
  k_prefix :: string
  k_hash :: string
  k_can_make_call :: bool
  k_can_view_sms :: bool
  k_can_send_sms :: bool
  k_can_send_at :: bool
  k_is_active :: bool
  k_last_used_at :: "gtime option"
  k_expires_at :: "gtime option"

record modem =
  m_iccid :: string
  m_name :: string
  m_imei :: string
  m_slot_number :: "int option"
  m_phone_number :: string
  m_hardware_path :: string
  m_balance_vnd :: int
  m_balance_updated_at :: "gtime option"
  m_low_balance_vnd :: "int option"
  m_plan_expires_at :: "gtime option"
  m_free_minutes :: "rat option"
  m_free_minutes_expires_at :: "gtime option"
  m_free_sms :: "int option"
  m_free_sms_expires_at :: "gtime option"
  m_data_mb :: "rat option"
  m_plan_updated_at :: "gtime option"
  m_plan_raw :: string
  m_last_registered_at :: "gtime option"
  m_first_seen_at :: "gtime option"
  m_keepalive_enabled :: bool
  m_keepalive_interval :: "int option"
  m_sip_enabled :: bool
  m_sip_username :: string
  m_sip_password :: string
  m_sip_proxy :: string
  m_sip_port :: int
  m_sip_domain :: string
  m_sip_transport :: string
  m_sip_register :: bool
  m_sip_tls_skip_verify :: bool
  m_sip_listen_port :: int
  m_sip_accept_incoming :: bool
  m_sip_invite_target :: string
  m_operator :: string
  m_signal_strength :: int
  m_port_name :: string
  m_status :: string
  m_registration :: string
  m_last_seen :: gtime

definition new_modem :: "string \<Rightarrow> modem" where
  "new_modem iccid = \<lparr> m_iccid = iccid, m_name = [], m_imei = [], m_slot_number = None,
     m_phone_number = [], m_hardware_path = [], m_balance_vnd = 0, m_balance_updated_at = None,
     m_low_balance_vnd = None, m_plan_expires_at = None, m_free_minutes = None,
     m_free_minutes_expires_at = None, m_free_sms = None, m_free_sms_expires_at = None,
     m_data_mb = None, m_plan_updated_at = None, m_plan_raw = [], m_last_registered_at = None,
     m_first_seen_at = None, m_keepalive_enabled = False, m_keepalive_interval = None,
     m_sip_enabled = False, m_sip_username = [], m_sip_password = [], m_sip_proxy = [],
     m_sip_port = 0, m_sip_domain = [], m_sip_transport = [], m_sip_register = False,
     m_sip_tls_skip_verify = False, m_sip_listen_port = 0, m_sip_accept_incoming = False,
     m_sip_invite_target = [], m_operator = [], m_signal_strength = 0, m_port_name = [],
     m_status = [], m_registration = [], m_last_seen = 0 \<rparr>"

record sms =
  s_iccid :: string
  s_phone :: string
  s_content :: string
  s_timestamp :: gtime
  s_type :: string
  s_is_read :: bool
  s_raw_pdu :: string
  s_created_at :: gtime

record call_recording =
  cr_id :: int
  cr_iccid :: string
  cr_phone :: string
  cr_file_name :: string
  cr_content_type :: string
  cr_size_bytes :: int
  cr_duration_seconds :: int
  cr_created_by :: int
  cr_created_at :: gtime

record webhook =
  w_id :: int
  w_iccid :: string
  w_url :: string
  w_platform :: string
  w_channel_id :: string
  w_template :: string
  w_enabled :: bool

record modem_bay =
  b_imei :: string
  b_slot_number :: "int option"
  b_current_iccid :: string
  b_last_seen_at :: "gtime option"

text \<open>The values of \<open>SimSlotEvent.Event\<close>.\<close>

datatype slot_event_kind = SlotEventInserted | SlotEventMoved | SlotEventRemoved

record sim_slot_event =
  e_detected_at :: gtime
  e_iccid :: string
  e_imei :: string
  e_phone_number :: string
  e_operator :: string
  e_event :: slot_event_kind
  e_from_slot :: "int option"
  e_to_slot :: "int option"
  e_balance_vnd :: "int option"
  e_port_name :: string

record phone_number_history =
  h_iccid :: string
  h_old_phone :: string
  h_new_phone :: string
  h_source :: string
  h_at :: gtime

record plan_info =
  pi_plan_expires_at :: "gtime option"
  pi_free_minutes :: "rat option"
  pi_free_minutes_expires_at :: "gtime option"
  pi_free_sms :: "int option"
  pi_free_sms_expires_at :: "gtime option"
  pi_data_mb :: "rat option"
  pi_raw :: string

record balance_snapshot =
  bs_iccid :: string
  bs_balance_vnd :: int
  bs_read_at :: gtime

record balance_alert =
  ba_iccid :: string
  ba_kind :: string
  ba_balance_vnd :: int
  ba_days_left :: "rat option"
  ba_sent_at :: gtime

text \<open>The values of \<open>SimAlert.Kind\<close>.\<close>

datatype sim_alert_kind =
    SimAlertNoSMS | SimAlertUnregistered | SimAlertAbsent | SimAlertKeepalive | SimAlertPlanExpiring

record sim_alert =
  sa_iccid :: string
  sa_kind :: sim_alert_kind
  sa_detail :: string
  sa_sent_at :: gtime

text \<open>The values of \<open>KeepaliveRun.Status\<close>.\<close>

datatype keepalive_status = KeepaliveSent | KeepaliveFailed | KeepaliveSkipped

record keepalive_run =
  kr_iccid :: string
  kr_target_iccid :: string
  kr_target_phone :: string
  kr_status :: keepalive_status
  kr_reason :: string
  kr_ran_at :: gtime

record audit_log =
  al_at :: gtime
  al_username :: string
  al_user_id :: "int option"
  al_api_key_id :: "int option"
  al_action :: string
  al_iccid :: string
  al_target :: string
  al_detail :: string
  al_status :: int
  al_ip :: string

text \<open>
  The database: one field per table. Every call of gorm may fail; which calls fail, and with
  which error, is the parameter \<open>faults\<close>, a function from the label of the call site. A
  function that returns early with the error returns \<open>Inl\<close>, and the tables a transaction wrote
  before the error are rolled back because the caller keeps the state it had.
\<close>

record database =
  t_users :: "user list"
  t_permissions :: "permission list"
  t_api_keys :: "api_key list"
  t_modems :: "modem list"
  t_sms :: "sms list"
  t_recordings :: "call_recording list"
  t_webhooks :: "webhook list"
  t_bays :: "modem_bay list"
  t_slot_events :: "sim_slot_event list"
  t_snapshots :: "balance_snapshot list"
  t_balance_alerts :: "balance_alert list"
  t_sim_alerts :: "sim_alert list"
  t_keepalive_runs :: "keepalive_run list"
  t_phone_history :: "phone_number_history list"
  t_audit :: "audit_log list"

definition empty_db :: database where
  "empty_db = \<lparr> t_users = [], t_permissions = [], t_api_keys = [], t_modems = [], t_sms = [],
     t_recordings = [], t_webhooks = [], t_bays = [], t_slot_events = [], t_snapshots = [],
     t_balance_alerts = [], t_sim_alerts = [], t_keepalive_runs = [], t_phone_history = [],
     t_audit = [] \<rparr>"

type_synonym faults = "string \<Rightarrow> string option"

definition no_faults :: faults where
  "no_faults = (\<lambda>_. None)"

definition db_call :: "faults \<Rightarrow> string \<Rightarrow> 'a \<Rightarrow> 'a result" where
  "db_call faults label x = (case faults label of Some e \<Rightarrow> Inl e | None \<Rightarrow> Inr x)"

text \<open>A query whose error the code ignores leaves the zero value in its destination.\<close>

definition db_or :: "faults \<Rightarrow> string \<Rightarrow> 'a \<Rightarrow> 'a \<Rightarrow> 'a" where
  "db_or faults label zero x = (case faults label of Some e \<Rightarrow> zero | None \<Rightarrow> x)"

lemma db_or_ok [simp]: "db_or no_faults l z x = x"
  by (simp add: db_or_def no_faults_def)

lemma db_call_ok [simp]: "db_call no_faults l x = Inr x"
  by (simp add: db_call_def no_faults_def)

lemma db_call_InrD: "db_call faults l x = Inr y \<Longrightarrow> y = x"
  by (simp add: db_call_def split: option.splits)

lemma db_call_Inr_iff: "db_call faults l x = Inr y \<longleftrightarrow> faults l = None \<and> y = x"
  by (auto simp: db_call_def split: option.splits)

end
