(* ===== verification/Slot_Log.thy ===== *)
theory Slot_Log
  imports Smsie_Model
begin

text \<open>
  \<open>internal/slotlog\<close>: the pure decisions behind the SIM slot history. \<open>decide_slot_events\<close>
  turns the probe of one modem (its IMEI and the ICCID it reads) into the new state of its bay, the
  bay the SIM was taken from and the events to log; \<open>infer_slot\<close> guesses the slot number of an
  uncalibrated modem by a vote among the calibrated ones.
\<close>

subsection \<open>Slot events (\<open>decide.go\<close>)\<close>

record decision =
  d_bay :: modem_bay
  d_vacated :: "modem_bay option"
  d_events :: "sim_slot_event list"

definition empty_bay :: modem_bay where
  "empty_bay = \<lparr> b_imei = [], b_slot_number = None, b_current_iccid = [], b_last_seen_at = None \<rparr>"

definition slot_event ::
  "string \<Rightarrow> string \<Rightarrow> slot_event_kind \<Rightarrow> int option \<Rightarrow> int option \<Rightarrow> sim_slot_event" where
  "slot_event iccid imei ev from_slot to_slot =
     \<lparr> e_detected_at = 0, e_iccid = iccid, e_imei = imei, e_phone_number = [], e_operator = [],
       e_event = ev, e_from_slot = from_slot, e_to_slot = to_slot, e_balance_vnd = None,
       e_port_name = [] \<rparr>"

text \<open>
  The loop over \<open>bays\<close>: the last bay with this IMEI, and the last other bay that records this
  ICCID.
\<close>

definition bay_of_imei :: "modem_bay list \<Rightarrow> string \<Rightarrow> modem_bay option" where
  "bay_of_imei bays imei = find_last (\<lambda>b. b_imei b = imei) bays"

definition old_bay :: "modem_bay list \<Rightarrow> string \<Rightarrow> string \<Rightarrow> modem_bay option" where
  "old_bay bays imei iccid =
     find_last (\<lambda>b. b_imei b \<noteq> imei \<and> b_current_iccid b = iccid) bays"

definition decide_slot_events :: "modem_bay list \<Rightarrow> string \<Rightarrow> string \<Rightarrow> decision" where
  "decide_slot_events bays imei iccid =
     (if imei = [] \<or> iccid = [] then \<lparr> d_bay = empty_bay, d_vacated = None, d_events = [] \<rparr>
      else case bay_of_imei bays imei of
        None \<Rightarrow>
          \<lparr> d_bay = empty_bay\<lparr>b_imei := imei, b_current_iccid := iccid\<rparr>, d_vacated = None,
            d_events = [slot_event iccid imei SlotEventInserted None None] \<rparr>
      | Some bay \<Rightarrow>
          if b_current_iccid bay = iccid then \<lparr> d_bay = bay, d_vacated = None, d_events = [] \<rparr>
          else
            let removed =
                  (if b_current_iccid bay \<noteq> []
                   then [slot_event (b_current_iccid bay) imei SlotEventRemoved (b_slot_number bay) None]
                   else [])
            in case old_bay bays imei iccid of
                 Some old \<Rightarrow>
                   \<lparr> d_bay = bay\<lparr>b_current_iccid := iccid\<rparr>,
                     d_vacated = Some (old\<lparr>b_current_iccid := []\<rparr>),
                     d_events = removed @
                       [slot_event iccid imei SlotEventMoved (b_slot_number old) (b_slot_number bay)] \<rparr>
               | None \<Rightarrow>
                   \<lparr> d_bay = bay\<lparr>b_current_iccid := iccid\<rparr>, d_vacated = None,
                     d_events = removed @
                       [slot_event iccid imei SlotEventInserted None (b_slot_number bay)] \<rparr>)"

lemma bay_of_imei_SomeD: "bay_of_imei bays imei = Some b \<Longrightarrow> b \<in> set bays \<and> b_imei b = imei"
  unfolding bay_of_imei_def by (drule find_last_SomeD) simp

lemma old_bay_SomeD:
  "old_bay bays imei iccid = Some b \<Longrightarrow>
     b \<in> set bays \<and> b_imei b \<noteq> imei \<and> b_current_iccid b = iccid"
  unfolding old_bay_def by (drule find_last_SomeD) simp

lemma slot_event_fields [simp]:
  "e_iccid (slot_event c i k f t) = c" "e_imei (slot_event c i k f t) = i"
  "e_event (slot_event c i k f t) = k" "e_from_slot (slot_event c i k f t) = f"
  "e_to_slot (slot_event c i k f t) = t" "e_balance_vnd (slot_event c i k f t) = None"
  by (simp_all add: slot_event_def)

text \<open>After a decision on a non-empty probe, the bay of this modem holds the probed SIM.\<close>

lemma decide_bay:
  assumes "imei \<noteq> []" "iccid \<noteq> []"
  shows "b_imei (d_bay (decide_slot_events bays imei iccid)) = imei"
    "b_current_iccid (d_bay (decide_slot_events bays imei iccid)) = iccid"
  using assms
  by (auto simp: decide_slot_events_def Let_def dest: bay_of_imei_SomeD split: option.split)

text \<open>The slot of a known bay is never changed by a decision.\<close>

lemma decide_bay_slot:
  assumes "imei \<noteq> []" "iccid \<noteq> []" "bay_of_imei bays imei = Some b"
  shows "b_slot_number (d_bay (decide_slot_events bays imei iccid)) = b_slot_number b"
  using assms by (auto simp: decide_slot_events_def Let_def split: option.split)

lemma decide_events_cases:
  "\<forall>e \<in> set (d_events (decide_slot_events bays imei iccid)).
     (e_event e = SlotEventRemoved \<and> e_iccid e \<noteq> iccid \<and> e_to_slot e = None) \<or>
     (e_event e \<noteq> SlotEventRemoved \<and> e_iccid e = iccid)"
  by (simp add: decide_slot_events_def Let_def split: option.split)

subsection \<open>Slot inference (\<open>infer.go\<close>)\<close>

text \<open>\<open>comNumber\<close>: the number of a Windows port name, with or without the device prefix.\<close>

definition device_prefix :: string where
  "device_prefix = [CHR 0x5C, CHR ''.'', CHR 0x5C]"

definition com_number :: "string \<Rightarrow> int option" where
  "com_number port =
     (let p = trim_prefix (to_upper (trim_space port)) device_prefix
      in if has_prefix p ''COM'' then go_atoi (drop 3 p) else None)"

text \<open>
  The Go maps \<open>known\<close> and \<open>votes\<close> are association lists without repeated keys, listed in
  the order in which Go happens to iterate over them. The offset \<open>slot + com\<close> is computed
  modulo \<open>2 ^ 64\<close>.
\<close>

definition offset_of :: "int \<times> string \<Rightarrow> int option" where
  "offset_of sp = map_option (\<lambda>c. wrap64 (fst sp + c)) (com_number (snd sp))"

definition vote_list :: "(int \<times> string) list \<Rightarrow> int list" where
  "vote_list known = List.map_filter offset_of known"

text \<open>\<open>votes[slot+c]++\<close>\<close>

fun add_vote :: "int \<Rightarrow> (int \<times> nat) list \<Rightarrow> (int \<times> nat) list" where
  "add_vote off [] = [(off, 1)]"
| "add_vote off ((o', n) # vs) = (if o' = off then (o', Suc n) # vs else (o', n) # add_vote off vs)"

definition count_votes :: "int list \<Rightarrow> (int \<times> nat) list" where
  "count_votes offs = foldl (\<lambda>vs off. add_vote off vs) [] offs"

text \<open>The loop that keeps the offset with most votes, the smaller one on a tie.\<close>

fun best_vote :: "int \<times> nat \<Rightarrow> (int \<times> nat) list \<Rightarrow> int \<times> nat" where
  "best_vote best [] = best"
| "best_vote (bo, bn) ((off, n) # vs) =
     best_vote (if n > bn \<or> (n = bn \<and> off < bo) then (off, n) else (bo, bn)) vs"

definition infer_slot :: "(int \<times> string) list \<Rightarrow> string \<Rightarrow> int option" where
  "infer_slot known port =
     (case com_number port of
        None \<Rightarrow> None
      | Some com \<Rightarrow>
          if length known < 2 then None
          else
            let (best_off, best) = best_vote (0, 0) (count_votes (vote_list known))
            in if best < 2 then None
               else
                 let slot = wrap64 (best_off - com)
                 in if slot < 1 \<or> 32 < slot then None
                    else if List.member (map fst known) slot then None
                    else Some slot)"

subsubsection \<open>What the vote computes\<close>

lemma add_vote_map_of:
  "map_of (add_vote off vs) =
     (map_of vs)(off \<mapsto> (case map_of vs off of None \<Rightarrow> 1 | Some n \<Rightarrow> Suc n))"
  by (induction off vs rule: add_vote.induct) (auto simp: fun_eq_iff)

lemma add_vote_keys: "set (map fst (add_vote off vs)) = insert off (set (map fst vs))"
  by (induction off vs rule: add_vote.induct) auto

lemma add_vote_distinct: "distinct (map fst vs) \<Longrightarrow> distinct (map fst (add_vote off vs))"
proof (induction off vs rule: add_vote.induct)
  case (2 off o' n vs)
  then show ?case using add_vote_keys [of off vs] by (auto simp del: set_map)
qed simp

lemma count_votes_snoc: "count_votes (offs @ [off]) = add_vote off (count_votes offs)"
  by (simp add: count_votes_def)

lemma count_votes_props:
  "distinct (map fst (count_votes offs)) \<and>
   map_of (count_votes offs) =
     (\<lambda>off. if off \<in> set offs then Some (count_list offs off) else None)"
proof (induction offs rule: rev_induct)
  case Nil
  then show ?case by (simp add: count_votes_def fun_eq_iff)
next
  case (snoc off offs)
  then show ?case
    by (auto simp: count_votes_snoc add_vote_distinct add_vote_map_of fun_eq_iff count_list_0_iff)
qed

lemma count_votes_mem:
  "(off, n) \<in> set (count_votes offs) \<longleftrightarrow> off \<in> set offs \<and> n = count_list offs off"
proof -
  have d: "distinct (map fst (count_votes offs))"
    and m: "map_of (count_votes offs) off =
      (if off \<in> set offs then Some (count_list offs off) else None)"
    using count_votes_props [of offs] by simp_all
  show ?thesis
    using map_of_eq_Some_iff [OF d, of off n] m by (auto split: if_splits)
qed

text \<open>\<open>better\<close> is the order in which the loop prefers one vote count to another.\<close>

definition better :: "int \<times> nat \<Rightarrow> int \<times> nat \<Rightarrow> bool" where
  "better a b \<longleftrightarrow> snd a > snd b \<or> (snd a = snd b \<and> fst a \<le> fst b)"

lemma better_trans: "better a b \<Longrightarrow> better b c \<Longrightarrow> better a c"
  by (auto simp: better_def)

lemma better_antisym: "better a b \<Longrightarrow> better b a \<Longrightarrow> a = b"
  by (cases a; cases b) (auto simp: better_def)

lemma best_vote_props:
  "best_vote b vs \<in> insert b (set vs) \<and> (\<forall>v \<in> insert b (set vs). better (best_vote b vs) v)"
proof (induction b vs rule: best_vote.induct)
  case (1 b)
  then show ?case by (simp add: better_def)
next
  case (2 bo bn off n vs)
  let ?b = "if n > bn \<or> (n = bn \<and> off < bo) then (off, n) else (bo, bn)"
  have "better ?b (bo, bn)" "better ?b (off, n)"
    by (auto simp: better_def)
  moreover have "better (best_vote ?b vs) ?b"
    using 2 by blast
  ultimately have "better (best_vote ?b vs) (bo, bn)" "better (best_vote ?b vs) (off, n)"
    by (blast intro: better_trans)+
  with 2 show ?case by (auto split: if_splits)
qed

text \<open>
  The best vote is the greatest element for \<open>better\<close>, so it does not depend on the order in
  which Go iterates over the map.
\<close>

lemma best_vote_set_cong:
  assumes "set vs = set ws"
  shows "best_vote b vs = best_vote b ws"
  using best_vote_props [of b vs] best_vote_props [of b ws] assms
  by (blast intro: better_antisym)

lemma count_votes_set_cong:
  assumes "mset offs = mset offs'"
  shows "set (count_votes offs) = set (count_votes offs')"
proof -
  have "set offs = set offs'"
    using assms by (rule mset_eq_setD)
  moreover have "count_list offs = count_list offs'"
    using assms by (metis count_mset ext)
  ultimately show ?thesis by (auto simp: count_votes_mem)
qed

lemma vote_list_perm: "mset known = mset known' \<Longrightarrow> mset (vote_list known) = mset (vote_list known')"
  by (simp add: vote_list_def List.map_filter_def)

end
