(* ===== verification/Bay_Repository.thy ===== *)
theory Bay_Repository
  imports Slot_Log
begin

text \<open>
  \<open>internal/repository/bay_repo.go\<close>: the bays of the tray and the history of the SIMs in them.
  Each operation is a transaction on the tables \<open>modem_bays\<close>, \<open>sim_slot_events\<close> and
  \<open>modems\<close> (whose column \<open>slot_number\<close> caches the slot of the SIM's bay). The database enforces
  that \<open>imei\<close> is a primary key and \<open>slot_number\<close> unique among the bays that have one. The
  global mutex makes the operations atomic.
\<close>

subsection \<open>Tables\<close>

definition find_modem :: "database \<Rightarrow> string \<Rightarrow> modem option" where
  "find_modem db iccid = find (\<lambda>m. m_iccid m = iccid) (t_modems db)"

definition find_bay :: "database \<Rightarrow> string \<Rightarrow> modem_bay option" where
  "find_bay db imei = find (\<lambda>b. b_imei b = imei) (t_bays db)"

definition slot_taken :: "modem_bay list \<Rightarrow> int option \<Rightarrow> bool" where
  "slot_taken bays slot \<longleftrightarrow> slot \<noteq> None \<and> List.member (map b_slot_number bays) slot"

definition unique_violation :: string where
  "unique_violation = ''UNIQUE constraint failed: modem_bays.slot_number''"

text \<open>\<open>INSERT\<close>, subject to the two uniqueness constraints of the table.\<close>

definition insert_bay :: "modem_bay \<Rightarrow> modem_bay list \<Rightarrow> modem_bay list result" where
  "insert_bay bay bays =
     (if List.member (map b_imei bays) (b_imei bay) \<or> slot_taken bays (b_slot_number bay)
      then Inl unique_violation else Inr (bays @ [bay]))"

text \<open>\<open>INSERT ... ON CONFLICT (imei) DO UPDATE SET current_iccid, last_seen_at\<close>\<close>

definition upsert_bay :: "modem_bay \<Rightarrow> modem_bay list \<Rightarrow> modem_bay list result" where
  "upsert_bay bay bays =
     (if List.member (map b_imei bays) (b_imei bay)
      then Inr (update_where (\<lambda>b. b_imei b = b_imei bay)
             (\<lambda>b. b\<lparr>b_current_iccid := b_current_iccid bay, b_last_seen_at := b_last_seen_at bay\<rparr>) bays)
      else insert_bay bay bays)"

text \<open>\<open>syncSlotCache\<close>\<close>

definition sync_slot_cache :: "faults \<Rightarrow> string \<Rightarrow> int option \<Rightarrow> database \<Rightarrow> database result" where
  "sync_slot_cache faults iccid slot db =
     and_then
       (if slot \<noteq> None
        then db_call faults ''sync.clear''
          (update_where (\<lambda>m. m_slot_number m = slot \<and> m_iccid m \<noteq> iccid)
             (\<lambda>m. m\<lparr>m_slot_number := None\<rparr>) (t_modems db))
        else Inr (t_modems db))
       (\<lambda>ms. db_call faults ''sync.set''
          (db\<lparr>t_modems := update_where (\<lambda>m. m_iccid m = iccid) (\<lambda>m. m\<lparr>m_slot_number := slot\<rparr>) ms\<rparr>))"

text \<open>\<open>knownSlotPorts\<close>: the port in the newest event of each modem whose bay has a slot
  (an error of the query is ignored and leaves no events).\<close>

definition port_by_imei :: "faults \<Rightarrow> database \<Rightarrow> string \<Rightarrow> string" where
  "port_by_imei faults db imei =
     (case find_last (\<lambda>e. e_imei e = imei) (db_or faults ''observe.ports'' [] (t_slot_events db)) of
        None \<Rightarrow> [] | Some e \<Rightarrow> e_port_name e)"

definition known_slot_ports :: "faults \<Rightarrow> database \<Rightarrow> (int \<times> string) list" where
  "known_slot_ports faults db =
     List.map_filter (\<lambda>b. case b_slot_number b of
         None \<Rightarrow> None
       | Some n \<Rightarrow> (let p = port_by_imei faults db (b_imei b) in if p \<noteq> [] then Some (n, p) else None))
       (t_bays db)"

subsection \<open>Observe\<close>

record observation =
  o_imei :: string
  o_iccid :: string
  o_operator :: string
  o_port_name :: string
  o_at :: gtime

text \<open>The inferred slot goes into the bay to be written and into the first event.\<close>

definition infer_for :: "faults \<Rightarrow> database \<Rightarrow> observation \<Rightarrow> decision \<Rightarrow> decision" where
  "infer_for faults db ob d =
     (case d_events d of
        [] \<Rightarrow> d
      | e # es \<Rightarrow>
          if b_slot_number (d_bay d) = None \<and> e_event e = SlotEventInserted
          then let slot = infer_slot (known_slot_ports faults db) (o_port_name ob)
               in d\<lparr>d_bay := (d_bay d)\<lparr>b_slot_number := slot\<rparr>,
                    d_events := e\<lparr>e_to_slot := slot\<rparr> # es\<rparr>
          else d)"

definition complete_event :: "faults \<Rightarrow> database \<Rightarrow> observation \<Rightarrow> sim_slot_event \<Rightarrow> sim_slot_event" where
  "complete_event faults db ob e =
     e\<lparr>e_detected_at := o_at ob, e_port_name := o_port_name ob,
       e_phone_number := db_or faults ''observe.phones'' []
         (case find_modem db (e_iccid e) of None \<Rightarrow> [] | Some m \<Rightarrow> m_phone_number m),
       e_operator := (if e_iccid e = o_iccid ob then o_operator ob else e_operator e)\<rparr>"

definition clear_bay :: "string \<Rightarrow> modem_bay list \<Rightarrow> modem_bay list" where
  "clear_bay imei = update_where (\<lambda>b. b_imei b = imei) (\<lambda>b. b\<lparr>b_current_iccid := []\<rparr>)"

text \<open>The decision that a probe leads to, from the bays read at the start.\<close>

definition observe_decision :: "faults \<Rightarrow> database \<Rightarrow> observation \<Rightarrow> decision" where
  "observe_decision faults db ob =
     (let d = decide_slot_events (t_bays db) (o_imei ob) (o_iccid ob)
      in infer_for faults db ob (d\<lparr>d_bay := (d_bay d)\<lparr>b_last_seen_at := Some (o_at ob)\<rparr>\<rparr>))"

text \<open>The last part of the transaction: the events are logged and the slot caches follow.\<close>

definition log_events ::
  "faults \<Rightarrow> observation \<Rightarrow> int option \<Rightarrow> sim_slot_event list \<Rightarrow> database
     \<Rightarrow> (database \<times> sim_slot_event list) result" where
  "log_events faults ob slot evs db =
     (if evs = [] then Inr (db, [])
      else
        and_then (db_call faults ''observe.events'' (db\<lparr>t_slot_events := t_slot_events db @ evs\<rparr>)) (\<lambda>db1.
        and_then (sync_slot_cache faults (o_iccid ob) slot db1) (\<lambda>db2.
        and_then (fold_result (\<lambda>e. sync_slot_cache faults (e_iccid e) None)
                    (filter (\<lambda>e. e_event e = SlotEventRemoved) evs) db2) (\<lambda>db3.
        Inr (db3, evs)))))"

definition observe ::
  "faults \<Rightarrow> observation \<Rightarrow> database \<Rightarrow> (database \<times> sim_slot_event list) result" where
  "observe faults ob db =
     (if o_imei ob = [] \<or> o_iccid ob = [] then Inr (db, [])
      else
        and_then (db_call faults ''observe.find'' (observe_decision faults db ob)) (\<lambda>d.
        and_then (db_call faults ''observe.upsert'' ()) (\<lambda>_.
        and_then (upsert_bay (d_bay d) (t_bays db)) (\<lambda>bays1.
        and_then (case d_vacated d of
                    None \<Rightarrow> Inr bays1
                  | Some v \<Rightarrow> db_call faults ''observe.vacate'' (clear_bay (b_imei v) bays1)) (\<lambda>bays2.
        log_events faults ob (b_slot_number (d_bay d))
          (map (complete_event faults db ob) (d_events d)) (db\<lparr>t_bays := bays2\<rparr>))))))"

subsection \<open>MarkEmpty, FillBalance, AssignSlot\<close>

definition mark_empty :: "faults \<Rightarrow> string \<Rightarrow> string \<Rightarrow> gtime \<Rightarrow> database \<Rightarrow> database result" where
  "mark_empty faults imei port now db =
     and_then (db_call faults ''mark_empty.first'' (find_bay db imei)) (\<lambda>r.
     case r of
       None \<Rightarrow> Inr db
     | Some bay \<Rightarrow>
         if b_current_iccid bay = [] then Inr db
         else
           let ev = (slot_event (b_current_iccid bay) imei SlotEventRemoved (b_slot_number bay) None)
                      \<lparr>e_detected_at := now, e_port_name := port\<rparr>
           in and_then (db_call faults ''mark_empty.event''
                          (db\<lparr>t_slot_events := t_slot_events db @ [ev]\<rparr>)) (\<lambda>db1.
              and_then (sync_slot_cache faults (b_current_iccid bay) None db1) (\<lambda>db2.
              db_call faults ''mark_empty.update''
                (db2\<lparr>t_bays := update_where (\<lambda>b. b_imei b = imei)
                       (\<lambda>b. b\<lparr>b_current_iccid := [], b_last_seen_at := Some now\<rparr>) (t_bays db2)\<rparr>))))"

text \<open>
  \<open>FillBalance\<close>: the newest event of the SIM, at most five minutes old and still without a
  balance. The event is addressed by its position in the table (its id).
\<close>

definition fill_candidate :: "string \<Rightarrow> gtime \<Rightarrow> sim_slot_event \<Rightarrow> bool" where
  "fill_candidate iccid now e \<longleftrightarrow>
     e_iccid e = iccid \<and> e_balance_vnd e = None \<and> time_add now (- (5 * minute_ns)) \<le> e_detected_at e"

definition fill_balance ::
  "faults \<Rightarrow> string \<Rightarrow> int \<Rightarrow> gtime \<Rightarrow> database \<Rightarrow> database result" where
  "fill_balance faults iccid balance now db =
     and_then (db_call faults ''fill_balance.first''
        (newest_first (\<lambda>i. e_detected_at (t_slot_events db ! i))
           (filter (\<lambda>i. fill_candidate iccid now (t_slot_events db ! i))
              [0..<length (t_slot_events db)]))) (\<lambda>rows.
     case rows of
       [] \<Rightarrow> Inr db
     | i # _ \<Rightarrow>
         db_call faults ''fill_balance.update''
           (db\<lparr>t_slot_events := (t_slot_events db)
                 [i := (t_slot_events db ! i)\<lparr>e_balance_vnd := Some balance\<rparr>]\<rparr>))"

definition err_slot_taken :: string where
  "err_slot_taken = ''slot already assigned to another modem''"

definition err_record_not_found :: string where
  "err_record_not_found = ''record not found''"

definition assign_slot :: "faults \<Rightarrow> string \<Rightarrow> int option \<Rightarrow> database \<Rightarrow> database result" where
  "assign_slot faults imei slot db =
     (if slot \<noteq> None \<and>
         db_or faults ''assign.count'' 0
           (count_rows (\<lambda>b. b_slot_number b = slot \<and> b_imei b \<noteq> imei) (t_bays db)) > 0
      then Inl err_slot_taken
      else
        and_then (db_call faults ''assign.first'' (find_bay db imei)) (\<lambda>r.
        case r of
          None \<Rightarrow> Inl err_record_not_found
        | Some bay \<Rightarrow>
            and_then (if slot_taken (filter (\<lambda>b. b_imei b \<noteq> imei) (t_bays db)) slot
                      then Inl unique_violation else db_call faults ''assign.update'' ()) (\<lambda>_.
            let db1 = (db\<lparr>t_bays := update_where (\<lambda>b. b_imei b = imei) (\<lambda>b. b\<lparr>b_slot_number := slot\<rparr>) (t_bays db)\<rparr>)
            in if b_current_iccid bay \<noteq> [] then sync_slot_cache faults (b_current_iccid bay) slot db1
               else Inr db1)))"

subsection \<open>Listing\<close>

text \<open>\<open>ORDER BY slot_number IS NULL, slot_number\<close>\<close>

definition list_bays :: "database \<Rightarrow> modem_bay list" where
  "list_bays db =
     sort_key (\<lambda>b. the (b_slot_number b)) (filter (\<lambda>b. b_slot_number b \<noteq> None) (t_bays db))
       @ filter (\<lambda>b. b_slot_number b = None) (t_bays db)"

record event_filter =
  f_iccid :: string
  f_slot :: "int option"
  f_from :: "gtime option"
  f_to :: "gtime option"
  f_page :: int
  f_page_size :: int

definition event_matches :: "event_filter \<Rightarrow> sim_slot_event \<Rightarrow> bool" where
  "event_matches f e \<longleftrightarrow>
     (f_iccid f = [] \<or> e_iccid e = f_iccid f) \<and>
     (f_slot f = None \<or> e_from_slot e = f_slot f \<or> e_to_slot e = f_slot f) \<and>
     (case f_from f of None \<Rightarrow> True | Some t \<Rightarrow> t \<le> e_detected_at e) \<and>
     (case f_to f of None \<Rightarrow> True | Some t \<Rightarrow> e_detected_at e < t)"

text \<open>
  \<open>Offset((page - 1) * size).Limit(size)\<close>: the product is one of 64-bit integers, and an offset that is not
  positive is left out of the query.
\<close>

definition page_of :: "int \<Rightarrow> int \<Rightarrow> 'a list \<Rightarrow> 'a list" where
  "page_of page per_page rows = take (nat per_page) (drop (nat (wrap64 ((page - 1) * per_page))) rows)"

definition list_events ::
  "faults \<Rightarrow> event_filter \<Rightarrow> database \<Rightarrow> (sim_slot_event list \<times> nat) result" where
  "list_events faults f db =
     and_then (db_call faults ''list_events.count''
        (count_rows (event_matches f) (t_slot_events db))) (\<lambda>total.
     let per_page = (if f_page_size f \<le> 0 then 50 else f_page_size f);
         page = (if f_page f \<le> 0 then 1 else f_page f)
     in db_call faults ''list_events.find''
          (page_of page per_page (newest_first e_detected_at (filter (event_matches f) (t_slot_events db))),
           total))"

subsection \<open>Migration\<close>

text \<open>\<open>imeiPattern\<close>: 14 to 16 digits.\<close>

definition imei_pattern :: "string \<Rightarrow> bool" where
  "imei_pattern s \<longleftrightarrow> 14 \<le> length s \<and> length s \<le> 16 \<and> list_all is_digit s"

text \<open>
  The loop of \<open>MigrateFromModems\<close> (its \<open>Count\<close> ignores errors), with the IMEIs already seen. It
  is no transaction: when a row cannot be created, the ones before it stay.
\<close>

fun migrate_loop ::
  "faults \<Rightarrow> modem list \<Rightarrow> string list \<Rightarrow> database \<Rightarrow> database \<times> unit result" where
  "migrate_loop faults [] seen db = (db, Inr ())"
| "migrate_loop faults (m # ms) seen db =
     (if \<not> imei_pattern (m_imei m) then migrate_loop faults ms seen db
      else if m_imei m \<in> set seen then migrate_loop faults ms seen db
      else if db_or faults ''migrate.count'' 0
          (count_rows (\<lambda>b. b_imei b = m_imei m \<or> b_slot_number b = m_slot_number m) (t_bays db)) > 0
      then migrate_loop faults ms (m_imei m # seen) db
      else
        case and_then (db_call faults ''migrate.create'' ()) (\<lambda>_.
             insert_bay \<lparr> b_imei = m_imei m, b_slot_number = m_slot_number m,
                b_current_iccid = m_iccid m, b_last_seen_at = None \<rparr> (t_bays db)) of
          Inl e \<Rightarrow> (db, Inl e)
        | Inr bays \<Rightarrow> migrate_loop faults ms (m_imei m # seen) (db\<lparr>t_bays := bays\<rparr>))"

definition migrate_from_modems :: "faults \<Rightarrow> database \<Rightarrow> database \<times> unit result" where
  "migrate_from_modems faults db =
     (case db_call faults ''migrate.find''
        (sort_key (\<lambda>m. the (m_slot_number m))
           (filter (\<lambda>m. m_slot_number m \<noteq> None \<and> m_imei m \<noteq> []) (t_modems db))) of
        Inl e \<Rightarrow> (db, Inl e)
      | Inr ms \<Rightarrow> migrate_loop faults ms [] db)"

end
