(* ===== verification/Bay_History.thy ===== *)
theory Bay_History
  imports Bay_Repository
begin

text \<open>
  What the bay repository keeps true. \<open>bays_wf\<close> is the table's own well-formedness (a
  primary key and a unique slot); every operation preserves it. \<open>sims_unique\<close> says that no
  SIM is recorded in two bays; probing a known modem preserves it. The lemmas about
  \<open>observe\<close> describe its result on every branch.
\<close>

definition slots_of :: "modem_bay list \<Rightarrow> int list" where
  "slots_of bays = List.map_filter b_slot_number bays"

definition bays_wf :: "modem_bay list \<Rightarrow> bool" where
  "bays_wf bays \<longleftrightarrow> distinct (map b_imei bays) \<and> distinct (slots_of bays)"

definition sims_of :: "modem_bay list \<Rightarrow> string list" where
  "sims_of bays = filter (\<lambda>c. c \<noteq> []) (map b_current_iccid bays)"

definition sims_unique :: "modem_bay list \<Rightarrow> bool" where
  "sims_unique bays \<longleftrightarrow> distinct (sims_of bays)"

lemma slots_of_simps [simp]:
  "slots_of [] = []"
  "slots_of (b # bs) = (case b_slot_number b of None \<Rightarrow> slots_of bs | Some n \<Rightarrow> n # slots_of bs)"
  "slots_of (xs @ ys) = slots_of xs @ slots_of ys"
  by (simp_all add: slots_of_def List.map_filter_def split: option.split)

lemma set_slots_of: "n \<in> set (slots_of bays) \<longleftrightarrow> (\<exists>b \<in> set bays. b_slot_number b = Some n)"
  by (induction bays) (auto split: option.splits)

lemma sims_of_simps [simp]:
  "sims_of [] = []"
  "sims_of (b # bs) = (if b_current_iccid b = [] then sims_of bs else b_current_iccid b # sims_of bs)"
  "sims_of (xs @ ys) = sims_of xs @ sims_of ys"
  by (simp_all add: sims_of_def)

lemma set_sims_of: "c \<in> set (sims_of bays) \<longleftrightarrow> c \<noteq> [] \<and> (\<exists>b \<in> set bays. b_current_iccid b = c)"
  by (induction bays) auto

subsection \<open>Updates of one bay\<close>

lemma update_where_slots:
  "(\<And>b. b_slot_number (f b) = b_slot_number b) \<Longrightarrow> slots_of (update_where P f bays) = slots_of bays"
  by (induction bays) (auto split: option.split)

lemma update_where_wf:
  "(\<And>b. b_slot_number (f b) = b_slot_number b) \<Longrightarrow> (\<And>b. b_imei (f b) = b_imei b) \<Longrightarrow>
     bays_wf (update_where P f bays) = bays_wf bays"
  by (simp add: bays_wf_def update_where_slots map_update_where_key)

lemma slot_taken_iff: "slot_taken bays slot \<longleftrightarrow> (\<exists>n. slot = Some n \<and> n \<in> set (slots_of bays))"
  by (cases slot) (force simp: slot_taken_def set_slots_of)+

lemma insert_bay_wf: "insert_bay bay bays = Inr bays' \<Longrightarrow> bays_wf bays \<Longrightarrow> bays_wf bays'"
  by (auto simp: insert_bay_def bays_wf_def slot_taken_iff split: if_splits option.splits)

lemma upsert_bay_wf: "upsert_bay bay bays = Inr bays' \<Longrightarrow> bays_wf bays \<Longrightarrow> bays_wf bays'"
  by (auto simp: upsert_bay_def update_where_wf insert_bay_wf split: if_splits)

lemma clear_bay_wf [simp]: "bays_wf (clear_bay imei bays) = bays_wf bays"
  by (simp add: clear_bay_def update_where_wf)

lemma assign_wf:
  assumes "bays_wf bays"
    and "\<not> slot_taken (filter (\<lambda>b. b_imei b \<noteq> imei) bays) slot"
  shows "bays_wf (update_where (\<lambda>b. b_imei b = imei) (\<lambda>b. b\<lparr>b_slot_number := slot\<rparr>) bays)"
proof -
  let ?u = "update_where (\<lambda>b. b_imei b = imei) (\<lambda>b. b\<lparr>b_slot_number := slot\<rparr>)"
  have "distinct (slots_of (?u bays))"
    if "distinct (map b_imei bays)" "distinct (slots_of bays)"
      "\<not> slot_taken (filter (\<lambda>b. b_imei b \<noteq> imei) bays) slot" for bays
    using that
  proof (induction bays)
    case Nil
    then show ?case by simp
  next
    case (Cons b bs)
    show ?case
    proof (cases "b_imei b = imei")
      case True
      with Cons.prems(1) have "\<forall>x \<in> set bs. b_imei x \<noteq> imei"
        by (simp add: image_iff) metis
      then have "?u bs = bs" "filter (\<lambda>b. b_imei b \<noteq> imei) bs = bs"
        by (simp_all add: update_where_def map_idI filter_id_conv)
      with Cons.prems(2,3) True show ?thesis
        by (cases "b_slot_number b"; cases slot) (simp_all add: slot_taken_iff del: filter_id_conv)
    next
      case False
      with Cons have "distinct (slots_of (?u bs))"
        by (auto simp: slot_taken_iff split: option.splits)
      moreover have "n \<notin> set (slots_of (?u bs))" if "b_slot_number b = Some n" for n
      proof
        assume "n \<in> set (slots_of (?u bs))"
        then obtain x where x: "x \<in> set bs" "(if b_imei x = imei then slot else b_slot_number x) = Some n"
          by (auto simp: set_slots_of set_update_where split: if_splits)
        with Cons.prems(2,3) False that show False
          by (auto simp: slot_taken_iff set_slots_of split: if_splits)
      qed
      ultimately show ?thesis
        using False by (auto split: option.split)
    qed
  qed
  with assms show ?thesis
    by (simp add: bays_wf_def map_update_where_key)
qed

lemma sync_slot_cache_tables:
  assumes "sync_slot_cache faults iccid slot db = Inr db'"
  shows "t_bays db' = t_bays db \<and> t_slot_events db' = t_slot_events db"
  using assms
  by (auto simp: sync_slot_cache_def and_then_Inr_iff db_call_Inr_iff split: if_splits)

lemma sync_loop_tables:
  assumes "fold_result (\<lambda>e. sync_slot_cache faults (e_iccid e) None) evs db = Inr db'"
  shows "t_bays db' = t_bays db \<and> t_slot_events db' = t_slot_events db"
  by (rule fold_result_inv [OF assms]) (auto dest: sync_slot_cache_tables)

subsection \<open>The result of observe\<close>

lemma infer_for_props [simp]:
  "b_imei (d_bay (infer_for faults db ob d)) = b_imei (d_bay d)"
  "b_current_iccid (d_bay (infer_for faults db ob d)) = b_current_iccid (d_bay d)"
  "b_last_seen_at (d_bay (infer_for faults db ob d)) = b_last_seen_at (d_bay d)"
  "d_vacated (infer_for faults db ob d) = d_vacated d"
  "map e_iccid (d_events (infer_for faults db ob d)) = map e_iccid (d_events d)"
  "map e_event (d_events (infer_for faults db ob d)) = map e_event (d_events d)"
  "(d_events (infer_for faults db ob d) = []) = (d_events d = [])"
  by (auto simp: infer_for_def Let_def split: list.split)

text \<open>
  The successful runs of \<open>observe\<close> on a non-empty probe: the bays after the upsert and the
  clearing of the vacated bay, and the events appended to the log.
\<close>

definition observed_bays :: "faults \<Rightarrow> database \<Rightarrow> observation \<Rightarrow> modem_bay list result" where
  "observed_bays faults db ob =
     (let d = observe_decision faults db ob
      in and_then (upsert_bay (d_bay d) (t_bays db)) (\<lambda>bays1.
         Inr (case d_vacated d of None \<Rightarrow> bays1 | Some v \<Rightarrow> clear_bay (b_imei v) bays1)))"

lemma log_events_tables:
  assumes "log_events faults ob slot evs db = Inr (db', evs')"
  shows "t_bays db' = t_bays db \<and> evs' = evs \<and> t_slot_events db' = t_slot_events db @ evs"
  using assms
  by (auto simp: log_events_def and_then_Inr_iff db_call_Inr_iff split: if_splits
      dest!: sync_loop_tables sync_slot_cache_tables)

lemma sync_slot_cache_ok [simp]:
  "sync_slot_cache no_faults c slot db =
     Inr (db\<lparr>t_modems := update_where (\<lambda>m. m_iccid m = c) (\<lambda>m. m\<lparr>m_slot_number := slot\<rparr>)
       (if slot \<noteq> None
        then update_where (\<lambda>m. m_slot_number m = slot \<and> m_iccid m \<noteq> c) (\<lambda>m. m\<lparr>m_slot_number := None\<rparr>) (t_modems db)
        else t_modems db)\<rparr>)"
  by (simp add: sync_slot_cache_def)

lemma log_events_ok: "\<exists>db'. log_events no_faults ob slot evs db = Inr (db', evs)"
proof -
  have "\<exists>db'. fold_result (\<lambda>e. sync_slot_cache no_faults (e_iccid e) None) es db = Inr db'"
    for es :: "sim_slot_event list" and db
    by (induction es arbitrary: db) simp_all
  then show ?thesis
    by (auto simp: log_events_def and_then_Inr_iff)
qed

lemma observe_tables:
  assumes "observe faults ob db = Inr (db', evs)" "o_imei ob \<noteq> []" "o_iccid ob \<noteq> []"
  shows "observed_bays faults db ob = Inr (t_bays db')"
    and "evs = map (complete_event faults db ob) (d_events (observe_decision faults db ob))"
    and "t_slot_events db' = t_slot_events db @ evs"
proof -
  obtain bays1 bays2 where u: "upsert_bay (d_bay (observe_decision faults db ob)) (t_bays db) = Inr bays1"
    and v: "(case d_vacated (observe_decision faults db ob) of None \<Rightarrow> Inr bays1
             | Some v \<Rightarrow> db_call faults ''observe.vacate'' (clear_bay (b_imei v) bays1)) = Inr bays2"
    and r: "log_events faults ob (b_slot_number (d_bay (observe_decision faults db ob)))
              (map (complete_event faults db ob) (d_events (observe_decision faults db ob)))
              (db\<lparr>t_bays := bays2\<rparr>) = Inr (db', evs)"
    using assms unfolding observe_def by (auto simp: and_then_Inr_iff db_call_Inr_iff)
  have "bays2 = (case d_vacated (observe_decision faults db ob) of
      None \<Rightarrow> bays1 | Some v \<Rightarrow> clear_bay (b_imei v) bays1)"
    using v by (auto simp: db_call_Inr_iff split: option.splits)
  with u log_events_tables [OF r] show "observed_bays faults db ob = Inr (t_bays db')"
    "evs = map (complete_event faults db ob) (d_events (observe_decision faults db ob))"
    "t_slot_events db' = t_slot_events db @ evs"
    by (simp_all add: observed_bays_def Let_def)
qed

subsection \<open>The tray: which SIM sits in which modem\<close>

text \<open>
  The abstract state of the history: the SIM (possibly none) of every known modem. An event of the
  log changes it in the obvious way; \<open>observe\<close> and \<open>mark_empty\<close> implement the replay of
  the events they log.
\<close>

definition tray_of :: "modem_bay list \<Rightarrow> string \<Rightarrow> string option" where
  "tray_of bays imei = map_option b_current_iccid (find (\<lambda>b. b_imei b = imei) bays)"

definition apply_event :: "sim_slot_event \<Rightarrow> (string \<Rightarrow> string option) \<Rightarrow> (string \<Rightarrow> string option)" where
  "apply_event e t =
     (case e_event e of
        SlotEventRemoved \<Rightarrow> t(e_imei e \<mapsto> [])
      | SlotEventInserted \<Rightarrow> t(e_imei e \<mapsto> e_iccid e)
      | SlotEventMoved \<Rightarrow>
          (\<lambda>i. if t i = Some (e_iccid e) then Some [] else t i)(e_imei e \<mapsto> e_iccid e))"

lemma tray_of_simps [simp]:
  "tray_of [] i = None"
  "tray_of (b # bs) i = (if b_imei b = i then Some (b_current_iccid b) else tray_of bs i)"
  by (simp_all add: tray_of_def)

lemma tray_of_append:
  "tray_of (xs @ [b]) = (\<lambda>i. case tray_of xs i of None \<Rightarrow> if b_imei b = i then Some (b_current_iccid b) else None
     | Some c \<Rightarrow> Some c)"
  by (induction xs) (auto simp: fun_eq_iff)

lemma tray_None_iff: "tray_of bays i = None \<longleftrightarrow> i \<notin> b_imei ` set bays"
  by (induction bays) auto

lemma tray_of_update:
  assumes "\<And>b. b_imei (f b) = b_imei b" "\<And>b. b_current_iccid (f b) = c"
  shows "tray_of (update_where (\<lambda>b. b_imei b = i) f bays) =
           (if i \<in> b_imei ` set bays then (tray_of bays)(i \<mapsto> c) else tray_of bays)"
  by (induction bays) (auto simp: assms fun_eq_iff)

lemma tray_mem: "distinct (map b_imei bays) \<Longrightarrow> b \<in> set bays \<Longrightarrow> tray_of bays (b_imei b) = Some (b_current_iccid b)"
  by (induction bays) auto

lemma tray_SomeD: "tray_of bays i = Some c \<Longrightarrow> \<exists>b \<in> set bays. b_imei b = i \<and> b_current_iccid b = c"
  by (induction bays) (auto split: if_splits)

lemma bay_of_imei_tray:
  "bay_of_imei bays i = None \<longleftrightarrow> tray_of bays i = None"
  "distinct (map b_imei bays) \<Longrightarrow> bay_of_imei bays i = Some b \<Longrightarrow> tray_of bays i = Some (b_current_iccid b)"
   apply (auto simp: bay_of_imei_def find_last_None_iff tray_None_iff)[1]
  using bay_of_imei_SomeD tray_mem by metis

lemma sims_unique_tray:
  assumes "sims_unique bays" "c \<noteq> []" "b \<in> set bays" "b' \<in> set bays"
    "b_current_iccid b = c" "b_current_iccid b' = c" "distinct (map b_imei bays)"
  shows "b_imei b = b_imei b'"
  using assms unfolding sims_unique_def
proof (induction bays)
  case (Cons x xs)
  then show ?case using set_sims_of [of c xs] by (auto split: if_splits)
qed simp

lemma upsert_tray:
  "upsert_bay b bays = Inr bays' \<Longrightarrow> tray_of bays' = (tray_of bays)(b_imei b \<mapsto> b_current_iccid b)"
proof (cases "b_imei b \<in> b_imei ` set bays")
  case True
  assume "upsert_bay b bays = Inr bays'"
  with True show ?thesis
    by (auto simp: upsert_bay_def tray_of_update [where c = "b_current_iccid b"])
next
  case False
  then have "tray_of bays (b_imei b) = None" by (simp add: tray_None_iff)
  moreover assume "upsert_bay b bays = Inr bays'"
  ultimately show ?thesis using False
    by (auto simp: upsert_bay_def insert_bay_def tray_of_append fun_eq_iff split: if_splits option.splits)
qed

lemma clear_tray:
  "tray_of (clear_bay i bays) = (if tray_of bays i = None then tray_of bays else (tray_of bays)(i \<mapsto> []))"
  by (simp add: clear_bay_def tray_of_update tray_None_iff)

lemma complete_event_simps [simp]:
  "e_iccid (complete_event faults db ob e) = e_iccid e"
  "e_imei (complete_event faults db ob e) = e_imei e"
  "e_event (complete_event faults db ob e) = e_event e"
  "e_from_slot (complete_event faults db ob e) = e_from_slot e"
  "e_to_slot (complete_event faults db ob e) = e_to_slot e"
  by (simp_all add: complete_event_def)

lemma apply_complete [simp]: "apply_event (complete_event faults db ob e) = apply_event e"
  by (cases "e_event e") (simp_all add: apply_event_def fun_eq_iff)

lemma apply_infer:
  "fold apply_event (d_events (infer_for faults db ob d)) t = fold apply_event (d_events d) t"
  by (auto simp: infer_for_def Let_def apply_event_def split: list.split)

lemma fold_apply_complete:
  "fold apply_event (map (complete_event faults db ob) evs) t = fold apply_event evs t"
  by (induction evs arbitrary: t) simp_all

text \<open>The events of a decision replay to the decided bays.\<close>

lemma decide_refines:
  assumes "i \<noteq> []" "c \<noteq> []" "distinct (map b_imei bays)" "sims_unique bays"
    and d: "d = decide_slot_events bays i c"
  shows "fold apply_event (d_events d) (tray_of bays) =
    (case d_vacated d of None \<Rightarrow> (tray_of bays)(i \<mapsto> c)
       | Some v \<Rightarrow> (tray_of bays)(i \<mapsto> c, b_imei v \<mapsto> []))"
proof (cases "bay_of_imei bays i")
  case None
  with assms show ?thesis
    by (simp add: decide_slot_events_def apply_event_def)
next
  case (Some b)
  then have b: "b \<in> set bays" "b_imei b = i" and t: "tray_of bays i = Some (b_current_iccid b)"
    using bay_of_imei_SomeD bay_of_imei_tray(2) assms(3) by blast+
  show ?thesis
  proof (cases "b_current_iccid b = c")
    case True
    with Some t assms show ?thesis
      by (simp add: decide_slot_events_def fun_upd_idem)
  next
    case False
    show ?thesis
    proof (cases "old_bay bays i c")
      case None
      with Some False assms t show ?thesis
        by (auto simp: decide_slot_events_def Let_def apply_event_def)
    next
      case old: (Some v)
      from old_bay_SomeD [OF old] have v: "v \<in> set bays" "b_imei v \<noteq> i" "b_current_iccid v = c"
        by simp_all
      have "tray_of bays j = Some c \<longleftrightarrow> j = b_imei v" for j
      proof
        assume "tray_of bays j = Some c"
        then obtain x where "x \<in> set bays" "b_imei x = j" "b_current_iccid x = c"
          using tray_SomeD by blast
        with v assms sims_unique_tray [of bays c x v] show "j = b_imei v" by simp
      qed (use v tray_mem assms(3) in blast)
      with Some old False v assms show ?thesis
        by (auto simp: decide_slot_events_def Let_def apply_event_def fun_eq_iff)
    qed
  qed
qed

lemma observed_bays_tray:
  assumes "observed_bays faults db ob = Inr bays'" "o_imei ob \<noteq> []" "o_iccid ob \<noteq> []"
    and "d = observe_decision faults db ob"
  shows "tray_of bays' = (case d_vacated d of None \<Rightarrow> (tray_of (t_bays db))(o_imei ob \<mapsto> o_iccid ob)
       | Some v \<Rightarrow> (tray_of (t_bays db))(o_imei ob \<mapsto> o_iccid ob, b_imei v \<mapsto> []))"
proof -
  have d: "b_imei (d_bay d) = o_imei ob" "b_current_iccid (d_bay d) = o_iccid ob"
    using assms(2-4) by (simp_all add: observe_decision_def Let_def decide_bay)
  have v: "tray_of (t_bays db) (b_imei v) \<noteq> None" if "d_vacated d = Some v" for v
  proof -
    from that assms(2-4) obtain w where
      "old_bay (t_bays db) (o_imei ob) (o_iccid ob) = Some w" "b_imei v = b_imei w"
      by (auto simp: observe_decision_def Let_def decide_slot_events_def split: if_splits option.splits)
    then show ?thesis by (auto simp: tray_None_iff dest: old_bay_SomeD)
  qed
  obtain bays1 where "upsert_bay (d_bay d) (t_bays db) = Inr bays1"
    "bays' = (case d_vacated d of None \<Rightarrow> bays1 | Some v \<Rightarrow> clear_bay (b_imei v) bays1)"
    using assms(1,4) by (auto simp: observed_bays_def Let_def and_then_Inr_iff)
  with upsert_tray [of "d_bay d"] d v show ?thesis
    by (auto simp: clear_tray split: option.split)
qed

lemma decide_keeps_state_shape:
  assumes "sims_unique bays" "distinct (map b_imei bays)" "bay_of_imei bays i \<noteq> None" "i \<noteq> []" "c \<noteq> []"
    and "d = decide_slot_events bays i c" "tray_of bays j = Some c" "j \<noteq> i"
  shows "\<exists>v. d_vacated d = Some v \<and> b_imei v = j"
proof -
  obtain b where b: "bay_of_imei bays i = Some b" "b \<in> set bays" "b_imei b = i"
    using assms(3) bay_of_imei_SomeD by blast
  obtain x where x: "x \<in> set bays" "b_imei x = j" "b_current_iccid x = c"
    using assms(7) tray_SomeD by blast
  from x b assms have nc: "b_current_iccid b \<noteq> c"
    using sims_unique_tray [of bays c x b] by auto
  have "old_bay bays i c \<noteq> None"
    using x assms(8) by (auto simp: old_bay_def find_last_None_iff)
  then obtain v where v: "old_bay bays i c = Some v" by blast
  with old_bay_SomeD [OF v] x assms sims_unique_tray [of bays c x v] have "b_imei v = j" by simp
  with b nc v assms show ?thesis
    by (simp add: decide_slot_events_def Let_def)
qed

lemma sims_unique_iff_tray:
  assumes "distinct (map b_imei bays)"
  shows "sims_unique bays \<longleftrightarrow>
    (\<forall>i j c. c \<noteq> [] \<longrightarrow> tray_of bays i = Some c \<longrightarrow> tray_of bays j = Some c \<longrightarrow> i = j)"
  using assms
proof (induction bays)
  case Nil
  then show ?case by (simp add: sims_unique_def)
next
  case (Cons b bs)
  have m: "c \<in> b_current_iccid ` set bs \<longleftrightarrow> (\<exists>j. tray_of bs j = Some c)" for c
    using Cons.prems tray_mem tray_SomeD by (auto simp: image_iff) metis
  have n: "tray_of bs (b_imei b) = None"
    using Cons.prems by (simp add: tray_None_iff)
  have "sims_unique (b # bs) \<longleftrightarrow> sims_unique bs \<and>
     (b_current_iccid b = [] \<or> (\<forall>j. tray_of bs j \<noteq> Some (b_current_iccid b)))"
    using m by (auto simp: sims_unique_def sims_of_def)
  also have "\<dots> \<longleftrightarrow> (\<forall>i j c. c \<noteq> [] \<longrightarrow> tray_of (b # bs) i = Some c \<longrightarrow> tray_of (b # bs) j = Some c \<longrightarrow> i = j)"
    (is "?L \<longleftrightarrow> ?R")
  proof
    assume l: ?L
    then have u: "\<And>i j c. c \<noteq> [] \<Longrightarrow> tray_of bs i = Some c \<Longrightarrow> tray_of bs j = Some c \<Longrightarrow> i = j"
      using Cons by auto
    show ?R
    proof (intro allI impI)
      fix i j c
      assume "c \<noteq> []" "tray_of (b # bs) i = Some c" "tray_of (b # bs) j = Some c"
      with l u [of c i j] show "i = j" by (auto split: if_splits)
    qed
  next
    assume r: ?R
    have "sims_unique bs"
    proof -
      have "i = j" if "c \<noteq> []" "tray_of bs i = Some c" "tray_of bs j = Some c" for i j c
      proof -
        have "i \<noteq> b_imei b" "j \<noteq> b_imei b" using that n by auto
        with r [rule_format, of c i j] that show ?thesis by simp
      qed
      then show ?thesis using Cons by simp
    qed
    moreover have "tray_of bs j \<noteq> Some (b_current_iccid b)" if "b_current_iccid b \<noteq> []" for j
      using r [rule_format, of "b_current_iccid b" "b_imei b" j] that n by (cases "j = b_imei b") auto
    ultimately show ?L by blast
  qed
  finally show ?case .
qed

subsection \<open>The operations as steps\<close>

text \<open>
  The tables as the operations of the repository change them; a call that fails is rolled back and
  changes nothing.
\<close>

inductive bay_step :: "database \<Rightarrow> database \<Rightarrow> bool" where
  observe_step: "observe faults ob db = Inr (db', evs) \<Longrightarrow> bay_step db db'"
| mark_empty_step: "mark_empty faults imei port now db = Inr db' \<Longrightarrow> bay_step db db'"
| fill_balance_step: "fill_balance faults iccid v now db = Inr db' \<Longrightarrow> bay_step db db'"
| assign_slot_step: "assign_slot faults imei slot db = Inr db' \<Longrightarrow> bay_step db db'"
| migrate_step: "migrate_from_modems faults db = (db', r) \<Longrightarrow> bay_step db db'"

inductive_cases bay_stepE: "bay_step db db'"

lemma observe_wf: "observe faults ob db = Inr (db', evs) \<Longrightarrow> bays_wf (t_bays db) \<Longrightarrow> bays_wf (t_bays db')"
proof (cases "o_imei ob = [] \<or> o_iccid ob = []")
  case True
  assume "observe faults ob db = Inr (db', evs)" "bays_wf (t_bays db)"
  with True show ?thesis by (simp add: observe_def)
next
  case False
  assume o: "observe faults ob db = Inr (db', evs)" and wf: "bays_wf (t_bays db)"
  from observe_tables(1) [OF o] False obtain bays1 where
    "upsert_bay (d_bay (observe_decision faults db ob)) (t_bays db) = Inr bays1"
    "t_bays db' = (case d_vacated (observe_decision faults db ob) of
        None \<Rightarrow> bays1 | Some v \<Rightarrow> clear_bay (b_imei v) bays1)"
    by (auto simp: observed_bays_def Let_def and_then_Inr_iff)
  with upsert_bay_wf [OF this(1) wf] show ?thesis by (auto split: option.split)
qed

lemma mark_empty_tables:
  assumes "mark_empty faults imei port now db = Inr db'"
  shows "(db' = db \<and> (case find_bay db imei of None \<Rightarrow> True | Some b \<Rightarrow> b_current_iccid b = [])) \<or>
    (\<exists>b ev. find_bay db imei = Some b \<and> b_current_iccid b \<noteq> [] \<and>
       t_slot_events db' = t_slot_events db @ [ev] \<and>
       e_event ev = SlotEventRemoved \<and> e_iccid ev = b_current_iccid b \<and> e_imei ev = imei \<and>
       e_from_slot ev = b_slot_number b \<and> e_to_slot ev = None \<and> e_detected_at ev = now \<and>
       t_bays db' = update_where (\<lambda>b. b_imei b = imei)
          (\<lambda>b. b\<lparr>b_current_iccid := [], b_last_seen_at := Some now\<rparr>) (t_bays db))"
proof (cases "find_bay db imei")
  case None
  with assms show ?thesis by (auto simp: mark_empty_def and_then_Inr_iff db_call_Inr_iff)
next
  case (Some b)
  show ?thesis
  proof (cases "b_current_iccid b = []")
    case True
    with Some assms show ?thesis by (auto simp: mark_empty_def and_then_Inr_iff db_call_Inr_iff)
  next
    case False
    define ev where "ev = (slot_event (b_current_iccid b) imei SlotEventRemoved (b_slot_number b) None)
                      \<lparr>e_detected_at := now, e_port_name := port\<rparr>"
    from assms Some False obtain db2 where
      "sync_slot_cache faults (b_current_iccid b) None
         (db\<lparr>t_slot_events := t_slot_events db @ [ev]\<rparr>) = Inr db2"
      "db' = db2\<lparr>t_bays := update_where (\<lambda>b. b_imei b = imei)
          (\<lambda>b. b\<lparr>b_current_iccid := [], b_last_seen_at := Some now\<rparr>) (t_bays db2)\<rparr>"
      by (auto simp: mark_empty_def Let_def and_then_Inr_iff db_call_Inr_iff ev_def)
    with sync_slot_cache_tables [OF this(1)] Some False show ?thesis
      by (intro disjI2 exI [of _ b] exI [of _ ev]) (simp add: ev_def)
  qed
qed

lemma assign_slot_bays:
  assumes "assign_slot faults imei slot db = Inr db'"
  shows "\<not> slot_taken (filter (\<lambda>b. b_imei b \<noteq> imei) (t_bays db)) slot \<and>
    t_bays db' = update_where (\<lambda>b. b_imei b = imei) (\<lambda>b. b\<lparr>b_slot_number := slot\<rparr>) (t_bays db) \<and>
    t_slot_events db' = t_slot_events db \<and> find_bay db imei \<noteq> None"
  using assms
  by (auto simp: assign_slot_def Let_def and_then_Inr_iff db_call_Inr_iff
      dest: sync_slot_cache_tables split: if_splits option.splits)

lemma migrate_loop_wf: "bays_wf (t_bays db) \<Longrightarrow> bays_wf (t_bays (fst (migrate_loop faults ms seen db)))"
proof (induction ms arbitrary: seen db)
  case (Cons m ms)
  have "bays_wf (t_bays (fst (migrate_loop faults ms seen' (db\<lparr>t_bays := bays\<rparr>))))"
    if "insert_bay b (t_bays db) = Inr bays" for b bays seen'
    by (rule Cons.IH) (use insert_bay_wf [OF that Cons.prems] in simp)
  with Cons show ?case
    by (auto simp: and_then_Inr_iff split: sum.split)
qed simp

lemma bay_step_wf: "bay_step db db' \<Longrightarrow> bays_wf (t_bays db) \<Longrightarrow> bays_wf (t_bays db')"
proof (erule bay_stepE)
  fix faults ob evs assume "observe faults ob db = Inr (db', evs)" "bays_wf (t_bays db)"
  then show ?thesis by (rule observe_wf)
next
  fix faults imei port now assume "mark_empty faults imei port now db = Inr db'" "bays_wf (t_bays db)"
  with mark_empty_tables [OF this(1)] show ?thesis by (auto simp: update_where_wf)
next
  fix faults iccid v now assume "fill_balance faults iccid v now db = Inr db'" "bays_wf (t_bays db)"
  then show ?thesis
    by (auto simp: fill_balance_def and_then_Inr_iff db_call_Inr_iff split: list.splits)
next
  fix faults imei slot assume "assign_slot faults imei slot db = Inr db'" "bays_wf (t_bays db)"
  with assign_slot_bays [OF this(1)] show ?thesis by (simp add: assign_wf)
next
  fix faults r assume "migrate_from_modems faults db = (db', r)" and wf: "bays_wf (t_bays db)"
  with migrate_loop_wf [OF wf, of faults _ "[]"] show ?thesis
    by (auto simp: migrate_from_modems_def split: sum.splits) (metis fst_conv)
qed

subsection \<open>The slot cache and repeated probes\<close>

lemma vacated_other: "d_vacated (decide_slot_events bays i c) = Some v \<Longrightarrow> b_imei v \<noteq> i"
  by (auto simp: decide_slot_events_def Let_def dest!: old_bay_SomeD split: if_splits option.splits)

lemma observe_holds_sim:
  assumes "observe faults ob db = Inr (db', evs)" "o_imei ob \<noteq> []" "o_iccid ob \<noteq> []"
  shows "tray_of (t_bays db') (o_imei ob) = Some (o_iccid ob)"
  using observed_bays_tray [OF observe_tables(1) [OF assms] assms(2,3) refl]
    vacated_other [of "t_bays db" "o_imei ob" "o_iccid ob"]
  by (auto simp: observe_decision_def Let_def split: option.splits)

lemma decide_last_event:
  assumes "d = decide_slot_events bays i c" "d_events d \<noteq> []"
  shows "e_to_slot (last (d_events d)) = b_slot_number (d_bay d)"
    and "e_event (hd (d_events d)) = SlotEventInserted \<Longrightarrow> tl (d_events d) = []"
    and "e_event (last (d_events d)) \<noteq> SlotEventRemoved"
  using assms by (auto simp: decide_slot_events_def Let_def empty_bay_def split: if_splits option.splits)

lemma observe_last_event:
  assumes "d_events (observe_decision faults db ob) \<noteq> []"
  shows "e_to_slot (last (d_events (observe_decision faults db ob))) = b_slot_number (d_bay (observe_decision faults db ob))"
proof -
  let ?d = "decide_slot_events (t_bays db) (o_imei ob) (o_iccid ob)"
  from assms have "d_events ?d \<noteq> []" by (simp add: observe_decision_def Let_def)
  with decide_last_event [of ?d, OF refl] show ?thesis
    by (cases "d_events ?d") (auto simp: observe_decision_def Let_def infer_for_def)
qed

text \<open>The rows of one SIM hold the slot, and no other row does.\<close>

definition slot_cached :: "string \<Rightarrow> int option \<Rightarrow> modem \<Rightarrow> bool" where
  "slot_cached c slot m \<longleftrightarrow> (if m_iccid m = c then m_slot_number m = slot else slot = None \<or> m_slot_number m \<noteq> slot)"

lemma slot_cached_clear:
  "slot_cached c slot m \<Longrightarrow> m_iccid m \<noteq> c \<Longrightarrow> slot_cached c slot (m\<lparr>m_slot_number := None\<rparr>)"
  by (auto simp: slot_cached_def)

lemma slot_cached_set:
  "slot_cached c slot (let m' = (if m_slot_number m = slot \<and> m_iccid m \<noteq> c then m\<lparr>m_slot_number := None\<rparr> else m)
     in if m_iccid m' = c then m'\<lparr>m_slot_number := slot\<rparr> else m')"
  "slot_cached c None (if m_iccid m = c then m\<lparr>m_slot_number := None\<rparr> else m)"
  by (cases slot; auto simp: slot_cached_def Let_def) (simp add: slot_cached_def)

lemma sync_slot_cache_modems:
  assumes "sync_slot_cache faults c slot db = Inr db'"
  shows "t_modems db' = update_where (\<lambda>m. m_iccid m = c) (\<lambda>m. m\<lparr>m_slot_number := slot\<rparr>)
     (if slot \<noteq> None then update_where (\<lambda>m. m_slot_number m = slot \<and> m_iccid m \<noteq> c)
         (\<lambda>m. m\<lparr>m_slot_number := None\<rparr>) (t_modems db) else t_modems db)"
  using assms
  by (cases "slot = None") (auto simp: sync_slot_cache_def and_then_Inr_iff db_call_Inr_iff simp del: not_None_eq)

lemma sync_slot_cache_sets:
  assumes "sync_slot_cache faults c slot db = Inr db'"
  shows "\<forall>m \<in> set (t_modems db'). slot_cached c slot m"
proof (cases "slot = None")
  case True
  with sync_slot_cache_modems [OF assms] show ?thesis
    by (simp add: ball_update_where slot_cached_set(2))
next
  case False
  with sync_slot_cache_modems [OF assms] show ?thesis
    using slot_cached_set(1) by (simp add: ball_update_where Let_def)
qed

lemma sync_loop_keeps:
  assumes "fold_result (\<lambda>e. sync_slot_cache faults (e_iccid e) None) evs db = Inr db'"
    and "\<forall>e \<in> set evs. e_iccid e \<noteq> c" "\<forall>m \<in> set (t_modems db). slot_cached c slot m"
  shows "\<forall>m \<in> set (t_modems db'). slot_cached c slot m"
proof (rule fold_result_inv [OF assms(1), where P = "\<lambda>db. \<forall>m \<in> set (t_modems db). slot_cached c slot m"])
  fix e db db'
  assume "e \<in> set evs" "sync_slot_cache faults (e_iccid e) None db = Inr db'"
    and "\<forall>m \<in> set (t_modems db). slot_cached c slot m"
  with assms(2) sync_slot_cache_modems [of faults "e_iccid e" None db db']
  show "\<forall>m \<in> set (t_modems db'). slot_cached c slot m"
    by (simp add: ball_update_where) (metis slot_cached_clear)
qed (rule assms(3))

lemma observe_decision_iccids:
  "\<forall>e \<in> set (filter (\<lambda>e. e_event e = SlotEventRemoved)
       (map (complete_event faults db ob) (d_events (observe_decision faults db ob)))). e_iccid e \<noteq> o_iccid ob"
proof -
  have "\<forall>e \<in> set (d_events (observe_decision faults db ob)). e_event e = SlotEventRemoved \<longrightarrow> e_iccid e \<noteq> o_iccid ob"
    using decide_events_cases [of "t_bays db" "o_imei ob" "o_iccid ob"]
    by (auto simp: observe_decision_def Let_def infer_for_def split: list.splits)
  then show ?thesis by auto
qed

subsection \<open>Runs of probes\<close>

text \<open>The two operations that change which SIM sits where, in the order the worker calls them.\<close>

datatype bay_op = OpObserve observation | OpMarkEmpty string string gtime

fun run_op :: "faults \<Rightarrow> bay_op \<Rightarrow> database \<Rightarrow> database result" where
  "run_op faults (OpObserve ob) db = and_then (observe faults ob db) (\<lambda>(db', _). Inr db')"
| "run_op faults (OpMarkEmpty imei port now) db = mark_empty faults imei port now db"

lemma observe_refines:
  assumes "observe faults ob db = Inr (db', evs)" "bays_wf (t_bays db)" "sims_unique (t_bays db)"
  shows "tray_of (t_bays db') = fold apply_event evs (tray_of (t_bays db))"
    and "t_slot_events db' = t_slot_events db @ evs"
proof -
  show "t_slot_events db' = t_slot_events db @ evs"
    using assms(1) observe_tables(3) [OF assms(1)] by (cases "o_imei ob = [] \<or> o_iccid ob = []") (auto simp: observe_def)
  show "tray_of (t_bays db') = fold apply_event evs (tray_of (t_bays db))"
  proof (cases "o_imei ob = [] \<or> o_iccid ob = []")
    case True
    with assms show ?thesis by (auto simp: observe_def)
  next
    case False
    define d where "d = decide_slot_events (t_bays db) (o_imei ob) (o_iccid ob)"
    have "fold apply_event evs (tray_of (t_bays db)) = fold apply_event (d_events d) (tray_of (t_bays db))"
      using observe_tables(2) [OF assms(1)] False
      by (simp add: fold_apply_complete observe_decision_def Let_def apply_infer d_def)
    also have "\<dots> = (case d_vacated d of None \<Rightarrow> (tray_of (t_bays db))(o_imei ob \<mapsto> o_iccid ob)
       | Some v \<Rightarrow> (tray_of (t_bays db))(o_imei ob \<mapsto> o_iccid ob, b_imei v \<mapsto> []))"
      using False assms(2,3) by (intro decide_refines) (auto simp: d_def bays_wf_def)
    also have "\<dots> = tray_of (t_bays db')"
      using observed_bays_tray [OF observe_tables(1) [OF assms(1)] _ _ refl] False
      by (simp add: observe_decision_def Let_def d_def)
    finally show ?thesis by simp
  qed
qed

lemma observe_sims_unique:
  assumes "observe faults ob db = Inr (db', evs)" "bays_wf (t_bays db)" "sims_unique (t_bays db)"
    and "tray_of (t_bays db) (o_imei ob) \<noteq> None"
  shows "sims_unique (t_bays db')"
proof (cases "o_imei ob = [] \<or> o_iccid ob = []")
  case True
  with assms show ?thesis by (auto simp: observe_def)
next
  case False
  let ?t = "tray_of (t_bays db)" and ?t' = "tray_of (t_bays db')"
  define d where "d = decide_slot_events (t_bays db) (o_imei ob) (o_iccid ob)"
  have t': "?t' = (case d_vacated d of None \<Rightarrow> ?t(o_imei ob \<mapsto> o_iccid ob)
       | Some v \<Rightarrow> ?t(o_imei ob \<mapsto> o_iccid ob, b_imei v \<mapsto> []))"
    using observed_bays_tray [OF observe_tables(1) [OF assms(1)] _ _ refl] False
    by (simp add: observe_decision_def Let_def d_def)
  have dist: "distinct (map b_imei (t_bays db))" "distinct (map b_imei (t_bays db'))"
    using assms(2) observe_wf [OF assms(1,2)] by (simp_all add: bays_wf_def)
  have u: "i = j" if "c \<noteq> []" "?t i = Some c" "?t j = Some c" for i j c
    using assms(3) that dist by (simp add: sims_unique_iff_tray)
  have vac: "\<exists>v. d_vacated d = Some v \<and> b_imei v = j" if "?t j = Some (o_iccid ob)" "j \<noteq> o_imei ob" for j
    using decide_keeps_state_shape [OF assms(3) dist(1) _ _ _ d_def that] False assms(4)
    by (simp add: bay_of_imei_tray)
  have key: "c = o_iccid ob \<and> i = o_imei ob \<or> (c \<noteq> o_iccid ob \<and> ?t i = Some c)"
    if "c \<noteq> []" "?t' i = Some c" for c i
    using that vac [of i] unfolding t'
    by (auto split: option.splits if_splits)
  have "i = j" if "c \<noteq> []" "?t' i = Some c" "?t' j = Some c" for i j c
    using key [OF that(1,2)] key [OF that(1,3)] u that(1) by blast
  then show ?thesis using dist by (simp add: sims_unique_iff_tray)
qed

lemma mark_empty_refines:
  assumes "mark_empty faults imei port now db = Inr db'" "bays_wf (t_bays db)"
  shows "\<exists>evs. t_slot_events db' = t_slot_events db @ evs \<and>
     tray_of (t_bays db') = fold apply_event evs (tray_of (t_bays db)) \<and>
     (sims_unique (t_bays db) \<longrightarrow> sims_unique (t_bays db')) \<and>
     dom (tray_of (t_bays db')) = dom (tray_of (t_bays db))"
  using mark_empty_tables [OF assms(1)]
proof (elim disjE exE conjE)
  assume "db' = db"
  then show ?thesis by (intro exI [of _ "[]"]) simp
next
  fix b ev
  assume b: "find_bay db imei = Some b" and ev: "t_slot_events db' = t_slot_events db @ [ev]"
      "e_event ev = SlotEventRemoved" "e_imei ev = imei"
    and bays: "t_bays db' = update_where (\<lambda>b. b_imei b = imei)
          (\<lambda>b. b\<lparr>b_current_iccid := [], b_last_seen_at := Some now\<rparr>) (t_bays db)"
  have i: "imei \<in> b_imei ` set (t_bays db)"
    using b by (auto simp: find_bay_def dest!: find_SomeD)
  then have t: "tray_of (t_bays db') = (tray_of (t_bays db))(imei \<mapsto> [])"
    using bays by (simp add: tray_of_update)
  moreover have "dom (tray_of (t_bays db')) = dom (tray_of (t_bays db))"
    using i t tray_None_iff [of "t_bays db" imei] by auto
  moreover have "sims_unique (t_bays db) \<longrightarrow> sims_unique (t_bays db')"
  proof -
    have "bays_wf (t_bays db')" using bays assms(2) by (simp add: update_where_wf)
    then have "distinct (map b_imei (t_bays db'))" "distinct (map b_imei (t_bays db))"
      using assms(2) by (simp_all add: bays_wf_def)
    then show ?thesis by (simp add: sims_unique_iff_tray t)
  qed
  ultimately show ?thesis
    using ev by (intro exI [of _ "[ev]"]) (simp add: apply_event_def)
qed

lemma observe_dom:
  assumes "observe faults ob db = Inr (db', evs)"
  shows "dom (tray_of (t_bays db)) \<subseteq> dom (tray_of (t_bays db'))"
proof (cases "o_imei ob = [] \<or> o_iccid ob = []")
  case True
  with assms show ?thesis by (auto simp: observe_def)
next
  case False
  with observed_bays_tray [OF observe_tables(1) [OF assms(1)] _ _ refl]
  show ?thesis by (auto split: option.splits)
qed

lemma run_op_history:
  assumes "run_op faults op db = Inr db'" "bays_wf (t_bays db)" "sims_unique (t_bays db)"
    and "\<And>ob. op = OpObserve ob \<Longrightarrow> tray_of (t_bays db) (o_imei ob) \<noteq> None"
  shows "(\<exists>evs. t_slot_events db' = t_slot_events db @ evs \<and>
     tray_of (t_bays db') = fold apply_event evs (tray_of (t_bays db))) \<and> bays_wf (t_bays db') \<and>
     sims_unique (t_bays db') \<and> dom (tray_of (t_bays db)) \<subseteq> dom (tray_of (t_bays db'))"
proof (cases op)
  case (OpObserve ob)
  with assms(1) obtain evs where o: "observe faults ob db = Inr (db', evs)"
    by (auto simp: and_then_Inr_iff)
  have k: "tray_of (t_bays db) (o_imei ob) \<noteq> None"
    using OpObserve assms(4) by blast
  show ?thesis
    using observe_refines [OF o assms(2,3)] observe_wf [OF o assms(2)]
      observe_sims_unique [OF o assms(2,3) k] observe_dom [OF o] by blast
next
  case (OpMarkEmpty imei port now)
  with assms(1) have m: "mark_empty faults imei port now db = Inr db'" by simp
  have "bays_wf (t_bays db')"
    using bay_step_wf [OF mark_empty_step [OF m] assms(2)] .
  then show ?thesis
    using mark_empty_refines [OF m assms(2)] assms(3) by blast
qed

subsection \<open>Paging\<close>

lemma page_of_Suc:
  assumes "0 \<le> n" "int k * n < 2 ^ 63"
  shows "take (k * nat n) rows @ page_of (int k + 1) n rows = take (Suc k * nat n) rows"
proof -
  have "0 \<le> int k * n" using assms(1) by simp
  then have "in_int64 (int k * n)" using assms(2) by (simp add: in_int64_def)
  then show ?thesis using assms(1) by (simp add: page_of_def wrap64_id nat_mult_distrib take_add [symmetric] add.commute)
qed

text \<open>The pages of a listing are consecutive: together they are the listing.\<close>

lemma pages_concat:
  assumes "0 \<le> n"
  shows "int k * n < 2 ^ 63 \<Longrightarrow> concat (map (\<lambda>k. page_of (int k + 1) n rows) [0..<k]) = take (k * nat n) rows"
proof (induction k)
  case (Suc k)
  then have "int k * n < 2 ^ 63" using assms by (simp add: algebra_simps)
  then show ?case using page_of_Suc [OF assms, of k rows] Suc.IH by simp
qed simp

end
