(* ===== verification/Bay_Properties.thy ===== *)
theory Bay_Properties
  imports Bay_History
begin

text \<open>
  The properties of the slot history: the vote that infers a slot is sound and does not depend on
  the order of Go's map iteration, the table of bays stays well-formed in every reachable state, the
  event log replays to the tray, and a repeated probe is silent.
\<close>

subsection \<open>Slot inference\<close>

text \<open>
  The inferred slot does not depend on the order in which Go iterates over the map of known
  ports and the map of votes.
\<close>

theorem infer_slot_order_independent:
  assumes "mset known = mset known'"
  shows "infer_slot known port = infer_slot known' port"
proof -
  have b: "best_vote (0, 0) (count_votes (vote_list known)) = best_vote (0, 0) (count_votes (vote_list known'))"
    using assms by (intro best_vote_set_cong count_votes_set_cong vote_list_perm)
  have l: "length known = length known'"
    using assms by (rule mset_eq_length)
  have s: "set (map fst known) = set (map fst known')"
    using mset_eq_setD [OF assms] by simp
  then have m: "List.member (map fst known) x = List.member (map fst known') x" for x
    by simp
  show ?thesis
    unfolding infer_slot_def b l m by (rule refl)
qed

theorem infer_slot_order_independent_witness:
  "infer_slot [(1, ''COM13''), (2, ''COM12'')] ''COM11'' = infer_slot [(2, ''COM12''), (1, ''COM13'')] ''COM11''
     \<and> infer_slot [(1, ''COM13''), (2, ''COM12'')] ''COM11'' = Some 3"
proof
  show "infer_slot [(1, ''COM13''), (2, ''COM12'')] ''COM11'' = infer_slot [(2, ''COM12''), (1, ''COM13'')] ''COM11''"
    by (rule infer_slot_order_independent) simp
  show "infer_slot [(1, ''COM13''), (2, ''COM12'')] ''COM11'' = Some 3"
    by code_simp
qed

text \<open>
  A slot is inferred only for a port with a number, only from at least two modems that agree on
  the offset between slot and port number, no other offset having more votes; it is a number of the
  tray (1 to 32) and not the slot of one of the known modems.
\<close>

theorem infer_slot_sound:
  assumes "infer_slot known port = Some slot"
  shows "\<exists>com off. com_number port = Some com \<and> slot = wrap64 (off - com) \<and>
      2 \<le> count_list (vote_list known) off \<and>
      (\<forall>off'. count_list (vote_list known) off' \<le> count_list (vote_list known) off) \<and>
      1 \<le> slot \<and> slot \<le> 32 \<and> slot \<notin> fst ` set known"
proof -
  let ?vs = "count_votes (vote_list known)"
  obtain com off n where c: "com_number port = Some com" and b: "best_vote (0, 0) ?vs = (off, n)"
    and s: "\<not> n < 2" "slot = wrap64 (off - com)" "1 \<le> slot" "slot \<le> 32" "slot \<notin> fst ` set known"
    using assms by (auto simp: infer_slot_def Let_def split: option.splits prod.splits if_splits)
  from best_vote_props [of "(0, 0)" ?vs] b s(1) have "(off, n) \<in> set ?vs"
    by auto
  then have n: "n = count_list (vote_list known) off" by (simp add: count_votes_mem)
  have "count_list (vote_list known) off' \<le> n" for off'
  proof (cases "off' \<in> set (vote_list known)")
    case True
    then have "(off', count_list (vote_list known) off') \<in> set ?vs" by (simp add: count_votes_mem)
    with best_vote_props [of "(0, 0)" ?vs] b have "better (off, n) (off', count_list (vote_list known) off')"
      by auto
    then show ?thesis by (auto simp: better_def)
  next
    case False
    then show ?thesis by (simp add: count_list_0_iff)
  qed
  with c s n show ?thesis by auto
qed

theorem infer_slot_sound_witness:
  "\<exists>com off. com_number ''COM11'' = Some com \<and> 3 = wrap64 (off - com) \<and>
      2 \<le> count_list (vote_list [(1, ''COM13''), (2, ''COM12'')]) off \<and>
      (\<forall>off'. count_list (vote_list [(1, ''COM13''), (2, ''COM12'')]) off'
         \<le> count_list (vote_list [(1, ''COM13''), (2, ''COM12'')]) off) \<and>
      1 \<le> (3::int) \<and> (3::int) \<le> 32 \<and> (3::int) \<notin> fst ` set [(1, ''COM13''), (2, ''COM12'')]"
  by (rule infer_slot_sound) code_simp

subsection \<open>The tables\<close>



text \<open>
  C1: the event log is the history of the tray. Whatever probes of known modems and \<open>MarkEmpty\<close>
  calls succeed, from a table in which no SIM is recorded twice, the events they appended replay the
  old assignment of SIMs to modems into the new one, and still no SIM is recorded twice.
\<close>

theorem event_log_replays_tray:
  assumes "fold_result (run_op faults) ops db = Inr db'"
    and "bays_wf (t_bays db)" "sims_unique (t_bays db)"
    and "\<forall>ob. OpObserve ob \<in> set ops \<longrightarrow> tray_of (t_bays db) (o_imei ob) \<noteq> None"
  shows "\<exists>evs. t_slot_events db' = t_slot_events db @ evs \<and>
     tray_of (t_bays db') = fold apply_event evs (tray_of (t_bays db)) \<and>
     sims_unique (t_bays db')"
  using assms
proof (induction ops arbitrary: db)
  case Nil
  then show ?case by (intro exI [of _ "[]"]) simp
next
  case (Cons op ops)
  from Cons.prems(1) obtain db1 where r: "run_op faults op db = Inr db1"
    and f: "fold_result (run_op faults) ops db1 = Inr db'"
    by (auto simp: and_then_Inr_iff)
  have k: "\<And>ob. op = OpObserve ob \<Longrightarrow> tray_of (t_bays db) (o_imei ob) \<noteq> None"
    using Cons.prems(4) by simp
  from run_op_history [OF r Cons.prems(2,3) k] obtain evs1 where
      e1: "t_slot_events db1 = t_slot_events db @ evs1"
        "tray_of (t_bays db1) = fold apply_event evs1 (tray_of (t_bays db))"
    and wf: "bays_wf (t_bays db1)" "sims_unique (t_bays db1)"
    and dom: "dom (tray_of (t_bays db)) \<subseteq> dom (tray_of (t_bays db1))"
    by blast
  have "\<forall>ob. OpObserve ob \<in> set ops \<longrightarrow> tray_of (t_bays db1) (o_imei ob) \<noteq> None"
    using Cons.prems(4) dom by fastforce
  from Cons.IH [OF f wf this] obtain evs2 where
      "t_slot_events db' = t_slot_events db1 @ evs2"
      "tray_of (t_bays db') = fold apply_event evs2 (tray_of (t_bays db1))" "sims_unique (t_bays db')"
    by blast
  with e1 show ?case by (intro exI [of _ "evs1 @ evs2"]) simp
qed

theorem event_log_replays_tray_witness:
  "\<exists>db'. fold_result (run_op no_faults)
      [OpObserve \<lparr> o_imei = ''i2'', o_iccid = ''c1'', o_operator = [], o_port_name = ''COM4'', o_at = 7 \<rparr>,
       OpMarkEmpty ''i2'' ''COM4'' 9]
      (empty_db\<lparr>t_bays := [\<lparr> b_imei = ''i1'', b_slot_number = Some 1, b_current_iccid = ''c1'', b_last_seen_at = None \<rparr>,
         \<lparr> b_imei = ''i2'', b_slot_number = Some 2, b_current_iccid = [], b_last_seen_at = None \<rparr>]\<rparr>) = Inr db' \<and>
    map e_event (t_slot_events db') = [SlotEventMoved, SlotEventRemoved] \<and>
    (\<exists>evs. t_slot_events db' = [] @ evs \<and>
     tray_of (t_bays db') = fold apply_event evs (tray_of
       [\<lparr> b_imei = ''i1'', b_slot_number = Some 1, b_current_iccid = ''c1'', b_last_seen_at = None \<rparr>,
         \<lparr> b_imei = ''i2'', b_slot_number = Some 2, b_current_iccid = [], b_last_seen_at = None \<rparr>]) \<and>
     sims_unique (t_bays db'))"
  (is "\<exists>db'. fold_result _ ?ops ?db = _ \<and> _")
proof -
  define ok where "ok = (case fold_result (run_op no_faults) ?ops ?db of
      Inl e \<Rightarrow> False | Inr d \<Rightarrow> map e_event (t_slot_events d) = [SlotEventMoved, SlotEventRemoved])"
  have "ok" unfolding ok_def by code_simp
  then obtain db' where r: "fold_result (run_op no_faults) ?ops ?db = Inr db'"
    and e: "map e_event (t_slot_events db') = [SlotEventMoved, SlotEventRemoved]"
    by (auto simp: ok_def split: sum.splits)
  have "\<exists>evs. t_slot_events db' = t_slot_events ?db @ evs \<and>
     tray_of (t_bays db') = fold apply_event evs (tray_of (t_bays ?db)) \<and> sims_unique (t_bays db')"
    by (rule event_log_replays_tray [OF r]) (simp_all add: bays_wf_def sims_unique_def tray_of_def)
  with r e show ?thesis by (intro exI [of _ db']) (simp add: empty_db_def)
qed

text \<open>
  The first probe of an unknown modem, when no call fails: it is recorded with the inferred slot
  and one event, unless the inferred slot is that of a bay whose port is not known, in which case the
  insertion violates the uniqueness of the slot and the probe is lost.
\<close>

theorem observe_unknown_modem:
  assumes "o_imei ob \<noteq> []" "o_iccid ob \<noteq> []" "o_imei ob \<notin> b_imei ` set (t_bays db)"
  shows "case infer_slot (known_slot_ports no_faults db) (o_port_name ob) of
      Some n \<Rightarrow>
        if n \<in> set (slots_of (t_bays db)) then observe no_faults ob db = Inl unique_violation
        else \<exists>db' ev. observe no_faults ob db = Inr (db', [ev]) \<and>
          t_bays db' = t_bays db @ [\<lparr> b_imei = o_imei ob, b_slot_number = Some n,
             b_current_iccid = o_iccid ob, b_last_seen_at = Some (o_at ob) \<rparr>] \<and>
          e_event ev = SlotEventInserted \<and> e_iccid ev = o_iccid ob \<and> e_to_slot ev = Some n
    | None \<Rightarrow> \<exists>db' ev. observe no_faults ob db = Inr (db', [ev]) \<and>
          t_bays db' = t_bays db @ [\<lparr> b_imei = o_imei ob, b_slot_number = None,
             b_current_iccid = o_iccid ob, b_last_seen_at = Some (o_at ob) \<rparr>] \<and>
          e_event ev = SlotEventInserted \<and> e_iccid ev = o_iccid ob \<and> e_to_slot ev = None"
proof -
  have n: "bay_of_imei (t_bays db) (o_imei ob) = None"
    using assms(3) by (simp add: bay_of_imei_tray tray_None_iff)
  let ?n = "infer_slot (known_slot_ports no_faults db) (o_port_name ob)"
  let ?bay = "\<lparr> b_imei = o_imei ob, b_slot_number = ?n,
             b_current_iccid = o_iccid ob, b_last_seen_at = Some (o_at ob) \<rparr>"
  have d: "observe_decision no_faults db ob = \<lparr> d_bay = ?bay, d_vacated = None,
      d_events = [(slot_event (o_iccid ob) (o_imei ob) SlotEventInserted None None)\<lparr>e_to_slot := ?n\<rparr>] \<rparr>"
    using assms(1,2) n
    by (simp add: observe_decision_def Let_def decide_slot_events_def infer_for_def empty_bay_def)
  have ok: "\<exists>db' ev. observe no_faults ob db = Inr (db', [ev]) \<and> t_bays db' = t_bays db @ [?bay] \<and>
      e_event ev = SlotEventInserted \<and> e_iccid ev = o_iccid ob \<and> e_to_slot ev = ?n"
    if "\<not> slot_taken (t_bays db) ?n"
  proof -
    let ?evs = "map (complete_event no_faults db ob) (d_events (observe_decision no_faults db ob))"
    have u: "upsert_bay ?bay (t_bays db) = Inr (t_bays db @ [?bay])"
      using that assms(3) by (simp add: upsert_bay_def insert_bay_def)
    obtain db' where "log_events no_faults ob ?n ?evs (db\<lparr>t_bays := t_bays db @ [?bay]\<rparr>) = Inr (db', ?evs)"
      using log_events_ok by blast
    with assms(1,2) d u have o: "observe no_faults ob db = Inr (db', ?evs)"
      by (simp add: observe_def)
    have "t_bays db' = t_bays db @ [?bay]"
      using observe_tables(1) [OF o assms(1,2)] u d
      by (simp add: observed_bays_def Let_def)
    with o show ?thesis
      by (simp add: d)
  qed
  have bad: "observe no_faults ob db = Inl unique_violation" if "slot_taken (t_bays db) ?n"
    using that assms d by (simp add: observe_def upsert_bay_def insert_bay_def)
  show ?thesis
  proof (cases ?n)
    case None
    with ok show ?thesis by (simp add: slot_taken_def)
  next
    case (Some n)
    with ok bad show ?thesis by (simp add: slot_taken_iff)
  qed
qed

text \<open>
  The witness is the failing case: the bay of slot 3 was migrated and has no event yet, so its port
  does not take part in the vote, and slot 3 is inferred again for the new modem.
\<close>

theorem observe_unknown_modem_witness:
  "observe no_faults \<lparr> o_imei = ''i9'', o_iccid = ''c9'', o_operator = [], o_port_name = ''COM11'', o_at = 7 \<rparr>
     (empty_db\<lparr>t_bays :=
        [\<lparr> b_imei = ''i1'', b_slot_number = Some 1, b_current_iccid = ''c1'', b_last_seen_at = None \<rparr>,
         \<lparr> b_imei = ''i2'', b_slot_number = Some 2, b_current_iccid = ''c2'', b_last_seen_at = None \<rparr>,
         \<lparr> b_imei = ''i3'', b_slot_number = Some 3, b_current_iccid = ''c3'', b_last_seen_at = None \<rparr>],
       t_slot_events :=
        [(slot_event ''c1'' ''i1'' SlotEventInserted None (Some 1))\<lparr>e_port_name := ''COM13''\<rparr>,
         (slot_event ''c2'' ''i2'' SlotEventInserted None (Some 2))\<lparr>e_port_name := ''COM12''\<rparr>]\<rparr>)
   = Inl unique_violation"
  (is "observe no_faults ?ob ?db = _")
proof -
  have i: "infer_slot (known_slot_ports no_faults ?db) (o_port_name ?ob) = Some 3"
    by code_simp
  have s: "3 \<in> set (slots_of (t_bays ?db))"
    by simp
  have "case infer_slot (known_slot_ports no_faults ?db) (o_port_name ?ob) of
      Some n \<Rightarrow>
        if n \<in> set (slots_of (t_bays ?db)) then observe no_faults ?ob ?db = Inl unique_violation
        else \<exists>db' ev. observe no_faults ?ob ?db = Inr (db', [ev]) \<and>
          t_bays db' = t_bays ?db @ [\<lparr> b_imei = o_imei ?ob, b_slot_number = Some n,
             b_current_iccid = o_iccid ?ob, b_last_seen_at = Some (o_at ?ob) \<rparr>] \<and>
          e_event ev = SlotEventInserted \<and> e_iccid ev = o_iccid ?ob \<and> e_to_slot ev = Some n
    | None \<Rightarrow> \<exists>db' ev. observe no_faults ?ob ?db = Inr (db', [ev]) \<and>
          t_bays db' = t_bays ?db @ [\<lparr> b_imei = o_imei ?ob, b_slot_number = None,
             b_current_iccid = o_iccid ?ob, b_last_seen_at = Some (o_at ?ob) \<rparr>] \<and>
          e_event ev = SlotEventInserted \<and> e_iccid ev = o_iccid ?ob \<and> e_to_slot ev = None"
    by (rule observe_unknown_modem) simp_all
  then show ?thesis unfolding i using s by (simp only: option.case if_True)
qed

text \<open>
  probing the same SIM in the same modem again logs nothing and changes nothing but the time at
  which the modem was last seen.
\<close>

theorem observe_again_silent:
  assumes "observe faults ob db = Inr (db1, evs)" "bays_wf (t_bays db)"
    and "o_imei ob \<noteq> []" "o_iccid ob \<noteq> []" "o_imei ob' = o_imei ob" "o_iccid ob' = o_iccid ob"
  shows "observe no_faults ob' db1 =
    Inr (db1\<lparr>t_bays := update_where (\<lambda>b. b_imei b = o_imei ob)
       (\<lambda>b. b\<lparr>b_last_seen_at := Some (o_at ob')\<rparr>) (t_bays db1)\<rparr>, [])"
proof -
  have dist: "distinct (map b_imei (t_bays db1))"
    using observe_wf [OF assms(1,2)] by (simp add: bays_wf_def)
  have t: "tray_of (t_bays db1) (o_imei ob) = Some (o_iccid ob)"
    by (rule observe_holds_sim [OF assms(1,3,4)])
  then obtain b where b: "bay_of_imei (t_bays db1) (o_imei ob) = Some b"
    using bay_of_imei_tray(1) by fastforce
  have c: "b_current_iccid b = o_iccid ob"
    using bay_of_imei_tray(2) [OF dist b] t by simp
  have i: "b \<in> set (t_bays db1)" "b_imei b = o_imei ob"
    using bay_of_imei_SomeD [OF b] by simp_all
  have d: "observe_decision no_faults db1 ob' = \<lparr> d_bay = b\<lparr>b_last_seen_at := Some (o_at ob')\<rparr>,
      d_vacated = None, d_events = [] \<rparr>"
    using assms(3-6) b c by (simp add: observe_decision_def Let_def decide_slot_events_def infer_for_def)
  have "x\<lparr>b_current_iccid := o_iccid ob, b_last_seen_at := t\<rparr> = x\<lparr>b_last_seen_at := t\<rparr>"
    if "x \<in> set (t_bays db1)" "b_imei x = o_imei ob" for x t
  proof -
    have "b_current_iccid x = o_iccid ob" using tray_mem [OF dist that(1)] t that(2) by simp
    then show ?thesis by (cases x) simp
  qed
  moreover have "o_imei ob \<in> b_imei ` set (t_bays db1)"
    using i by force
  ultimately have "upsert_bay (b\<lparr>b_last_seen_at := Some (o_at ob')\<rparr>) (t_bays db1) =
    Inr (update_where (\<lambda>b. b_imei b = o_imei ob) (\<lambda>b. b\<lparr>b_last_seen_at := Some (o_at ob')\<rparr>) (t_bays db1))"
    using i c by (simp add: upsert_bay_def update_where_def)
  with d assms(3-6) show ?thesis
    by (simp add: observe_def log_events_def)
qed

theorem observe_again_silent_witness:
  "\<exists>db1 evs. observe no_faults \<lparr> o_imei = ''i1'', o_iccid = ''c1'', o_operator = [], o_port_name = ''COM3'', o_at = 5 \<rparr>
      empty_db = Inr (db1, evs) \<and>
    observe no_faults \<lparr> o_imei = ''i1'', o_iccid = ''c1'', o_operator = [], o_port_name = ''COM3'', o_at = 9 \<rparr> db1
      = Inr (db1\<lparr>t_bays := update_where (\<lambda>b. b_imei b = ''i1'') (\<lambda>b. b\<lparr>b_last_seen_at := Some 9\<rparr>) (t_bays db1)\<rparr>, [])"
  (is "\<exists>db1 evs. observe _ ?ob _ = _ \<and> observe _ ?ob' _ = _")
proof -
  have "is_ok (observe no_faults ?ob empty_db)" by code_simp
  then obtain db1 evs where o: "observe no_faults ?ob empty_db = Inr (db1, evs)"
    by (auto simp: is_ok_def split: sum.splits)
  with observe_again_silent [OF o, of ?ob'] show ?thesis
    by (intro exI [of _ db1] exI [of _ evs]) (simp add: empty_db_def bays_wf_def)
qed

text \<open>
  After a probe that logged something, the cached slot of the SIM is the slot its last event
  names, and no other SIM has that slot in its cache.
\<close>

theorem observe_slot_cache:
  assumes "observe faults ob db = Inr (db', evs)" "evs \<noteq> []"
  shows "\<forall>m \<in> set (t_modems db'). slot_cached (o_iccid ob) (e_to_slot (last evs)) m"
proof -
  have n: "o_imei ob \<noteq> []" "o_iccid ob \<noteq> []"
    using assms by (auto simp: observe_def split: if_splits)
  let ?d = "observe_decision faults db ob"
  have e: "evs = map (complete_event faults db ob) (d_events ?d)"
    using observe_tables(2) [OF assms(1) n] .
  then have l: "e_to_slot (last evs) = b_slot_number (d_bay ?d)"
    using assms(2) observe_last_event [of faults db ob] by (simp add: last_map)
  obtain db0 where "log_events faults ob (b_slot_number (d_bay ?d)) evs db0 = Inr (db', evs)"
    using assms(1) n e by (auto simp: observe_def and_then_Inr_iff db_call_Inr_iff)
  then obtain db1 db2 where s: "sync_slot_cache faults (o_iccid ob) (b_slot_number (d_bay ?d)) db1 = Inr db2"
    and f: "fold_result (\<lambda>e. sync_slot_cache faults (e_iccid e) None)
              (filter (\<lambda>e. e_event e = SlotEventRemoved) evs) db2 = Inr db'"
    using assms(2) by (auto simp: log_events_def and_then_Inr_iff)
  from sync_loop_keeps [OF f _ sync_slot_cache_sets [OF s]] observe_decision_iccids [of faults db ob] e l
  show ?thesis by simp
qed

text \<open>
  The witness shows the cache and the bay disagree when the slot of a known, uncalibrated modem was
  inferred: the event and the cache say slot 3, the bay still has none.
\<close>

theorem observe_slot_cache_witness:
  "\<exists>db' ev. observe no_faults \<lparr> o_imei = ''i9'', o_iccid = ''c9'', o_operator = [], o_port_name = ''COM11'', o_at = 7 \<rparr>
     (empty_db\<lparr>t_modems := [new_modem ''c9''], t_bays :=
        [\<lparr> b_imei = ''i1'', b_slot_number = Some 1, b_current_iccid = ''c1'', b_last_seen_at = None \<rparr>,
         \<lparr> b_imei = ''i2'', b_slot_number = Some 2, b_current_iccid = ''c2'', b_last_seen_at = None \<rparr>,
         \<lparr> b_imei = ''i9'', b_slot_number = None, b_current_iccid = [], b_last_seen_at = None \<rparr>],
       t_slot_events :=
        [(slot_event ''c1'' ''i1'' SlotEventInserted None (Some 1))\<lparr>e_port_name := ''COM13''\<rparr>,
         (slot_event ''c2'' ''i2'' SlotEventInserted None (Some 2))\<lparr>e_port_name := ''COM12''\<rparr>]\<rparr>)
       = Inr (db', [ev]) \<and>
     map b_slot_number (t_bays db') = [Some 1, Some 2, None] \<and> e_to_slot ev = Some 3 \<and>
     (\<forall>m \<in> set (t_modems db'). m_iccid m = ''c9'' \<longrightarrow> m_slot_number m = Some 3)"
  (is "\<exists>db' ev. observe _ ?ob ?db = _ \<and> _")
proof -
  have "case observe no_faults ?ob ?db of Inr (d, [ev]) \<Rightarrow>
      map b_slot_number (t_bays d) = [Some 1, Some 2, None] \<and> e_to_slot ev = Some 3 | _ \<Rightarrow> False"
    by code_simp
  then obtain db' ev where o: "observe no_faults ?ob ?db = Inr (db', [ev])"
    and p: "map b_slot_number (t_bays db') = [Some 1, Some 2, None]" "e_to_slot ev = Some 3"
    by (simp only: split: sum.splits prod.splits list.splits)
  from observe_slot_cache [OF o] p have "\<forall>m \<in> set (t_modems db'). m_iccid m = ''c9'' \<longrightarrow> m_slot_number m = Some 3"
    by (simp add: slot_cached_def)
  with o p show ?thesis by (intro exI [of _ db'] exI [of _ ev] conjI)
qed

text \<open>
  Assigning a slot, when no call fails: another bay that has the slot is reported, then an
  unknown modem; otherwise exactly the bay of the modem gets the slot, no event is logged, and the
  caches of the SIMs follow when the bay is occupied.
\<close>

theorem assign_slot_result:
  "case assign_slot no_faults imei slot db of
     Inl e \<Rightarrow> (e = err_slot_taken \<and> slot_taken (filter (\<lambda>b. b_imei b \<noteq> imei) (t_bays db)) slot) \<or>
       (e = err_record_not_found \<and> imei \<notin> b_imei ` set (t_bays db) \<and>
          \<not> slot_taken (filter (\<lambda>b. b_imei b \<noteq> imei) (t_bays db)) slot)
   | Inr db' \<Rightarrow> \<not> slot_taken (filter (\<lambda>b. b_imei b \<noteq> imei) (t_bays db)) slot \<and>
       t_bays db' = update_where (\<lambda>b. b_imei b = imei) (\<lambda>b. b\<lparr>b_slot_number := slot\<rparr>) (t_bays db) \<and>
       t_slot_events db' = t_slot_events db \<and>
       (\<exists>b. find_bay db imei = Some b \<and>
          (if b_current_iccid b = [] then t_modems db' = t_modems db
           else \<forall>m \<in> set (t_modems db'). slot_cached (b_current_iccid b) slot m))"
proof (cases "assign_slot no_faults imei slot db")
  case (Inl e)
  have c: "slot_taken (filter (\<lambda>b. b_imei b \<noteq> imei) (t_bays db)) slot \<longleftrightarrow>
      slot \<noteq> None \<and> count_rows (\<lambda>b. b_slot_number b = slot \<and> b_imei b \<noteq> imei) (t_bays db) > 0"
    using count_rows_0_iff [of "\<lambda>b. b_slot_number b = slot \<and> b_imei b \<noteq> imei" "t_bays db"]
    by (auto simp: slot_taken_def)
  have f: "find_bay db imei = None \<longleftrightarrow> imei \<notin> b_imei ` set (t_bays db)"
    by (auto simp: find_bay_def find_None_iff')
  from Inl c f show ?thesis
    by (auto simp: assign_slot_def Let_def split: if_splits option.splits)
next
  case (Inr db')
  from assign_slot_bays [OF Inr] obtain b where b: "find_bay db imei = Some b" by auto
  have "if b_current_iccid b = [] then t_modems db' = t_modems db
           else \<forall>m \<in> set (t_modems db'). slot_cached (b_current_iccid b) slot m"
  proof (cases "b_current_iccid b = []")
    case True
    with Inr b show ?thesis
      by (auto simp: assign_slot_def Let_def and_then_Inr_iff split: if_splits)
  next
    case False
    with Inr b have "sync_slot_cache no_faults (b_current_iccid b) slot (db\<lparr>t_bays := update_where
       (\<lambda>b. b_imei b = imei) (\<lambda>b. b\<lparr>b_slot_number := slot\<rparr>) (t_bays db)\<rparr>) = Inr db'"
      unfolding assign_slot_def Let_def by (simp only: db_call_ok and_then_simps option.case split: if_splits)
        (simp_all del: sync_slot_cache_ok)
    from sync_slot_cache_sets [OF this] False show ?thesis by simp
  qed
  with Inr assign_slot_bays [OF Inr] b show ?thesis by simp
qed

theorem assign_slot_result_witness:
  "assign_slot no_faults ''i2'' (Some 1)
     (empty_db\<lparr>t_bays := [\<lparr> b_imei = ''i1'', b_slot_number = Some 1, b_current_iccid = [], b_last_seen_at = None \<rparr>]\<rparr>)
     = Inl err_slot_taken \<and>
   slot_taken (filter (\<lambda>b. b_imei b \<noteq> ''i2'')
     [\<lparr> b_imei = ''i1'', b_slot_number = Some 1, b_current_iccid = [], b_last_seen_at = None \<rparr>]) (Some 1)"
  (is "assign_slot _ ?i ?s ?db = _ \<and> _")
proof -
  have r: "assign_slot no_faults ?i ?s ?db = Inl err_slot_taken"
    by code_simp
  have "err_slot_taken \<noteq> err_record_not_found"
    by (simp add: err_slot_taken_def err_record_not_found_def)
  with assign_slot_result [where imei = ?i and slot = ?s and db = ?db] r show ?thesis by simp
qed

text \<open>
  Paging through the history loses and repeats nothing: with a positive page size and enough
  pages, the pages one after the other are the matching events, newest first, and every page reports
  their number.
\<close>

theorem list_events_pages:
  assumes "f_page_size f = n" "0 < n" "int k * n < 2 ^ 63"
    and "length (filter (event_matches f) (t_slot_events db)) \<le> k * nat n"
  shows "\<exists>rows. mset rows = mset (filter (event_matches f) (t_slot_events db)) \<and>
    sorted (rev (map e_detected_at rows)) \<and>
    concat (map (\<lambda>j. case list_events no_faults (f\<lparr>f_page := int j + 1\<rparr>) db of
        Inl _ \<Rightarrow> [] | Inr (page, n_total) \<Rightarrow> if n_total = length rows then page else []) [0..<k]) = rows"
proof -
  let ?rows = "newest_first e_detected_at (filter (event_matches f) (t_slot_events db))"
  have m: "event_matches (f\<lparr>f_page := p\<rparr>) = event_matches f" for p
    by (simp add: event_matches_def fun_eq_iff)
  have "list_events no_faults (f\<lparr>f_page := int j + 1\<rparr>) db = Inr (page_of (int j + 1) n ?rows, length ?rows)" for j
    using assms(1,2) by (simp add: list_events_def m count_rows_def)
  then have "concat (map (\<lambda>j. case list_events no_faults (f\<lparr>f_page := int j + 1\<rparr>) db of
        Inl _ \<Rightarrow> [] | Inr (page, n_total) \<Rightarrow> if n_total = length ?rows then page else []) [0..<k])
    = take (k * nat n) ?rows"
    using pages_concat [of n k ?rows] assms(2,3) by (simp del: length_newest_first)
  moreover have "mset ?rows = mset (filter (event_matches f) (t_slot_events db))"
    by (simp add: newest_first_def)
  moreover have "sorted (rev (map e_detected_at ?rows))"
    by (simp add: newest_first_def rev_map [symmetric])
  ultimately show ?thesis
    using assms(4) by (intro exI [of _ ?rows]) simp
qed

theorem list_events_pages_witness:
  "\<exists>rows. mset rows = mset (filter (event_matches
        \<lparr> f_iccid = ''c1'', f_slot = None, f_from = None, f_to = None, f_page = 0, f_page_size = 1 \<rparr>)
        [slot_event ''c1'' ''i1'' SlotEventInserted None None, slot_event ''c2'' ''i1'' SlotEventInserted None None,
         (slot_event ''c1'' ''i2'' SlotEventMoved None None)\<lparr>e_detected_at := 3\<rparr>]) \<and>
    sorted (rev (map e_detected_at rows)) \<and>
    concat (map (\<lambda>j. case list_events no_faults
        (\<lparr> f_iccid = ''c1'', f_slot = None, f_from = None, f_to = None, f_page = 0, f_page_size = 1 \<rparr>\<lparr>f_page := int j + 1\<rparr>)
        (empty_db\<lparr>t_slot_events := [slot_event ''c1'' ''i1'' SlotEventInserted None None,
           slot_event ''c2'' ''i1'' SlotEventInserted None None,
           (slot_event ''c1'' ''i2'' SlotEventMoved None None)\<lparr>e_detected_at := 3\<rparr>]\<rparr>) of
        Inl _ \<Rightarrow> [] | Inr (page, n_total) \<Rightarrow> if n_total = length rows then page else []) [0..<3]) = rows"
  (is "\<exists>rows. mset rows = mset (filter (event_matches ?f) ?evs) \<and> _ \<and> _")
  using list_events_pages [of ?f 1 3 "empty_db\<lparr>t_slot_events := ?evs\<rparr>"]
  by (simp add: event_matches_def)

end
