(* ===== verification/Alert_Log.thy ===== *)
theory Alert_Log
  imports Bay_Repository
begin

text \<open>
  The alert tables: \<open>internal/repository/balance_repo.go\<close> and \<open>sim_alert_repo.go\<close>. Both are
  used in the same way: before an alert is sent the code asks whether one with the same key was sent
  within a period, and afterwards it records the new one. The locale states this contract, and its
  client lemma says that the alerts of a key are more than a period apart.
\<close>

subsection \<open>The contract\<close>

definition spaced :: "int \<Rightarrow> gtime list \<Rightarrow> bool" where
  "spaced d ts \<longleftrightarrow> sorted_wrt (\<lambda>newer older. older < newer - d) ts"

locale alert_log =
  fixes recent :: "'s \<Rightarrow> 'k \<Rightarrow> gtime \<Rightarrow> bool"
    and add_alert :: "'a \<Rightarrow> 's \<Rightarrow> 's"
    and key :: "'a \<Rightarrow> 'k"
    and stamp :: "'a \<Rightarrow> gtime"
    and sent_at :: "'s \<Rightarrow> 'k \<Rightarrow> gtime list"
  assumes recent_iff: "recent s k cutoff \<longleftrightarrow> (\<exists>t \<in> set (sent_at s k). cutoff \<le> t)"
    and sent_at_add: "sent_at (add_alert a s) k = (if key a = k then stamp a # sent_at s k else sent_at s k)"
begin

text \<open>The client: check at one instant, record the alert at a later one.\<close>

definition try_alert :: "int \<Rightarrow> gtime \<Rightarrow> 'a \<Rightarrow> 's \<Rightarrow> 's" where
  "try_alert d checked a s = (if recent s (key a) (checked - d) then s else add_alert a s)"

lemma try_alert_spaced:
  assumes "spaced d (sent_at s k)" "checked \<le> stamp a"
  shows "spaced d (sent_at (try_alert d checked a s) k)"
  using assms by (fastforce simp: try_alert_def spaced_def sent_at_add recent_iff)

lemma alerts_spaced:
  assumes "spaced d (sent_at s k)" "\<forall>(checked, a) \<in> set tries. checked \<le> stamp a"
  shows "spaced d (sent_at (fold (\<lambda>(checked, a). try_alert d checked a) tries s) k)"
  using assms
proof (induction tries arbitrary: s)
  case (Cons x xs)
  then show ?case using try_alert_spaced by (cases x) auto
qed simp

lemma try_alert_reported:
  "checked \<le> stamp a \<Longrightarrow> 0 \<le> d \<Longrightarrow> recent (try_alert d checked a s) (key a) (checked - d)"
  by (auto simp: try_alert_def recent_iff sent_at_add intro: bexI [of _ "stamp a"])

lemma try_alert_other: "key a \<noteq> k \<Longrightarrow> sent_at (try_alert d checked a s) k = sent_at s k"
  by (simp add: try_alert_def sent_at_add)

end

subsection \<open>Balance alerts\<close>

definition ba_sent :: "balance_alert list \<Rightarrow> string \<Rightarrow> gtime list" where
  "ba_sent rows iccid = rev (map ba_sent_at (filter (\<lambda>a. ba_iccid a = iccid) rows))"

text \<open>\<open>BalanceRepository.AlertedWithin\<close> and \<open>AddAlert\<close> on the rows; the cutoff is \<open>now - d\<close>.\<close>

definition ba_within :: "balance_alert list \<Rightarrow> string \<Rightarrow> gtime \<Rightarrow> bool" where
  "ba_within rows iccid cutoff \<longleftrightarrow>
     0 < count_rows (\<lambda>a. ba_iccid a = iccid \<and> cutoff \<le> ba_sent_at a) rows"

definition balance_alerted_within ::
  "faults \<Rightarrow> string \<Rightarrow> gtime \<Rightarrow> duration \<Rightarrow> database \<Rightarrow> bool result" where
  "balance_alerted_within faults iccid now d db =
     db_call faults (''balance.alerted_within:'' @ iccid) (ba_within (t_balance_alerts db) iccid (time_add now (- d)))"

definition add_balance_alert :: "faults \<Rightarrow> balance_alert \<Rightarrow> database \<Rightarrow> database result" where
  "add_balance_alert faults a db =
     db_call faults (''balance.add_alert:'' @ ba_iccid a) (db\<lparr>t_balance_alerts := t_balance_alerts db @ [a]\<rparr>)"

lemma ba_within_iff: "ba_within rows iccid cutoff \<longleftrightarrow> (\<exists>t \<in> set (ba_sent rows iccid). cutoff \<le> t)"
  using count_rows_0_iff [of "\<lambda>a. ba_iccid a = iccid \<and> cutoff \<le> ba_sent_at a" rows]
  by (auto simp: ba_within_def ba_sent_def)

interpretation balance_log: alert_log
  "\<lambda>db. ba_within (t_balance_alerts db)"
  "\<lambda>a db. db\<lparr>t_balance_alerts := t_balance_alerts db @ [a]\<rparr>"
  ba_iccid ba_sent_at "\<lambda>db. ba_sent (t_balance_alerts db)"
  by unfold_locales (simp_all add: ba_within_iff, simp add: ba_sent_def)

subsection \<open>SIM alerts\<close>

definition sa_key :: "sim_alert \<Rightarrow> string \<times> sim_alert_kind" where
  "sa_key a = (sa_iccid a, sa_kind a)"

definition sa_sent :: "sim_alert list \<Rightarrow> string \<times> sim_alert_kind \<Rightarrow> gtime list" where
  "sa_sent rows k = rev (map sa_sent_at (filter (\<lambda>a. sa_key a = k) rows))"

definition sa_within :: "sim_alert list \<Rightarrow> string \<times> sim_alert_kind \<Rightarrow> gtime \<Rightarrow> bool" where
  "sa_within rows k cutoff \<longleftrightarrow>
     0 < count_rows (\<lambda>a. sa_iccid a = fst k \<and> sa_kind a = snd k \<and> cutoff \<le> sa_sent_at a) rows"

definition sim_alerted_within ::
  "faults \<Rightarrow> string \<Rightarrow> sim_alert_kind \<Rightarrow> gtime \<Rightarrow> duration \<Rightarrow> database \<Rightarrow> bool result" where
  "sim_alerted_within faults iccid kind now d db =
     db_call faults (''sim_alert.within:'' @ iccid) (sa_within (t_sim_alerts db) (iccid, kind) (time_add now (- d)))"

definition add_sim_alert :: "faults \<Rightarrow> sim_alert \<Rightarrow> database \<Rightarrow> database result" where
  "add_sim_alert faults a db =
     db_call faults (''sim_alert.add:'' @ sa_iccid a) (db\<lparr>t_sim_alerts := t_sim_alerts db @ [a]\<rparr>)"

lemma sa_within_iff: "sa_within rows k cutoff \<longleftrightarrow> (\<exists>t \<in> set (sa_sent rows k). cutoff \<le> t)"
  using count_rows_0_iff [of "\<lambda>a. sa_iccid a = fst k \<and> sa_kind a = snd k \<and> cutoff \<le> sa_sent_at a" rows]
  by (cases k) (auto simp: sa_within_def sa_sent_def sa_key_def)

interpretation sim_log: alert_log
  "\<lambda>db. sa_within (t_sim_alerts db)"
  "\<lambda>a db. db\<lparr>t_sim_alerts := t_sim_alerts db @ [a]\<rparr>"
  sa_key sa_sent_at "\<lambda>db. sa_sent (t_sim_alerts db)"
  by unfold_locales (simp_all add: sa_within_iff, simp add: sa_sent_def)

subsection \<open>Listing\<close>

definition page_size_or_50 :: "int \<Rightarrow> int" where
  "page_size_or_50 n = (if n \<le> 0 then 50 else n)"

definition page_or_1 :: "int \<Rightarrow> int" where
  "page_or_1 p = (if p \<le> 0 then 1 else p)"

definition list_balance_alerts ::
  "faults \<Rightarrow> int \<Rightarrow> int \<Rightarrow> database \<Rightarrow> (balance_alert list \<times> nat) result" where
  "list_balance_alerts faults page n db =
     and_then (db_call faults ''balance.list.count'' (length (t_balance_alerts db))) (\<lambda>k.
     db_call faults ''balance.list.find''
       (page_of (page_or_1 page) (page_size_or_50 n) (newest_first ba_sent_at (t_balance_alerts db)), k))"

definition list_sim_alerts ::
  "faults \<Rightarrow> int \<Rightarrow> int \<Rightarrow> database \<Rightarrow> (sim_alert list \<times> nat) result" where
  "list_sim_alerts faults page n db =
     and_then (db_call faults ''sim_alert.list.count'' (length (t_sim_alerts db))) (\<lambda>k.
     db_call faults ''sim_alert.list.find''
       (page_of (page_or_1 page) (page_size_or_50 n) (newest_first sa_sent_at (t_sim_alerts db)), k))"

text \<open>\<open>AddSnapshot\<close> and \<open>RecentSnapshots\<close> (the newest \<open>n\<close>, oldest first).\<close>

definition add_snapshot :: "faults \<Rightarrow> string \<Rightarrow> int \<Rightarrow> gtime \<Rightarrow> database \<Rightarrow> database result" where
  "add_snapshot faults iccid v now db =
     db_call faults (''balance.add_snapshot:'' @ iccid)
       (db\<lparr>t_snapshots := t_snapshots db @ [\<lparr> bs_iccid = iccid, bs_balance_vnd = v, bs_read_at = now \<rparr>]\<rparr>)"

definition recent_snapshots :: "faults \<Rightarrow> string \<Rightarrow> nat \<Rightarrow> database \<Rightarrow> balance_snapshot list result" where
  "recent_snapshots faults iccid n db =
     db_call faults (''balance.recent:'' @ iccid)
       (rev (take n (newest_first bs_read_at (filter (\<lambda>s. bs_iccid s = iccid) (t_snapshots db)))))"

end
