(* ===== verification/Smsie_Config.thy ===== *)
theory Smsie_Config
  imports Smsie_Model
begin

text \<open>
  \<open>internal/config/config.go\<close>: one record per section of the configuration, the defaults that
  are registered with viper and the values that \<open>LoadConfig\<close> corrects after reading. Viper itself
  (the file, the environment) is the parameter of \<open>load_config\<close>: a function that overrides
  some of the defaults.
\<close>

record backup_config =
  kc_enabled :: bool
  kc_dir :: string
  kc_hour :: int
  kc_keep :: int

record phone_lookup_config =
  pc_enabled :: bool
  pc_codes :: "(string \<times> string) list"

record keepalive_config =
  ac_enabled :: bool
  ac_interval_days :: int
  ac_max_per_month :: int
  ac_message :: string
  ac_run_hour :: int

record sim_health_config =
  hc_enabled :: bool
  hc_no_sms_days :: int
  hc_unregistered_hours :: int
  hc_absent_days :: int
  hc_remind_days :: int
  hc_plan_warn_days :: int

record balance_config =
  bc_enabled :: bool
  bc_check_hour :: int
  bc_low_threshold :: int
  bc_forecast_days :: int
  bc_ussd_code :: string
  bc_ussd_codes :: "(string \<times> string) list"

record audio_config =
  uc_device_keyword :: string
  uc_output_device_name :: string
  uc_sample_rate :: int
  uc_channels :: int
  uc_bits_per_sample :: int
  uc_capture_chunk_ms :: int
  uc_playback_chunk_ms :: int

record sip_config =
  ic_register_expires :: int
  ic_local_host :: string
  ic_local_port :: int
  ic_rtp_bind_ip :: string
  ic_rtp_port_min :: int
  ic_rtp_port_max :: int
  ic_invite_timeout_sec :: int
  ic_dtmf_method :: string
  ic_dtmf_duration_ms :: int

record calling_config =
  cc_stun_servers :: "string list"
  cc_udp_port_min :: int
  cc_udp_port_max :: int
  cc_audio :: audio_config
  cc_sip :: sip_config

record serial_config =
  rc_scan_interval :: string
  rc_exclude_ports :: "string list"
  rc_init_at_commands :: "string list"

record app_config =
  c_server_port :: string
  c_server_mode :: string
  c_database_driver :: string
  c_database_dsn :: string
  c_serial :: serial_config
  c_calling :: calling_config
  c_telegram_token :: string
  c_telegram_chat_id :: string
  c_slack_url :: string
  c_default_admin_password :: string
  c_log_level :: string
  c_balance :: balance_config
  c_sim_health :: sim_health_config
  c_keepalive :: keepalive_config
  c_phone_lookup :: phone_lookup_config
  c_audit_keep_days :: int
  c_backup :: backup_config

definition viper_defaults :: app_config where
  "viper_defaults = \<lparr>
     c_server_port = [], c_server_mode = [], c_database_driver = [], c_database_dsn = [],
     c_serial = \<lparr> rc_scan_interval = [], rc_exclude_ports = [], rc_init_at_commands = [] \<rparr>,
     c_calling = \<lparr> cc_stun_servers = [], cc_udp_port_min = 0, cc_udp_port_max = 0,
       cc_audio = \<lparr> uc_device_keyword = [], uc_output_device_name = [], uc_sample_rate = 0,
         uc_channels = 0, uc_bits_per_sample = 0, uc_capture_chunk_ms = 0, uc_playback_chunk_ms = 0 \<rparr>,
       cc_sip = \<lparr> ic_register_expires = 0, ic_local_host = [], ic_local_port = 0,
         ic_rtp_bind_ip = [], ic_rtp_port_min = 0, ic_rtp_port_max = 0, ic_invite_timeout_sec = 0,
         ic_dtmf_method = [], ic_dtmf_duration_ms = 0 \<rparr> \<rparr>,
     c_telegram_token = [], c_telegram_chat_id = [], c_slack_url = [],
     c_default_admin_password = [], c_log_level = [],
     c_balance = \<lparr> bc_enabled = True, bc_check_hour = 6, bc_low_threshold = 20000,
       bc_forecast_days = 7, bc_ussd_code = ''*101#'', bc_ussd_codes = [(''Vietnamobile'', ''*102#'')] \<rparr>,
     c_sim_health = \<lparr> hc_enabled = True, hc_no_sms_days = 30, hc_unregistered_hours = 24,
       hc_absent_days = 7, hc_remind_days = 7, hc_plan_warn_days = 7 \<rparr>,
     c_keepalive = \<lparr> ac_enabled = False, ac_interval_days = 25, ac_max_per_month = 3,
       ac_message = ''keepalive {{.Date}}'', ac_run_hour = 7 \<rparr>,
     c_phone_lookup = \<lparr> pc_enabled = True, pc_codes = [(''Viettel'', ''*098#''),
       (''Vinaphone'', ''*110#''), (''Mobifone'', ''*0#''), (''Vietnamobile'', ''*102#'')] \<rparr>,
     c_audit_keep_days = 365,
     c_backup = \<lparr> kc_enabled = True, kc_dir = ''backups'', kc_hour = 3, kc_keep = 14 \<rparr> \<rparr>"

definition positive_or :: "int \<Rightarrow> int \<Rightarrow> int" where
  "positive_or v d = (if v \<le> 0 then d else v)"

definition nonempty_or :: "'a list \<Rightarrow> 'a list \<Rightarrow> 'a list" where
  "nonempty_or v d = (if v = [] then d else v)"

definition correct_audio :: "audio_config \<Rightarrow> audio_config" where
  "correct_audio a = a\<lparr>
     uc_device_keyword := nonempty_or (uc_device_keyword a) ''AC Interface'',
     uc_sample_rate := positive_or (uc_sample_rate a) 8000,
     uc_channels := positive_or (uc_channels a) 1,
     uc_bits_per_sample := positive_or (uc_bits_per_sample a) 16,
     uc_capture_chunk_ms := positive_or (uc_capture_chunk_ms a) 40,
     uc_playback_chunk_ms := positive_or (uc_playback_chunk_ms a) 100\<rparr>"

definition correct_sip :: "sip_config \<Rightarrow> sip_config" where
  "correct_sip s =
     (let port_min = positive_or (ic_rtp_port_min s) 30000
      in s\<lparr>
       ic_local_port := positive_or (ic_local_port s) 5060,
       ic_register_expires := positive_or (ic_register_expires s) 300,
       ic_rtp_port_min := port_min,
       ic_rtp_port_max := (if ic_rtp_port_max s < port_min then port_min else ic_rtp_port_max s),
       ic_invite_timeout_sec := positive_or (ic_invite_timeout_sec s) 30,
       ic_dtmf_method := nonempty_or (ic_dtmf_method s) ''info'',
       ic_dtmf_duration_ms := positive_or (ic_dtmf_duration_ms s) 160\<rparr>)"

definition correct_calling :: "calling_config \<Rightarrow> calling_config" where
  "correct_calling c = c\<lparr>
     cc_stun_servers := nonempty_or (cc_stun_servers c) [''stun:stun.l.google.com:19302''],
     cc_audio := correct_audio (cc_audio c),
     cc_sip := correct_sip (cc_sip c)\<rparr>"

text \<open>\<open>LoadConfig\<close>; \<open>None\<close> is the \<open>log.Fatalf\<close> of a file that does not fit the struct.\<close>

definition load_config :: "(app_config \<Rightarrow> app_config option) \<Rightarrow> app_config option" where
  "load_config viper =
     map_option (\<lambda>c. c\<lparr>c_calling := correct_calling (c_calling c)\<rparr>) (viper viper_defaults)"

lemma positive_or_pos: "0 < d \<Longrightarrow> 0 < positive_or v d"
  by (simp add: positive_or_def)

lemma nonempty_or_nonempty: "d \<noteq> [] \<Longrightarrow> nonempty_or v d \<noteq> []"
  by (simp add: nonempty_or_def)

definition audio_usable :: "audio_config \<Rightarrow> bool" where
  "audio_usable a \<longleftrightarrow> uc_device_keyword a \<noteq> [] \<and> 0 < uc_sample_rate a \<and> 0 < uc_channels a \<and>
     0 < uc_bits_per_sample a \<and> 0 < uc_capture_chunk_ms a \<and> 0 < uc_playback_chunk_ms a"

definition sip_usable :: "sip_config \<Rightarrow> bool" where
  "sip_usable s \<longleftrightarrow> 0 < ic_local_port s \<and> 0 < ic_register_expires s \<and> 0 < ic_rtp_port_min s \<and>
     ic_rtp_port_min s \<le> ic_rtp_port_max s \<and> 0 < ic_invite_timeout_sec s \<and>
     ic_dtmf_method s \<noteq> [] \<and> 0 < ic_dtmf_duration_ms s"

lemma correct_audio_usable: "audio_usable (correct_audio a)"
  by (simp add: audio_usable_def correct_audio_def positive_or_pos nonempty_or_nonempty)

lemma correct_sip_usable: "sip_usable (correct_sip s)"
  by (simp add: sip_usable_def correct_sip_def Let_def positive_or_pos nonempty_or_nonempty)

lemma positive_or_id: "0 < v \<Longrightarrow> positive_or v d = v"
  by (simp add: positive_or_def)

lemma nonempty_or_id: "v \<noteq> [] \<Longrightarrow> nonempty_or v d = v"
  by (simp add: nonempty_or_def)

lemma correct_id:
  "audio_usable a \<Longrightarrow> correct_audio a = a"
  "sip_usable s \<Longrightarrow> correct_sip s = s"
  by (simp_all add: audio_usable_def correct_audio_def sip_usable_def correct_sip_def Let_def
      positive_or_id nonempty_or_id)

text \<open>
  Whatever the file and the environment say, the loaded configuration has usable audio and SIP
  settings (positive sizes, times and ports, a non-empty range of RTP ports, a STUN server), and
  settings that are usable as they are read stay as they are.
\<close>

theorem load_config_usable:
  assumes "load_config viper = Some c"
  shows "audio_usable (cc_audio (c_calling c)) \<and> sip_usable (cc_sip (c_calling c)) \<and>
    cc_stun_servers (c_calling c) \<noteq> [] \<and>
    (\<exists>r. viper viper_defaults = Some r \<and> c\<lparr>c_calling := c_calling r\<rparr> = r \<and>
       (audio_usable (cc_audio (c_calling r)) \<longrightarrow> cc_audio (c_calling c) = cc_audio (c_calling r)) \<and>
       (sip_usable (cc_sip (c_calling r)) \<longrightarrow> cc_sip (c_calling c) = cc_sip (c_calling r)))"
proof -
  from assms obtain r where r: "viper viper_defaults = Some r"
    and c: "c = r\<lparr>c_calling := correct_calling (c_calling r)\<rparr>"
    by (auto simp: load_config_def)
  show ?thesis
    unfolding r c correct_calling_def
    by (simp add: correct_audio_usable correct_sip_usable nonempty_or_nonempty correct_id)
qed

theorem load_config_usable_witness:
  "load_config (\<lambda>d. Some (d\<lparr>c_calling := (c_calling d)\<lparr>cc_sip := (cc_sip (c_calling d))\<lparr>ic_rtp_port_max := 40000\<rparr>\<rparr>\<rparr>))
     \<noteq> None \<and>
   sip_usable (cc_sip (c_calling (the (load_config
     (\<lambda>d. Some (d\<lparr>c_calling := (c_calling d)\<lparr>cc_sip := (cc_sip (c_calling d))\<lparr>ic_rtp_port_max := 40000\<rparr>\<rparr>\<rparr>))))))"
  (is "load_config ?v \<noteq> None \<and> _")
proof -
  have s: "load_config ?v = Some (the (load_config ?v))"
    by (simp add: load_config_def)
  from load_config_usable [OF s] have "sip_usable (cc_sip (c_calling (the (load_config ?v))))"
    by (elim conjE)
  moreover have "load_config ?v \<noteq> None"
    by (simp add: load_config_def)
  ultimately show ?thesis by (rule conjI [rotated])
qed

end
