(* ===== verification/Runtime.thy ===== *)
theory Runtime
  imports Smsie_Config Bay_Repository
begin

text \<open>
  The state in which the background services run: the database, a clock, and the texts handed to the
  webhook dispatcher. The clock is a function \<open>clk\<close> from the number of readings so far to the
  instant that \<open>time.Now()\<close> returns; a service that reads it twice may see two different instants.
  \<open>wd_sms\<close> lists the messages handed to a modem: when, from which SIM, to which number, and
  whether the modem took it.
\<close>

record world =
  wd_db :: database
  wd_tick :: nat
  wd_texts :: "(string \<times> string) list"
  wd_sms :: "(gtime \<times> string \<times> string \<times> bool) list"

type_synonym clock = "nat \<Rightarrow> gtime"

definition monotone_clock :: "clock \<Rightarrow> bool" where
  "monotone_clock clk \<longleftrightarrow> (\<forall>i j. i \<le> j \<longrightarrow> clk i \<le> clk j)"

definition tick :: "world \<Rightarrow> world" where
  "tick w = w\<lparr>wd_tick := Suc (wd_tick w)\<rparr>"

definition world_now :: "clock \<Rightarrow> world \<Rightarrow> gtime" where
  "world_now clk w = clk (wd_tick w)"

definition dispatch_text :: "string \<Rightarrow> string \<Rightarrow> world \<Rightarrow> world" where
  "dispatch_text iccid text w = w\<lparr>wd_texts := wd_texts w @ [(iccid, text)]\<rparr>"

lemma tick_simps [simp]:
  "wd_db (tick w) = wd_db w" "wd_texts (tick w) = wd_texts w" "wd_sms (tick w) = wd_sms w" "wd_tick (tick w) = Suc (wd_tick w)"
  by (simp_all add: tick_def)

lemma dispatch_simps [simp]:
  "wd_db (dispatch_text c t w) = wd_db w" "wd_sms (dispatch_text c t w) = wd_sms w" "wd_tick (dispatch_text c t w) = wd_tick w"
  "wd_texts (dispatch_text c t w) = wd_texts w @ [(c, t)]"
  by (simp_all add: dispatch_text_def)

subsection \<open>The state of a running modem\<close>

text \<open>\<open>worker.RuntimeModemState\<close>.\<close>

record runtime_modem =
  rt_iccid :: string
  rt_imei :: string
  rt_operator :: string
  rt_signal_strength :: int
  rt_port_name :: string
  rt_status :: string
  rt_registration :: string
  rt_last_seen :: gtime

text \<open>\<open>(w *ModemWorker) RuntimeModemState\<close>: nothing for a worker without a modem.\<close>

definition runtime_modem_state :: "modem option \<Rightarrow> bool \<Rightarrow> runtime_modem option" where
  "runtime_modem_state m stopped =
     map_option (\<lambda>m. \<lparr> rt_iccid = m_iccid m, rt_imei = m_imei m, rt_operator = m_operator m,
        rt_signal_strength = m_signal_strength m, rt_port_name = m_port_name m,
        rt_status = (if stopped then ''offline'' else ''online''),
        rt_registration = m_registration m, rt_last_seen = m_last_seen m \<rparr>) m"

definition registered :: "string \<Rightarrow> bool" where
  "registered reg \<longleftrightarrow> reg = ''Home Network'' \<or> reg = ''Roaming''"

subsection \<open>Queries that several services make\<close>

text \<open>\<open>ORDER BY slot_number, iccid\<close>, where \<open>NULL\<close> comes first.\<close>

definition modems_by_slot :: "modem list \<Rightarrow> modem list" where
  "modems_by_slot ms =
     (let by_iccid = sort_key m_iccid ms
      in filter (\<lambda>m. m_slot_number m = None) by_iccid @
         sort_key (\<lambda>m. the (m_slot_number m)) (filter (\<lambda>m. m_slot_number m \<noteq> None) by_iccid))"

text \<open>The last bay that records the SIM, in the map \<open>slotByICCID\<close>.\<close>

definition bay_holding :: "modem_bay list \<Rightarrow> string \<Rightarrow> modem_bay option" where
  "bay_holding bays iccid =
     find_last (\<lambda>b. b_current_iccid b = iccid) (filter (\<lambda>b. b_current_iccid b \<noteq> []) bays)"

subsection \<open>Loops over items that keep going\<close>

text \<open>
  The loops of the services handle one SIM after the other; some failures end the loop with an error
  (the state reached so far stays), others only skip the SIM.
\<close>

fun each_item :: "('a \<Rightarrow> 's \<Rightarrow> 's \<times> ('e + 'b)) \<Rightarrow> 'a list \<Rightarrow> 's \<Rightarrow> 's \<times> ('e + 'b list)" where
  "each_item f [] s = (s, Inr [])"
| "each_item f (x # xs) s =
     (case f x s of
        (s', Inl e) \<Rightarrow> (s', Inl e)
      | (s', Inr y) \<Rightarrow>
          (case each_item f xs s' of
             (s'', Inl e) \<Rightarrow> (s'', Inl e)
           | (s'', Inr ys) \<Rightarrow> (s'', Inr (y # ys))))"

lemma each_item_inv:
  assumes "P s" "\<And>x s. x \<in> set xs \<Longrightarrow> P s \<Longrightarrow> P (fst (f x s))"
  shows "P (fst (each_item f xs s))"
  using assms
proof (induction xs arbitrary: s)
  case (Cons x xs)
  have p: "P (fst (f x s))" using Cons.prems by simp
  then have "P (fst (each_item f xs (fst (f x s))))"
    using Cons by simp
  with p show ?case
    by (cases "f x s"; cases "each_item f xs (fst (f x s))") (auto split: sum.split)
qed simp

lemma each_item_length:
  "each_item f xs s = (s', Inr ys) \<Longrightarrow> length ys = length xs"
  by (induction xs arbitrary: s ys) (auto split: prod.splits sum.splits)

text \<open>Nothing is written when no step writes.\<close>

lemma each_item_state_id: "(\<And>x s. fst (f x s) = s) \<Longrightarrow> fst (each_item f xs s) = s"
proof (induction xs arbitrary: s)
  case (Cons x xs)
  then have "fst (f x s) = s" "fst (each_item f xs s) = s" by blast+
  then show ?case by (cases "f x s"; cases "each_item f xs s") (auto split: sum.split)
qed simp

end
