(* ===== verification/Balance.thy ===== *)
theory Balance
  imports Alert_Log Runtime
begin

text \<open>
  \<open>internal/balance\<close>: the forecast of the day on which the money of a SIM runs out
  (\<open>forecast.go\<close>), the alert level (\<open>evaluate.go\<close>) and the scheduler that evaluates all SIMs,
  records alerts and sends them (\<open>scheduler.go\<close>). \<open>float64\<close> is modelled by exact rationals.
\<close>

subsection \<open>Forecast\<close>

record point =
  pt_at :: gtime
  pt_vnd :: int

text \<open>\<open>if len(p) > 7 { p = p[len(p)-7:] }\<close>\<close>

definition last_seven :: "'a list \<Rightarrow> 'a list" where
  "last_seven p = drop (length p - 7) p"

text \<open>The loop from the last index down to 1 that cuts at the last top-up.\<close>

fun cut_topup :: "point list \<Rightarrow> nat \<Rightarrow> point list" where
  "cut_topup p 0 = p"
| "cut_topup p (Suc i) = (if pt_vnd (p ! Suc i) > pt_vnd (p ! i) then drop (Suc i) p else cut_topup p i)"

definition forecast_segment :: "point list \<Rightarrow> point list" where
  "forecast_segment points = (let p = last_seven (sort_key pt_at points) in cut_topup p (length p - 1))"

text \<open>\<open>pt.At.Sub(p[0].At).Hours() / 24\<close>\<close>

definition days_after :: "gtime \<Rightarrow> point \<Rightarrow> rat" where
  "days_after t0 pt = of_int (time_sub (pt_at pt) t0) / of_int day_ns"

definition regression_forecast :: "point list \<Rightarrow> rat option" where
  "regression_forecast p =
     (if length p < 2 \<or> time_sub (pt_at (last p)) (pt_at (hd p)) < 24 * hour_ns then None
      else
        let n = of_nat (length p);
            t = map (days_after (pt_at (hd p))) p;
            v = map (\<lambda>pt. of_int (pt_vnd pt)) p;
            mt = sum_list t / n;
            mv = sum_list v / n;
            cov = sum_list (map2 (\<lambda>x y. (x - mt) * (y - mv)) t v);
            vart = sum_list (map (\<lambda>x. (x - mt) * (x - mt)) t)
        in if vart = 0 then None
           else
             let slope = cov / vart
             in if slope \<ge> 0 then None
                else
                  let days_left = of_int (pt_vnd (last p)) / (- slope)
                  in Some (if days_left < 0 then 0 else days_left))"

definition forecast :: "point list \<Rightarrow> rat option" where
  "forecast points = regression_forecast (forecast_segment points)"

subsection \<open>Levels\<close>

definition level_unknown :: string where "level_unknown = ''unknown''"
definition level_ok :: string where "level_ok = ''ok''"
definition level_low :: string where "level_low = ''low''"
definition level_forecast :: string where "level_forecast = ''forecast''"

lemmas level_defs = level_unknown_def level_ok_def level_low_def level_forecast_def

record eval_config =
  ec_low_threshold :: int
  ec_forecast_days :: int

record eval_input =
  in_has_balance :: bool
  in_vnd :: int
  in_sim_threshold :: "int option"
  in_points :: "point list"

record eval_result =
  er_level :: string
  er_threshold :: int
  er_threshold_source :: string
  er_days_left :: "rat option"

definition evaluate :: "eval_input \<Rightarrow> eval_config \<Rightarrow> eval_result" where
  "evaluate inp cfg =
     (let r0 = (case in_sim_threshold inp of
            None \<Rightarrow> \<lparr> er_level = level_unknown, er_threshold = ec_low_threshold cfg,
                      er_threshold_source = ''config'', er_days_left = None \<rparr>
          | Some th \<Rightarrow> \<lparr> er_level = level_unknown, er_threshold = th,
                      er_threshold_source = ''sim'', er_days_left = None \<rparr>)
      in if \<not> in_has_balance inp then r0
         else
           let r1 = r0\<lparr>er_level := level_ok\<rparr>;
               r2 = (case forecast (in_points inp) of
                   None \<Rightarrow> r1
                 | Some d \<Rightarrow>
                     let r = r1\<lparr>er_days_left := Some d\<rparr>
                     in if d \<le> of_int (ec_forecast_days cfg) then r\<lparr>er_level := level_forecast\<rparr> else r)
           in if in_vnd inp < er_threshold r2 then r2\<lparr>er_level := level_low\<rparr> else r2)"

subsection \<open>Texts\<close>

text \<open>
  \<open>fmtVND\<close>: a dot before every group of three digits, counted from the right; the loop runs over
  \<open>i = len(s)-3, len(s)-6, ...\<close> while \<open>i > 0\<close>.
\<close>

fun dot_loop :: "nat \<Rightarrow> string \<Rightarrow> string" where
  "dot_loop i s = (if i = 0 then s else dot_loop (i - 3) (take i s @ ''.'' @ drop i s))"

declare dot_loop.simps [simp del]

definition fmt_vnd :: "int \<Rightarrow> string" where
  "fmt_vnd v =
     (let s = go_itoa v;
          (neg, digits) = (if v < 0 then (''-'', drop 1 s) else ([], s))
      in neg @ dot_loop (length digits - 3) digits)"

text \<open>\<open>%.0f\<close>: to the nearest integer, a tie to the even one.\<close>

definition round_even :: "rat \<Rightarrow> int" where
  "round_even x =
     (let f = \<lfloor>x\<rfloor>; r = x - of_int f
      in if r < 1 / 2 then f else if r > 1 / 2 then f + 1 else if even f then f else f + 1)"

record status_item =
  it_iccid :: string
  it_phone_number :: string
  it_slot_number :: "int option"
  it_balance_vnd :: int
  it_balance_updated_at :: "gtime option"
  it_threshold_vnd :: int
  it_threshold_source :: string
  it_days_left :: "rat option"
  it_level :: string
  it_snapshots :: "balance_snapshot list"

definition display_name :: "string \<Rightarrow> string \<Rightarrow> int option \<Rightarrow> string" where
  "display_name phone iccid slot =
     (let name = (if phone = [] then iccid else phone)
      in case slot of None \<Rightarrow> name | Some n \<Rightarrow> name @ '' (khe '' @ go_itoa n @ '')'')"

text \<open>The Vietnamese texts are written as their UTF-8 bytes.\<close>

definition txt_balance :: string where
  "txt_balance = '': s'' @ [CHR 0xE1, CHR 0xBB, CHR 0x91] @ '' d'' @ [CHR 0xC6, CHR 0xB0] @ '' ''"

definition txt_dong :: string where
  "txt_dong = '' '' @ [CHR 0xC4, CHR 0x91]"

definition txt_below :: string where
  "txt_below = txt_dong @ '', d'' @ [CHR 0xC6, CHR 0xB0, CHR 0xE1, CHR 0xBB, CHR 0x9B] @ ''i ng'' @
     [CHR 0xC6, CHR 0xB0, CHR 0xE1, CHR 0xBB, CHR 0xA1] @ ''ng ''"

definition txt_runs_out :: string where
  "txt_runs_out = txt_dong @ '', d'' @ [CHR 0xE1, CHR 0xBB, CHR 0xB1] @ '' ki'' @
     [CHR 0xE1, CHR 0xBA, CHR 0xBF] @ ''n h'' @ [CHR 0xE1, CHR 0xBA, CHR 0xBF] @ ''t ti'' @
     [CHR 0xE1, CHR 0xBB, CHR 0x81] @ ''n sau '' @ [CHR 0xE2, CHR 0x89, CHR 0x88]"

definition txt_days :: string where
  "txt_days = '' ng'' @ [CHR 0xC3, CHR 0xA0] @ ''y''"

definition alert_text :: "status_item \<Rightarrow> string" where
  "alert_text it =
     (let name = display_name (it_phone_number it) (it_iccid it) (it_slot_number it)
      in if it_level it = level_low
         then [CHR 0xE2, CHR 0x9A, CHR 0xA0, CHR 0xEF, CHR 0xB8, CHR 0x8F] @ '' SIM '' @ name @ txt_balance @
                fmt_vnd (it_balance_vnd it) @ txt_below @ fmt_vnd (it_threshold_vnd it) @ txt_dong
         else [CHR 0xE2, CHR 0x8F, CHR 0xB3] @ '' SIM '' @ name @ txt_balance @
                fmt_vnd (it_balance_vnd it) @ txt_runs_out @
                go_itoa (round_even (the (it_days_left it))) @ txt_days)"

subsection \<open>The scheduler\<close>

definition slot_by_iccid :: "modem_bay list \<Rightarrow> string \<Rightarrow> int option" where
  "slot_by_iccid bays iccid =
     (case find_last (\<lambda>b. b_current_iccid b = iccid \<and> b_slot_number b \<noteq> None)
         (filter (\<lambda>b. b_current_iccid b \<noteq> []) bays) of
        None \<Rightarrow> None | Some b \<Rightarrow> b_slot_number b)"

definition slot_of_modem :: "modem_bay list \<Rightarrow> modem \<Rightarrow> int option" where
  "slot_of_modem bays m =
     (case slot_by_iccid bays (m_iccid m) of None \<Rightarrow> m_slot_number m | Some n \<Rightarrow> Some n)"

definition status_of :: "balance_config \<Rightarrow> modem_bay list \<Rightarrow> modem \<Rightarrow> balance_snapshot list \<Rightarrow> status_item" where
  "status_of cfg bays m snaps =
     (let r = evaluate \<lparr> in_has_balance = (m_balance_updated_at m \<noteq> None), in_vnd = m_balance_vnd m,
                in_sim_threshold = m_low_balance_vnd m,
                in_points = map (\<lambda>s. \<lparr> pt_at = bs_read_at s, pt_vnd = bs_balance_vnd s \<rparr>) snaps \<rparr>
              \<lparr> ec_low_threshold = bc_low_threshold cfg, ec_forecast_days = bc_forecast_days cfg \<rparr>
      in \<lparr> it_iccid = m_iccid m, it_phone_number = m_phone_number m,
           it_slot_number = slot_of_modem bays m, it_balance_vnd = m_balance_vnd m,
           it_balance_updated_at = m_balance_updated_at m, it_threshold_vnd = er_threshold r,
           it_threshold_source = er_threshold_source r, it_days_left = er_days_left r,
           it_level = er_level r, it_snapshots = snaps \<rparr>)"

text \<open>The alert of one SIM: not sent again within a day, not sent when it cannot be recorded.\<close>

definition send_balance_alert :: "faults \<Rightarrow> clock \<Rightarrow> status_item \<Rightarrow> world \<Rightarrow> world" where
  "send_balance_alert faults clk item w =
     (if it_level item \<noteq> level_low \<and> it_level item \<noteq> level_forecast then w
      else
        case balance_alerted_within faults (it_iccid item) (world_now clk w) (24 * hour_ns) (wd_db w) of
          Inl e \<Rightarrow> tick w
        | Inr True \<Rightarrow> tick w
        | Inr False \<Rightarrow>
            let w1 = tick w;
                a = \<lparr> ba_iccid = it_iccid item, ba_kind = it_level item, ba_balance_vnd = it_balance_vnd item,
                      ba_days_left = it_days_left item, ba_sent_at = world_now clk w1 \<rparr>;
                w2 = tick w1
            in (case add_balance_alert faults a (wd_db w2) of
                  Inl e \<Rightarrow> w2
                | Inr db \<Rightarrow> dispatch_text (it_iccid item) (alert_text item) (w2\<lparr>wd_db := db\<rparr>)))"

definition collect_one ::
  "faults \<Rightarrow> clock \<Rightarrow> balance_config \<Rightarrow> bool \<Rightarrow> modem_bay list \<Rightarrow> modem \<Rightarrow> world
     \<Rightarrow> world \<times> status_item result" where
  "collect_one faults clk cfg write bays m w =
     (case recent_snapshots faults (m_iccid m) 7 (wd_db w) of
        Inl e \<Rightarrow> (w, Inl e)
      | Inr snaps \<Rightarrow>
          let item = status_of cfg bays m snaps
          in (if write then send_balance_alert faults clk item w else w, Inr item))"

definition balance_collect ::
  "faults \<Rightarrow> clock \<Rightarrow> balance_config \<Rightarrow> bool \<Rightarrow> world \<Rightarrow> world \<times> status_item list result" where
  "balance_collect faults clk cfg write w =
     (case db_call faults ''balance.modems'' (modems_by_slot (t_modems (wd_db w))) of
        Inl e \<Rightarrow> (w, Inl e)
      | Inr ms \<Rightarrow>
          (case db_call faults ''balance.bays'' (t_bays (wd_db w)) of
             Inl e \<Rightarrow> (w, Inl e)
           | Inr bays \<Rightarrow> each_item (collect_one faults clk cfg write bays) ms w))"

definition balance_evaluate where
  "balance_evaluate faults clk cfg w = balance_collect faults clk cfg True w"

definition balance_status where
  "balance_status faults clk cfg w = balance_collect faults clk cfg False w"

subsection \<open>Reading the balances\<close>

text \<open>
  \<open>eligible\<close>: the workers whose modem is online and registered, unless forced without those
  whose balance was read in the last 20 hours. A worker is represented by its runtime state.
\<close>

definition eligible ::
  "faults \<Rightarrow> bool \<Rightarrow> gtime \<Rightarrow> database \<Rightarrow> runtime_modem option list \<Rightarrow> runtime_modem list" where
  "eligible faults force now db ws =
     List.map_filter (\<lambda>w.
       case w of
         None \<Rightarrow> None
       | Some rt \<Rightarrow>
           if rt_status rt \<noteq> ''online'' \<or> \<not> registered (rt_registration rt) then None
           else if \<not> force \<and>
             (case db_call faults (''balance.eligible:'' @ rt_iccid rt) (find_modem db (rt_iccid rt)) of
                Inr (Some m) \<Rightarrow>
                  (case m_balance_updated_at m of None \<Rightarrow> False
                   | Some t \<Rightarrow> time_add now (- (20 * hour_ns)) < t)
              | _ \<Rightarrow> False)
           then None
           else Some rt) ws"

text \<open>
  \<open>Request\<close>: the answer of every worker is given (\<open>None\<close> is success), and whether the stop
  channel is closed before the \<open>i\<close>-th worker; the first is asked without waiting.
\<close>

fun request_loop :: "(nat \<Rightarrow> bool) \<Rightarrow> nat \<Rightarrow> string option list \<Rightarrow> nat \<Rightarrow> nat" where
  "request_loop stop i [] n = n"
| "request_loop stop i (r # rs) n =
     (if i > 0 \<and> stop i then n
      else request_loop stop (Suc i) rs (if r = None then Suc n else n))"

definition request_balances :: "(nat \<Rightarrow> bool) \<Rightarrow> string option list \<Rightarrow> nat" where
  "request_balances stop rs = request_loop stop 0 rs 0"

definition next_check :: "int \<Rightarrow> gtime \<Rightarrow> int \<Rightarrow> gtime" where
  "next_check tz now hour = next_at_hour tz now hour"

text \<open>
  \<open>Run\<close> as a state machine: it waits for the daily timer (or, once, the initial one), and after
  reading for a quarter of an hour.
\<close>

datatype sched_state = Waiting | Reading | Ended

datatype sched_event = StopClosed | InitialTimer | DailyTimer | AfterTimer

datatype sched_action = ActReadAll | ActEvaluate

fun sched_step :: "bool \<Rightarrow> sched_state \<Rightarrow> sched_event \<Rightarrow> sched_state \<times> sched_action list" where
  "sched_step enabled Waiting StopClosed = (Ended, [])"
| "sched_step enabled Waiting InitialTimer = (Waiting, [ActEvaluate])"
| "sched_step enabled Waiting DailyTimer = (if enabled then (Reading, [ActReadAll]) else (Waiting, [ActEvaluate]))"
| "sched_step enabled Reading StopClosed = (Ended, [])"
| "sched_step enabled Reading AfterTimer = (Waiting, [ActEvaluate])"
| "sched_step enabled s e = (s, [])"

fun sched_run :: "bool \<Rightarrow> sched_state \<Rightarrow> sched_event list \<Rightarrow> sched_state \<times> sched_action list" where
  "sched_run enabled s [] = (s, [])"
| "sched_run enabled s (e # es) =
     (let (s', acts) = sched_step enabled s e; (s'', acts') = sched_run enabled s' es
      in (s'', acts @ acts'))"

lemma sched_ended: "sched_run enabled Ended es = (Ended, [])"
  by (induction es) (simp_all split: sched_event.split)

end
