(* ===== verification/Balance_Properties.thy ===== *)
theory Balance_Properties
  imports Balance
begin

text \<open>
  What the balance component guarantees: the regression recovers the rate of an exactly linear
  decline and ignores everything before the last top-up, the level follows from balance, threshold
  and forecast, an amount is printed in groups of three digits, and no SIM is alerted twice within
  a day however often the scheduler evaluates.
\<close>

subsection \<open>Regression\<close>

lemma sum_list_linear: "sum_list (map (\<lambda>x. a - b * f x) p) = of_nat (length p) * a - b * sum_list (map f p)"
  for a b :: rat
  by (induction p) (simp_all add: algebra_simps)

lemma sum_list_sq_zero:
  fixes m :: rat
  assumes "sum_list (map (\<lambda>x. (x - m) * (x - m)) t) = 0" "x \<in> set t"
  shows "x = m"
proof -
  have "\<forall>y \<in> set (map (\<lambda>x. (x - m) * (x - m)) t). y = 0"
    using assms(1) by (subst sum_list_nonneg_eq_0_iff [symmetric]) auto
  with assms(2) show ?thesis by auto
qed

lemma sum_list_sq_nonneg:
  fixes m :: rat
  shows "0 \<le> sum_list (map (\<lambda>x. (x - m) * (x - m)) t)"
  by (rule sum_list_nonneg) auto

text \<open>The slope of points on the line \<open>a - b t\<close> is \<open>-b\<close>.\<close>

lemma regression_linear:
  fixes a b :: rat
  assumes "2 \<le> length p" "24 * hour_ns \<le> time_sub (pt_at (last p)) (pt_at (hd p))" "0 < b"
    and v: "\<forall>x \<in> set p. of_int (pt_vnd x) = a - b * days_after (pt_at (hd p)) x"
  shows "regression_forecast p = Some (max 0 (of_int (pt_vnd (last p)) / b))"
proof -
  let ?t = "map (days_after (pt_at (hd p))) p"
  let ?n = "of_nat (length p) :: rat"
  let ?mt = "sum_list ?t / ?n"
  define vart where "vart = sum_list (map (\<lambda>x. (x - ?mt) * (x - ?mt)) ?t)"
  have n: "?n \<noteq> 0" using assms(1) by auto
  have vs: "map (\<lambda>pt. rat_of_int (pt_vnd pt)) p = map (\<lambda>x. a - b * days_after (pt_at (hd p)) x) p"
    using v by simp
  have mv: "sum_list (map (\<lambda>x. a - b * days_after (pt_at (hd p)) x) p) / ?n = a - b * ?mt"
    using n by (simp add: sum_list_linear field_simps)
  have "sum_list (map2 (\<lambda>x y. (x - ?mt) * (y - (a - b * ?mt))) ?t (map (\<lambda>x. a - b * days_after (pt_at (hd p)) x) p))
      = sum_list (map (\<lambda>x. (x - ?mt) * (a - b * x - (a - b * ?mt))) ?t)"
    by (simp add: zip_map_map zip_same_conv_map comp_def)
  also have "\<dots> = sum_list (map (\<lambda>x. (- b) * ((x - ?mt) * (x - ?mt))) ?t)"
  proof -
    have "(x - m) * (a - b * x - (a - b * m)) = (- b) * ((x - m) * (x - m))" for x m :: rat
      by (simp add: algebra_simps)
    then show ?thesis by (simp only:)
  qed
  also have "\<dots> = - b * vart"
    unfolding vart_def by (rule sum_list_const_mult)
  finally have cov: "sum_list (map2 (\<lambda>x y. (x - ?mt) * (y - (a - b * ?mt))) ?t
      (map (\<lambda>x. a - b * days_after (pt_at (hd p)) x) p)) = - b * vart" .
  have p: "p \<noteq> []" using assms(1) by auto
  have "days_after (pt_at (hd p)) (hd p) \<noteq> days_after (pt_at (hd p)) (last p)"
    using assms(2) by (auto simp: days_after_def time_sub_def go_time min_int64_def max_int64_def)
  with p have "vart \<noteq> 0"
    using sum_list_sq_zero [of ?mt ?t "days_after (pt_at (hd p)) (hd p)"]
      sum_list_sq_zero [of ?mt ?t "days_after (pt_at (hd p)) (last p)"]
    by (auto simp: vart_def)
  moreover from this have "0 < vart" using sum_list_sq_nonneg [of ?mt ?t] by (simp add: vart_def)
  ultimately show ?thesis
    using assms(1-3) unfolding regression_forecast_def Let_def vs mv cov vart_def [symmetric]
    by (auto simp: max_def divide_less_0_iff zero_le_divide_iff not_less)
qed

lemma cut_topup_none:
  assumes "\<And>j. j < i \<Longrightarrow> pt_vnd (p ! Suc j) \<le> pt_vnd (p ! j)"
  shows "cut_topup p i = p"
  using assms
proof (induction i)
  case (Suc i)
  have "cut_topup p i = p" by (rule Suc.IH) (simp add: Suc.prems)
  moreover have "\<not> pt_vnd (p ! i) < pt_vnd (p ! Suc i)"
    using Suc.prems [of i] by simp
  ultimately show ?case by simp
qed simp

lemma cut_topup_last:
  assumes "k \<le> i" "0 < k" "\<And>j. k \<le> j \<Longrightarrow> j < i \<Longrightarrow> pt_vnd (p ! Suc j) \<le> pt_vnd (p ! j)"
    and "pt_vnd (p ! k) > pt_vnd (p ! (k - 1))"
  shows "cut_topup p i = drop k p"
  using assms
proof (induction i)
  case (Suc i)
  show ?case
  proof (cases "k = Suc i")
    case True
    with Suc.prems(4) show ?thesis by simp
  next
    case False
    with Suc.prems(1) have k: "k \<le> i" by simp
    have "cut_topup p i = drop k p"
      by (rule Suc.IH [OF k Suc.prems(2) _ Suc.prems(4)]) (simp add: Suc.prems(3))
    moreover have "\<not> pt_vnd (p ! i) < pt_vnd (p ! Suc i)"
      using Suc.prems(3) [of i] k by simp
    ultimately show ?thesis by simp
  qed
qed simp

text \<open>
  When the last readings lie on a falling line (at least two and at most seven, over at least a
  day, in the order of time), the forecast is the balance divided by the daily rate.
\<close>

theorem forecast_linear_decline:
  fixes a b :: rat
  assumes "2 \<le> length p" "length p \<le> 7" "sorted (map pt_at p)" "0 < b"
    and "24 * hour_ns \<le> time_sub (pt_at (last p)) (pt_at (hd p))"
    and "\<forall>x \<in> set p. of_int (pt_vnd x) = a - b * days_after (pt_at (hd p)) x"
  shows "forecast p = Some (max 0 (of_int (pt_vnd (last p)) / b))"
proof -
  have "pt_vnd (p ! Suc j) \<le> pt_vnd (p ! j)" if "j < length p - 1" for j
  proof -
    have "pt_at (p ! j) \<le> pt_at (p ! Suc j)"
      using assms(3) that by (simp add: sorted_iff_nth_mono)
    then have "days_after (pt_at (hd p)) (p ! j) \<le> days_after (pt_at (hd p)) (p ! Suc j)"
      using time_sub_mono by (simp add: days_after_def divide_right_mono less_imp_le)
    then have "(of_int (pt_vnd (p ! Suc j)) :: rat) \<le> of_int (pt_vnd (p ! j))"
      using assms(4,6) that by (simp add: mult_left_mono)
    then show ?thesis by simp
  qed
  moreover have "sort_key pt_at p = p"
    using assms(3) by (simp add: sorted_sort_id sort_key_id_if_sorted)
  ultimately have "forecast_segment p = p"
    using assms(2) by (simp add: forecast_segment_def last_seven_def cut_topup_none)
  with regression_linear [OF assms(1,5,4,6)] show ?thesis
    by (simp add: forecast_def)
qed

theorem forecast_linear_decline_witness:
  "forecast [\<lparr> pt_at = 0, pt_vnd = 9000 \<rparr>, \<lparr> pt_at = day_ns, pt_vnd = 7000 \<rparr>, \<lparr> pt_at = 3 * day_ns, pt_vnd = 3000 \<rparr>]
     = Some (3 / 2)"
  using forecast_linear_decline [of "[\<lparr> pt_at = 0, pt_vnd = 9000 \<rparr>, \<lparr> pt_at = day_ns, pt_vnd = 7000 \<rparr>,
      \<lparr> pt_at = 3 * day_ns, pt_vnd = 3000 \<rparr>]" 2000 9000]
  by (simp add: days_after_def time_sub_def go_time min_int64_def max_int64_def)

text \<open>
  Readings before the last top-up do not influence the forecast: when the balance rises from the
  last of \<open>xs\<close> to \<open>y\<close> and does not rise afterwards, the forecast is that of \<open>y # ys\<close> alone.
\<close>

theorem forecast_ignores_before_topup:
  assumes "sorted (map pt_at (xs @ y # ys))" "length (xs @ y # ys) \<le> 7" "xs \<noteq> []"
    and "pt_vnd (last xs) < pt_vnd y"
    and "sorted_wrt (\<lambda>p q. pt_vnd q \<le> pt_vnd p) (y # ys)"
  shows "forecast (xs @ y # ys) = forecast (y # ys)"
proof -
  let ?p = "xs @ y # ys"
  have "sorted (map pt_at (y # ys))" using assms(1) by (simp add: sorted_append)
  with assms(1) have s: "sort_key pt_at ?p = ?p" "sort_key pt_at (y # ys) = y # ys"
    by (blast intro: sort_key_id_if_sorted)+
  have d: "pt_vnd ((y # ys) ! Suc j) \<le> pt_vnd ((y # ys) ! j)" if "Suc j < length (y # ys)" for j
    using sorted_wrt_nth_less [OF assms(5), of j "Suc j"] that by simp
  have "forecast_segment ?p = cut_topup ?p (length ?p - 1)"
    using assms(2) by (simp add: forecast_segment_def last_seven_def s del: append_Cons)
  also have "\<dots> = drop (length xs) ?p"
  proof (rule cut_topup_last)
    fix j assume "length xs \<le> j" "j < length ?p - 1"
    then show "pt_vnd (?p ! Suc j) \<le> pt_vnd (?p ! j)"
      using d [of "j - length xs"] by (simp add: nth_append Suc_diff_le del: nth_Cons_Suc)
  next
    show "pt_vnd (?p ! length xs) > pt_vnd (?p ! (length xs - 1))"
      using assms(3,4) by (simp add: nth_append last_conv_nth)
  qed (use assms(3) in simp_all)
  also have "\<dots> = forecast_segment (y # ys)"
  proof -
    have "cut_topup (y # ys) (length ys) = y # ys"
      using d by (intro cut_topup_none) auto
    with assms(2) s show ?thesis by (simp add: forecast_segment_def last_seven_def)
  qed
  finally show ?thesis by (simp add: forecast_def)
qed

theorem forecast_ignores_before_topup_witness:
  "forecast [\<lparr> pt_at = 0, pt_vnd = 100 \<rparr>, \<lparr> pt_at = day_ns, pt_vnd = 9000 \<rparr>, \<lparr> pt_at = 2 * day_ns, pt_vnd = 7000 \<rparr>]
     = forecast [\<lparr> pt_at = day_ns, pt_vnd = 9000 \<rparr>, \<lparr> pt_at = 2 * day_ns, pt_vnd = 7000 \<rparr>]"
  using forecast_ignores_before_topup [of "[\<lparr> pt_at = 0, pt_vnd = 100 \<rparr>]" "\<lparr> pt_at = day_ns, pt_vnd = 9000 \<rparr>"
      "[\<lparr> pt_at = 2 * day_ns, pt_vnd = 7000 \<rparr>]"]
  by (simp add: go_time)

subsection \<open>Levels and amounts\<close>

text \<open>
  the level of a SIM: unknown without a reading; low when the balance is below the threshold of
  the SIM (or, when it has none, of the configuration), whatever the forecast says; otherwise
  forecast when the money is expected to last at most the configured number of days; otherwise ok.
  The forecast is reported whenever there is one.
\<close>

theorem evaluate_level:
  "er_level (evaluate inp cfg) =
     (let th = (case in_sim_threshold inp of None \<Rightarrow> ec_low_threshold cfg | Some t \<Rightarrow> t)
      in if \<not> in_has_balance inp then ''unknown''
         else if in_vnd inp < th then ''low''
         else case forecast (in_points inp) of
             None \<Rightarrow> ''ok''
           | Some d \<Rightarrow> if d \<le> of_int (ec_forecast_days cfg) then ''forecast'' else ''ok'') \<and>
   er_threshold (evaluate inp cfg) =
     (case in_sim_threshold inp of None \<Rightarrow> ec_low_threshold cfg | Some t \<Rightarrow> t) \<and>
   er_days_left (evaluate inp cfg) = (if in_has_balance inp then forecast (in_points inp) else None)"
  by (auto simp: evaluate_def Let_def level_defs split: option.split)

lemma dot_loop_groups:
  assumes "length u = i"
  shows "\<exists>gs. dot_loop i (u @ r) = concat (map (\<lambda>g. g @ ''.'') gs) @ r \<and> concat gs = u \<and>
    (gs = [] \<longleftrightarrow> u = []) \<and> list_all (\<lambda>g. length g = 3) (tl gs) \<and>
    (gs \<noteq> [] \<longrightarrow> 1 \<le> length (hd gs) \<and> length (hd gs) \<le> 3)"
  using assms
proof (induction i arbitrary: u r rule: less_induct)
  case (less i)
  show ?case
  proof (cases "i = 0")
    case True
    with less.prems show ?thesis
      by (intro exI [of _ "[]"]) (simp add: dot_loop.simps)
  next
    case False
    let ?v = "take (i - 3) u" and ?g = "drop (i - 3) u"
    have r: "dot_loop i (u @ r) = dot_loop (i - 3) (?v @ (?g @ ''.'' @ r))"
      using False less.prems
      by (subst dot_loop.simps) (simp add: append_assoc [symmetric] del: append_assoc)
    obtain gs where gs: "dot_loop (i - 3) (?v @ (?g @ ''.'' @ r)) = concat (map (\<lambda>g. g @ ''.'') gs) @ ?g @ ''.'' @ r"
      "concat gs = ?v" "gs = [] \<longleftrightarrow> ?v = []" "list_all (\<lambda>g. length g = 3) (tl gs)"
      "gs \<noteq> [] \<longrightarrow> 1 \<le> length (hd gs) \<and> length (hd gs) \<le> 3"
      using less.IH [of "i - 3" ?v "?g @ ''.'' @ r"] False less.prems by auto
    have l: "length ?g = (if gs = [] then i else 3)" "gs = [] \<Longrightarrow> i \<le> 3"
      using gs(3) less.prems False by auto
    have c: "concat (gs @ [?g]) = u" using gs(2) by simp
    have h: "1 \<le> length (hd (gs @ [?g])) \<and> length (hd (gs @ [?g])) \<le> 3"
      "list_all (\<lambda>g. length g = 3) (tl (gs @ [?g]))"
      using gs(4,5) l False by (cases gs; simp)+
    show ?thesis
      using r gs(1) c h False less.prems by (intro exI [of _ "gs @ [?g]"]) auto
  qed
qed

text \<open>
  an amount is printed as its decimal digits in groups of three, separated by dots, the first
  group having one to three digits, with a minus sign in front when it is negative.
\<close>

theorem fmt_vnd_groups:
  "\<exists>groups. fmt_vnd v = (if v < 0 then ''-'' else []) @ join_with ''.'' groups \<and>
     concat groups = show_nat (nat \<bar>v\<bar>) \<and> groups \<noteq> [] \<and>
     1 \<le> length (hd groups) \<and> length (hd groups) \<le> 3 \<and> list_all (\<lambda>g. length g = 3) (tl groups)"
proof -
  let ?s = "show_nat (nat \<bar>v\<bar>)"
  let ?i = "length ?s - 3"
  have f: "fmt_vnd v = (if v < 0 then ''-'' else []) @ dot_loop ?i ?s"
    by (auto simp: fmt_vnd_def go_itoa_def Let_def)
  obtain gs where gs: "dot_loop ?i (take ?i ?s @ drop ?i ?s) = concat (map (\<lambda>g. g @ ''.'') gs) @ drop ?i ?s"
    "concat gs = take ?i ?s" "gs = [] \<longleftrightarrow> take ?i ?s = []" "list_all (\<lambda>g. length g = 3) (tl gs)"
    "gs \<noteq> [] \<longrightarrow> 1 \<le> length (hd gs) \<and> length (hd gs) \<le> 3"
    using dot_loop_groups [of "take ?i ?s" ?i "drop ?i ?s"] by auto
  have j: "concat (map (\<lambda>g. g @ ''.'') gs) @ r = join_with ''.'' (gs @ [r])" for r
  proof (induction gs)
    case (Cons g gs)
    then show ?case by (cases gs) auto
  qed simp
  have l: "length (drop ?i ?s) = (if gs = [] then length ?s else 3)" "gs = [] \<Longrightarrow> length ?s \<le> 3" "?s \<noteq> []"
    using gs(3) show_nat_digits [of "nat \<bar>v\<bar>"] by auto
  have c: "concat (gs @ [drop ?i ?s]) = ?s" using gs(2) by simp
  have h: "1 \<le> length (hd (gs @ [drop ?i ?s])) \<and> length (hd (gs @ [drop ?i ?s])) \<le> 3"
    "list_all (\<lambda>g. length g = 3) (tl (gs @ [drop ?i ?s]))"
    using gs(4,5) l by (cases gs; simp add: Suc_le_eq)+
  show ?thesis
    using f gs(1) j [of "drop ?i ?s"] c h by (intro exI [of _ "gs @ [drop ?i ?s]"]) simp
qed

subsection \<open>Alerts are not repeated\<close>

text \<open>One evaluation of a SIM is a guarded alert of the log, or leaves the log alone.\<close>

lemma send_balance_alert_log:
  assumes "monotone_clock clk"
  shows "ba_sent (t_balance_alerts (wd_db (send_balance_alert faults clk item w))) =
      ba_sent (t_balance_alerts (wd_db w)) \<or>
    (\<exists>checked a. checked \<le> ba_sent_at a \<and>
      wd_db (send_balance_alert faults clk item w) = balance_log.try_alert (24 * hour_ns) checked a (wd_db w))"
proof (cases "balance_alerted_within faults (it_iccid item) (world_now clk w) (24 * hour_ns) (wd_db w)")
  case (Inl e)
  then show ?thesis by (simp add: send_balance_alert_def)
next
  case (Inr already)
  show ?thesis
  proof (cases "already \<or> (it_level item \<noteq> level_low \<and> it_level item \<noteq> level_forecast)")
    case True
    with Inr show ?thesis by (auto simp: send_balance_alert_def)
  next
    case False
    let ?a = "\<lparr> ba_iccid = it_iccid item, ba_kind = it_level item, ba_balance_vnd = it_balance_vnd item,
                ba_days_left = it_days_left item, ba_sent_at = world_now clk (tick w) \<rparr>"
    have n: "\<not> ba_within (t_balance_alerts (wd_db w)) (it_iccid item) (world_now clk w - 24 * hour_ns)"
      using Inr False by (auto simp: balance_alerted_within_def db_call_Inr_iff time_add_def)
    have le: "world_now clk w \<le> world_now clk (tick w)"
      using assms by (simp add: world_now_def monotone_clock_def)
    show ?thesis
    proof (cases "add_balance_alert faults ?a (wd_db (tick (tick w)))")
      case (Inl e)
      with Inr False show ?thesis by (auto simp: send_balance_alert_def Let_def)
    next
      case added: (Inr db)
      then have "db = (wd_db w)\<lparr>t_balance_alerts := t_balance_alerts (wd_db w) @ [?a]\<rparr>"
        by (simp add: add_balance_alert_def db_call_Inr_iff)
      with Inr False added n le show ?thesis
        by (intro disjI2 exI [of _ "world_now clk w"] exI [of _ ?a])
          (auto simp: send_balance_alert_def Let_def balance_log.try_alert_def)
    qed
  qed
qed

lemma balance_collect_spaced:
  assumes "monotone_clock clk" "spaced (24 * hour_ns) (ba_sent (t_balance_alerts (wd_db w)) iccid)"
  shows "spaced (24 * hour_ns)
    (ba_sent (t_balance_alerts (wd_db (fst (balance_collect faults clk cfg write w)))) iccid)"
proof -
  let ?P = "\<lambda>w. spaced (24 * hour_ns) (ba_sent (t_balance_alerts (wd_db w)) iccid)"
  have send: "?P (send_balance_alert faults clk item w)" if "?P w" for item w
    using send_balance_alert_log [OF assms(1), of faults item w]
  proof (elim disjE exE conjE)
    fix checked a
    assume "checked \<le> ba_sent_at a"
      "wd_db (send_balance_alert faults clk item w) = balance_log.try_alert (24 * hour_ns) checked a (wd_db w)"
    then show ?thesis
      using balance_log.try_alert_spaced [OF that, of checked a] by simp
  qed (use that in simp)
  have step: "?P (fst (collect_one faults clk cfg write bays m w))" if "?P w" for bays m w
    using that send by (simp add: collect_one_def Let_def split: sum.split)
  have "?P (fst (each_item (collect_one faults clk cfg write bays) ms w))" for bays ms
    by (rule each_item_inv [where P = ?P]) (use assms(2) step in auto)
  with assms(2) show ?thesis
    by (auto simp: balance_collect_def split: sum.split)
qed

text \<open>
  C14: however often the scheduler evaluates, and whichever database calls fail, two balance alerts
  of one SIM are always more than 24 hours apart, provided the clock does not run backwards.
\<close>

theorem balance_alerts_spaced:
  assumes "monotone_clock clk" "spaced (24 * hour_ns) (ba_sent (t_balance_alerts (wd_db w)) iccid)"
  shows "spaced (24 * hour_ns) (ba_sent (t_balance_alerts (wd_db
    (fold (\<lambda>(faults, cfg) w. fst (balance_evaluate faults clk cfg w)) runs w))) iccid)"
  using assms(2)
proof (induction runs arbitrary: w)
  case (Cons r rs)
  then show ?case
    using balance_collect_spaced [OF assms(1)] by (cases r) (simp add: balance_evaluate_def)
qed simp

theorem balance_alerts_spaced_witness:
  "spaced (24 * hour_ns) (ba_sent (t_balance_alerts (wd_db
     (fold (\<lambda>(faults, cfg) w. fst (balance_evaluate faults (\<lambda>n. int n * hour_ns) cfg w))
       [(no_faults, c_balance viper_defaults), (no_faults, c_balance viper_defaults)]
       \<lparr> wd_db = empty_db\<lparr>t_modems := [(new_modem ''c1'')\<lparr>m_balance_vnd := 500, m_balance_updated_at := Some 0\<rparr>],
           t_balance_alerts := [\<lparr> ba_iccid = ''c1'', ba_kind = ''low'', ba_balance_vnd = 900,
              ba_days_left = None, ba_sent_at = -1 \<rparr>]\<rparr>,
         wd_tick = 0, wd_texts = [], wd_sms = [] \<rparr>))) ''c1'')"
  by (rule balance_alerts_spaced) (simp_all add: monotone_clock_def go_time spaced_def ba_sent_def)

end
