(* ===== verification/Sim_Repository.thy ===== *)
theory Sim_Repository
  imports Runtime
begin

text \<open>
  \<open>internal/repository/modem_repo.go\<close>, \<open>sms_repo.go\<close> and \<open>webhook_repo.go\<close>: the rows of
  SIMs, their messages and their webhooks.
\<close>

subsection \<open>Modems\<close>

text \<open>\<open>Upsert\<close>: a new ICCID gets a row; an existing row only takes over the IMEI.\<close>

definition upsert_modem :: "faults \<Rightarrow> modem \<Rightarrow> database \<Rightarrow> database result" where
  "upsert_modem faults m db =
     db_call faults ''modem.upsert''
       (db\<lparr>t_modems :=
          (if find_modem db (m_iccid m) = None then t_modems db @ [m]
           else update_where (\<lambda>x. m_iccid x = m_iccid m) (\<lambda>x. x\<lparr>m_imei := m_imei m\<rparr>) (t_modems db))\<rparr>)"

definition find_by_iccid :: "faults \<Rightarrow> string \<Rightarrow> database \<Rightarrow> modem result" where
  "find_by_iccid faults iccid db =
     and_then (db_call faults ''modem.find'' (find_modem db iccid)) (\<lambda>r.
     case r of None \<Rightarrow> Inl err_record_not_found | Some m \<Rightarrow> Inr m)"

definition update_modem_row :: "string \<Rightarrow> (modem \<Rightarrow> modem) \<Rightarrow> database \<Rightarrow> database" where
  "update_modem_row iccid f db = db\<lparr>t_modems := update_where (\<lambda>m. m_iccid m = iccid) f (t_modems db)\<rparr>"

definition update_balance :: "faults \<Rightarrow> string \<Rightarrow> int \<Rightarrow> gtime \<Rightarrow> database \<Rightarrow> database result" where
  "update_balance faults iccid v now db =
     db_call faults ''modem.balance''
       (update_modem_row iccid (\<lambda>m. m\<lparr>m_balance_vnd := v, m_balance_updated_at := Some now\<rparr>) db)"

text \<open>\<open>UpdatePlanInfo\<close>: only the fields the message of the network had are overwritten.\<close>

definition apply_plan_info :: "plan_info \<Rightarrow> gtime \<Rightarrow> modem \<Rightarrow> modem" where
  "apply_plan_info p now m =
     (let m0 = m\<lparr>m_plan_updated_at := Some now, m_plan_raw := pi_raw p\<rparr>;
          m1 = (if pi_plan_expires_at p \<noteq> None then m0\<lparr>m_plan_expires_at := pi_plan_expires_at p\<rparr> else m0);
          m2 = (if pi_free_minutes p \<noteq> None
                then m1\<lparr>m_free_minutes := pi_free_minutes p,
                        m_free_minutes_expires_at := pi_free_minutes_expires_at p\<rparr> else m1);
          m3 = (if pi_free_sms p \<noteq> None
                then m2\<lparr>m_free_sms := pi_free_sms p, m_free_sms_expires_at := pi_free_sms_expires_at p\<rparr> else m2)
      in if pi_data_mb p \<noteq> None then m3\<lparr>m_data_mb := pi_data_mb p\<rparr> else m3)"

definition update_plan_info :: "faults \<Rightarrow> string \<Rightarrow> plan_info \<Rightarrow> gtime \<Rightarrow> database \<Rightarrow> database result" where
  "update_plan_info faults iccid p now db =
     db_call faults ''modem.plan'' (update_modem_row iccid (apply_plan_info p now) db)"

definition touch_registered :: "faults \<Rightarrow> string \<Rightarrow> gtime \<Rightarrow> database \<Rightarrow> database result" where
  "touch_registered faults iccid now db =
     db_call faults ''modem.touch'' (update_modem_row iccid (\<lambda>m. m\<lparr>m_last_registered_at := Some now\<rparr>) db)"

definition set_first_seen_if_null :: "faults \<Rightarrow> string \<Rightarrow> gtime \<Rightarrow> database \<Rightarrow> database result" where
  "set_first_seen_if_null faults iccid now db =
     db_call faults ''modem.first_seen''
       (db\<lparr>t_modems := update_where (\<lambda>m. m_iccid m = iccid \<and> m_first_seen_at m = None)
             (\<lambda>m. m\<lparr>m_first_seen_at := Some now\<rparr>) (t_modems db)\<rparr>)"

text \<open>\<open>LastReceivedSMSAt\<close> and \<open>LastActivityAll\<close>: the row with the greatest id of each SIM.\<close>

definition last_received_sms_at :: "database \<Rightarrow> string \<Rightarrow> gtime option" where
  "last_received_sms_at db iccid =
     map_option s_created_at (find_last (\<lambda>s. s_type s = ''received'' \<and> s_iccid s = iccid) (t_sms db))"

definition last_activity :: "database \<Rightarrow> string \<Rightarrow> gtime option" where
  "last_activity db iccid = map_option s_created_at (find_last (\<lambda>s. s_iccid s = iccid) (t_sms db))"

text \<open>\<open>SetPhoneNumber\<close>: the new number and the history entry in one transaction.\<close>

definition set_phone_number ::
  "faults \<Rightarrow> string \<Rightarrow> string \<Rightarrow> string \<Rightarrow> gtime \<Rightarrow> database \<Rightarrow> (database \<times> bool) result" where
  "set_phone_number faults iccid phone source now db =
     and_then (db_call faults ''phone.first'' (find_modem db iccid)) (\<lambda>r.
     case r of
       None \<Rightarrow> Inl err_record_not_found
     | Some m \<Rightarrow>
         if m_phone_number m = phone then Inr (db, False)
         else
           and_then (db_call faults ''phone.update''
                       (update_modem_row iccid (\<lambda>m. m\<lparr>m_phone_number := phone\<rparr>) db)) (\<lambda>db1.
           db_call faults ''phone.history''
             (db1\<lparr>t_phone_history := t_phone_history db1 @
                [\<lparr> h_iccid = iccid, h_old_phone = m_phone_number m, h_new_phone = phone,
                   h_source = source, h_at = now \<rparr>]\<rparr>, True)))"

definition phone_history :: "faults \<Rightarrow> string \<Rightarrow> database \<Rightarrow> phone_number_history list result" where
  "phone_history faults iccid db =
     db_call faults ''phone.list'' (rev (filter (\<lambda>h. h_iccid h = iccid) (t_phone_history db)))"

subsection \<open>Messages\<close>

definition create_sms :: "faults \<Rightarrow> sms \<Rightarrow> database \<Rightarrow> database result" where
  "create_sms faults s db = db_call faults ''sms.create'' (db\<lparr>t_sms := t_sms db @ [s]\<rparr>)"

definition same_received :: "sms \<Rightarrow> sms \<Rightarrow> bool" where
  "same_received msg s \<longleftrightarrow> s_iccid s = s_iccid msg \<and> s_type s = ''received'' \<and> s_raw_pdu s = s_raw_pdu msg"

definition create_received_once :: "faults \<Rightarrow> sms \<Rightarrow> database \<Rightarrow> (database \<times> bool) result" where
  "create_received_once faults msg db =
     and_then (db_call faults ''sms.count'' (count_rows (same_received msg) (t_sms db))) (\<lambda>n.
     if n > 0 then Inr (db, False)
     else and_then (create_sms faults msg db) (\<lambda>db'. Inr (db', True)))"

definition sms_of_iccid :: "faults \<Rightarrow> string \<Rightarrow> database \<Rightarrow> sms list result" where
  "sms_of_iccid faults iccid db =
     db_call faults ''sms.find'' (newest_first s_timestamp (filter (\<lambda>s. s_iccid s = iccid) (t_sms db)))"

subsection \<open>Webhooks\<close>

definition create_webhook :: "faults \<Rightarrow> webhook \<Rightarrow> database \<Rightarrow> database result" where
  "create_webhook faults w db = db_call faults ''webhook.create'' (db\<lparr>t_webhooks := t_webhooks db @ [w]\<rparr>)"

definition webhooks_of_iccid :: "faults \<Rightarrow> string \<Rightarrow> database \<Rightarrow> webhook list result" where
  "webhooks_of_iccid faults iccid db =
     db_call faults ''webhook.find'' (filter (\<lambda>w. w_iccid w = iccid \<and> w_enabled w) (t_webhooks db))"

definition webhooks_enabled :: "faults \<Rightarrow> database \<Rightarrow> webhook list result" where
  "webhooks_enabled faults db = db_call faults ''webhook.all'' (filter w_enabled (t_webhooks db))"

subsection \<open>Received messages are stored once\<close>

definition received_key :: "sms \<Rightarrow> (string \<times> string) list" where
  "received_key s = (if s_type s = ''received'' then [(s_iccid s, s_raw_pdu s)] else [])"

definition received_keys :: "sms list \<Rightarrow> (string \<times> string) list" where
  "received_keys rows = concat (map received_key rows)"

lemma received_keys_simps [simp]:
  "received_keys [] = []" "received_keys (xs @ ys) = received_keys xs @ received_keys ys"
  "received_keys (s # ss) = received_key s @ received_keys ss"
  by (simp_all add: received_keys_def)

lemma count_same_received:
  "0 < count_rows (same_received msg) rows \<longleftrightarrow> (s_iccid msg, s_raw_pdu msg) \<in> set (received_keys rows)"
  by (induction rows) (auto simp: count_rows_Cons same_received_def received_key_def)

lemma create_received_once_result:
  assumes "create_received_once faults msg db = Inr (db', created)" "s_type msg = ''received''"
  shows "created = ((s_iccid msg, s_raw_pdu msg) \<notin> set (received_keys (t_sms db)))"
    and "t_sms db' = (if created then t_sms db @ [msg] else t_sms db)"
  using assms count_same_received [of msg "t_sms db"]
  by (auto simp: create_received_once_def create_sms_def and_then_Inr_iff db_call_Inr_iff split: if_splits)

lemma received_distinct:
  assumes "create_received_once faults msg db = Inr (db', created)" "s_type msg = ''received''"
    and "distinct (received_keys (t_sms db))"
  shows "distinct (received_keys (t_sms db'))"
    and "set (received_keys (t_sms db')) = insert (s_iccid msg, s_raw_pdu msg) (set (received_keys (t_sms db)))"
  using create_received_once_result [OF assms(1,2)] assms(2,3) by (auto simp: received_key_def)

fun offer_all :: "(faults \<times> sms) list \<Rightarrow> database \<Rightarrow> database" where
  "offer_all [] db = db"
| "offer_all ((faults, msg) # ms) db =
     (case create_received_once faults msg db of
        Inl e \<Rightarrow> offer_all ms db
      | Inr (db', _) \<Rightarrow> offer_all ms db')"

definition offered_key :: "faults \<times> sms \<Rightarrow> string \<times> string" where
  "offered_key m = (s_iccid (snd m), s_raw_pdu (snd m))"

text \<open>
  C16: a received message that is handed in again (after a failed deletion on the SIM card, say) is
  not stored again: whatever sequence of messages is offered, and whichever calls fail in between,
  no two rows have the same SIM and PDU, and every message that was offered successfully is there.
\<close>

theorem received_stored_once:
  assumes "list_all (\<lambda>m. s_type (snd m) = ''received'') ms" "distinct (received_keys (t_sms db))"
  shows "distinct (received_keys (t_sms (offer_all ms db))) \<and>
    set (received_keys (t_sms (offer_all ms db))) \<subseteq>
      set (received_keys (t_sms db)) \<union> offered_key ` set ms \<and>
    set (received_keys (t_sms db)) \<union> offered_key ` set (filter (\<lambda>m. fst m = no_faults) ms) \<subseteq>
      set (received_keys (t_sms (offer_all ms db)))"
  using assms
proof (induction ms arbitrary: db)
  case (Cons m ms)
  obtain faults msg where m: "m = (faults, msg)" by fastforce
  have ty: "s_type msg = ''received''" "list_all (\<lambda>m. s_type (snd m) = ''received'') ms"
    using Cons.prems(1) m by simp_all
  show ?case
  proof (cases "create_received_once faults msg db")
    case (Inl e)
    then have f: "faults \<noteq> no_faults"
      by (auto simp: create_received_once_def create_sms_def split: if_splits)
    from Inl m have o: "offer_all (m # ms) db = offer_all ms db" by simp
    show ?thesis
      unfolding o using Cons.IH [OF ty(2) Cons.prems(2)] f m by (simp; blast)
  next
    case (Inr r)
    obtain db' c where r: "r = (db', c)" by fastforce
    note d = received_distinct [OF Inr [unfolded r] ty(1) Cons.prems(2)]
    from Inr r m have o: "offer_all (m # ms) db = offer_all ms db'" by simp
    have k: "offered_key m = (s_iccid msg, s_raw_pdu msg)" by (simp add: offered_key_def m)
    have i: "set (received_keys (t_sms db')) = insert (offered_key m) (set (received_keys (t_sms db)))"
      using d(2) k by simp
    show ?thesis
      unfolding o using Cons.IH [OF ty(2) d(1)] i by (cases "fst m = no_faults"; simp; blast)
  qed
qed simp

theorem received_stored_once_witness:
  "let msg = \<lparr> s_iccid = ''c1'', s_phone = ''900'', s_content = ''hi'', s_timestamp = 4, s_type = ''received'',
       s_is_read = False, s_raw_pdu = ''07AB'', s_created_at = 5 \<rparr>
   in length (t_sms (offer_all [(no_faults, msg), (no_faults, msg)] empty_db)) = 1 \<and>
      distinct (received_keys (t_sms (offer_all [(no_faults, msg), (no_faults, msg)] empty_db)))"
  (is "let msg = ?m in _")
proof -
  have "distinct (received_keys (t_sms (offer_all [(no_faults, ?m), (no_faults, ?m)] empty_db)))"
    using received_stored_once [of "[(no_faults, ?m), (no_faults, ?m)]" empty_db] by (simp only: empty_db_def) simp
  moreover have "length (t_sms (offer_all [(no_faults, ?m), (no_faults, ?m)] empty_db)) = 1"
    by code_simp
  ultimately show ?thesis by simp
qed

subsection \<open>The history of a phone number\<close>

fun chained :: "string \<Rightarrow> phone_number_history list \<Rightarrow> string \<Rightarrow> bool" where
  "chained p [] q \<longleftrightarrow> p = q"
| "chained p (h # hs) q \<longleftrightarrow> h_old_phone h = p \<and> h_new_phone h \<noteq> p \<and> chained (h_new_phone h) hs q"

lemma find_update:
  "(\<And>x. k (f x) = k x) \<Longrightarrow>
   find (\<lambda>x. k x = j) (update_where (\<lambda>x. k x = i) f xs) =
     (if i = j then map_option f (find (\<lambda>x. k x = j) xs) else find (\<lambda>x. k x = j) xs)"
  by (induction xs) auto

lemma find_modem_update:
  "(\<And>m. m_iccid (f m) = m_iccid m) \<Longrightarrow>
   find_modem (update_modem_row i f db) j =
     (if i = j then map_option f (find_modem db j) else find_modem db j)"
  by (simp add: find_modem_def update_modem_row_def find_update)

lemma set_phone_number_history:
  assumes "set_phone_number faults iccid phone source now db = Inr (db', changed)"
    and "find_modem db c = Some m"
  shows "\<exists>hs m'. filter (\<lambda>h. h_iccid h = c) (t_phone_history db') =
      filter (\<lambda>h. h_iccid h = c) (t_phone_history db) @ hs \<and>
    find_modem db' c = Some m' \<and> chained (m_phone_number m) hs (m_phone_number m')"
proof (cases "changed")
  case False
  then have "db' = db"
    using assms by (auto simp: set_phone_number_def and_then_Inr_iff db_call_Inr_iff split: option.splits if_splits)
  with assms(2) show ?thesis by (intro exI [of _ "[]"] exI [of _ m]) simp
next
  case True
  with assms(1) obtain x where x: "find_modem db iccid = Some x" "m_phone_number x \<noteq> phone"
    and db': "db' = (update_modem_row iccid (\<lambda>m. m\<lparr>m_phone_number := phone\<rparr>) db)\<lparr>t_phone_history :=
       t_phone_history db @ [\<lparr> h_iccid = iccid, h_old_phone = m_phone_number x, h_new_phone = phone,
                   h_source = source, h_at = now \<rparr>]\<rparr>"
    by (auto simp: set_phone_number_def and_then_Inr_iff db_call_Inr_iff update_modem_row_def
        split: option.splits if_splits)
  have f: "find_modem db' j = find_modem (update_modem_row iccid (\<lambda>m. m\<lparr>m_phone_number := phone\<rparr>) db) j" for j
    by (simp add: db' find_modem_def)
  show ?thesis
  proof (cases "c = iccid")
    case True
    with x assms(2) show ?thesis
      by (intro exI [of _ "[\<lparr> h_iccid = iccid, h_old_phone = m_phone_number x, h_new_phone = phone,
                   h_source = source, h_at = now \<rparr>]"] exI [of _ "m\<lparr>m_phone_number := phone\<rparr>"])
        (auto simp: f find_modem_update, simp add: db')
  next
    case False
    with assms(2) show ?thesis
      by (intro exI [of _ "[]"] exI [of _ m]) (simp add: f find_modem_update, simp add: db')
  qed
qed

lemma chained_append: "chained p hs q \<Longrightarrow> chained q hs' r \<Longrightarrow> chained p (hs @ hs') r"
  by (induction hs arbitrary: p) auto

text \<open>The arguments of one call of \<open>SetPhoneNumber\<close>.\<close>

record phone_update =
  pu_iccid :: string
  pu_phone :: string
  pu_source :: string
  pu_at :: gtime

fun phone_updates :: "(faults \<times> phone_update) list \<Rightarrow> database \<Rightarrow> database" where
  "phone_updates [] db = db"
| "phone_updates ((faults, u) # us) db =
     (case set_phone_number faults (pu_iccid u) (pu_phone u) (pu_source u) (pu_at u) db of
        Inl e \<Rightarrow> phone_updates us db
      | Inr (db', _) \<Rightarrow> phone_updates us db')"

text \<open>
  The history of a SIM's phone number is complete: after any sequence of updates of any SIMs, and
  whichever calls fail, the entries added for the SIM lead from the old number to the present one,
  each starting where the one before ended, and none records a change that is none.
\<close>

theorem phone_history_complete:
  assumes "find_modem db c = Some m"
  shows "\<exists>hs m'. filter (\<lambda>h. h_iccid h = c) (t_phone_history (phone_updates us db)) =
      filter (\<lambda>h. h_iccid h = c) (t_phone_history db) @ hs \<and>
    find_modem (phone_updates us db) c = Some m' \<and> chained (m_phone_number m) hs (m_phone_number m')"
  using assms
proof (induction us arbitrary: db m)
  case Nil
  then show ?case by simp
next
  case (Cons x us)
  obtain faults u where x: "x = (faults, u)" by fastforce
  show ?case
  proof (cases "set_phone_number faults (pu_iccid u) (pu_phone u) (pu_source u) (pu_at u) db")
    case (Inl e)
    with Cons x show ?thesis by simp
  next
    case (Inr r)
    obtain db' c' where r: "r = (db', c')" by fastforce
    from set_phone_number_history [OF Inr [unfolded r] Cons.prems] obtain hs m1 where
      h: "filter (\<lambda>h. h_iccid h = c) (t_phone_history db') = filter (\<lambda>h. h_iccid h = c) (t_phone_history db) @ hs"
      and m1: "find_modem db' c = Some m1" "chained (m_phone_number m) hs (m_phone_number m1)"
      by blast
    from Cons.IH [OF m1(1)] obtain hs' m2 where
      "filter (\<lambda>h. h_iccid h = c) (t_phone_history (phone_updates us db')) =
        filter (\<lambda>h. h_iccid h = c) (t_phone_history db') @ hs'"
      "find_modem (phone_updates us db') c = Some m2" "chained (m_phone_number m1) hs' (m_phone_number m2)"
      by blast
    with h m1 x Inr r show ?thesis
      by (intro exI [of _ "hs @ hs'"] exI [of _ m2]) (auto intro: chained_append)
  qed
qed

theorem phone_history_complete_witness:
  "\<exists>hs m'. filter (\<lambda>h. h_iccid h = ''c1'') (t_phone_history (phone_updates
       [(no_faults, \<lparr> pu_iccid = ''c1'', pu_phone = ''091'', pu_source = ''ussd'', pu_at = 3 \<rparr>),
        (no_faults, \<lparr> pu_iccid = ''c1'', pu_phone = ''092'', pu_source = ''admin'', pu_at = 4 \<rparr>)]
       (empty_db\<lparr>t_modems := [new_modem ''c1'']\<rparr>))) = [] @ hs \<and>
    find_modem (phone_updates
       [(no_faults, \<lparr> pu_iccid = ''c1'', pu_phone = ''091'', pu_source = ''ussd'', pu_at = 3 \<rparr>),
        (no_faults, \<lparr> pu_iccid = ''c1'', pu_phone = ''092'', pu_source = ''admin'', pu_at = 4 \<rparr>)]
       (empty_db\<lparr>t_modems := [new_modem ''c1'']\<rparr>)) ''c1'' = Some m' \<and> chained [] hs (m_phone_number m')"
  (is "\<exists>hs m'. filter ?P (t_phone_history (phone_updates ?us ?db)) = _ \<and> _")
proof -
  have f: "find_modem ?db ''c1'' = Some (new_modem ''c1'')"
    by (simp add: find_modem_def new_modem_def)
  have e: "filter ?P (t_phone_history ?db) = []" "m_phone_number (new_modem ''c1'') = []"
    by (simp_all add: empty_db_def new_modem_def)
  show ?thesis
    using phone_history_complete [OF f, of ?us] unfolding e .
qed

end
