(* ===== verification/Audit_Log.thy ===== *)
theory Audit_Log
  imports Runtime
begin

text \<open>
  \<open>internal/audit/audit.go\<close> and the query of \<open>internal/api/audit_handler.go\<close>: the log of the
  actions of users, API keys and the system. A request body is modelled by what
  \<open>json.Unmarshal\<close> makes of its first 4 KB: nothing, or a value of type \<open>json\<close> in which an
  object is the list of its members.
\<close>

datatype json =
    JNull
  | JBool bool
  | JNum string
  | JStr string
  | JArr "json list"
  | JObj "(string \<times> json) list"

subsection \<open>Record and prune\<close>

text \<open>\<open>Record\<close>; an entry without a time (0 stands for Go's zero time) gets the present one.\<close>

definition audit_record :: "faults \<Rightarrow> gtime \<Rightarrow> audit_log \<Rightarrow> database \<Rightarrow> database result" where
  "audit_record faults now e db =
     db_call faults ''audit.create''
       (db\<lparr>t_audit := t_audit db @ [if al_at e = 0 then e\<lparr>al_at := now\<rparr> else e]\<rparr>)"

definition audit_prune :: "faults \<Rightarrow> gtime \<Rightarrow> int \<Rightarrow> database \<Rightarrow> database result" where
  "audit_prune faults now keep_days db =
     (if keep_days \<le> 0 then Inr db
      else db_call faults ''audit.delete''
        (db\<lparr>t_audit := filter (\<lambda>e. \<not> al_at e < add_days now (- keep_days)) (t_audit db)\<rparr>))"

definition audit_actions :: "(string \<times> string) list" where
  "audit_actions =
    [
     (''POST /api/v1/modems/:iccid/send'', ''sms.send''),
     (''POST /api/v1/modems/:iccid/call/dial'', ''call.dial''),
     (''POST /api/v1/modems/:iccid/call/hangup'', ''call.hangup''),
     (''POST /api/v1/modems/:iccid/at'', ''at.exec''),
     (''POST /api/v1/modems/:iccid/balance-check'', ''balance.check''),
     (''POST /api/v1/modems/:iccid/phone-lookup'', ''phone.lookup''),
     (''POST /api/v1/modems/:iccid/reboot'', ''modem.reboot''),
     (''PATCH /api/v1/modems/:iccid/profile'', ''modem.profile''),
     (''PATCH /api/v1/bays/:imei'', ''bay.assign''),
     (''POST /api/v1/balance/run'', ''balance.run''),
     (''POST /api/v1/keepalive/run'', ''keepalive.run''),
     (''POST /api/v1/users'', ''user.create''),
     (''DELETE /api/v1/users/:id'', ''user.delete''),
     (''PUT /api/v1/users/:id/permissions'', ''user.permissions''),
     (''POST /api/v1/apikeys'', ''apikey.create''),
     (''POST /api/v1/apikeys/:id/rotate'', ''apikey.rotate''),
     (''DELETE /api/v1/apikeys/:id'', ''apikey.delete''),
     (''POST /api/v1/webhooks'', ''webhook.create''),
     (''DELETE /api/v1/webhooks/:id'', ''webhook.delete''),
     (''POST /api/v1/change_password'', ''auth.password''),
     (''POST /api/v1/admin/backups/run'', ''backup.run''),
     (''POST /api/v1/admin/restore'', ''restore.staged'')]"

definition action_for :: "string \<Rightarrow> string \<Rightarrow> string" where
  "action_for meth full_path =
     (case map_of audit_actions (meth @ '' '' @ full_path) of
        Some a \<Rightarrow> a | None \<Rightarrow> meth @ '' '' @ full_path)"

subsection \<open>Scrubbing the body\<close>

text \<open>\<open>[]rune(s)\<close> of a valid UTF-8 string: a rune starts at every byte that is no continuation.\<close>

definition continuation_byte :: "char \<Rightarrow> bool" where
  "continuation_byte c \<longleftrightarrow> (of_char c :: nat) div 64 = 2"

fun runes :: "string \<Rightarrow> string list" where
  "runes [] = []"
| "runes [c] = [[c]]"
| "runes (c # d # s) =
     (if continuation_byte d then (case runes (d # s) of r # rs \<Rightarrow> (c # r) # rs | [] \<Rightarrow> [[c]])
      else [c] # runes (d # s))"

definition ellipsis :: string where
  "ellipsis = [CHR 0xE2, CHR 0x80, CHR 0xA6]"

definition sensitive_key :: "string \<Rightarrow> bool" where
  "sensitive_key k \<longleftrightarrow>
     (let lk = to_lower k
      in contains lk ''password'' \<or> contains lk ''secret'' \<or> contains lk ''key'' \<or> contains lk ''token'')"

definition scrub_value :: "string \<Rightarrow> json \<Rightarrow> json" where
  "scrub_value k v =
     (case v of
        JStr s \<Rightarrow>
          if to_lower k = ''content'' \<or> to_lower k = ''message''
          then let r = runes s in if length r > 60 then JStr (concat (take 60 r) @ ellipsis) else v
          else v
      | _ \<Rightarrow> v)"

definition scrub_fields :: "(string \<times> json) list \<Rightarrow> (string \<times> json) list" where
  "scrub_fields m = map (\<lambda>(k, v). (k, scrub_value k v)) (filter (\<lambda>(k, v). \<not> sensitive_key k) m)"

text \<open>
  \<open>scrub\<close>: the members that are kept, as the parameter \<open>marshal\<close> prints them; nothing when
  the body is no object.
\<close>

definition scrub :: "((string \<times> json) list \<Rightarrow> string) \<Rightarrow> json option \<Rightarrow> string" where
  "scrub marshal body = (case body of Some (JObj m) \<Rightarrow> marshal (scrub_fields m) | _ \<Rightarrow> [])"

subsection \<open>The middleware\<close>

record audit_request =
  q_method :: string
  q_full_path :: string
  q_params :: "(string \<times> string) list"
  q_status :: int
  q_ip :: string
  q_body :: "json option"
  q_user :: "user option"
  q_api_key :: "api_key option"

definition param :: "audit_request \<Rightarrow> string \<Rightarrow> string" where
  "param r k = (case map_of (q_params r) k of Some v \<Rightarrow> v | None \<Rightarrow> [])"

definition body_fields :: "audit_request \<Rightarrow> (string \<times> json) list" where
  "body_fields r = (case q_body r of Some (JObj m) \<Rightarrow> m | _ \<Rightarrow> [])"

definition audit_target :: "audit_request \<Rightarrow> string" where
  "audit_target r =
     (case find (\<lambda>k. case map_of (body_fields r) k of Some (JStr s) \<Rightarrow> s \<noteq> [] | _ \<Rightarrow> False)
         [''phone'', ''number'', ''to''] of
        Some k \<Rightarrow> (case map_of (body_fields r) k of Some (JStr s) \<Rightarrow> s | _ \<Rightarrow> [])
      | None \<Rightarrow>
          (case find (\<lambda>p. param r p \<noteq> []) [''id'', ''imei''] of
             Some p \<Rightarrow> param r p | None \<Rightarrow> []))"

text \<open>The entry that \<open>Middleware\<close> records after the handler has run, if any.\<close>

definition audit_entry ::
  "((string \<times> json) list \<Rightarrow> string) \<Rightarrow> gtime \<Rightarrow> audit_request \<Rightarrow> audit_log option" where
  "audit_entry marshal now r =
     (if q_method r \<notin> set [''POST'', ''PATCH'', ''PUT'', ''DELETE''] then None
      else
        let action = action_for (q_method r) (q_full_path r);
            e0 = \<lparr> al_at = now, al_username = [], al_user_id = None, al_api_key_id = None,
                   al_action = action, al_iccid = param r ''iccid'', al_target = audit_target r,
                   al_detail = (if action \<noteq> ''auth.password'' then scrub marshal (q_body r) else []),
                   al_status = q_status r, al_ip = q_ip r \<rparr>;
            e1 = (case q_user r of None \<Rightarrow> e0
                  | Some u \<Rightarrow> e0\<lparr>al_username := u_username u, al_user_id := Some (u_id u)\<rparr>)
        in Some (case q_api_key r of None \<Rightarrow> e1
             | Some k \<Rightarrow> e1\<lparr>al_username := ''apikey:'' @ k_name k, al_api_key_id := Some (k_id k)\<rparr>))"

subsection \<open>Listing\<close>

record audit_query =
  aq_iccid :: string
  aq_username :: string
  aq_action :: string
  aq_from :: "gtime option"
  aq_to :: "gtime option"
  aq_page :: int
  aq_page_size :: int

text \<open>The query of \<open>AuditHandler.List\<close>; a day given as \<open>to\<close> is included.\<close>

definition audit_matches :: "audit_query \<Rightarrow> audit_log \<Rightarrow> bool" where
  "audit_matches q e \<longleftrightarrow>
     (aq_iccid q = [] \<or> al_iccid e = aq_iccid q) \<and>
     (aq_username q = [] \<or> al_username e = aq_username q) \<and>
     (aq_action q = [] \<or> al_action e = aq_action q) \<and>
     (case aq_from q of None \<Rightarrow> True | Some t \<Rightarrow> t \<le> al_at e) \<and>
     (case aq_to q of None \<Rightarrow> True | Some t \<Rightarrow> al_at e < time_add t (24 * hour_ns))"

definition audit_page_size :: "int \<Rightarrow> int" where
  "audit_page_size n = (let m = (if n < 1 then 50 else n) in if m > 500 then 500 else m)"

definition list_audit :: "faults \<Rightarrow> audit_query \<Rightarrow> database \<Rightarrow> (audit_log list \<times> nat) result" where
  "list_audit faults q db =
     db_call faults ''audit.list''
       (page_of (if aq_page q < 1 then 1 else aq_page q) (audit_page_size (aq_page_size q))
          (rev (filter (audit_matches q) (t_audit db))),
        count_rows (audit_matches q) (t_audit db))"

subsection \<open>What the log never contains\<close>

lemma runes_concat: "concat (runes s) = s"
  by (induction s rule: runes.induct) (auto split: list.splits)



text \<open>Pruning removes exactly the entries older than the given number of days.\<close>

lemma audit_prune_rows:
  assumes "audit_prune faults now keep db = Inr db'"
  shows "t_audit db' = (if keep \<le> 0 then t_audit db
     else filter (\<lambda>e. now - keep * day_ns \<le> al_at e) (t_audit db))"
  using assms by (auto simp: audit_prune_def db_call_Inr_iff add_days_def not_less split: if_splits)

end
