(* ===== verification/Keepalive.thy ===== *)
theory Keepalive
  imports Alert_Log Sim_Repository Audit_Log
begin

text \<open>
  \<open>internal/keepalive\<close> and \<open>internal/repository/keepalive_repo.go\<close>: SIMs are kept alive by a
  message to another SIM of the tray. The modem that sends (\<open>Sender\<close>) is the parameter
  \<open>send\<close>: its answer may depend on everything that was handed to it before. The rendering of
  the message template by Go's \<open>text/template\<close> is the parameter \<open>render\<close>.
\<close>

subsection \<open>The repository\<close>

definition add_run :: "faults \<Rightarrow> keepalive_run \<Rightarrow> database \<Rightarrow> database result" where
  "add_run faults r db =
     db_call faults (''keepalive.add:'' @ kr_iccid r) (db\<lparr>t_keepalive_runs := t_keepalive_runs db @ [r]\<rparr>)"

definition sent_in :: "string \<Rightarrow> gtime \<Rightarrow> gtime \<Rightarrow> keepalive_run \<Rightarrow> bool" where
  "sent_in iccid from_t to_t r \<longleftrightarrow>
     kr_iccid r = iccid \<and> kr_status r = KeepaliveSent \<and> from_t \<le> kr_ran_at r \<and> kr_ran_at r < to_t"

definition sent_count_this_month :: "faults \<Rightarrow> int \<Rightarrow> string \<Rightarrow> gtime \<Rightarrow> database \<Rightarrow> int result" where
  "sent_count_this_month faults tz iccid now db =
     db_call faults (''keepalive.count:'' @ iccid)
       (int (count_rows (sent_in iccid (month_start tz now) (month_end tz now)) (t_keepalive_runs db)))"

definition last_run :: "faults \<Rightarrow> string \<Rightarrow> database \<Rightarrow> keepalive_run option result" where
  "last_run faults iccid db =
     db_call faults (''keepalive.last_run:'' @ iccid)
       (case newest_first kr_ran_at (filter (\<lambda>r. kr_iccid r = iccid) (t_keepalive_runs db)) of
          [] \<Rightarrow> None | r # _ \<Rightarrow> Some r)"

definition last_sent_at :: "faults \<Rightarrow> string \<Rightarrow> database \<Rightarrow> gtime option result" where
  "last_sent_at faults iccid db =
     db_call faults (''keepalive.last_sent:'' @ iccid)
       (case newest_first kr_ran_at
          (filter (\<lambda>r. kr_iccid r = iccid \<and> kr_status r = KeepaliveSent) (t_keepalive_runs db)) of
          [] \<Rightarrow> None | r # _ \<Rightarrow> Some (kr_ran_at r))"

text \<open>\<open>TargetCounts\<close> as a function; a failed query leaves the map empty.\<close>

definition target_counts :: "faults \<Rightarrow> gtime \<Rightarrow> database \<Rightarrow> string \<Rightarrow> nat" where
  "target_counts faults since db iccid =
     db_or faults ''keepalive.targets'' 0
       (count_rows (\<lambda>r. kr_status r = KeepaliveSent \<and> since \<le> kr_ran_at r \<and>
           kr_target_iccid r \<noteq> [] \<and> kr_target_iccid r = iccid) (t_keepalive_runs db))"

definition list_runs :: "faults \<Rightarrow> string \<Rightarrow> int \<Rightarrow> int \<Rightarrow> database \<Rightarrow> (keepalive_run list \<times> nat) result" where
  "list_runs faults iccid page n db =
     (let rows = filter (\<lambda>r. iccid = [] \<or> kr_iccid r = iccid) (t_keepalive_runs db)
      in and_then (db_call faults ''keepalive.list.count'' (length rows)) (\<lambda>k.
         db_call faults ''keepalive.list.find''
           (page_of (page_or_1 page) (page_size_or_50 n) (newest_first kr_ran_at rows), k)))"

subsection \<open>Target and due date (\<open>pick.go\<close>)\<close>

record candidate =
  ca_iccid :: string
  ca_phone :: string
  ca_operator :: string
  ca_online :: bool
  ca_target_count :: nat

definition candidate_less :: "candidate \<Rightarrow> candidate \<Rightarrow> bool" where
  "candidate_less a b \<longleftrightarrow>
     (if ca_online a \<noteq> ca_online b then ca_online a
      else if ca_target_count a \<noteq> ca_target_count b then ca_target_count a < ca_target_count b
      else ca_iccid a < ca_iccid b)"

definition candidate_pool :: "candidate \<Rightarrow> candidate list \<Rightarrow> candidate list" where
  "candidate_pool src all =
     (let pool = filter (\<lambda>c. \<not> (ca_iccid c = ca_iccid src \<or> ca_phone c = [])) all;
          same = filter (\<lambda>c. ca_operator c \<noteq> [] \<and> ca_operator c = ca_operator src) pool
      in if same \<noteq> [] then same else pool)"

definition pick_target :: "candidate \<Rightarrow> candidate list \<Rightarrow> candidate option" where
  "pick_target src all =
     (case sort_by candidate_less (candidate_pool src all) of [] \<Rightarrow> None | c # _ \<Rightarrow> Some c)"

definition is_due :: "gtime \<Rightarrow> gtime option \<Rightarrow> gtime option \<Rightarrow> int \<Rightarrow> bool" where
  "is_due now last_act first_seen interval_days =
     (case (case last_act of None \<Rightarrow> first_seen | Some t \<Rightarrow> Some t) of
        None \<Rightarrow> False
      | Some ref \<Rightarrow> days_dur interval_days \<le> time_sub now ref)"

subsection \<open>Collect (\<open>service.go\<close>)\<close>

record ka_item =
  ki_iccid :: string
  ki_phone :: string
  ki_slot :: "int option"
  ki_enabled :: bool
  ki_interval :: int
  ki_last_activity :: "gtime option"
  ki_next_due :: "gtime option"
  ki_sent_month :: int
  ki_last_run :: "keepalive_run option"
  ki_online :: bool
  ki_first_seen :: "gtime option"
  ki_in_bay :: bool
  ki_registered :: bool
  ki_operator :: string

definition later_of :: "gtime option \<Rightarrow> gtime option \<Rightarrow> gtime option" where
  "later_of act sent_t =
     (case sent_t of
        None \<Rightarrow> act
      | Some t \<Rightarrow> (case act of None \<Rightarrow> Some t | Some a \<Rightarrow> if a < t then Some t else Some a))"

text \<open>
  One SIM; \<open>online\<close> is \<open>GetWorkerByICCID(iccid).RuntimeModemState()\<close>.
\<close>

definition ka_collect_one ::
  "faults \<Rightarrow> int \<Rightarrow> keepalive_config \<Rightarrow> (string \<Rightarrow> runtime_modem option) \<Rightarrow> gtime \<Rightarrow> database
     \<Rightarrow> modem \<Rightarrow> ka_item result" where
  "ka_collect_one faults tz cfg online now db m =
     and_then (last_sent_at faults (m_iccid m) db) (\<lambda>sent_t.
     and_then (sent_count_this_month faults tz (m_iccid m) now db) (\<lambda>n.
     and_then (last_run faults (m_iccid m) db) (\<lambda>lr.
       let interval = (case m_keepalive_interval m of
              Some i \<Rightarrow> if i > 0 then i else ac_interval_days cfg | None \<Rightarrow> ac_interval_days cfg);
           bay = bay_holding (t_bays db) (m_iccid m);
           slot = (case bay of Some b \<Rightarrow> (case b_slot_number b of Some s \<Rightarrow> Some s | None \<Rightarrow> m_slot_number m)
                   | None \<Rightarrow> m_slot_number m);
           act = later_of (last_activity db (m_iccid m)) sent_t;
           due = map_option (\<lambda>t. add_days t interval)
                   (case act of None \<Rightarrow> m_first_seen_at m | Some t \<Rightarrow> Some t);
           rt = (case online (m_iccid m) of Some r \<Rightarrow> if rt_status r = ''online'' then Some r else None | None \<Rightarrow> None)
       in Inr \<lparr> ki_iccid = m_iccid m, ki_phone = m_phone_number m, ki_slot = slot,
            ki_enabled = m_keepalive_enabled m, ki_interval = interval, ki_last_activity = act,
            ki_next_due = due, ki_sent_month = n, ki_last_run = lr, ki_online = (rt \<noteq> None),
            ki_first_seen = m_first_seen_at m, ki_in_bay = (bay \<noteq> None),
            ki_registered = (case rt of None \<Rightarrow> False | Some r \<Rightarrow> registered (rt_registration r)),
            ki_operator = (case rt of None \<Rightarrow> [] | Some r \<Rightarrow> rt_operator r) \<rparr>)))"

fun collect_items :: "('a \<Rightarrow> 'b result) \<Rightarrow> 'a list \<Rightarrow> 'b list result" where
  "collect_items f [] = Inr []"
| "collect_items f (x # xs) = and_then (f x) (\<lambda>y. and_then (collect_items f xs) (\<lambda>ys. Inr (y # ys)))"

definition ka_collect ::
  "faults \<Rightarrow> int \<Rightarrow> clock \<Rightarrow> keepalive_config \<Rightarrow> (string \<Rightarrow> runtime_modem option) \<Rightarrow> world
     \<Rightarrow> world \<times> ka_item list result" where
  "ka_collect faults tz clk cfg online w =
     (case db_call faults ''keepalive.modems'' () of
        Inl e \<Rightarrow> (w, Inl e)
      | Inr _ \<Rightarrow>
     (case db_call faults ''keepalive.bays'' () of
        Inl e \<Rightarrow> (w, Inl e)
      | Inr _ \<Rightarrow>
     (case db_call faults ''keepalive.activity'' () of
        Inl e \<Rightarrow> (w, Inl e)
      | Inr _ \<Rightarrow>
          (tick w, collect_items (ka_collect_one faults tz cfg online (world_now clk w) (wd_db w))
                     (modems_by_slot (t_modems (wd_db w)))))))"

subsection \<open>One run\<close>

definition ka_candidate :: "ka_item \<Rightarrow> candidate" where
  "ka_candidate it = \<lparr> ca_iccid = ki_iccid it, ca_phone = ki_phone it, ca_operator = ki_operator it,
     ca_online = ki_online it, ca_target_count = 0 \<rparr>"

definition ka_candidates :: "faults \<Rightarrow> ka_item list \<Rightarrow> gtime \<Rightarrow> database \<Rightarrow> candidate list" where
  "ka_candidates faults all now db =
     map (\<lambda>it. (ka_candidate it)\<lparr>ca_target_count := target_counts faults (add_days now (- 30)) db (ki_iccid it)\<rparr>)
       (filter ki_in_bay all)"

definition txt_cap :: "int \<Rightarrow> string" where
  "txt_cap n = [CHR 0xC4, CHR 0x91, CHR 0xC3, CHR 0xA3] @ '' '' @ [CHR 0xC4, CHR 0x91, CHR 0xE1, CHR 0xBA, CHR 0xA1] @
     ''t tr'' @ [CHR 0xE1, CHR 0xBA, CHR 0xA7] @ ''n '' @ go_itoa n @ '' l'' @ [CHR 0xE1, CHR 0xBA, CHR 0xA7] @
     ''n/th'' @ [CHR 0xC3, CHR 0xA1] @ ''ng''"

definition txt_no_target :: string where
  "txt_no_target = ''kh'' @ [CHR 0xC3, CHR 0xB4] @ ''ng c'' @ [CHR 0xC3, CHR 0xB3] @ '' SIM c'' @ [CHR 0xC3, CHR 0xB9] @
     ''ng nh'' @ [CHR 0xC3, CHR 0xA0] @ '' m'' @ [CHR 0xE1, CHR 0xBA, CHR 0xA1] @ ''ng c'' @ [CHR 0xC3, CHR 0xB3] @ '' s'' @
     [CHR 0xE1, CHR 0xBB, CHR 0x91] @ '' '' @ [CHR 0xC4, CHR 0x91] @ ''i'' @ [CHR 0xE1, CHR 0xBB, CHR 0x87] @ ''n tho'' @
     [CHR 0xE1, CHR 0xBA, CHR 0xA1] @ ''i trong khay''"

definition txt_bad_template :: string where
  "txt_bad_template = ''m'' @ [CHR 0xE1, CHR 0xBA, CHR 0xAB] @ ''u tin nh'' @ [CHR 0xE1, CHR 0xBA, CHR 0xAF] @ ''n l'' @
     [CHR 0xE1, CHR 0xBB, CHR 0x97] @ ''i: ''"

type_synonym sender =
  "(gtime \<times> string \<times> string \<times> bool) list \<Rightarrow> string \<Rightarrow> string \<Rightarrow> string \<Rightarrow> string option"

type_synonym renderer = "string \<Rightarrow> string \<Rightarrow> string result"

text \<open>The decision and, if it comes to that, the sending: the run to be logged.\<close>

definition ka_attempt ::
  "faults \<Rightarrow> int \<Rightarrow> renderer \<Rightarrow> sender \<Rightarrow> keepalive_config \<Rightarrow> ka_item \<Rightarrow> ka_item list \<Rightarrow> gtime \<Rightarrow> int
     \<Rightarrow> world \<Rightarrow> world \<times> keepalive_run" where
  "ka_attempt faults tz render send cfg it all now sent_month w =
     (let r = \<lparr> kr_iccid = ki_iccid it, kr_target_iccid = [], kr_target_phone = [],
                kr_status = KeepaliveSkipped, kr_reason = [], kr_ran_at = now \<rparr>
      in if sent_month \<ge> ac_max_per_month cfg then (w, r\<lparr>kr_reason := txt_cap (ac_max_per_month cfg)\<rparr>)
         else case pick_target (ka_candidate it) (ka_candidates faults all now (wd_db w)) of
             None \<Rightarrow> (w, r\<lparr>kr_reason := txt_no_target\<rparr>)
           | Some target \<Rightarrow>
               (case render (ac_message cfg) (format_yyyymmdd tz now) of
                  Inl e \<Rightarrow> (w, r\<lparr>kr_status := KeepaliveFailed, kr_reason := txt_bad_template @ e\<rparr>)
                | Inr msg \<Rightarrow>
                    let r1 = r\<lparr>kr_target_iccid := ca_iccid target, kr_target_phone := ca_phone target\<rparr>;
                        res = send (wd_sms w) (ki_iccid it) (ca_phone target) msg;
                        w1 = w\<lparr>wd_sms := wd_sms w @ [(now, ki_iccid it, ca_phone target, res = None)]\<rparr>
                    in (case res of
                          Some e \<Rightarrow> (w1, r1\<lparr>kr_status := KeepaliveFailed, kr_reason := e\<rparr>)
                        | None \<Rightarrow> (w1, r1\<lparr>kr_status := KeepaliveSent\<rparr>))))"

definition ka_alert_text :: "ka_item \<Rightarrow> string \<Rightarrow> string" where
  "ka_alert_text it reason =
     (let name = (if ki_phone it = [] then ki_iccid it else ki_phone it);
          name2 = (case ki_slot it of None \<Rightarrow> name | Some n \<Rightarrow> name @ '' (khe '' @ go_itoa n @ '')'')
      in [CHR 0xF0, CHR 0x9F, CHR 0x94, CHR 0x81] @ '' SIM '' @ name2 @
         '': nu'' @ [CHR 0xC3, CHR 0xB4] @ ''i SIM th'' @ [CHR 0xE1, CHR 0xBA, CHR 0xA5] @ ''t b'' @
         [CHR 0xE1, CHR 0xBA, CHR 0xA1] @ ''i '' @ [CHR 0xE2, CHR 0x80, CHR 0x94] @ '' '' @ reason)"

definition ka_alert :: "faults \<Rightarrow> clock \<Rightarrow> ka_item \<Rightarrow> string \<Rightarrow> duration \<Rightarrow> world \<Rightarrow> world" where
  "ka_alert faults clk it reason window w =
     (case sim_alerted_within faults (ki_iccid it) SimAlertKeepalive (world_now clk w) window (wd_db w) of
        Inl e \<Rightarrow> tick w
      | Inr True \<Rightarrow> tick w
      | Inr False \<Rightarrow>
          let w1 = tick w
          in (case add_sim_alert faults \<lparr> sa_iccid = ki_iccid it, sa_kind = SimAlertKeepalive,
                     sa_detail = reason, sa_sent_at = world_now clk w1 \<rparr> (wd_db w1) of
                Inl e \<Rightarrow> tick w1
              | Inr db \<Rightarrow> dispatch_text (ki_iccid it) (ka_alert_text it reason) ((tick w1)\<lparr>wd_db := db\<rparr>)))"

text \<open>The audit line of the system; an error of \<open>Record\<close> is ignored.\<close>

definition ka_audit :: "faults \<Rightarrow> clock \<Rightarrow> keepalive_run \<Rightarrow> world \<Rightarrow> world" where
  "ka_audit faults clk r w =
     (if kr_status r = KeepaliveSkipped then w
      else
        let e = \<lparr> al_at = 0, al_username = ''system'', al_user_id = None, al_api_key_id = None,
                  al_action = ''keepalive.send'', al_iccid = kr_iccid r, al_target = kr_target_phone r,
                  al_detail = (if kr_status r = KeepaliveFailed then kr_reason r else []),
                  al_status = (if kr_status r = KeepaliveSent then 200 else 500), al_ip = [] \<rparr>
        in case audit_record faults (world_now clk w) e (wd_db w) of
             Inl err \<Rightarrow> tick w
           | Inr db \<Rightarrow> (tick w)\<lparr>wd_db := db\<rparr>)"

text \<open>
  \<open>runOne\<close>, under the mutex: the monthly count and the last message are read again from the log,
  whatever the item says.
\<close>

definition run_one ::
  "faults \<Rightarrow> int \<Rightarrow> clock \<Rightarrow> renderer \<Rightarrow> sender \<Rightarrow> keepalive_config \<Rightarrow> ka_item \<Rightarrow> ka_item list \<Rightarrow> bool
     \<Rightarrow> world \<Rightarrow> world \<times> keepalive_run option result" where
  "run_one faults tz clk render send cfg it all force w0 =
     (let now = world_now clk w0; w = tick w0
      in case sent_count_this_month faults tz (ki_iccid it) now (wd_db w) of
           Inl e \<Rightarrow> (w, Inl e)
         | Inr n \<Rightarrow>
             (case (if force then Inr True
                    else and_then (last_sent_at faults (ki_iccid it) (wd_db w)) (\<lambda>sent_t.
                         Inr (is_due now (later_of (ki_last_activity it) sent_t) (ki_first_seen it) (ki_interval it)))) of
                Inl e \<Rightarrow> (w, Inl e)
              | Inr False \<Rightarrow> (w, Inr None)
              | Inr True \<Rightarrow>
                  (case ka_attempt faults tz render send cfg it all now n w of
                     (w1, r) \<Rightarrow>
                       (case add_run faults r (wd_db w1) of
                          Inl e \<Rightarrow> (w1, Inl e)
                        | Inr db \<Rightarrow>
                            let w2 = ka_audit faults clk r (w1\<lparr>wd_db := db\<rparr>);
                                window = (if n \<ge> ac_max_per_month cfg then days_dur 30 else days_dur 7)
                            in (if kr_status r = KeepaliveSent then w2
                                else ka_alert faults clk it (kr_reason r) window w2, Inr (Some r))))))"

subsection \<open>Batches\<close>

text \<open>
  The loop of \<open>runAll\<close>: \<open>n\<close> counts the logged runs; between two runs the stop channel is looked
  at. The clock is read for the due date only of SIMs that pass the other conditions.
\<close>

fun run_items ::
  "faults \<Rightarrow> int \<Rightarrow> clock \<Rightarrow> renderer \<Rightarrow> sender \<Rightarrow> keepalive_config \<Rightarrow> (nat \<Rightarrow> bool) \<Rightarrow> ka_item list
     \<Rightarrow> ka_item list \<Rightarrow> nat \<Rightarrow> world \<Rightarrow> world \<times> nat" where
  "run_items faults tz clk render send cfg stop all [] n w = (w, n)"
| "run_items faults tz clk render send cfg stop all (it # its) n w =
     (if \<not> ki_enabled it \<or> \<not> ki_online it \<or> \<not> ki_registered it
      then run_items faults tz clk render send cfg stop all its n w
      else if \<not> is_due (world_now clk w) (ki_last_activity it) (ki_first_seen it) (ki_interval it)
      then run_items faults tz clk render send cfg stop all its n (tick w)
      else if n > 0 \<and> stop n then (tick w, n)
      else
        case run_one faults tz clk render send cfg it all False (tick w) of
          (w', Inr (Some r)) \<Rightarrow> run_items faults tz clk render send cfg stop all its (Suc n) w'
        | (w', _) \<Rightarrow> run_items faults tz clk render send cfg stop all its n w')"

definition run_all ::
  "faults \<Rightarrow> int \<Rightarrow> clock \<Rightarrow> renderer \<Rightarrow> sender \<Rightarrow> keepalive_config \<Rightarrow> (string \<Rightarrow> runtime_modem option)
     \<Rightarrow> (nat \<Rightarrow> bool) \<Rightarrow> world \<Rightarrow> world \<times> nat result" where
  "run_all faults tz clk render send cfg online stop w =
     (if \<not> ac_enabled cfg then (w, Inr 0)
      else case ka_collect faults tz clk cfg online w of
          (w1, Inl e) \<Rightarrow> (w1, Inl e)
        | (w1, Inr its) \<Rightarrow>
            (case run_items faults tz clk render send cfg stop its its 0 w1 of (w2, n) \<Rightarrow> (w2, Inr n)))"

definition err_ka_disabled :: string where
  "err_ka_disabled = ''keepalive.enabled=false trong config.yaml''"

definition err_sim_not_enabled :: string where
  "err_sim_not_enabled = ''SIM ch'' @ [CHR 0xC6, CHR 0xB0] @ ''a b'' @ [CHR 0xE1, CHR 0xBA, CHR 0xAD] @
     ''t nu'' @ [CHR 0xC3, CHR 0xB4] @ ''i SIM''"

text \<open>\<open>RunOne\<close>: the API call for one SIM.\<close>

definition run_now ::
  "faults \<Rightarrow> int \<Rightarrow> clock \<Rightarrow> renderer \<Rightarrow> sender \<Rightarrow> keepalive_config \<Rightarrow> (string \<Rightarrow> runtime_modem option)
     \<Rightarrow> string \<Rightarrow> bool \<Rightarrow> world \<Rightarrow> world \<times> keepalive_run option result" where
  "run_now faults tz clk render send cfg online iccid force w =
     (if \<not> ac_enabled cfg then (w, Inl err_ka_disabled)
      else case ka_collect faults tz clk cfg online w of
          (w1, Inl e) \<Rightarrow> (w1, Inl e)
        | (w1, Inr its) \<Rightarrow>
            (case find (\<lambda>it. ki_iccid it = iccid) its of
               None \<Rightarrow> (w1, Inl err_record_not_found)
             | Some it \<Rightarrow>
                 if \<not> ki_enabled it then (w1, Inl err_sim_not_enabled)
                 else if force then run_one faults tz clk render send cfg it its force w1
                 else if \<not> is_due (world_now clk w1) (ki_last_activity it) (ki_first_seen it) (ki_interval it)
                 then (tick w1, Inr None)
                 else run_one faults tz clk render send cfg it its force (tick w1)))"

definition next_run :: "int \<Rightarrow> gtime \<Rightarrow> int \<Rightarrow> gtime" where
  "next_run tz now hour = next_at_hour tz now hour"

text \<open>\<open>Run\<close>: what ends the wait of each round, the stop channel or the timer of the day.\<close>

datatype ka_wake = Ka_Stop | Ka_Due faults "string \<Rightarrow> runtime_modem option" "nat \<Rightarrow> bool"

fun ka_scheduler :: "int \<Rightarrow> clock \<Rightarrow> renderer \<Rightarrow> sender \<Rightarrow> keepalive_config \<Rightarrow> ka_wake list \<Rightarrow> world \<Rightarrow> world" where
  "ka_scheduler tz clk render send cfg [] w = w"
| "ka_scheduler tz clk render send cfg (Ka_Stop # ws) w = w"
| "ka_scheduler tz clk render send cfg (Ka_Due faults online stop # ws) w =
     ka_scheduler tz clk render send cfg ws (fst (run_all faults tz clk render send cfg online stop w))"

end
