(* ===== verification/Keepalive_Properties.thy ===== *)
theory Keepalive_Properties
  imports Keepalive
begin

text \<open>
  What the keep-alive service guarantees: the choice of the target, the monthly cap and the distance
  between two messages. The last two are proved for every sequence of calls of \<open>RunAll\<close> and
  \<open>RunOne\<close>, whatever stale items they collected, by showing what one run changes
  (\<open>run_one_effect\<close>) and that all other steps leave the log of runs and messages alone.
\<close>

subsection \<open>The target\<close>

lemma candidate_less_asym: "candidate_less a b \<Longrightarrow> \<not> candidate_less b a"
  by (auto simp: candidate_less_def split: if_splits)

lemma candidate_less_trans: "\<not> candidate_less b a \<Longrightarrow> \<not> candidate_less c b \<Longrightarrow> \<not> candidate_less c a"
  by (auto simp: candidate_less_def split: if_splits)

lemma sort_hd_least:
  assumes "sort_by candidate_less xs = c # cs" "x \<in> set xs"
  shows "\<not> candidate_less x c"
proof -
  have "sorted_wrt (\<lambda>a b. \<not> candidate_less b a) (c # cs)"
    using sorted_sort_by [of candidate_less xs, OF candidate_less_trans candidate_less_asym] assms(1)
    by simp
  moreover have "x \<in> set (c # cs)"
    using assms by (metis set_sort_by)
  moreover have "\<not> candidate_less c c"
    using candidate_less_asym by blast
  ultimately show ?thesis by auto
qed

text \<open>
  The target of a message is another SIM with a phone number; it has the operator of the sender
  if any such SIM has; and among the SIMs left no one is preferred to it: none is online while it is
  offline, none with the same state was used less often, none with the same state and use has a
  smaller ICCID. There is no target only when no other SIM has a number.
\<close>

theorem pick_target_spec:
  "case pick_target src all of
     None \<Rightarrow> (\<forall>c \<in> set all. ca_iccid c = ca_iccid src \<or> ca_phone c = [])
   | Some t \<Rightarrow>
       t \<in> set all \<and> ca_iccid t \<noteq> ca_iccid src \<and> ca_phone t \<noteq> [] \<and>
       (\<forall>c \<in> set all. ca_iccid c \<noteq> ca_iccid src \<longrightarrow> ca_phone c \<noteq> [] \<longrightarrow>
          (ca_operator c \<noteq> [] \<and> ca_operator c = ca_operator src \<longrightarrow> ca_operator t = ca_operator src) \<and>
          (ca_operator c = ca_operator t \<longrightarrow>
             (ca_online c \<longrightarrow> ca_online t) \<and>
             (ca_online c = ca_online t \<longrightarrow> ca_target_count t \<le> ca_target_count c) \<and>
             (ca_online c = ca_online t \<and> ca_target_count t = ca_target_count c \<longrightarrow> ca_iccid t \<le> ca_iccid c)))"
proof (cases "sort_by candidate_less (candidate_pool src all)")
  case Nil
  then have "candidate_pool src all = []" by simp
  then have "filter (\<lambda>c. \<not> (ca_iccid c = ca_iccid src \<or> ca_phone c = [])) all = []"
    by (simp add: candidate_pool_def Let_def split: if_splits)
  with Nil show ?thesis
    by (auto simp: pick_target_def filter_empty_conv)
next
  case (Cons t ts)
  have t: "t \<in> set (candidate_pool src all)"
    using Cons by (metis list.set_intros(1) set_sort_by)
  then have mem: "t \<in> set all" "ca_iccid t \<noteq> ca_iccid src" "ca_phone t \<noteq> []"
    by (auto simp: candidate_pool_def Let_def split: if_splits)
  have op: "ca_operator t = ca_operator src"
    if "c \<in> set all" "ca_iccid c \<noteq> ca_iccid src" "ca_phone c \<noteq> []" "ca_operator c \<noteq> []"
      "ca_operator c = ca_operator src" for c
    using t that by (auto simp: candidate_pool_def Let_def filter_empty_conv split: if_splits)
  have pool: "c \<in> set (candidate_pool src all)"
    if "c \<in> set all" "ca_iccid c \<noteq> ca_iccid src" "ca_phone c \<noteq> []" "ca_operator c = ca_operator t" for c
    using t that by (auto simp: candidate_pool_def Let_def split: if_splits)
  have least: "\<not> candidate_less c t"
    if "c \<in> set all" "ca_iccid c \<noteq> ca_iccid src" "ca_phone c \<noteq> []" "ca_operator c = ca_operator t" for c
    using sort_hd_least [OF Cons pool [OF that]] .
  have "pick_target src all = Some t" using Cons by (simp add: pick_target_def)
  moreover have "(ca_online c \<longrightarrow> ca_online t) \<and>
             (ca_online c = ca_online t \<longrightarrow> ca_target_count t \<le> ca_target_count c) \<and>
             (ca_online c = ca_online t \<and> ca_target_count t = ca_target_count c \<longrightarrow> ca_iccid t \<le> ca_iccid c)"
    if "\<not> candidate_less c t" for c
    using that by (auto simp: candidate_less_def split: if_splits)
  ultimately show ?thesis
    using mem op least by (simp, blast)
qed

theorem pick_target_spec_witness:
  "pick_target \<lparr> ca_iccid = ''S'', ca_phone = ''1'', ca_operator = ''Viettel'', ca_online = True, ca_target_count = 0 \<rparr>
     [\<lparr> ca_iccid = ''A'', ca_phone = ''2'', ca_operator = ''Mobifone'', ca_online = True, ca_target_count = 0 \<rparr>,
      \<lparr> ca_iccid = ''B'', ca_phone = ''3'', ca_operator = ''Viettel'', ca_online = False, ca_target_count = 4 \<rparr>]
   = Some \<lparr> ca_iccid = ''B'', ca_phone = ''3'', ca_operator = ''Viettel'', ca_online = False, ca_target_count = 4 \<rparr>
   \<and> ca_iccid (\<lparr> ca_iccid = ''B'', ca_phone = ''3'', ca_operator = ''Viettel'', ca_online = False, ca_target_count = 4 \<rparr> :: candidate) \<noteq> ''S''"
  (is "pick_target ?src ?all = Some ?b \<and> _")
proof -
  have p: "pick_target ?src ?all = Some ?b" by code_simp
  have "ca_iccid ?b \<noteq> ca_iccid ?src"
    using pick_target_spec [where src = ?src and all = ?all] unfolding p option.case by (elim conjE)
  with p show ?thesis by simp
qed

subsection \<open>The due date\<close>

lemma is_due_iff:
  assumes "0 \<le> n" "n \<le> 106751"
  shows "is_due now act fst_seen n \<longleftrightarrow>
      (case (case act of None \<Rightarrow> fst_seen | Some t \<Rightarrow> Some t) of None \<Rightarrow> False | Some ref \<Rightarrow> ref + n * day_ns \<le> now)"
proof -
  have d: "days_dur n = n * day_ns" by (rule days_dur_exact [OF assms])
  have i: "in_int64 (n * day_ns)" using assms by (simp add: in_int64_def go_time)
  have "n * day_ns \<le> time_sub now ref \<longleftrightarrow> ref + n * day_ns \<le> now" for ref
    using time_sub_ge_iff [OF i, of now ref] assms by (auto simp: min_int64_def go_time)
  with d show ?thesis
    by (auto simp: is_due_def split: option.split)
qed



subsection \<open>What one run changes\<close>

definition month_count :: "int \<Rightarrow> keepalive_run list \<Rightarrow> string \<Rightarrow> int \<Rightarrow> nat" where
  "month_count tz runs iccid k =
     count_rows (\<lambda>r. kr_iccid r = iccid \<and> kr_status r = KeepaliveSent \<and> month_of tz (kr_ran_at r) = k) runs"

lemma sent_count_is_month_count:
  "sent_count_this_month faults tz iccid now db = Inr n \<Longrightarrow>
     n = int (month_count tz (t_keepalive_runs db) iccid (month_of tz now))"
proof -
  have "sent_in iccid (month_start tz now) (month_end tz now) =
      (\<lambda>r. kr_iccid r = iccid \<and> kr_status r = KeepaliveSent \<and> month_of tz (kr_ran_at r) = month_of tz now)"
    using month_window_iff by (auto simp: fun_eq_iff sent_in_def)
  moreover assume "sent_count_this_month faults tz iccid now db = Inr n"
  ultimately show ?thesis
    by (simp add: sent_count_this_month_def db_call_Inr_iff month_count_def)
qed

lemma ka_audit_keeps [simp]:
  "t_keepalive_runs (wd_db (ka_audit faults clk r w)) = t_keepalive_runs (wd_db w)"
  "wd_sms (ka_audit faults clk r w) = wd_sms w"
  by (simp_all add: ka_audit_def Let_def audit_record_def db_call_def split: option.split)

lemma ka_alert_keeps [simp]:
  "t_keepalive_runs (wd_db (ka_alert faults clk it reason window w)) = t_keepalive_runs (wd_db w)"
  "wd_sms (ka_alert faults clk it reason window w) = wd_sms w"
  by (simp_all add: ka_alert_def Let_def sim_alerted_within_def add_sim_alert_def db_call_def
      split: sum.split option.split bool.split)

text \<open>What an attempt does to the messages, and what the run it yields says about it.\<close>

lemma ka_attempt_effect:
  assumes "ka_attempt faults tz render send cfg it all now n w = (w', r)"
  shows "wd_db w' = wd_db w" "kr_iccid r = ki_iccid it" "kr_ran_at r = now"
    and "kr_status r = KeepaliveSent \<Longrightarrow> n < ac_max_per_month cfg"
    and "(wd_sms w' = wd_sms w \<and> kr_status r \<noteq> KeepaliveSent) \<or>
         (\<exists>p. wd_sms w' = wd_sms w @ [(now, ki_iccid it, p, kr_status r = KeepaliveSent)])"
  using assms by (auto simp: ka_attempt_def Let_def split: if_splits option.splits sum.splits)

text \<open>One run either leaves runs and messages alone, or is the effect of one attempt.\<close>

lemma run_one_effect:
  assumes "run_one faults tz clk render send cfg it all force w = (w', res)"
  shows "(t_keepalive_runs (wd_db w') = t_keepalive_runs (wd_db w) \<and> wd_sms w' = wd_sms w) \<or>
    (\<exists>r. kr_iccid r = ki_iccid it \<and> kr_ran_at r = world_now clk w \<and>
       (kr_status r = KeepaliveSent \<longrightarrow>
          int (month_count tz (t_keepalive_runs (wd_db w)) (ki_iccid it) (month_of tz (world_now clk w)))
            < ac_max_per_month cfg) \<and>
       (force \<or> (\<exists>s. last_sent_at faults (ki_iccid it) (wd_db w) = Inr s \<and>
           is_due (world_now clk w) (later_of (ki_last_activity it) s) (ki_first_seen it) (ki_interval it))) \<and>
       (t_keepalive_runs (wd_db w') = t_keepalive_runs (wd_db w) @ [r] \<or>
          (t_keepalive_runs (wd_db w') = t_keepalive_runs (wd_db w) \<and>
           faults (''keepalive.add:'' @ ki_iccid it) \<noteq> None)) \<and>
       ((wd_sms w' = wd_sms w \<and> kr_status r \<noteq> KeepaliveSent) \<or>
          (\<exists>p. wd_sms w' = wd_sms w @ [(world_now clk w, ki_iccid it, p, kr_status r = KeepaliveSent)])))"
proof -
  let ?now = "world_now clk w"
  let ?due = "if force then Inr True
     else and_then (last_sent_at faults (ki_iccid it) (wd_db (tick w))) (\<lambda>sent_t.
        Inr (is_due ?now (later_of (ki_last_activity it) sent_t) (ki_first_seen it) (ki_interval it)))"
  show ?thesis
  proof (cases "sent_count_this_month faults tz (ki_iccid it) ?now (wd_db (tick w))")
    case (Inl e)
    with assms show ?thesis by (auto simp: run_one_def Let_def)
  next
    case n: (Inr n)
    show ?thesis
    proof (cases "?due = Inr True")
      case False
      with assms n show ?thesis
        by (auto simp: run_one_def Let_def simp del: tick_simps split: sum.splits bool.splits if_splits)
          (simp_all add: tick_def)
    next
      case due: True
      obtain w1 r where a: "ka_attempt faults tz render send cfg it all ?now n (tick w) = (w1, r)"
        by fastforce
      note e = ka_attempt_effect [OF a]
      have d: "force \<or> (\<exists>s. last_sent_at faults (ki_iccid it) (wd_db w) = Inr s \<and>
           is_due ?now (later_of (ki_last_activity it) s) (ki_first_seen it) (ki_interval it))"
        using due by (auto simp: and_then_Inr_iff split: if_splits)
      have c: "kr_status r = KeepaliveSent \<longrightarrow>
          int (month_count tz (t_keepalive_runs (wd_db w)) (ki_iccid it) (month_of tz ?now)) < ac_max_per_month cfg"
        using e(4) sent_count_is_month_count [OF n] by auto
      have m: "(wd_sms w1 = wd_sms w \<and> kr_status r \<noteq> KeepaliveSent) \<or>
          (\<exists>p. wd_sms w1 = wd_sms w @ [(?now, ki_iccid it, p, kr_status r = KeepaliveSent)])"
        using e(5) by simp
      show ?thesis
      proof (cases "add_run faults r (wd_db w1)")
        case (Inl err)
        then have "faults (''keepalive.add:'' @ ki_iccid it) \<noteq> None"
          using e(2) by (auto simp: add_run_def db_call_def split: option.splits)
        moreover have "w' = w1"
          using assms n due a Inl by (simp add: run_one_def Let_def)
        ultimately show ?thesis
          using c d e m by (intro disjI2 exI [of _ r]) auto
      next
        case (Inr db)
        then have "t_keepalive_runs db = t_keepalive_runs (wd_db w) @ [r]"
          using e(1) by (simp add: add_run_def db_call_Inr_iff)
        moreover have "t_keepalive_runs (wd_db w') = t_keepalive_runs db" "wd_sms w' = wd_sms w1"
          using assms n due a Inr by (auto simp: run_one_def Let_def split: if_splits)
        ultimately show ?thesis
          using c d e m by (intro disjI2 exI [of _ r]) auto
      qed
    qed
  qed
qed

subsection \<open>Sequences of calls\<close>

text \<open>The calls of the service, each with the database failures and modems it meets.\<close>

datatype ka_call =
    CallRunAll faults "string \<Rightarrow> runtime_modem option" "nat \<Rightarrow> bool"
  | CallRunOne faults "string \<Rightarrow> runtime_modem option" string bool

fun ka_exec ::
  "int \<Rightarrow> clock \<Rightarrow> renderer \<Rightarrow> sender \<Rightarrow> keepalive_config \<Rightarrow> ka_call \<Rightarrow> world \<Rightarrow> world" where
  "ka_exec tz clk render send cfg (CallRunAll faults online stop) w =
     fst (run_all faults tz clk render send cfg online stop w)"
| "ka_exec tz clk render send cfg (CallRunOne faults online iccid force) w =
     fst (run_now faults tz clk render send cfg online iccid force w)"

fun call_faults :: "ka_call \<Rightarrow> faults" where
  "call_faults (CallRunAll faults _ _) = faults"
| "call_faults (CallRunOne faults _ _ _) = faults"

fun call_forced :: "ka_call \<Rightarrow> bool" where
  "call_forced (CallRunAll _ _ _) = False"
| "call_forced (CallRunOne _ _ _ force) = force"

text \<open>The scheduler makes such a sequence, so what holds of every sequence of calls holds of it.\<close>

fun scheduled_calls :: "ka_wake list \<Rightarrow> ka_call list" where
  "scheduled_calls [] = []"
| "scheduled_calls (Ka_Stop # ws) = []"
| "scheduled_calls (Ka_Due faults online stop # ws) = CallRunAll faults online stop # scheduled_calls ws"

lemma ka_scheduler_calls:
  "ka_scheduler tz clk render send cfg ws w = fold (ka_exec tz clk render send cfg) (scheduled_calls ws) w"
  by (induction ws arbitrary: w rule: scheduled_calls.induct) simp_all

text \<open>
  An assertion that every run and every reading of the clock keeps holds after any call; the runs may
  rely on what \<open>Collect\<close> guarantees of its items.
\<close>

lemma run_items_inv:
  assumes one: "\<And>it all w. Q it \<Longrightarrow> P w \<Longrightarrow> P (fst (run_one faults tz clk render send cfg it all False w))"
    and tick: "\<And>w. P w \<Longrightarrow> P (tick w)" and "P w" "list_all Q its"
  shows "P (fst (run_items faults tz clk render send cfg stop all its n w))"
  using assms(3,4)
proof (induction its arbitrary: n w)
  case (Cons it its)
  have q: "Q it" "list_all Q its" using Cons.prems(2) by simp_all
  have r: "P (fst (run_one faults tz clk render send cfg it all False (tick w)))"
    by (rule one [OF q(1) tick [OF Cons.prems(1)]])
  show ?case
    using Cons.IH q(2) Cons.prems(1) r tick [OF Cons.prems(1)]
    by (cases "run_one faults tz clk render send cfg it all False (tick w)")
      (auto split: sum.split option.split)
qed simp

lemma ka_collect_inv: "P w \<Longrightarrow> (\<And>w. P w \<Longrightarrow> P (tick w)) \<Longrightarrow> P (fst (ka_collect faults tz clk cfg online w))"
  by (simp add: ka_collect_def split: sum.split)

lemma ka_exec_inv:
  assumes one: "\<And>it all force w. (force \<longrightarrow> call_forced c) \<Longrightarrow> Q it \<Longrightarrow> P w \<Longrightarrow>
      P (fst (run_one (call_faults c) tz clk render send cfg it all force w))"
    and tick: "\<And>w. P w \<Longrightarrow> P (tick w)" and "P w"
    and items: "\<And>online w w' its. P w \<Longrightarrow> ka_collect (call_faults c) tz clk cfg online w = (w', Inr its) \<Longrightarrow> list_all Q its"
  shows "P (ka_exec tz clk render send cfg c w)"
proof (cases c)
  case (CallRunAll faults online stop)
  obtain w1 r where c: "ka_collect faults tz clk cfg online w = (w1, r)" by fastforce
  have w1: "P w1"
    using ka_collect_inv [of P, OF \<open>P w\<close> tick] c by (metis fst_conv)
  have one': "P (fst (run_one faults tz clk render send cfg it all False w2))" if "Q it" "P w2" for it all w2
    using one [of False it w2 all] that by (simp add: CallRunAll)
  show ?thesis
  proof (cases "ac_enabled cfg")
    case True
    show ?thesis
    proof (cases r)
      case (Inl e)
      with True c w1 show ?thesis by (simp add: CallRunAll run_all_def)
    next
      case (Inr its)
      have "list_all Q its"
        using items [OF \<open>P w\<close>, of online w1 its] c Inr by (simp add: CallRunAll)
      then have "P (fst (run_items faults tz clk render send cfg stop its its 0 w1))"
        using one' tick w1 by (intro run_items_inv [where Q = Q and P = P]) auto
      with True c Inr show ?thesis
        by (simp add: CallRunAll run_all_def case_prod_unfold)
    qed
  qed (use \<open>P w\<close> CallRunAll in \<open>simp add: run_all_def\<close>)
next
  case (CallRunOne faults online iccid force)
  obtain w1 r where c: "ka_collect faults tz clk cfg online w = (w1, r)" by fastforce
  have w1: "P w1"
    using ka_collect_inv [of P, OF \<open>P w\<close> tick] c by (metis fst_conv)
  have q: "Q it" if "r = Inr its" "find (\<lambda>it. ki_iccid it = iccid) its = Some it" for its it
    using items [OF \<open>P w\<close>, of online w1 its] c that find_SomeD [OF that(2)]
    by (auto simp: CallRunOne list_all_iff)
  have "P (fst (run_one faults tz clk render send cfg it its force w2))" if "Q it" "P w2" for it its w2
    using one [of force it w2 its] that by (simp add: CallRunOne)
  with q w1 tick [OF w1] \<open>P w\<close> show ?thesis
    unfolding CallRunOne ka_exec.simps run_now_def c
    by (cases force) (simp_all split: sum.split option.split)
qed

subsection \<open>The monthly cap\<close>

definition month_capped :: "int \<Rightarrow> keepalive_config \<Rightarrow> keepalive_run list \<Rightarrow> bool" where
  "month_capped tz cfg runs \<longleftrightarrow>
     (\<forall>iccid k. int (month_count tz runs iccid k) \<le> max 0 (ac_max_per_month cfg))"

lemma month_count_snoc:
  "month_count tz (runs @ [r]) iccid k = month_count tz runs iccid k +
     (if kr_iccid r = iccid \<and> kr_status r = KeepaliveSent \<and> month_of tz (kr_ran_at r) = k then 1 else 0)"
  by (simp add: month_count_def table_simps)

lemma month_capped_snoc:
  assumes "month_capped tz cfg runs"
    and "kr_status r = KeepaliveSent \<longrightarrow>
      int (month_count tz runs (kr_iccid r) (month_of tz (kr_ran_at r))) < ac_max_per_month cfg"
  shows "month_capped tz cfg (runs @ [r])"
  unfolding month_capped_def
proof (intro allI)
  fix iccid k
  show "int (month_count tz (runs @ [r]) iccid k) \<le> max 0 (ac_max_per_month cfg)"
    using assms by (cases "kr_iccid r = iccid \<and> kr_status r = KeepaliveSent \<and> month_of tz (kr_ran_at r) = k")
      (auto simp: month_capped_def month_count_snoc)
qed

lemma run_one_capped:
  assumes "month_capped tz cfg (t_keepalive_runs (wd_db w))"
  shows "month_capped tz cfg (t_keepalive_runs (wd_db (fst (run_one faults tz clk render send cfg it all force w))))"
proof -
  obtain w' res where r: "run_one faults tz clk render send cfg it all force w = (w', res)"
    by fastforce
  from run_one_effect [OF r] assms show ?thesis
    unfolding r fst_conv by (elim disjE exE conjE) (simp_all add: month_capped_snoc)
qed



subsection \<open>Messages and the log\<close>

definition sms_month_count :: "int \<Rightarrow> (gtime \<times> string \<times> string \<times> bool) list \<Rightarrow> string \<Rightarrow> int \<Rightarrow> nat" where
  "sms_month_count tz msgs iccid k =
     count_rows (\<lambda>(t, c, p, ok). c = iccid \<and> ok \<and> month_of tz t = k) msgs"

definition sms_logged :: "int \<Rightarrow> world \<Rightarrow> bool" where
  "sms_logged tz w \<longleftrightarrow>
     (\<forall>iccid k. sms_month_count tz (wd_sms w) iccid k \<le> month_count tz (t_keepalive_runs (wd_db w)) iccid k)"

lemma run_one_logged:
  assumes "sms_logged tz w" "\<forall>iccid. faults (''keepalive.add:'' @ iccid) = None"
  shows "sms_logged tz (fst (run_one faults tz clk render send cfg it all force w))"
proof -
  obtain w' res where r: "run_one faults tz clk render send cfg it all force w = (w', res)"
    by fastforce
  from run_one_effect [OF r] show ?thesis
    unfolding r fst_conv
  proof (elim disjE exE conjE)
    assume "t_keepalive_runs (wd_db w') = t_keepalive_runs (wd_db w)" "wd_sms w' = wd_sms w"
    with assms(1) show "sms_logged tz w'" by (simp add: sms_logged_def)
  qed (use assms in \<open>auto simp: sms_logged_def month_count_snoc sms_month_count_def table_simps le_SucI\<close>)
qed



subsection \<open>The distance between messages\<close>

definition sent_times :: "string \<Rightarrow> keepalive_run list \<Rightarrow> gtime list" where
  "sent_times iccid runs = map kr_ran_at (filter (\<lambda>r. kr_iccid r = iccid \<and> kr_status r = KeepaliveSent) runs)"

definition sent_apart :: "int \<Rightarrow> keepalive_run list \<Rightarrow> bool" where
  "sent_apart d runs \<longleftrightarrow> (\<forall>iccid. sorted_wrt (\<lambda>old new. old + d \<le> new) (sent_times iccid runs))"

definition intervals_within :: "int \<Rightarrow> keepalive_config \<Rightarrow> modem list \<Rightarrow> bool" where
  "intervals_within n cfg ms \<longleftrightarrow> n \<le> ac_interval_days cfg \<and> ac_interval_days cfg \<le> 106751 \<and>
     list_all (\<lambda>m. case m_keepalive_interval m of None \<Rightarrow> True | Some i \<Rightarrow> i \<le> 0 \<or> (n \<le> i \<and> i \<le> 106751)) ms"

lemma last_sent_at_max:
  assumes "last_sent_at faults iccid db = Inr s" "t \<in> set (sent_times iccid (t_keepalive_runs db))"
  shows "\<exists>u. s = Some u \<and> t \<le> u"
proof -
  let ?rows = "filter (\<lambda>r. kr_iccid r = iccid \<and> kr_status r = KeepaliveSent) (t_keepalive_runs db)"
  obtain r where r: "r \<in> set ?rows" "kr_ran_at r = t"
    using assms(2) by (auto simp: sent_times_def)
  then obtain x xs where x: "newest_first kr_ran_at ?rows = x # xs"
    using newest_first_Nil_iff [of kr_ran_at ?rows] r(1) by (cases "newest_first kr_ran_at ?rows") force+
  with newest_first_max [OF x r(1)] assms(1) r(2) show ?thesis
    by (auto simp: last_sent_at_def db_call_Inr_iff)
qed

lemma run_one_modems: "t_modems (wd_db (fst (run_one faults tz clk render send cfg it all force w))) = t_modems (wd_db w)"
proof -
  have 1: "t_modems (wd_db (ka_audit faults clk r v)) = t_modems (wd_db v)" for r v
    by (simp add: ka_audit_def Let_def audit_record_def db_call_def split: option.split)
  have 2: "t_modems (wd_db (ka_alert faults clk i rs win v)) = t_modems (wd_db v)" for i rs win v
    by (simp add: ka_alert_def Let_def sim_alerted_within_def add_sim_alert_def db_call_def
        split: sum.split option.split bool.split)
  have 3: "wd_db (fst (ka_attempt faults tz render send cfg it all now n v)) = wd_db v" for now n v
    using ka_attempt_effect(1) by (metis prod.collapse)
  have 4: "t_modems db = t_modems db0" if "add_run faults r db0 = Inr db" for r db0 db
    using that by (simp add: add_run_def db_call_Inr_iff)
  show ?thesis
    using 3 [of "world_now clk w" _ "tick w"]
    by (auto simp: run_one_def Let_def 1 2 split: sum.split bool.split prod.split dest!: 4)
      (metis fst_conv tick_simps(1))+
qed

lemma run_one_apart:
  assumes "sent_apart (n * day_ns) (t_keepalive_runs (wd_db w))" "0 \<le> n" "n \<le> ki_interval it" "ki_interval it \<le> 106751"
  shows "sent_apart (n * day_ns) (t_keepalive_runs (wd_db (fst (run_one faults tz clk render send cfg it all False w))))"
proof -
  obtain w' res where r: "run_one faults tz clk render send cfg it all False w = (w', res)"
    by fastforce
  from run_one_effect [OF r] consider "t_keepalive_runs (wd_db w') = t_keepalive_runs (wd_db w)"
    | run s where "kr_iccid run = ki_iccid it" "kr_ran_at run = world_now clk w"
        "last_sent_at faults (ki_iccid it) (wd_db w) = Inr s"
        "is_due (world_now clk w) (later_of (ki_last_activity it) s) (ki_first_seen it) (ki_interval it)"
        "t_keepalive_runs (wd_db w') = t_keepalive_runs (wd_db w) @ [run]"
    by blast
  then show ?thesis
  proof cases
    case 1
    with r assms(1) show ?thesis by simp
  next
    case 2
    have "t + n * day_ns \<le> world_now clk w" if t: "t \<in> set (sent_times (ki_iccid it) (t_keepalive_runs (wd_db w)))" for t
    proof -
      obtain u where u: "s = Some u" "t \<le> u" using last_sent_at_max [OF 2(3) t] by blast
      obtain v where v: "later_of (ki_last_activity it) s = Some v" "u \<le> v"
        using u by (cases "ki_last_activity it") (fastforce simp: later_of_def not_less split: if_splits)+
      have "v + ki_interval it * day_ns \<le> world_now clk w"
        using 2(4) is_due_iff [of "ki_interval it"] assms(2-4) v by simp
      moreover have "n * day_ns \<le> ki_interval it * day_ns"
        using assms(3) by (simp add: go_time)
      ultimately show ?thesis using u v by linarith
    qed
    with 2 r assms(1) show ?thesis
      by (auto simp: sent_apart_def sent_times_def sorted_wrt_append)
  qed
qed

lemma collect_items_set: "collect_items f xs = Inr ys \<Longrightarrow> y \<in> set ys \<Longrightarrow> \<exists>x \<in> set xs. f x = Inr y"
  by (induction xs arbitrary: ys) (auto simp: and_then_Inr_iff)

lemma collect_intervals:
  assumes "ka_collect faults tz clk cfg online w = (w', Inr its)" "intervals_within n cfg (t_modems (wd_db w))"
  shows "list_all (\<lambda>it. n \<le> ki_interval it \<and> ki_interval it \<le> 106751) its"
proof -
  have "n \<le> ki_interval it \<and> ki_interval it \<le> 106751" if it: "it \<in> set its" for it
  proof -
    obtain m where m: "m \<in> set (modems_by_slot (t_modems (wd_db w)))"
      "ka_collect_one faults tz cfg online (world_now clk w) (wd_db w) m = Inr it"
      using assms(1) collect_items_set [OF _ it]
      by (auto simp: ka_collect_def split: sum.splits)
    have "ki_interval it = (case m_keepalive_interval m of
              Some i \<Rightarrow> if i > 0 then i else ac_interval_days cfg | None \<Rightarrow> ac_interval_days cfg)"
      using m(2) by (auto simp: ka_collect_one_def Let_def and_then_Inr_iff)
    moreover have "m \<in> set (t_modems (wd_db w))"
      using m(1) by (auto simp: modems_by_slot_def Let_def)
    ultimately show ?thesis
      using assms(2) by (auto simp: intervals_within_def list_all_iff split: option.splits)
  qed
  then show ?thesis by (simp add: list_all_iff)
qed



end
