(* ===== verification/Sim_Health.thy ===== *)
theory Sim_Health
  imports Alert_Log Sim_Repository
begin

text \<open>
  \<open>internal/simhealth\<close>: findings about SIMs that are silent, not registered, absent from the tray
  or whose plan runs out (\<open>evaluate.go\<close>), and the service that collects the inputs, records alerts
  and repeats them after \<open>remind_days\<close> (\<open>service.go\<close>).
\<close>

subsection \<open>Evaluate\<close>

record health_config =
  hs_no_sms_days :: int
  hs_unregistered_hours :: int
  hs_absent_days :: int
  hs_plan_warn_days :: int

record health_input =
  hi_iccid :: string
  hi_online :: bool
  hi_last_registered :: "gtime option"
  hi_first_seen :: "gtime option"
  hi_last_sms :: "gtime option"
  hi_last_removed :: "gtime option"
  hi_in_bay :: bool
  hi_plan_expires :: "gtime option"

record finding =
  fi_iccid :: string
  fi_kind :: sim_alert_kind
  fi_detail :: string

definition txt_no_sms :: "int \<Rightarrow> string" where
  "txt_no_sms n = ''kh'' @ [CHR 0xC3, CHR 0xB4] @ ''ng nh'' @ [CHR 0xE1, CHR 0xBA, CHR 0xAD] @ ''n SMS n'' @
     [CHR 0xC3, CHR 0xA0] @ ''o '' @ go_itoa n @ '' ng'' @ [CHR 0xC3, CHR 0xA0] @ ''y '' @
     [CHR 0xE2, CHR 0x80, CHR 0x94] @ '' c'' @ [CHR 0xC3, CHR 0xB3] @ '' th'' @ [CHR 0xE1, CHR 0xBB, CHR 0x83] @
     '' b'' @ [CHR 0xE1, CHR 0xBB, CHR 0x8B] @ '' thu h'' @ [CHR 0xE1, CHR 0xBB, CHR 0x93] @ ''i''"

definition txt_unregistered :: "int \<Rightarrow> string" where
  "txt_unregistered n = ''kh'' @ [CHR 0xC3, CHR 0xB4] @ ''ng '' @ [CHR 0xC4, CHR 0x91, CHR 0xC4, CHR 0x83] @ ''ng k'' @
     [CHR 0xC3, CHR 0xBD] @ '' m'' @ [CHR 0xE1, CHR 0xBA, CHR 0xA1] @ ''ng '' @ go_itoa n @ '' gi'' @
     [CHR 0xE1, CHR 0xBB, CHR 0x9D] @ '' d'' @ [CHR 0xC3, CHR 0xB9] @ '' modem online''"

definition txt_absent :: "int \<Rightarrow> string" where
  "txt_absent n = [CHR 0xC4, CHR 0x91, CHR 0xC3, CHR 0xA3] @ '' r'' @ [CHR 0xC3, CHR 0xBA] @ ''t kh'' @
     [CHR 0xE1, CHR 0xBB, CHR 0x8F] @ ''i khay '' @ go_itoa n @ '' ng'' @ [CHR 0xC3, CHR 0xA0] @ ''y''"

definition txt_days_left :: "int \<Rightarrow> string" where
  "txt_days_left n = (if n < 0
     then [CHR 0xC4, CHR 0x91, CHR 0xC3, CHR 0xA3] @ '' qu'' @ [CHR 0xC3, CHR 0xA1] @ '' h'' @
       [CHR 0xE1, CHR 0xBA, CHR 0xA1] @ ''n '' @ go_itoa (- n) @ '' ng'' @ [CHR 0xC3, CHR 0xA0] @ ''y''
     else ''c'' @ [CHR 0xC3, CHR 0xB2] @ ''n '' @ go_itoa n @ '' ng'' @ [CHR 0xC3, CHR 0xA0] @ ''y'')"

definition txt_plan :: "string \<Rightarrow> string \<Rightarrow> string" where
  "txt_plan date msg = ''TK ch'' @ [CHR 0xC3, CHR 0xAD] @ ''nh h'' @ [CHR 0xE1, CHR 0xBA, CHR 0xBF] @ ''t h'' @
     [CHR 0xE1, CHR 0xBA, CHR 0xA1] @ ''n '' @ date @ '' ('' @ msg @ '')''"

definition no_sms_finding :: "gtime \<Rightarrow> health_config \<Rightarrow> health_input \<Rightarrow> finding list" where
  "no_sms_finding now cfg i =
     (case (case hi_last_sms i of None \<Rightarrow> hi_first_seen i | Some t \<Rightarrow> Some t) of
        None \<Rightarrow> []
      | Some ref \<Rightarrow>
          if hi_in_bay i \<and> 0 < hs_no_sms_days cfg \<and> days_dur (hs_no_sms_days cfg) \<le> time_sub now ref
          then [\<lparr> fi_iccid = hi_iccid i, fi_kind = SimAlertNoSMS,
                  fi_detail = txt_no_sms (whole_days (time_sub now ref)) \<rparr>] else [])"

definition unregistered_finding :: "gtime \<Rightarrow> health_config \<Rightarrow> health_input \<Rightarrow> finding list" where
  "unregistered_finding now cfg i =
     (if hi_online i \<and> 0 < hs_unregistered_hours cfg then
        let since = (case hi_last_registered i of
               Some t \<Rightarrow> time_sub now t
             | None \<Rightarrow> (case hi_first_seen i of Some t \<Rightarrow> time_sub now t | None \<Rightarrow> 0))
        in if hours_dur (hs_unregistered_hours cfg) \<le> since
           then [\<lparr> fi_iccid = hi_iccid i, fi_kind = SimAlertUnregistered,
                   fi_detail = txt_unregistered (whole_hours since) \<rparr>] else []
      else [])"

definition absent_finding :: "gtime \<Rightarrow> health_config \<Rightarrow> health_input \<Rightarrow> finding list" where
  "absent_finding now cfg i =
     (case hi_last_removed i of
        None \<Rightarrow> []
      | Some t \<Rightarrow>
          if \<not> hi_in_bay i \<and> 0 < hs_absent_days cfg \<and> days_dur (hs_absent_days cfg) \<le> time_sub now t
          then [\<lparr> fi_iccid = hi_iccid i, fi_kind = SimAlertAbsent,
                  fi_detail = txt_absent (whole_days (time_sub now t)) \<rparr>] else [])"

definition plan_finding :: "int \<Rightarrow> gtime \<Rightarrow> health_config \<Rightarrow> health_input \<Rightarrow> finding list" where
  "plan_finding tz now cfg i =
     (case hi_plan_expires i of
        None \<Rightarrow> []
      | Some t \<Rightarrow>
          if 0 < hs_plan_warn_days cfg \<and> time_sub t now \<le> days_dur (hs_plan_warn_days cfg)
          then [\<lparr> fi_iccid = hi_iccid i, fi_kind = SimAlertPlanExpiring,
                  fi_detail = txt_plan (format_dmy tz t) (txt_days_left (whole_days (time_sub t now))) \<rparr>] else [])"

definition health_evaluate :: "int \<Rightarrow> gtime \<Rightarrow> health_config \<Rightarrow> health_input list \<Rightarrow> finding list" where
  "health_evaluate tz now cfg inputs =
     concat (map (\<lambda>i. no_sms_finding now cfg i @ unregistered_finding now cfg i @
        absent_finding now cfg i @ plan_finding tz now cfg i) inputs)"

subsection \<open>The service\<close>

record health_item =
  th_iccid :: string
  th_phone :: string
  th_slot :: "int option"
  th_findings :: "finding list"

definition last_removed_at :: "database \<Rightarrow> string \<Rightarrow> gtime option" where
  "last_removed_at db iccid =
     map_option e_detected_at
       (find_last (\<lambda>e. e_event e = SlotEventRemoved \<and> e_iccid e = iccid) (t_slot_events db))"

definition health_input_of ::
  "(string \<Rightarrow> runtime_modem option) \<Rightarrow> database \<Rightarrow> modem \<Rightarrow> health_input" where
  "health_input_of online db m =
     \<lparr> hi_iccid = m_iccid m,
       hi_online = (case online (m_iccid m) of None \<Rightarrow> False | Some rt \<Rightarrow> rt_status rt = ''online''),
       hi_last_registered = m_last_registered_at m, hi_first_seen = m_first_seen_at m,
       hi_last_sms = last_received_sms_at db (m_iccid m),
       hi_last_removed = last_removed_at db (m_iccid m),
       hi_in_bay = (bay_holding (t_bays db) (m_iccid m) \<noteq> None),
       hi_plan_expires = m_plan_expires_at m \<rparr>"

definition health_cfg :: "sim_health_config \<Rightarrow> health_config" where
  "health_cfg c = \<lparr> hs_no_sms_days = hc_no_sms_days c, hs_unregistered_hours = hc_unregistered_hours c,
     hs_absent_days = hc_absent_days c, hs_plan_warn_days = hc_plan_warn_days c \<rparr>"

definition health_item_of ::
  "int \<Rightarrow> gtime \<Rightarrow> sim_health_config \<Rightarrow> (string \<Rightarrow> runtime_modem option) \<Rightarrow> database \<Rightarrow> modem \<Rightarrow> health_item" where
  "health_item_of tz now c online db m =
     \<lparr> th_iccid = m_iccid m, th_phone = m_phone_number m,
       th_slot = (case bay_holding (t_bays db) (m_iccid m) of
          None \<Rightarrow> m_slot_number m
        | Some b \<Rightarrow> (case b_slot_number b of None \<Rightarrow> m_slot_number m | Some n \<Rightarrow> Some n)),
       th_findings = map (\<lambda>f. f\<lparr>fi_iccid := []\<rparr>)
          (health_evaluate tz now (health_cfg c) [health_input_of online db m]) \<rparr>"

definition health_collect ::
  "faults \<Rightarrow> int \<Rightarrow> clock \<Rightarrow> sim_health_config \<Rightarrow> (string \<Rightarrow> runtime_modem option) \<Rightarrow> world
     \<Rightarrow> world \<times> health_item list result" where
  "health_collect faults tz clk c online w =
     (case and_then (db_call faults ''health.modems'' ()) (\<lambda>_.
           and_then (db_call faults ''health.bays'' ()) (\<lambda>_.
           and_then (db_call faults ''health.sms'' ()) (\<lambda>_.
           db_call faults ''health.removed'' ()))) of
        Inl e \<Rightarrow> (w, Inl e)
      | Inr _ \<Rightarrow>
          (tick w, Inr (map (health_item_of tz (world_now clk w) c online (wd_db w))
             (modems_by_slot (t_modems (wd_db w))))))"

definition health_emoji :: "sim_alert_kind \<Rightarrow> string" where
  "health_emoji k = (case k of
     SimAlertNoSMS \<Rightarrow> [CHR 0xF0, CHR 0x9F, CHR 0xAA, CHR 0xA6]
   | SimAlertUnregistered \<Rightarrow> [CHR 0xF0, CHR 0x9F, CHR 0x93, CHR 0xA1]
   | SimAlertAbsent \<Rightarrow> [CHR 0xF0, CHR 0x9F, CHR 0x93, CHR 0xA4]
   | SimAlertPlanExpiring \<Rightarrow> [CHR 0xE2, CHR 0x8F, CHR 0xB0]
   | SimAlertKeepalive \<Rightarrow> [])"

definition health_alert_text :: "health_item \<Rightarrow> finding \<Rightarrow> string" where
  "health_alert_text it f =
     (let name = (if th_phone it = [] then th_iccid it else th_phone it);
          name2 = (case th_slot it of None \<Rightarrow> name | Some n \<Rightarrow> name @ '' (khe '' @ go_itoa n @ '')'')
      in health_emoji (fi_kind f) @ '' SIM '' @ name2 @ '': '' @ fi_detail f)"

definition send_health_alert ::
  "faults \<Rightarrow> clock \<Rightarrow> duration \<Rightarrow> health_item \<times> finding \<Rightarrow> world \<Rightarrow> world" where
  "send_health_alert faults clk remind p w =
     (case p of (it, f) \<Rightarrow>
        (case sim_alerted_within faults (th_iccid it) (fi_kind f) (world_now clk w) remind (wd_db w) of
           Inl e \<Rightarrow> tick w
         | Inr True \<Rightarrow> tick w
         | Inr False \<Rightarrow>
             let w1 = tick w
             in (case add_sim_alert faults \<lparr> sa_iccid = th_iccid it, sa_kind = fi_kind f,
                        sa_detail = fi_detail f, sa_sent_at = world_now clk w1 \<rparr> (wd_db w1) of
                   Inl e \<Rightarrow> tick w1
                 | Inr db \<Rightarrow> dispatch_text (th_iccid it) (health_alert_text it f) ((tick w1)\<lparr>wd_db := db\<rparr>))))"

definition remind_period :: "sim_health_config \<Rightarrow> duration" where
  "remind_period c = days_dur (if hc_remind_days c \<le> 0 then 7 else hc_remind_days c)"

definition health_run ::
  "faults \<Rightarrow> int \<Rightarrow> clock \<Rightarrow> sim_health_config \<Rightarrow> (string \<Rightarrow> runtime_modem option) \<Rightarrow> world
     \<Rightarrow> world \<times> unit result" where
  "health_run faults tz clk c online w =
     (case health_collect faults tz clk c online w of
        (w1, Inl e) \<Rightarrow> (w1, Inl e)
      | (w1, Inr items) \<Rightarrow>
          (fold (send_health_alert faults clk (remind_period c))
             (concat (map (\<lambda>it. map (Pair it) (th_findings it)) items)) w1, Inr ()))"

subsection \<open>What is found\<close>

lemma findings_kinds:
  "f \<in> set (no_sms_finding now cfg i) \<Longrightarrow> fi_kind f = SimAlertNoSMS"
  "f \<in> set (unregistered_finding now cfg i) \<Longrightarrow> fi_kind f = SimAlertUnregistered"
  "f \<in> set (absent_finding now cfg i) \<Longrightarrow> fi_kind f = SimAlertAbsent"
  "f \<in> set (plan_finding tz now cfg i) \<Longrightarrow> fi_kind f = SimAlertPlanExpiring"
  by (auto simp: no_sms_finding_def unregistered_finding_def absent_finding_def plan_finding_def Let_def
      split: option.splits if_splits)

definition kinds_found :: "int \<Rightarrow> gtime \<Rightarrow> health_config \<Rightarrow> health_input \<Rightarrow> sim_alert_kind list" where
  "kinds_found tz now cfg i = map fi_kind (health_evaluate tz now cfg [i])"

lemma days_dur_time_sub:
  assumes "0 \<le> n" "n \<le> 106751"
  shows "days_dur n \<le> time_sub now t \<longleftrightarrow> t + n * day_ns \<le> now"
    and "time_sub t now \<le> days_dur n \<longleftrightarrow> t - now \<le> n * day_ns"
proof -
  have d: "days_dur n = n * day_ns" by (rule days_dur_exact [OF assms])
  have i: "in_int64 (n * day_ns)" using assms by (simp add: in_int64_def go_time)
  show "days_dur n \<le> time_sub now t \<longleftrightarrow> t + n * day_ns \<le> now"
    using time_sub_ge_iff [OF i, of now t] assms d by (auto simp: min_int64_def go_time)
  show "time_sub t now \<le> days_dur n \<longleftrightarrow> t - now \<le> n * day_ns"
    using d i assms by (auto simp: time_sub_def min_int64_def max_int64_def in_int64_def go_time)
qed

text \<open>
  Which findings a SIM has, for day limits up to 106751: silent when it is in the tray and the
  limit has passed since its last message (or first sighting); absent when it is not in the tray and
  the limit has passed since its removal; expiring when at most the limit is left of its plan. A SIM
  is never found both silent and absent, each kind is found at most once, and a limit of zero or less
  switches its check off.
\<close>

theorem health_findings:
  assumes "list_all (\<lambda>n. n \<le> 106751) [hs_no_sms_days cfg, hs_absent_days cfg, hs_plan_warn_days cfg]"
  shows "(SimAlertNoSMS \<in> set (kinds_found tz now cfg i) \<longleftrightarrow>
        hi_in_bay i \<and> 0 < hs_no_sms_days cfg \<and>
        (case (case hi_last_sms i of None \<Rightarrow> hi_first_seen i | Some t \<Rightarrow> Some t) of
           None \<Rightarrow> False | Some t \<Rightarrow> t + hs_no_sms_days cfg * day_ns \<le> now)) \<and>
     (SimAlertAbsent \<in> set (kinds_found tz now cfg i) \<longleftrightarrow>
        \<not> hi_in_bay i \<and> 0 < hs_absent_days cfg \<and>
        (case hi_last_removed i of None \<Rightarrow> False | Some t \<Rightarrow> t + hs_absent_days cfg * day_ns \<le> now)) \<and>
     (SimAlertPlanExpiring \<in> set (kinds_found tz now cfg i) \<longleftrightarrow>
        0 < hs_plan_warn_days cfg \<and>
        (case hi_plan_expires i of None \<Rightarrow> False | Some t \<Rightarrow> t - now \<le> hs_plan_warn_days cfg * day_ns)) \<and>
     distinct (kinds_found tz now cfg i) \<and>
     (SimAlertUnregistered \<in> set (kinds_found tz now cfg i) \<longrightarrow> hi_online i \<and> 0 < hs_unregistered_hours cfg)"
proof -
  have k: "kinds_found tz now cfg i = map fi_kind (no_sms_finding now cfg i) @
      map fi_kind (unregistered_finding now cfg i) @ map fi_kind (absent_finding now cfg i) @
      map fi_kind (plan_finding tz now cfg i)"
    by (simp add: kinds_found_def health_evaluate_def)
  have l: "length (no_sms_finding now cfg i) \<le> 1" "length (unregistered_finding now cfg i) \<le> 1"
    "length (absent_finding now cfg i) \<le> 1" "length (plan_finding tz now cfg i) \<le> 1"
    by (auto simp: no_sms_finding_def unregistered_finding_def absent_finding_def plan_finding_def Let_def
        split: option.split)
  have one: "distinct (map fi_kind xs)" if "length xs \<le> 1" for xs :: "finding list"
    using that by (cases xs) auto
  have s: "set (map fi_kind (no_sms_finding now cfg i)) \<subseteq> {SimAlertNoSMS}"
    "set (map fi_kind (unregistered_finding now cfg i)) \<subseteq> {SimAlertUnregistered}"
    "set (map fi_kind (absent_finding now cfg i)) \<subseteq> {SimAlertAbsent}"
    "set (map fi_kind (plan_finding tz now cfg i)) \<subseteq> {SimAlertPlanExpiring}"
    using findings_kinds by auto
  have mem: "a \<in> set (map fi_kind xs) \<longleftrightarrow> xs \<noteq> []" if "set (map fi_kind xs) \<subseteq> {a}" for a and xs :: "finding list"
    using that by (cases xs) auto
  have ms: "x \<in> set (kinds_found tz now cfg i) \<longleftrightarrow> x \<in> set (map fi_kind (no_sms_finding now cfg i)) \<or>
      x \<in> set (map fi_kind (unregistered_finding now cfg i)) \<or> x \<in> set (map fi_kind (absent_finding now cfg i)) \<or>
      x \<in> set (map fi_kind (plan_finding tz now cfg i))" for x
    unfolding k by (simp only: set_append Un_iff)
  have 1: "SimAlertNoSMS \<in> set (kinds_found tz now cfg i) \<longleftrightarrow> no_sms_finding now cfg i \<noteq> []"
    unfolding ms mem [OF s(1)] using s by blast
  have 2: "SimAlertAbsent \<in> set (kinds_found tz now cfg i) \<longleftrightarrow> absent_finding now cfg i \<noteq> []"
    unfolding ms mem [OF s(3)] using s by blast
  have 3: "SimAlertPlanExpiring \<in> set (kinds_found tz now cfg i) \<longleftrightarrow> plan_finding tz now cfg i \<noteq> []"
    unfolding ms mem [OF s(4)] using s by blast
  have 4: "SimAlertUnregistered \<in> set (kinds_found tz now cfg i) \<longrightarrow> unregistered_finding now cfg i \<noteq> []"
    unfolding ms mem [OF s(2)] using s by blast
  have 5: "distinct (kinds_found tz now cfg i)"
    unfolding k distinct_append set_append using one [OF l(1)] one [OF l(2)] one [OF l(3)] one [OF l(4)] s
    by blast
  have lim: "hs_no_sms_days cfg \<le> 106751" "hs_absent_days cfg \<le> 106751" "hs_plan_warn_days cfg \<le> 106751"
    using assms by simp_all
  have 6: "no_sms_finding now cfg i \<noteq> [] \<longleftrightarrow> hi_in_bay i \<and> 0 < hs_no_sms_days cfg \<and>
        (case (case hi_last_sms i of None \<Rightarrow> hi_first_seen i | Some t \<Rightarrow> Some t) of
           None \<Rightarrow> False | Some t \<Rightarrow> t + hs_no_sms_days cfg * day_ns \<le> now)"
    using days_dur_time_sub(1) [OF _ lim(1)] by (cases "hs_no_sms_days cfg > 0") (simp_all add: no_sms_finding_def split: option.split)
  have 7: "absent_finding now cfg i \<noteq> [] \<longleftrightarrow> \<not> hi_in_bay i \<and> 0 < hs_absent_days cfg \<and>
        (case hi_last_removed i of None \<Rightarrow> False | Some t \<Rightarrow> t + hs_absent_days cfg * day_ns \<le> now)"
    using days_dur_time_sub(1) [OF _ lim(2)] by (cases "hs_absent_days cfg > 0") (simp_all add: absent_finding_def split: option.split)
  have 8: "plan_finding tz now cfg i \<noteq> [] \<longleftrightarrow> 0 < hs_plan_warn_days cfg \<and>
        (case hi_plan_expires i of None \<Rightarrow> False | Some t \<Rightarrow> t - now \<le> hs_plan_warn_days cfg * day_ns)"
    using days_dur_time_sub(2) [OF _ lim(3)] by (cases "hs_plan_warn_days cfg > 0") (simp_all add: plan_finding_def split: option.split)
  have 9: "unregistered_finding now cfg i \<noteq> [] \<longrightarrow> hi_online i \<and> 0 < hs_unregistered_hours cfg"
    by (simp add: unregistered_finding_def)
  show ?thesis
    unfolding 1 2 3 6 7 8 using 4 5 9 by blast
qed

theorem health_findings_witness:
  "SimAlertNoSMS \<in> set (kinds_found 0 (31 * day_ns)
     \<lparr> hs_no_sms_days = 30, hs_unregistered_hours = 24, hs_absent_days = 7, hs_plan_warn_days = 7 \<rparr>
     \<lparr> hi_iccid = ''c1'', hi_online = False, hi_last_registered = None, hi_first_seen = Some 0, hi_last_sms = None,
       hi_last_removed = Some 3, hi_in_bay = True, hi_plan_expires = None \<rparr>)"
  using health_findings [of "\<lparr> hs_no_sms_days = 30, hs_unregistered_hours = 24, hs_absent_days = 7, hs_plan_warn_days = 7 \<rparr>"
      0 "31 * day_ns" "\<lparr> hi_iccid = ''c1'', hi_online = False, hi_last_registered = None, hi_first_seen = Some 0,
       hi_last_sms = None, hi_last_removed = Some 3, hi_in_bay = True, hi_plan_expires = None \<rparr>"]
  by simp

subsection \<open>Reminders\<close>

lemma send_health_alert_spaced:
  assumes "monotone_clock clk" "spaced d (sa_sent (t_sim_alerts (wd_db w)) k)"
  shows "spaced d (sa_sent (t_sim_alerts (wd_db (send_health_alert faults clk d p w))) k)"
proof -
  obtain it f where p: "p = (it, f)" by fastforce
  let ?a = "\<lparr> sa_iccid = th_iccid it, sa_kind = fi_kind f, sa_detail = fi_detail f,
     sa_sent_at = world_now clk (tick w) \<rparr>"
  have le: "world_now clk w \<le> sa_sent_at ?a"
    using assms(1) by (simp add: world_now_def monotone_clock_def)
  show ?thesis
  proof (cases "sim_alerted_within faults (th_iccid it) (fi_kind f) (world_now clk w) d (wd_db w) = Inr False")
    case True
    then have n: "\<not> sa_within (t_sim_alerts (wd_db w)) (sa_key ?a) (world_now clk w - d)"
      by (simp add: sim_alerted_within_def db_call_Inr_iff time_add_def sa_key_def)
    show ?thesis
    proof (cases "add_sim_alert faults ?a (wd_db (tick w))")
      case (Inl e)
      with True p assms(2) show ?thesis by (simp add: send_health_alert_def Let_def)
    next
      case (Inr db)
      then have "db = sim_log.try_alert d (world_now clk w) ?a (wd_db w)"
        using n by (simp add: add_sim_alert_def db_call_Inr_iff sim_log.try_alert_def)
      with True p Inr sim_log.try_alert_spaced [OF assms(2) le]
      show ?thesis by (simp add: send_health_alert_def Let_def)
    qed
  next
    case False
    with p assms(2) show ?thesis
      by (auto simp: send_health_alert_def split: sum.split bool.split)
  qed
qed

lemma fold_inv: "P s \<Longrightarrow> (\<And>x s. P s \<Longrightarrow> P (f x s)) \<Longrightarrow> P (fold f xs s)"
  by (induction xs arbitrary: s) auto

text \<open>
  However often the health check runs, and whichever database calls fail, two alerts of one SIM of
  one kind are always more than the reminder period apart, provided the clock does not run backwards.
\<close>

theorem health_alerts_spaced:
  assumes "monotone_clock clk" "spaced (remind_period c) (sa_sent (t_sim_alerts (wd_db w)) k)"
  shows "spaced (remind_period c) (sa_sent (t_sim_alerts (wd_db
    (fold (\<lambda>(faults, online) w. fst (health_run faults tz clk c online w)) runs w))) k)"
proof (rule fold_inv [where P = "\<lambda>w. spaced (remind_period c) (sa_sent (t_sim_alerts (wd_db w)) k)"])
  fix r :: "faults \<times> (string \<Rightarrow> runtime_modem option)" and w :: world
  assume s: "spaced (remind_period c) (sa_sent (t_sim_alerts (wd_db w)) k)"
  obtain faults :: faults and online where r: "r = (faults, online)" by fastforce
  have "spaced (remind_period c) (sa_sent (t_sim_alerts (wd_db
      (fold (send_health_alert faults clk (remind_period c)) ps (tick w)))) k)" for ps
    by (rule fold_inv [where P = "\<lambda>w. spaced (remind_period c) (sa_sent (t_sim_alerts (wd_db w)) k)"])
      (use s send_health_alert_spaced [OF assms(1)] in auto)
  with s r show "spaced (remind_period c) (sa_sent (t_sim_alerts (wd_db
      ((\<lambda>(faults, online) w. fst (health_run faults tz clk c online w)) r w))) k)"
    by (auto simp: health_run_def health_collect_def split: sum.split)
qed (rule assms(2))

theorem health_alerts_spaced_witness:
  "spaced (remind_period (c_sim_health viper_defaults)) (sa_sent (t_sim_alerts (wd_db
    (fold (\<lambda>(faults, online) w. fst (health_run faults 0 (\<lambda>n. int n * hour_ns) (c_sim_health viper_defaults) online w))
      [(no_faults, \<lambda>_. None), (no_faults, \<lambda>_. None)]
      \<lparr> wd_db = empty_db\<lparr>t_modems := [(new_modem ''c1'')\<lparr>m_plan_expires_at := Some 0\<rparr>],
          t_sim_alerts := [\<lparr> sa_iccid = ''c1'', sa_kind = SimAlertPlanExpiring, sa_detail = [], sa_sent_at = 0 \<rparr>]\<rparr>,
        wd_tick = 0, wd_texts = [], wd_sms = [] \<rparr>))) (''c1'', SimAlertPlanExpiring))"
  by (rule health_alerts_spaced)
    (simp_all add: monotone_clock_def go_time spaced_def sa_sent_def sa_key_def)

end
