(* ===== verification/Report.thy ===== *)
theory Report
  imports Sim_Repository
begin

text \<open>
  \<open>internal/report/monthly.go\<close>: the monthly report of every SIM, from one grouped query per
  table, and its CSV form. A grouped query is a function from the ICCID to the aggregate of its rows
  in the month (0 for a SIM without rows, as Go's map yields the zero value).
\<close>

subsection \<open>Rows\<close>

record report_row =
  rr_iccid :: string
  rr_phone :: string
  rr_slot :: "int option"
  rr_sms_received :: int
  rr_sms_sent :: int
  rr_sms_failed :: int
  rr_calls :: int
  rr_call_seconds :: int
  rr_balance_start :: "int option"
  rr_balance_end :: "int option"
  rr_balance_delta :: "int option"
  rr_slot_events :: int
  rr_keepalive_sent :: int
  rr_alerts :: int

record report =
  rp_month :: string
  rp_rows :: "report_row list"
  rp_totals :: report_row

definition empty_row :: report_row where
  "empty_row = \<lparr> rr_iccid = [], rr_phone = [], rr_slot = None, rr_sms_received = 0, rr_sms_sent = 0,
     rr_sms_failed = 0, rr_calls = 0, rr_call_seconds = 0, rr_balance_start = None, rr_balance_end = None,
     rr_balance_delta = None, rr_slot_events = 0, rr_keepalive_sent = 0, rr_alerts = 0 \<rparr>"

definition in_window :: "gtime \<Rightarrow> gtime \<Rightarrow> gtime \<Rightarrow> bool" where
  "in_window start fin t \<longleftrightarrow> start \<le> t \<and> t < fin"

definition group_count :: "('a \<Rightarrow> bool) \<Rightarrow> 'a list \<Rightarrow> int" where
  "group_count P rows = int (count_rows P rows)"

text \<open>\<open>edge("MIN")\<close> and \<open>edge("MAX")\<close>: the first and last snapshot of the month by id.\<close>

definition edge_min :: "gtime \<Rightarrow> gtime \<Rightarrow> balance_snapshot list \<Rightarrow> string \<Rightarrow> int option" where
  "edge_min start fin rows iccid =
     map_option bs_balance_vnd (find (\<lambda>s. bs_iccid s = iccid \<and> in_window start fin (bs_read_at s)) rows)"

definition edge_max :: "gtime \<Rightarrow> gtime \<Rightarrow> balance_snapshot list \<Rightarrow> string \<Rightarrow> int option" where
  "edge_max start fin rows iccid =
     map_option bs_balance_vnd (find_last (\<lambda>s. bs_iccid s = iccid \<and> in_window start fin (bs_read_at s)) rows)"

definition report_slot :: "modem_bay list \<Rightarrow> modem \<Rightarrow> int option" where
  "report_slot bays m =
     (case find_last (\<lambda>b. b_current_iccid b = m_iccid m \<and> b_slot_number b \<noteq> None)
         (filter (\<lambda>b. b_current_iccid b \<noteq> []) bays) of
        Some b \<Rightarrow> b_slot_number b | None \<Rightarrow> m_slot_number m)"

definition report_row_of :: "gtime \<Rightarrow> gtime \<Rightarrow> database \<Rightarrow> modem \<Rightarrow> report_row" where
  "report_row_of start fin db m =
     (let c = m_iccid m; w = in_window start fin;
          calls = filter (\<lambda>r. cr_iccid r = c \<and> w (cr_created_at r)) (t_recordings db);
          b0 = edge_min start fin (t_snapshots db) c;
          b1 = edge_max start fin (t_snapshots db) c
      in \<lparr> rr_iccid = c, rr_phone = m_phone_number m, rr_slot = report_slot (t_bays db) m,
           rr_sms_received = group_count (\<lambda>s. s_iccid s = c \<and> w (s_timestamp s) \<and> s_type s = ''received'') (t_sms db),
           rr_sms_sent = group_count (\<lambda>s. s_iccid s = c \<and> w (s_timestamp s) \<and> s_type s = ''sent'') (t_sms db),
           rr_sms_failed = group_count (\<lambda>e. al_iccid e = c \<and> w (al_at e) \<and> al_action e = ''sms.send'' \<and>
               400 \<le> al_status e) (t_audit db),
           rr_calls = int (length calls), rr_call_seconds = sum_list (map cr_duration_seconds calls),
           rr_balance_start = b0, rr_balance_end = b1,
           rr_balance_delta = (case (b0, b1) of (Some x, Some y) \<Rightarrow> Some (y - x) | _ \<Rightarrow> None),
           rr_slot_events = group_count (\<lambda>e. e_iccid e = c \<and> w (e_detected_at e)) (t_slot_events db),
           rr_keepalive_sent = group_count (\<lambda>r. kr_iccid r = c \<and> w (kr_ran_at r) \<and> kr_status r = KeepaliveSent)
               (t_keepalive_runs db),
           rr_alerts = group_count (\<lambda>a. ba_iccid a = c \<and> w (ba_sent_at a)) (t_balance_alerts db) +
               group_count (\<lambda>a. sa_iccid a = c \<and> w (sa_sent_at a)) (t_sim_alerts db) \<rparr>)"

text \<open>The comparison of \<open>sort.SliceStable\<close>: rows with a slot first, by slot, then by ICCID.\<close>

definition row_less :: "report_row \<Rightarrow> report_row \<Rightarrow> bool" where
  "row_less x y =
     (case (rr_slot x, rr_slot y) of
        (Some a, Some b) \<Rightarrow> if a \<noteq> b then a < b else rr_iccid x < rr_iccid y
      | (Some a, None) \<Rightarrow> True
      | (None, Some b) \<Rightarrow> False
      | (None, None) \<Rightarrow> rr_iccid x < rr_iccid y)"

definition add_opt :: "int option \<Rightarrow> int option \<Rightarrow> int option" where
  "add_opt dst v = (case v of None \<Rightarrow> dst | Some x \<Rightarrow> Some ((case dst of None \<Rightarrow> 0 | Some y \<Rightarrow> y) + x))"

definition add_row :: "report_row \<Rightarrow> report_row \<Rightarrow> report_row" where
  "add_row row t = t\<lparr>
     rr_sms_received := rr_sms_received t + rr_sms_received row,
     rr_sms_sent := rr_sms_sent t + rr_sms_sent row,
     rr_sms_failed := rr_sms_failed t + rr_sms_failed row,
     rr_calls := rr_calls t + rr_calls row,
     rr_call_seconds := rr_call_seconds t + rr_call_seconds row,
     rr_slot_events := rr_slot_events t + rr_slot_events row,
     rr_keepalive_sent := rr_keepalive_sent t + rr_keepalive_sent row,
     rr_alerts := rr_alerts t + rr_alerts row,
     rr_balance_start := add_opt (rr_balance_start t) (rr_balance_start row),
     rr_balance_end := add_opt (rr_balance_end t) (rr_balance_end row),
     rr_balance_delta := add_opt (rr_balance_delta t) (rr_balance_delta row)\<rparr>"

definition report_queries :: "string list" where
  "report_queries = [''bays'', ''received'', ''sent'', ''failed'', ''calls'', ''slots'', ''keepalive'',
     ''balance_alerts'', ''sim_alerts'', ''min'', ''max'']"

definition monthly ::
  "faults \<Rightarrow> int \<Rightarrow> gtime \<Rightarrow> string list option \<Rightarrow> database \<Rightarrow> report result" where
  "monthly faults tz month allowed db =
     (let start = month_start tz month; fin = month_end tz month;
          r = \<lparr> rp_month = format_yyyy_mm tz start, rp_rows = [], rp_totals = empty_row \<rparr>
      in and_then (db_call faults ''report.modems''
           (sort_key m_iccid (filter (\<lambda>m. case allowed of None \<Rightarrow> True | Some a \<Rightarrow> m_iccid m \<in> set a) (t_modems db)))) (\<lambda>ms.
         if ms = [] then Inr r
         else
           and_then (fold_result (\<lambda>q _. db_call faults (''report.'' @ q) ()) report_queries ()) (\<lambda>_.
           let rows = sort_by row_less (map (report_row_of start fin db) ms)
           in Inr (r\<lparr>rp_rows := rows, rp_totals := fold add_row rows empty_row\<rparr>))))"

subsection \<open>CSV\<close>

text \<open>
  \<open>encoding/csv\<close> with \<open>UseCRLF\<close>: a field is quoted when it is \<open>\.\<close>, contains the comma, a quote
  or a line break, or starts with white space; inside quotes a quote is doubled, a carriage return
  dropped and a line feed written as both.
\<close>

definition csv_needs_quotes :: "string \<Rightarrow> bool" where
  "csv_needs_quotes s \<longleftrightarrow> s \<noteq> [] \<and>
     (s = [CHR 0x5C, CHR ''.''] \<or> list_ex (\<lambda>c. c = CHR '','' \<or> c = CHR 0x22 \<or> c = CHR 0x0D \<or> c = CHR 0x0A) s \<or>
      is_space (hd s))"

definition csv_quote_char :: "char \<Rightarrow> string" where
  "csv_quote_char c =
     (if c = CHR 0x22 then [CHR 0x22, CHR 0x22] else if c = CHR 0x0D then []
      else if c = CHR 0x0A then [CHR 0x0D, CHR 0x0A] else [c])"

definition csv_field :: "string \<Rightarrow> string" where
  "csv_field s =
     (if csv_needs_quotes s then [CHR 0x22] @ concat (map csv_quote_char s) @ [CHR 0x22] else s)"

definition csv_line :: "string list \<Rightarrow> string" where
  "csv_line fs = join_with '','' (map csv_field fs) @ [CHR 0x0D, CHR 0x0A]"

definition csv_header :: "string list" where
  "csv_header =
    [''ICCID'',
     ''S'' @ [CHR 0xE1, CHR 0xBB, CHR 0x91] @ '' thu'' @ [CHR 0xC3, CHR 0xAA] @ '' bao'',
     ''Khe'',
     ''SMS nh'' @ [CHR 0xE1, CHR 0xBA, CHR 0xAD] @ ''n'',
     ''SMS g'' @ [CHR 0xE1, CHR 0xBB, CHR 0xAD] @ ''i'',
     ''SMS l'' @ [CHR 0xE1, CHR 0xBB, CHR 0x97] @ ''i'',
     ''Cu'' @ [CHR 0xE1, CHR 0xBB, CHR 0x99] @ ''c g'' @ [CHR 0xE1, CHR 0xBB, CHR 0x8D] @ ''i'',
     ''Gi'' @ [CHR 0xC3, CHR 0xA2] @ ''y g'' @ [CHR 0xE1, CHR 0xBB, CHR 0x8D] @ ''i'',
     ''S'' @ [CHR 0xE1, CHR 0xBB, CHR 0x91] @ '' d'' @ [CHR 0xC6, CHR 0xB0] @ '' '' @ [CHR 0xC4, CHR 0x91, CHR 0xE1, CHR 0xBA, CHR 0xA7] @ ''u th'' @ [CHR 0xC3, CHR 0xA1] @ ''ng'',
     ''S'' @ [CHR 0xE1, CHR 0xBB, CHR 0x91] @ '' d'' @ [CHR 0xC6, CHR 0xB0] @ '' cu'' @ [CHR 0xE1, CHR 0xBB, CHR 0x91] @ ''i th'' @ [CHR 0xC3, CHR 0xA1] @ ''ng'',
     ''Ch'' @ [CHR 0xC3, CHR 0xAA] @ ''nh l'' @ [CHR 0xE1, CHR 0xBB, CHR 0x87] @ ''ch'',
     ''S'' @ [CHR 0xE1, CHR 0xBB, CHR 0xB1] @ '' ki'' @ [CHR 0xE1, CHR 0xBB, CHR 0x87] @ ''n khe'',
     ''Nu'' @ [CHR 0xC3, CHR 0xB4] @ ''i SIM '' @ [CHR 0xC4, CHR 0x91, CHR 0xC3, CHR 0xA3] @ '' g'' @ [CHR 0xE1, CHR 0xBB, CHR 0xAD] @ ''i'',
     ''C'' @ [CHR 0xE1, CHR 0xBA, CHR 0xA3] @ ''nh b'' @ [CHR 0xC3, CHR 0xA1] @ ''o'']"

definition opt_int :: "int option \<Rightarrow> string" where
  "opt_int v = (case v of None \<Rightarrow> [] | Some n \<Rightarrow> go_itoa n)"

definition report_line :: "string \<Rightarrow> string \<Rightarrow> string \<Rightarrow> report_row \<Rightarrow> string list" where
  "report_line name phone slot x =
     [name, phone, slot, go_itoa (rr_sms_received x), go_itoa (rr_sms_sent x), go_itoa (rr_sms_failed x),
      go_itoa (rr_calls x), go_itoa (rr_call_seconds x), opt_int (rr_balance_start x),
      opt_int (rr_balance_end x), opt_int (rr_balance_delta x), go_itoa (rr_slot_events x),
      go_itoa (rr_keepalive_sent x), go_itoa (rr_alerts x)]"

definition write_csv :: "report \<Rightarrow> string" where
  "write_csv r =
     [CHR 0xEF, CHR 0xBB, CHR 0xBF] @ csv_line csv_header @
     concat (map (\<lambda>x. csv_line (report_line (rr_iccid x) (rr_phone x) (opt_int (rr_slot x)) x)) (rp_rows r)) @
     csv_line (report_line (''T'' @ [CHR 0xE1, CHR 0xBB, CHR 0x95] @ ''ng'') [] [] (rp_totals r))"

subsection \<open>What the report says\<close>

lemma in_window_month: "in_window (month_start tz now) (month_end tz now) t \<longleftrightarrow> month_of tz t = month_of tz now"
  using month_window_iff by (simp add: in_window_def)

lemma row_less_asym: "row_less a b \<Longrightarrow> \<not> row_less b a"
  by (auto simp: row_less_def split: option.splits if_splits)

lemma row_less_trans: "\<not> row_less b a \<Longrightarrow> \<not> row_less c b \<Longrightarrow> \<not> row_less c a"
  by (auto simp: row_less_def split: option.splits if_splits)

lemma fold_add_row:
  "rr_sms_received (fold add_row rows t) = rr_sms_received t + sum_list (map rr_sms_received rows) \<and>
   rr_sms_sent (fold add_row rows t) = rr_sms_sent t + sum_list (map rr_sms_sent rows) \<and>
   rr_calls (fold add_row rows t) = rr_calls t + sum_list (map rr_calls rows) \<and>
   rr_call_seconds (fold add_row rows t) = rr_call_seconds t + sum_list (map rr_call_seconds rows) \<and>
   rr_alerts (fold add_row rows t) = rr_alerts t + sum_list (map rr_alerts rows)"
  by (induction rows arbitrary: t) (simp_all add: add_row_def)

lemma monthly_one_sim:
  "monthly no_faults tz month None (empty_db\<lparr>t_modems := [new_modem c]\<rparr>) =
     Inr \<lparr> rp_month = format_yyyy_mm tz (month_start tz month),
        rp_rows = [report_row_of (month_start tz month) (month_end tz month) (empty_db\<lparr>t_modems := [new_modem c]\<rparr>) (new_modem c)],
        rp_totals = add_row (report_row_of (month_start tz month) (month_end tz month)
          (empty_db\<lparr>t_modems := [new_modem c]\<rparr>) (new_modem c)) empty_row \<rparr>"
  by (simp add: monthly_def Let_def report_queries_def)



end
