(* ===== verification/Permissions.thy ===== *)
theory Permissions
  imports Runtime
begin

text \<open>
  \<open>internal/api/permissions.go\<close>: who may do what with which SIM. An actor is the user of the
  request with the API key it used, if any; \<open>getActor\<close> yields no actor without a user, so the
  nil tests on the user of an actor have no counterpart. The sets of ICCIDs that the code keeps in Go
  maps are lists without duplicates, whose order nothing depends on.
\<close>

subsection \<open>Actors and flags\<close>

record actor =
  ac_user :: user
  ac_key :: "api_key option"

definition perm_make_call :: string where "perm_make_call = ''make_call''"
definition perm_view_sms :: string where "perm_view_sms = ''view_sms''"
definition perm_send_sms :: string where "perm_send_sms = ''send_sms''"
definition perm_send_at :: string where "perm_send_at = ''send_at''"

definition is_admin :: "user \<Rightarrow> bool" where
  "is_admin u \<longleftrightarrow> u_role u = ''admin''"

definition wildcard :: string where
  "wildcard = ''*''"

definition split_and_trim_allowed :: "string \<Rightarrow> string list" where
  "split_and_trim_allowed s0 =
     (let s = trim_space s0
      in if s = [] then []
         else if s = wildcard then [wildcard]
         else filter (\<lambda>p. p \<noteq> []) (map trim_space (split_on (CHR '','') s)))"

definition user_can_access_iccid :: "user \<Rightarrow> string \<Rightarrow> bool" where
  "user_can_access_iccid u iccid \<longleftrightarrow>
     is_admin u \<or> list_ex (\<lambda>item. item = wildcard \<or> item = iccid) (split_and_trim_allowed (u_allowed_modems u))"

definition user_allowed_set :: "user \<Rightarrow> string list" where
  "user_allowed_set u = remdups (split_and_trim_allowed (u_allowed_modems u))"

definition any_permission_true :: "permission \<Rightarrow> bool" where
  "any_permission_true r \<longleftrightarrow> p_can_make_call r \<or> p_can_view_sms r \<or> p_can_send_sms r \<or> p_can_send_at r"

definition any_api_key_permission_true :: "api_key \<Rightarrow> bool" where
  "any_api_key_permission_true k \<longleftrightarrow> k_can_make_call k \<or> k_can_view_sms k \<or> k_can_send_sms k \<or> k_can_send_at k"

definition permission_flag_from_key :: "api_key option \<Rightarrow> string \<Rightarrow> bool" where
  "permission_flag_from_key key perm =
     (case key of None \<Rightarrow> True
      | Some k \<Rightarrow>
          if perm = [] then any_api_key_permission_true k
          else if perm = perm_make_call then k_can_make_call k
          else if perm = perm_view_sms then k_can_view_sms k
          else if perm = perm_send_sms then k_can_send_sms k
          else if perm = perm_send_at then k_can_send_at k
          else False)"

definition permission_flag_from_rule :: "permission \<Rightarrow> string \<Rightarrow> bool" where
  "permission_flag_from_rule r perm =
     (if perm = [] then any_permission_true r
      else if perm = perm_make_call then p_can_make_call r
      else if perm = perm_view_sms then p_can_view_sms r
      else if perm = perm_send_sms then p_can_send_sms r
      else if perm = perm_send_at then p_can_send_at r
      else False)"

definition has_wildcard_iccid :: "string list \<Rightarrow> bool" where
  "has_wildcard_iccid = list_ex (\<lambda>item. item = wildcard)"

subsection \<open>Which SIMs a user sees\<close>

definition rules_of :: "database \<Rightarrow> user \<Rightarrow> permission list" where
  "rules_of db u = filter (\<lambda>r. p_user_id r = u_id u) (t_permissions db)"

definition rule_covered :: "string list \<Rightarrow> permission \<Rightarrow> bool" where
  "rule_covered allowed r \<longleftrightarrow> has_wildcard_iccid allowed \<or> p_iccid r \<in> set allowed"

definition allowed_iccids_for_permission ::
  "faults \<Rightarrow> database \<Rightarrow> user \<Rightarrow> string \<Rightarrow> string list result" where
  "allowed_iccids_for_permission faults db u perm =
     (if is_admin u then Inr []
      else
        let allowed = user_allowed_set u
        in if allowed = [] then Inr []
           else and_then (db_call faults ''rules.find'' (rules_of db u)) (\<lambda>rules.
             if rules = [] then
               (if has_wildcard_iccid allowed then Inr [wildcard]
                else Inr (filter (\<lambda>i. i \<noteq> wildcard) allowed))
             else
               Inr (remdups (map p_iccid (filter (\<lambda>r. rule_covered allowed r \<and> permission_flag_from_rule r perm) rules)))))"

definition user_has_any_permission :: "faults \<Rightarrow> database \<Rightarrow> user \<Rightarrow> string \<Rightarrow> bool" where
  "user_has_any_permission faults db u perm \<longleftrightarrow>
     is_admin u \<or>
     (case allowed_iccids_for_permission faults db u perm of Inl _ \<Rightarrow> False | Inr l \<Rightarrow> l \<noteq> [])"

subsection \<open>Whether an actor may act on a SIM\<close>

datatype access = Granted | Denied int string

definition actor_can_access ::
  "faults \<Rightarrow> database \<Rightarrow> actor option \<Rightarrow> string \<Rightarrow> string \<Rightarrow> access" where
  "actor_can_access faults db actor iccid perm =
     (case actor of None \<Rightarrow> Denied 401 ''Unauthorized''
      | Some a \<Rightarrow>
          if \<not> user_can_access_iccid (ac_user a) iccid then Denied 403 ''Access denied for this modem''
          else if \<not> permission_flag_from_key (ac_key a) perm then Denied 403 ''API key permission denied''
          else if is_admin (ac_user a) then Granted
          else
            (case db_call faults ''rules.count'' (length (rules_of db (ac_user a))) of
               Inl _ \<Rightarrow> Denied 500 ''Permission check failed''
             | Inr n \<Rightarrow>
                 if n = 0 then Granted
                 else
                   (case db_call faults ''rules.first'' (find (\<lambda>r. p_iccid r = iccid) (rules_of db (ac_user a))) of
                      Inl _ \<Rightarrow> Denied 500 ''Permission check failed''
                    | Inr None \<Rightarrow> Denied 403 ''Permission denied for this modem''
                    | Inr (Some r) \<Rightarrow>
                        if permission_flag_from_rule r perm then Granted
                        else Denied 403 ''Permission denied for this action'')))"

text \<open>The filter of every list that a user may only see in part.\<close>

definition can_see :: "user \<Rightarrow> string list \<Rightarrow> string \<Rightarrow> bool" where
  "can_see u allowed iccid \<longleftrightarrow> is_admin u \<or> has_wildcard_iccid allowed \<or> iccid \<in> set allowed"

subsection \<open>Lists and access agree\<close>

text \<open>The unique index \<open>idx_user_iccid\<close>.\<close>

definition rules_unique :: "database \<Rightarrow> bool" where
  "rules_unique db \<longleftrightarrow> distinct (map (\<lambda>r. (p_user_id r, p_iccid r)) (t_permissions db))"

lemma rules_of_unique:
  assumes "rules_unique db" "r \<in> set (rules_of db u)" "r' \<in> set (rules_of db u)" "p_iccid r = p_iccid r'"
  shows "r = r'"
proof -
  have inj: "inj_on (\<lambda>r. (p_user_id r, p_iccid r)) (set (t_permissions db))"
    using assms(1) unfolding rules_unique_def distinct_map by blast
  from assms(2,3) have "r \<in> set (t_permissions db)" "p_user_id r = u_id u"
      "r' \<in> set (t_permissions db)" "p_user_id r' = u_id u"
    unfolding rules_of_def by simp_all
  with assms(4) show ?thesis
    by (intro inj_onD [OF inj]) simp_all
qed

lemma user_allowed_iff:
  "user_can_access_iccid u iccid \<longleftrightarrow>
     is_admin u \<or> has_wildcard_iccid (user_allowed_set u) \<or> iccid \<in> set (user_allowed_set u)"
  by (auto simp: user_can_access_iccid_def has_wildcard_iccid_def user_allowed_set_def list_ex_iff)

lemma find_rule:
  assumes "rules_unique db"
  shows "(\<exists>r \<in> set (rules_of db u). p_iccid r = iccid \<and> P r) \<longleftrightarrow>
    (\<exists>r. find (\<lambda>r. p_iccid r = iccid) (rules_of db u) = Some r \<and> P r)"
proof
  assume "\<exists>r \<in> set (rules_of db u). p_iccid r = iccid \<and> P r"
  then obtain r where r: "r \<in> set (rules_of db u)" "p_iccid r = iccid" "P r" by blast
  then obtain r' where f: "find (\<lambda>r. p_iccid r = iccid) (rules_of db u) = Some r'"
    using find_None_iff' [of "\<lambda>r. p_iccid r = iccid" "rules_of db u"]
    by (cases "find (\<lambda>r. p_iccid r = iccid) (rules_of db u)") blast+
  then have "r' \<in> set (rules_of db u)" "p_iccid r = p_iccid r'"
    using r(2) by (auto dest: find_SomeD)
  then have "r = r'"
    using rules_of_unique [OF assms r(1)] by blast
  with f r(3) show "\<exists>r. find (\<lambda>r. p_iccid r = iccid) (rules_of db u) = Some r \<and> P r"
    by blast
qed (auto dest: find_SomeD)

lemma allowed_list_cases:
  assumes "\<not> is_admin u" "allowed_iccids_for_permission no_faults db u perm = Inr l" "iccid \<noteq> wildcard"
    "\<forall>r \<in> set (rules_of db u). p_iccid r \<noteq> wildcard"
  shows "can_see u l iccid \<longleftrightarrow> user_can_access_iccid u iccid \<and>
    (rules_of db u = [] \<or> (\<exists>r \<in> set (rules_of db u). p_iccid r = iccid \<and> permission_flag_from_rule r perm))"
proof (cases "user_allowed_set u = []")
  case True
  with assms show ?thesis
    by (simp add: allowed_iccids_for_permission_def can_see_def has_wildcard_iccid_def user_allowed_iff)
next
  case ne: False
  show ?thesis
  proof (cases "rules_of db u = []")
    case True
    with assms ne show ?thesis
      by (auto simp: allowed_iccids_for_permission_def Let_def can_see_def has_wildcard_iccid_def user_allowed_iff list_ex_iff split: if_splits)
  next
    case False
    with assms(1,2) ne have l: "l = remdups (map p_iccid (filter (\<lambda>r. rule_covered (user_allowed_set u) r \<and>
        permission_flag_from_rule r perm) (rules_of db u)))"
      by (simp add: allowed_iccids_for_permission_def Let_def)
    with assms(4) have "\<not> has_wildcard_iccid l"
      by (auto simp: has_wildcard_iccid_def list_ex_iff)
    with False assms(1) show ?thesis
      by (auto simp: can_see_def l user_allowed_iff rule_covered_def)
  qed
qed

lemma access_cases:
  assumes "rules_unique db" "\<not> is_admin u"
  shows "actor_can_access no_faults db (Some \<lparr> ac_user = u, ac_key = key \<rparr>) iccid perm = Granted \<longleftrightarrow>
    user_can_access_iccid u iccid \<and> permission_flag_from_key key perm \<and>
    (rules_of db u = [] \<or> (\<exists>r \<in> set (rules_of db u). p_iccid r = iccid \<and> permission_flag_from_rule r perm))"
  unfolding find_rule [OF assms(1)]
  by (simp add: actor_can_access_def assms(2) split: option.splits)

text \<open>
  C19: what a user sees in a list is what the user may act on: a SIM passes the filter of the list
  endpoints exactly if the request for that SIM is granted, for users with and without rules, provided
  no rule names the ICCID \<open>*\<close>. An API key restricts both in the same way.
\<close>

theorem lists_agree_with_access:
  assumes "rules_unique db" "\<not> is_admin u" "iccid \<noteq> wildcard"
    "\<forall>r \<in> set (rules_of db u). p_iccid r \<noteq> wildcard"
    "allowed_iccids_for_permission no_faults db u perm = Inr l"
  shows "can_see u l iccid \<and> permission_flag_from_key key perm \<longleftrightarrow>
    actor_can_access no_faults db (Some \<lparr> ac_user = u, ac_key = key \<rparr>) iccid perm = Granted"
  using allowed_list_cases [OF assms(2,5,3,4)] access_cases [OF assms(1,2)] by blast

text \<open>A user with every SIM allowed and one rule for each of two SIMs; and the exception.\<close>

definition demo_user :: "string \<Rightarrow> user" where
  "demo_user allowed = \<lparr> u_id = 7, u_username = ''lan'', u_password_hash = [], u_role = ''user'', u_allowed_modems = allowed,
     u_deleted_at = None \<rparr>"

definition demo_rule :: "string \<Rightarrow> bool \<Rightarrow> permission" where
  "demo_rule iccid view = \<lparr> p_user_id = 7, p_iccid = iccid, p_can_make_call = False, p_can_view_sms = view,
     p_can_send_sms = False, p_can_send_at = False \<rparr>"

theorem lists_agree_with_access_witness:
  "actor_can_access no_faults (empty_db\<lparr>t_permissions := [demo_rule ''c1'' True, demo_rule ''c2'' False]\<rparr>)
     (Some \<lparr> ac_user = demo_user ''*'', ac_key = None \<rparr>) ''c1'' perm_view_sms = Granted"
  by (rule lists_agree_with_access [THEN iffD1, of _ "demo_user ''*''" "''c1''" perm_view_sms "[''c1'']" None])
    (simp_all add: rules_unique_def demo_rule_def demo_user_def rules_of_def is_admin_def wildcard_def empty_db_def
      allowed_iccids_for_permission_def user_allowed_set_def split_and_trim_allowed_def trim_space_def trim_by_def
      trim_right_def is_space_def go_spaces_def has_wildcard_iccid_def rule_covered_def permission_flag_from_rule_def
      perm_view_sms_def perm_make_call_def can_see_def permission_flag_from_key_def)

text \<open>A rule for the ICCID \<open>*\<close> opens every list and no SIM.\<close>

lemma wildcard_rule_disagrees:
  "let db = empty_db\<lparr>t_permissions := [demo_rule ''*'' True]\<rparr>; u = demo_user ''*''
   in allowed_iccids_for_permission no_faults db u perm_view_sms = Inr [wildcard] \<and>
      actor_can_access no_faults db (Some \<lparr> ac_user = u, ac_key = None \<rparr>) ''c1'' perm_view_sms =
        Denied 403 ''Permission denied for this modem''"
  by (simp add: demo_rule_def demo_user_def rules_of_def is_admin_def wildcard_def empty_db_def actor_can_access_def
      allowed_iccids_for_permission_def user_allowed_set_def split_and_trim_allowed_def trim_space_def trim_by_def
      trim_right_def is_space_def go_spaces_def has_wildcard_iccid_def rule_covered_def permission_flag_from_rule_def
      perm_view_sms_def perm_make_call_def can_see_def permission_flag_from_key_def user_can_access_iccid_def)

end
