(* ===== verification/Auth.thy ===== *)
theory Auth
  imports Permissions
begin

text \<open>
  Authentication: \<open>internal/api/middleware.go\<close>, \<open>internal/api/apikey_helper.go\<close>,
  \<open>internal/auth/auth.go\<close> and the route table of \<open>main.go\<close>. SHA-256, the JWT library and the
  clock are parameters. A handler answers with \<open>Refused\<close> (a JSON error with its status) or
  \<open>Answered\<close>.
\<close>

datatype 'a reply = Refused int string | Answered int 'a

subsection \<open>Tokens\<close>

definition normalize_auth_bearer :: "string \<Rightarrow> string" where
  "normalize_auth_bearer raw =
     (case split_two (CHR '' '') (trim_space raw) of
        [scheme, tok] \<Rightarrow> if equal_fold scheme ''Bearer'' then trim_space tok else []
      | _ \<Rightarrow> [])"

definition is_smsie_api_key :: "string \<Rightarrow> bool" where
  "is_smsie_api_key tok = has_prefix tok ''smsie_''"

definition make_api_key_prefix :: "string \<Rightarrow> string" where
  "make_api_key_prefix raw = (if length raw \<le> 16 then raw else take 16 raw)"

record claims =
  cl_user_id :: int
  cl_role :: string
  cl_expires_at :: gtime
  cl_issued_at :: gtime
  cl_not_before :: gtime

text \<open>
  The token that \<open>GenerateToken\<close> signs; the JWT library's parser is a parameter that yields the
  claims and its verdict on signature and times.
\<close>

definition generate_token :: "(claims \<Rightarrow> string result) \<Rightarrow> gtime \<Rightarrow> user \<Rightarrow> string result" where
  "generate_token sign now u =
     sign \<lparr> cl_user_id = u_id u, cl_role = u_role u, cl_expires_at = time_add now (24 * hour_ns),
            cl_issued_at = now, cl_not_before = now \<rparr>"

definition validate_token :: "(string \<Rightarrow> (claims \<times> bool) result) \<Rightarrow> string \<Rightarrow> claims result" where
  "validate_token jwt_parse tok =
     and_then (jwt_parse tok) (\<lambda>(cl, valid). if valid then Inr cl else Inl ''invalid token'')"

subsection \<open>The authentication middleware\<close>

record request =
  rq_method :: string
  rq_route :: string
  rq_upgrade :: string
  rq_query_token :: string
  rq_authorization :: string

datatype auth_type = Auth_Jwt | Auth_Api_Key

record req_context =
  cx_user :: user
  cx_user_id :: int
  cx_role :: string
  cx_auth_type :: auth_type
  cx_key :: "api_key option"

definition actor_of :: "req_context \<Rightarrow> actor" where
  "actor_of c = \<lparr> ac_user = cx_user c, ac_key = cx_key c \<rparr>"

definition auth_header :: "request \<Rightarrow> string" where
  "auth_header r =
     (if equal_fold (rq_upgrade r) ''websocket'' \<and> trim_space (rq_query_token r) \<noteq> []
      then ''Bearer '' @ trim_space (rq_query_token r) else rq_authorization r)"

definition find_user :: "database \<Rightarrow> int \<Rightarrow> user option" where
  "find_user db n = find (\<lambda>u. u_id u = n \<and> u_deleted_at u = None) (t_users db)"

definition find_active_key :: "database \<Rightarrow> string \<Rightarrow> api_key option" where
  "find_active_key db h = find (\<lambda>k. k_hash k = h \<and> k_is_active k) (t_api_keys db)"

definition touch_key :: "int \<Rightarrow> gtime \<Rightarrow> database \<Rightarrow> database" where
  "touch_key kid now db = db\<lparr>t_api_keys := update_where (\<lambda>k. k_id k = kid) (\<lambda>k. k\<lparr>k_last_used_at := Some now\<rparr>) (t_api_keys db)\<rparr>"

definition auth_api_key ::
  "faults \<Rightarrow> (string \<Rightarrow> string) \<Rightarrow> gtime \<Rightarrow> string \<Rightarrow> database \<Rightarrow> database \<times> req_context reply" where
  "auth_api_key faults hash now tok db =
     (case and_then (db_call faults ''auth.key'' (find_active_key db (hash tok)))
             (\<lambda>k. case k of None \<Rightarrow> Inl err_record_not_found | Some k \<Rightarrow> Inr k) of
        Inl _ \<Rightarrow> (db, Refused 401 ''Invalid API key'')
      | Inr key \<Rightarrow>
          if (case k_expires_at key of None \<Rightarrow> False | Some e \<Rightarrow> e < now) then (db, Refused 401 ''API key expired'')
          else
            (case and_then (db_call faults ''auth.user'' (find_user db (k_user_id key)))
                    (\<lambda>u. case u of None \<Rightarrow> Inl err_record_not_found | Some u \<Rightarrow> Inr u) of
               Inl _ \<Rightarrow> (db, Refused 401 ''User not found'')
             | Inr u \<Rightarrow>
                 (if faults ''auth.touch'' = None then touch_key (k_id key) now db else db,
                  Answered 200 \<lparr> cx_user = u, cx_user_id = u_id u, cx_role = u_role u,
                    cx_auth_type = Auth_Api_Key, cx_key = Some key \<rparr>)))"

definition auth_jwt ::
  "faults \<Rightarrow> (string \<Rightarrow> (claims \<times> bool) result) \<Rightarrow> string \<Rightarrow> database \<Rightarrow> req_context reply" where
  "auth_jwt faults jwt_parse tok db =
     (case validate_token jwt_parse tok of
        Inl e \<Rightarrow> Refused 401 (''Invalid token: '' @ e)
      | Inr cl \<Rightarrow>
          (case and_then (db_call faults ''auth.user'' (find_user db (cl_user_id cl)))
                  (\<lambda>u. case u of None \<Rightarrow> Inl err_record_not_found | Some u \<Rightarrow> Inr u) of
             Inl _ \<Rightarrow> Refused 401 ''User not found''
           | Inr u \<Rightarrow> Answered 200 \<lparr> cx_user = u, cx_user_id = cl_user_id cl, cx_role = cl_role cl,
               cx_auth_type = Auth_Jwt, cx_key = None \<rparr>))"

definition auth_middleware ::
  "faults \<Rightarrow> (string \<Rightarrow> string) \<Rightarrow> (string \<Rightarrow> (claims \<times> bool) result) \<Rightarrow> gtime \<Rightarrow> request \<Rightarrow> database \<Rightarrow>
     database \<times> req_context reply" where
  "auth_middleware faults hash jwt_parse now r db =
     (let h = auth_header r; tok = normalize_auth_bearer h
      in if h = [] then (db, Refused 401 ''Authorization header required'')
         else if tok = [] then (db, Refused 401 ''Authorization header format must be Bearer {token}'')
         else if is_smsie_api_key tok then auth_api_key faults hash now tok db
         else (db, auth_jwt faults jwt_parse tok db))"

definition admin_only :: "req_context \<Rightarrow> bool" where
  "admin_only c \<longleftrightarrow> cx_role c = ''admin''"

definition api_key_routes :: "string list" where
  "api_key_routes =
    [''GET /api/v1/modems'', ''GET /api/v1/modems/:iccid'', ''GET /api/v1/sms'',
     ''POST /api/v1/modems/:iccid/send'', ''POST /api/v1/modems/:iccid/at'', ''POST /api/v1/modems/:iccid/input'',
     ''GET /api/v1/modems/:iccid/call/state'', ''POST /api/v1/modems/:iccid/call/dial'',
     ''POST /api/v1/modems/:iccid/call/hangup'', ''POST /api/v1/modems/:iccid/call/dtmf'',
     ''GET /api/v1/modems/:iccid/ws'']"

definition api_key_allowed_only :: "request \<Rightarrow> req_context \<Rightarrow> bool" where
  "api_key_allowed_only r c \<longleftrightarrow>
     cx_auth_type c = Auth_Api_Key \<longrightarrow> rq_method r @ '' '' @ rq_route r \<in> set api_key_routes"

subsection \<open>The routes\<close>

datatype route_group = Public_Route | User_Route | Admin_Route

text \<open>The groups are ordered by what they ask of a request: each one adds a middleware to those before it.\<close>

fun guards_of :: "route_group \<Rightarrow> nat" where
  "guards_of Public_Route = 0"
| "guards_of User_Route = 2"
| "guards_of Admin_Route = 3"

instantiation route_group :: linorder
begin

definition less_eq_route_group :: "route_group \<Rightarrow> route_group \<Rightarrow> bool" where
  "g \<le> h \<longleftrightarrow> guards_of g \<le> guards_of h"

definition less_route_group :: "route_group \<Rightarrow> route_group \<Rightarrow> bool" where
  "g < h \<longleftrightarrow> guards_of g < guards_of h"

instance
proof
  fix g h :: route_group
  assume "g \<le> h" "h \<le> g"
  then show "g = h" by (cases g; cases h) (simp_all add: less_eq_route_group_def)
qed (auto simp: less_eq_route_group_def less_route_group_def)

end

definition user_routes :: "string list" where
  "user_routes =
    [''POST /api/v1/change_password'', ''GET /api/v1/apikeys'', ''POST /api/v1/apikeys'',
     ''POST /api/v1/apikeys/:id/rotate'', ''DELETE /api/v1/apikeys/:id'', ''GET /api/v1/modems'',
     ''GET /api/v1/bays'', ''GET /api/v1/balance/status'', ''GET /api/v1/sim-health'',
     ''GET /api/v1/keepalive/status'', ''GET /api/v1/slot-events'', ''GET /api/v1/modems/:iccid'',
     ''PUT /api/v1/modems/:iccid'', ''POST /api/v1/modems/:iccid/scan'', ''POST /api/v1/modems/:iccid/operator'',
     ''POST /api/v1/modems/:iccid/at'', ''POST /api/v1/modems/:iccid/input'',
     ''POST /api/v1/modems/:iccid/balance-check'', ''POST /api/v1/modems/:iccid/phone-lookup'',
     ''GET /api/v1/modems/:iccid/phone-history'', ''GET /api/v1/modems/:iccid/call/state'',
     ''POST /api/v1/modems/:iccid/call/dial'', ''POST /api/v1/modems/:iccid/call/hangup'',
     ''POST /api/v1/modems/:iccid/call/dtmf'', ''GET /api/v1/modems/:iccid/call/recordings'',
     ''POST /api/v1/modems/:iccid/call/recordings'', ''GET /api/v1/modems/:iccid/call/recordings/:id/file'',
     ''POST /api/v1/modems/:iccid/reboot'', ''POST /api/v1/modems/:iccid/send'', ''GET /api/v1/reports/monthly'',
     ''GET /api/v1/sms'', ''GET /api/v1/modems/:iccid/ws'']"

definition admin_routes :: "string list" where
  "admin_routes =
    [''GET /api/v1/webhooks'', ''POST /api/v1/webhooks'', ''DELETE /api/v1/webhooks/:id'',
     ''DELETE /api/v1/modems/:iccid'', ''PATCH /api/v1/modems/:iccid/profile'', ''PATCH /api/v1/bays/:imei'',
     ''GET /api/v1/balance/alerts'', ''GET /api/v1/sim-health/alerts'', ''POST /api/v1/balance/run'',
     ''GET /api/v1/keepalive/runs'', ''POST /api/v1/keepalive/run'', ''GET /api/v1/admin/backup'',
     ''GET /api/v1/admin/backups'', ''POST /api/v1/admin/backups/run'', ''GET /api/v1/admin/backups/:name'',
     ''POST /api/v1/admin/restore'', ''GET /api/v1/audit'', ''GET /api/v1/users'', ''POST /api/v1/users'',
     ''GET /api/v1/users/:id/permissions'', ''PUT /api/v1/users/:id/permissions'', ''DELETE /api/v1/users/:id'']"

definition route_group_of :: "string \<Rightarrow> route_group option" where
  "route_group_of r =
     (if r = ''POST /api/v1/login'' then Some Public_Route
      else if r \<in> set user_routes then Some User_Route
      else if r \<in> set admin_routes then Some Admin_Route
      else None)"

text \<open>The middleware chain of the two groups in front of a handler.\<close>

definition admit ::
  "faults \<Rightarrow> (string \<Rightarrow> string) \<Rightarrow> (string \<Rightarrow> (claims \<times> bool) result) \<Rightarrow> gtime \<Rightarrow> request \<Rightarrow> database \<Rightarrow>
     database \<times> req_context reply" where
  "admit faults hash jwt_parse now r db =
     (case auth_middleware faults hash jwt_parse now r db of
        (db', Refused s m) \<Rightarrow> (db', Refused s m)
      | (db', Answered s c) \<Rightarrow>
          if \<not> api_key_allowed_only r c then (db', Refused 403 ''API key not allowed for this endpoint'')
          else if route_group_of (rq_method r @ '' '' @ rq_route r) = Some Admin_Route \<and> \<not> admin_only c
          then (db', Refused 403 ''Admin access required'')
          else (db', Answered s c))"

subsection \<open>Who is admitted\<close>

lemma api_key_routes_user: "list_all (\<lambda>r. route_group_of r = Some User_Route) api_key_routes"
  by (simp add: api_key_routes_def route_group_of_def user_routes_def)

lemma auth_api_key_sound:
  assumes "auth_api_key faults hash now tok db = (db', Answered s c)"
  obtains k where "cx_key c = Some k" "k \<in> set (t_api_keys db)" "k_hash k = hash tok" "k_is_active k"
    "\<And>e. k_expires_at k = Some e \<Longrightarrow> now \<le> e" "cx_user c \<in> set (t_users db)" "u_id (cx_user c) = k_user_id k"
    "u_deleted_at (cx_user c) = None" "cx_auth_type c = Auth_Api_Key" "cx_role c = u_role (cx_user c)"
  using assms
  by (fastforce simp: auth_api_key_def find_active_key_def find_user_def and_then_Inr_iff db_call_Inr_iff
      split: sum.splits if_splits option.splits dest: find_SomeD)

lemma auth_jwt_sound:
  assumes "auth_jwt faults jwt_parse tok db = Answered s c"
  obtains cl where "jwt_parse tok = Inr (cl, True)" "cx_key c = None" "cx_user c \<in> set (t_users db)"
    "u_id (cx_user c) = cl_user_id cl" "u_deleted_at (cx_user c) = None" "cx_auth_type c = Auth_Jwt"
    "cx_role c = cl_role cl"
  using assms
  by (fastforce simp: auth_jwt_def validate_token_def find_user_def and_then_Inr_iff db_call_Inr_iff
      split: sum.splits if_splits option.splits prod.splits dest: find_SomeD)

lemma admit_cases:
  assumes "admit faults hash jwt_parse now r db = (db', Answered s c)"
  shows "api_key_allowed_only r c"
    "route_group_of (rq_method r @ '' '' @ rq_route r) = Some Admin_Route \<Longrightarrow> admin_only c"
    "(\<exists>tok. auth_api_key faults hash now tok db = (db', Answered s c)) \<or>
     (\<exists>tok. auth_jwt faults jwt_parse tok db = Answered s c)"
  using assms
  by (auto simp: admit_def auth_middleware_def Let_def split: prod.splits reply.splits if_splits)

lemma admin_route_not_api_key:
  assumes "api_key_allowed_only r c" "route_group_of (rq_method r @ '' '' @ rq_route r) = Some Admin_Route"
  shows "cx_auth_type c = Auth_Jwt"
proof (cases "cx_auth_type c")
  case Auth_Api_Key
  with assms(1) have "rq_method r @ '' '' @ rq_route r \<in> set api_key_routes"
    by (simp add: api_key_allowed_only_def)
  with api_key_routes_user have "route_group_of (rq_method r @ '' '' @ rq_route r) = Some User_Route"
    by (simp add: list_all_iff)
  with assms(2) show ?thesis by simp
qed

text \<open>Whoever reaches a route with a token reaches every route that asks for no more.\<close>

lemma admitted_to_lower_groups:
  assumes "admit faults hash jwt_parse now r db = (db', Answered s c)" "cx_auth_type c = Auth_Jwt"
    and "route_group_of (rq_method r @ '' '' @ rq_route r) = Some g"
    and "route_group_of (rq_method r' @ '' '' @ rq_route r') = Some h" "h \<le> g" "auth_header r' = auth_header r"
  shows "admit faults hash jwt_parse now r' db = (db', Answered s c)"
proof -
  have "auth_middleware faults hash jwt_parse now r' db = auth_middleware faults hash jwt_parse now r db"
    unfolding auth_middleware_def assms(6) ..
  moreover have "h = Admin_Route \<Longrightarrow> g = Admin_Route" using assms(5) by (cases g) (simp_all add: less_eq_route_group_def)
  ultimately show ?thesis
    using assms(1-4) by (auto simp: admit_def api_key_allowed_only_def split: prod.splits reply.splits if_splits)
qed


definition demo_admin :: user where
  "demo_admin = (demo_user [])\<lparr>u_role := ''admin''\<rparr>"


end
