(* ===== verification/User_Admin.thy ===== *)
theory User_Admin
  imports Auth
begin

text \<open>
  \<open>internal/api/user_handler.go\<close> and \<open>internal/api/apikey_handler.go\<close>: users, their permission
  rules and API keys. A request body that cannot be bound is \<open>Inl\<close> of the message. bcrypt, SHA-256, the
  random generator and the RFC 3339 parser are parameters; so is \<open>dflt\<close>, the value that gorm stores
  for a column with a \<open>default\<close> tag, given the default and the value of the field. The database draws
  the ids of new rows (\<open>fresh\<close>).
\<close>

subsection \<open>Permission rules\<close>

record permission_input =
  pin_iccid :: string
  pin_can_make_call :: bool
  pin_can_view_sms :: bool
  pin_can_send_sms :: bool
  pin_can_send_at :: bool

definition rule_taken :: "int \<Rightarrow> string \<Rightarrow> permission list \<Rightarrow> bool" where
  "rule_taken uid iccid = list_ex (\<lambda>r. p_user_id r = uid \<and> p_iccid r = iccid)"

definition rule_of_input :: "int \<Rightarrow> permission_input \<Rightarrow> permission" where
  "rule_of_input uid i =
     \<lparr> p_user_id = uid, p_iccid = trim_space (pin_iccid i), p_can_make_call = pin_can_make_call i,
       p_can_view_sms = pin_can_view_sms i, p_can_send_sms = pin_can_send_sms i,
       p_can_send_at = pin_can_send_at i \<rparr>"

definition input_kept :: "string list \<Rightarrow> permission_input \<Rightarrow> bool" where
  "input_kept allowed i \<longleftrightarrow>
     trim_space (pin_iccid i) \<noteq> [] \<and> (has_wildcard_iccid allowed \<or> trim_space (pin_iccid i) \<in> set allowed)"

fun create_rules ::
  "faults \<Rightarrow> int \<Rightarrow> string list \<Rightarrow> permission_input list \<Rightarrow> database \<Rightarrow> database \<times> unit result" where
  "create_rules faults uid allowed [] db = (db, Inr ())"
| "create_rules faults uid allowed (i # is) db =
     (if \<not> input_kept allowed i then create_rules faults uid allowed is db
      else
        let r = rule_of_input uid i
        in case (if rule_taken uid (p_iccid r) (t_permissions db) then Inl unique_violation
                 else db_call faults (''rules.create.'' @ p_iccid r) ()) of
             Inl e \<Rightarrow> (db, Inl e)
           | Inr _ \<Rightarrow> create_rules faults uid allowed is (db\<lparr>t_permissions := t_permissions db @ [r]\<rparr>))"

definition replace_user_permissions ::
  "faults \<Rightarrow> int \<Rightarrow> string \<Rightarrow> permission_input list \<Rightarrow> database \<Rightarrow> database \<times> unit result" where
  "replace_user_permissions faults uid allowed_modems inputs db =
     (let allowed = remdups (split_and_trim_allowed allowed_modems)
      in case db_call faults ''rules.delete'' () of
           Inl e \<Rightarrow> (db, Inl e)
         | Inr _ \<Rightarrow> create_rules faults uid allowed inputs
             (db\<lparr>t_permissions := filter (\<lambda>r. p_user_id r \<noteq> uid) (t_permissions db)\<rparr>))"

subsection \<open>Users\<close>

record create_user_request =
  cu_username :: string
  cu_password :: string
  cu_role :: string
  cu_allowed_modems :: string
  cu_permissions :: "permission_input list"

definition login ::
  "faults \<Rightarrow> (string \<Rightarrow> string \<Rightarrow> bool) \<Rightarrow> (claims \<Rightarrow> string result) \<Rightarrow> gtime \<Rightarrow> (string \<times> string) result \<Rightarrow>
     database \<Rightarrow> (string \<times> user) reply" where
  "login faults check sign now req db =
     (case req of Inl e \<Rightarrow> Refused 400 e
      | Inr (name, password) \<Rightarrow>
          (case db_call faults ''users.by_name''
                  (find (\<lambda>u. u_username u = name \<and> u_deleted_at u = None) (t_users db)) of
             Inr (Some u) \<Rightarrow>
               if \<not> check password (u_password_hash u) then Refused 401 ''Invalid credentials''
               else (case generate_token sign now u of
                       Inl _ \<Rightarrow> Refused 500 ''Failed to generate token''
                     | Inr tok \<Rightarrow> Answered 200 (tok, u))
           | _ \<Rightarrow> Refused 401 ''Invalid credentials''))"

definition list_users :: "faults \<Rightarrow> database \<Rightarrow> user list reply" where
  "list_users faults db =
     (case db_call faults ''users.find'' (filter (\<lambda>u. u_deleted_at u = None) (t_users db)) of
        Inl e \<Rightarrow> Refused 500 e | Inr us \<Rightarrow> Answered 200 us)"

definition create_user ::
  "faults \<Rightarrow> (string \<Rightarrow> string result) \<Rightarrow> (string \<Rightarrow> string \<Rightarrow> string) \<Rightarrow> int \<Rightarrow> create_user_request result \<Rightarrow>
     database \<Rightarrow> database \<times> user reply" where
  "create_user faults hash_password dflt fresh req db =
     (case req of Inl e \<Rightarrow> (db, Refused 400 e)
      | Inr r \<Rightarrow>
          (case hash_password (cu_password r) of Inl _ \<Rightarrow> (db, Refused 500 ''Failed to hash password'')
           | Inr h \<Rightarrow>
               (let u = \<lparr> u_id = fresh, u_username = cu_username r, u_password_hash = h,
                          u_role = dflt ''user'' (cu_role r), u_allowed_modems = cu_allowed_modems r, u_deleted_at = None \<rparr>
                in case (if list_ex (\<lambda>v. u_username v = cu_username r) (t_users db) then Inl unique_violation
                         else db_call faults ''users.create'' ()) of
                     Inl e \<Rightarrow> (db, Refused 500 e)
                   | Inr _ \<Rightarrow>
                       (case replace_user_permissions faults fresh (cu_allowed_modems r) (cu_permissions r)
                               (db\<lparr>t_users := t_users db @ [u]\<rparr>) of
                          (db', Inl e) \<Rightarrow> (db', Refused 500 (''failed to save permissions: '' @ e))
                        | (db', Inr _) \<Rightarrow> (db', Answered 200 u)))))"

definition param_id :: "string \<Rightarrow> int option" where
  "param_id s = (case go_atoi s of Some n \<Rightarrow> if 0 < n then Some n else None | None \<Rightarrow> None)"

definition save_user :: "user \<Rightarrow> database \<Rightarrow> database" where
  "save_user u db = db\<lparr>t_users := update_where (\<lambda>v. u_id v = u_id u) (\<lambda>_. u) (t_users db)\<rparr>"

definition update_user_permissions ::
  "faults \<Rightarrow> string \<Rightarrow> (string \<times> permission_input list) result \<Rightarrow> database \<Rightarrow> database \<times> unit reply" where
  "update_user_permissions faults id_param req db =
     (case param_id id_param of None \<Rightarrow> (db, Refused 400 ''invalid user id'')
      | Some n \<Rightarrow>
          (case db_call faults ''users.first'' (find_user db n) of
             Inr (Some u) \<Rightarrow>
               if is_admin u then (db, Refused 400 ''admin permissions are always full'')
               else
                 (case req of Inl e \<Rightarrow> (db, Refused 400 e)
                  | Inr (allowed, inputs) \<Rightarrow>
                      (case db_call faults ''users.save'' () of Inl e \<Rightarrow> (db, Refused 500 e)
                       | Inr _ \<Rightarrow>
                           (case replace_user_permissions faults (u_id u) allowed inputs
                                   (save_user (u\<lparr>u_allowed_modems := allowed\<rparr>) db) of
                              (db', Inl e) \<Rightarrow> (db', Refused 500 (''failed to save permissions: '' @ e))
                            | (db', Inr _) \<Rightarrow> (db', Answered 200 ()))))
           | _ \<Rightarrow> (db, Refused 404 ''user not found'')))"

definition list_user_permissions :: "faults \<Rightarrow> string \<Rightarrow> database \<Rightarrow> (user \<times> permission list) reply" where
  "list_user_permissions faults id_param db =
     (case param_id id_param of None \<Rightarrow> Refused 400 ''invalid user id''
      | Some n \<Rightarrow>
          (case db_call faults ''users.first'' (find_user db n) of
             Inr (Some u) \<Rightarrow>
               (case db_call faults ''rules.find'' (sort_key p_iccid (rules_of db u)) of
                  Inl e \<Rightarrow> Refused 500 e | Inr ps \<Rightarrow> Answered 200 (u, ps))
           | _ \<Rightarrow> Refused 404 ''user not found''))"

text \<open>A number that cannot be parsed is 0, the id of no row.\<close>

definition atoi_or_0 :: "string \<Rightarrow> int" where
  "atoi_or_0 s = (case go_atoi s of Some n \<Rightarrow> n | None \<Rightarrow> 0)"

definition delete_user :: "faults \<Rightarrow> gtime \<Rightarrow> string \<Rightarrow> database \<Rightarrow> database \<times> unit reply" where
  "delete_user faults now id_param db =
     (case db_call faults ''users.delete'' () of Inl e \<Rightarrow> (db, Refused 500 e)
      | Inr _ \<Rightarrow> (db\<lparr>t_users := update_where (\<lambda>u. u_id u = atoi_or_0 id_param \<and> u_deleted_at u = None)
                    (\<lambda>u. u\<lparr>u_deleted_at := Some now\<rparr>) (t_users db)\<rparr>, Answered 200 ()))"

definition change_password ::
  "faults \<Rightarrow> (string \<Rightarrow> string \<Rightarrow> bool) \<Rightarrow> (string \<Rightarrow> string result) \<Rightarrow> user option \<Rightarrow> (string \<times> string) result \<Rightarrow>
     database \<Rightarrow> database \<times> unit reply" where
  "change_password faults check hash_password user req db =
     (case user of None \<Rightarrow> (db, Refused 401 ''Unauthorized'')
      | Some u \<Rightarrow>
          (case req of Inl e \<Rightarrow> (db, Refused 400 e)
           | Inr (old, new) \<Rightarrow>
               if \<not> check old (u_password_hash u) then (db, Refused 403 ''Incorrect old password'')
               else
                 (case hash_password new of Inl _ \<Rightarrow> (db, Refused 500 ''Failed to hash password'')
                  | Inr h \<Rightarrow>
                      (case db_call faults ''users.save'' () of Inl _ \<Rightarrow> (db, Refused 500 ''Failed to update password'')
                       | Inr _ \<Rightarrow> (save_user (u\<lparr>u_password_hash := h\<rparr>) db, Answered 200 ())))))"

subsection \<open>API keys\<close>

record create_key_request =
  ck_name :: string
  ck_can_make_call :: "bool option"
  ck_can_view_sms :: "bool option"
  ck_can_send_sms :: "bool option"
  ck_can_send_at :: "bool option"
  ck_expires_at :: string

definition list_my_api_keys :: "faults \<Rightarrow> actor option \<Rightarrow> database \<Rightarrow> api_key list reply" where
  "list_my_api_keys faults actor db =
     (case actor of None \<Rightarrow> Refused 401 ''Unauthorized''
      | Some a \<Rightarrow>
          (case db_call faults ''keys.find''
                  (rev (sort_key k_id (filter (\<lambda>k. k_user_id k = u_id (ac_user a)) (t_api_keys db)))) of
             Inl e \<Rightarrow> Refused 500 e | Inr ks \<Rightarrow> Answered 200 ks))"

definition granted_flag :: "bool \<Rightarrow> bool option \<Rightarrow> bool" where
  "granted_flag base requested = (case requested of None \<Rightarrow> base | Some b \<Rightarrow> b \<and> base)"

definition base_flag :: "faults \<Rightarrow> database \<Rightarrow> user \<Rightarrow> string \<Rightarrow> bool" where
  "base_flag faults db u perm \<longleftrightarrow> is_admin u \<or> user_has_any_permission faults db u perm"

definition key_taken :: "string \<Rightarrow> api_key list \<Rightarrow> bool" where
  "key_taken h = list_ex (\<lambda>k. k_hash k = h)"

definition create_my_api_key ::
  "faults \<Rightarrow> (string \<Rightarrow> string) \<Rightarrow> string result \<Rightarrow> (string \<Rightarrow> gtime option) \<Rightarrow> (bool \<Rightarrow> bool \<Rightarrow> bool) \<Rightarrow> int \<Rightarrow>
     actor option \<Rightarrow> create_key_request result \<Rightarrow> database \<Rightarrow> database \<times> (string \<times> api_key) reply" where
  "create_my_api_key faults hash random parse_time dflt fresh actor req db =
     (case actor of None \<Rightarrow> (db, Refused 401 ''Unauthorized'')
      | Some a \<Rightarrow>
          (case req of Inl e \<Rightarrow> (db, Refused 400 e)
           | Inr r \<Rightarrow>
               (let u = ac_user a;
                    name = (if trim_space (ck_name r) = [] then ''default'' else ck_name r);
                    mc = granted_flag (base_flag faults db u perm_make_call) (ck_can_make_call r);
                    vs = granted_flag (base_flag faults db u perm_view_sms) (ck_can_view_sms r);
                    ss = granted_flag (base_flag faults db u perm_send_sms) (ck_can_send_sms r);
                    sa = granted_flag (base_flag faults db u perm_send_at) (ck_can_send_at r)
                in if \<not> (mc \<or> vs \<or> ss \<or> sa) then (db, Refused 400 ''API key must include at least one permission'')
                   else if trim_space (ck_expires_at r) \<noteq> [] \<and> parse_time (ck_expires_at r) = None
                   then (db, Refused 400 ''expires_at must be RFC3339'')
                   else
                     (case random of Inl _ \<Rightarrow> (db, Refused 500 ''failed to generate API key'')
                      | Inr raw \<Rightarrow>
                          (let k = \<lparr> k_id = fresh, k_user_id = u_id u, k_name = trim_space name,
                                k_prefix = make_api_key_prefix raw, k_hash = hash raw,
                                k_can_make_call = dflt True mc, k_can_view_sms = dflt True vs,
                                k_can_send_sms = dflt True ss, k_can_send_at = dflt True sa,
                                k_is_active = dflt True True, k_last_used_at = None,
                                k_expires_at = (if trim_space (ck_expires_at r) = [] then None
                                                else parse_time (ck_expires_at r)) \<rparr>
                           in case (if key_taken (hash raw) (t_api_keys db) then Inl unique_violation
                                    else db_call faults ''keys.create'' ()) of
                                Inl e \<Rightarrow> (db, Refused 500 e)
                              | Inr _ \<Rightarrow> (db\<lparr>t_api_keys := t_api_keys db @ [k]\<rparr>, Answered 200 (raw, k)))))))"

definition rotate_my_api_key ::
  "faults \<Rightarrow> (string \<Rightarrow> string) \<Rightarrow> string result \<Rightarrow> actor option \<Rightarrow> string \<Rightarrow> database \<Rightarrow>
     database \<times> (string \<times> api_key) reply" where
  "rotate_my_api_key faults hash random actor id_param db =
     (case actor of None \<Rightarrow> (db, Refused 401 ''Unauthorized'')
      | Some a \<Rightarrow>
          (case param_id id_param of None \<Rightarrow> (db, Refused 400 ''invalid key id'')
           | Some n \<Rightarrow>
               (case db_call faults ''keys.first''
                       (find (\<lambda>k. k_id k = n \<and> k_user_id k = u_id (ac_user a)) (t_api_keys db)) of
                  Inr (Some k) \<Rightarrow>
                    (case random of Inl _ \<Rightarrow> (db, Refused 500 ''failed to generate API key'')
                     | Inr raw \<Rightarrow>
                         (let k' = k\<lparr>k_prefix := make_api_key_prefix raw, k_hash := hash raw, k_is_active := True\<rparr>
                          in case (if key_taken (hash raw) (filter (\<lambda>x. k_id x \<noteq> n) (t_api_keys db)) then Inl unique_violation
                                   else db_call faults ''keys.save'' ()) of
                               Inl e \<Rightarrow> (db, Refused 500 e)
                             | Inr _ \<Rightarrow> (db\<lparr>t_api_keys := update_where (\<lambda>x. k_id x = n) (\<lambda>_. k') (t_api_keys db)\<rparr>,
                                 Answered 200 (raw, k'))))
                | _ \<Rightarrow> (db, Refused 404 ''API key not found''))))"

definition delete_my_api_key :: "faults \<Rightarrow> actor option \<Rightarrow> string \<Rightarrow> database \<Rightarrow> database \<times> unit reply" where
  "delete_my_api_key faults actor id_param db =
     (case actor of None \<Rightarrow> (db, Refused 401 ''Unauthorized'')
      | Some a \<Rightarrow>
          (case param_id id_param of None \<Rightarrow> (db, Refused 400 ''invalid key id'')
           | Some n \<Rightarrow>
               (case db_call faults ''keys.delete'' () of Inl e \<Rightarrow> (db, Refused 500 e)
                | Inr _ \<Rightarrow>
                    (db\<lparr>t_api_keys := filter (\<lambda>k. \<not> (k_id k = n \<and> k_user_id k = u_id (ac_user a))) (t_api_keys db)\<rparr>,
                     Answered 200 ()))))"

subsection \<open>What the rules are afterwards\<close>

lemma create_rules_ok:
  "create_rules faults uid allowed is db = (db', Inr ()) \<Longrightarrow>
     db' = db\<lparr>t_permissions := t_permissions db @ map (rule_of_input uid) (filter (input_kept allowed) is)\<rparr>"
proof (induction "is" arbitrary: db)
  case (Cons i "is")
  show ?case
  proof (cases "input_kept allowed i")
    case True
    with Cons.prems have "create_rules faults uid allowed is
        (db\<lparr>t_permissions := t_permissions db @ [rule_of_input uid i]\<rparr>) = (db', Inr ())"
      by (simp add: Let_def split: sum.splits if_splits)
    from Cons.IH [OF this] True show ?thesis by simp
  next
    case False
    with Cons show ?thesis by simp
  qed
qed simp

text \<open>The unique index holds whether or not the loop ends early.\<close>

lemma create_rules_unique:
  "rules_unique db \<Longrightarrow> rules_unique (fst (create_rules faults uid allowed is db))"
proof (induction "is" arbitrary: db)
  case (Cons i "is")
  have "rules_unique (db\<lparr>t_permissions := t_permissions db @ [rule_of_input uid i]\<rparr>)"
    if "\<not> rule_taken uid (p_iccid (rule_of_input uid i)) (t_permissions db)"
    using Cons.prems that by (auto simp: rules_unique_def rule_taken_def list_ex_iff rule_of_input_def)
  with Cons show ?case by (simp add: Let_def split: sum.split)
qed simp

lemma replace_user_permissions_unique:
  assumes "rules_unique db"
  shows "rules_unique (fst (replace_user_permissions faults uid allowed inputs db))"
proof -
  have "rules_unique (db\<lparr>t_permissions := filter (\<lambda>r. p_user_id r \<noteq> uid) (t_permissions db)\<rparr>)"
    using assms by (simp add: rules_unique_def distinct_map_filter)
  from create_rules_unique [OF this] assms show ?thesis
    by (simp add: replace_user_permissions_def Let_def split: sum.split)
qed

lemma replace_user_permissions_ok:
  "replace_user_permissions faults uid allowed inputs db = (db', Inr ()) \<Longrightarrow>
     db' = db\<lparr>t_permissions := filter (\<lambda>r. p_user_id r \<noteq> uid) (t_permissions db) @
       map (rule_of_input uid) (filter (input_kept (remdups (split_and_trim_allowed allowed))) inputs)\<rparr>"
  using create_rules_ok
  by (fastforce simp: replace_user_permissions_def Let_def split: sum.splits)

lemma update_user_permissions_ok:
  assumes "update_user_permissions faults id_param (Inr (allowed, inputs)) db = (db', Answered s ())"
  obtains u where "find_user db (u_id u) = Some u" "param_id id_param = Some (u_id u)" "\<not> is_admin u"
    "replace_user_permissions faults (u_id u) allowed inputs (save_user (u\<lparr>u_allowed_modems := allowed\<rparr>) db) = (db', Inr ())"
proof -
  from assms obtain n u where n: "param_id id_param = Some n" "find_user db n = Some u" "\<not> is_admin u"
    and r: "replace_user_permissions faults (u_id u) allowed inputs (save_user (u\<lparr>u_allowed_modems := allowed\<rparr>) db) = (db', Inr ())"
    by (auto simp: update_user_permissions_def db_call_Inr_iff split: option.splits sum.splits if_splits prod.splits)
  from n(2) have "u_id u = n" by (auto simp: find_user_def dest: find_SomeD)
  with n r that show ?thesis by blast
qed

text \<open>
  After a successful update of a user's permissions the rules of the user are exactly the given ones
  that name an allowed SIM, in order; everybody else's rules are as before; the user's list of SIMs is
  the given one; and the table still has one rule for each user and SIM.
\<close>

theorem permissions_replaced:
  assumes "update_user_permissions faults id_param (Inr (allowed, inputs)) db = (db', Answered s ())"
    "rules_unique db"
  shows "\<exists>n. param_id id_param = Some n \<and>
    t_permissions db' = filter (\<lambda>r. p_user_id r \<noteq> n) (t_permissions db) @
      map (rule_of_input n) (filter (input_kept (remdups (split_and_trim_allowed allowed))) inputs) \<and>
    list_all (\<lambda>u. u_id u = n \<longrightarrow> u_allowed_modems u = allowed) (t_users db') \<and>
    filter (\<lambda>u. u_id u \<noteq> n) (t_users db') = filter (\<lambda>u. u_id u \<noteq> n) (t_users db) \<and>
    rules_unique db'"
proof -
  from update_user_permissions_ok [OF assms(1)] obtain u where u: "param_id id_param = Some (u_id u)"
    "replace_user_permissions faults (u_id u) allowed inputs (save_user (u\<lparr>u_allowed_modems := allowed\<rparr>) db) = (db', Inr ())"
    by metis
  let ?db = "save_user (u\<lparr>u_allowed_modems := allowed\<rparr>) db"
  have "rules_unique ?db" using assms(2) by (simp add: rules_unique_def save_user_def)
  from replace_user_permissions_unique [OF this, of faults "u_id u" allowed inputs] u(2) have "rules_unique db'" by simp
  moreover have "filter (\<lambda>v. u_id v \<noteq> u_id u) (update_where (\<lambda>v. u_id v = u_id u) (\<lambda>_. u\<lparr>u_allowed_modems := allowed\<rparr>) us) =
      filter (\<lambda>v. u_id v \<noteq> u_id u) us" for us
    by (induction us) simp_all
  ultimately show ?thesis
    using u(1) replace_user_permissions_ok [OF u(2)]
    by (auto simp: save_user_def list_all_iff set_update_where)
qed

definition demo_input :: "string \<Rightarrow> permission_input" where
  "demo_input iccid = \<lparr> pin_iccid = iccid, pin_can_make_call = False, pin_can_view_sms = True,
     pin_can_send_sms = False, pin_can_send_at = False \<rparr>"

theorem permissions_replaced_witness:
  "let db = empty_db\<lparr>t_users := [demo_user ''c9''], t_permissions := [demo_rule ''c9'' True]\<rparr>
   in t_permissions (fst (update_user_permissions no_faults ''7'' (Inr (''c1'', [demo_input ''c1'', demo_input ''c2''])) db)) =
        [rule_of_input 7 (demo_input ''c1'')]"
proof -
  let ?db = "empty_db\<lparr>t_users := [demo_user ''c9''], t_permissions := [demo_rule ''c9'' True]\<rparr>"
  let ?r = "update_user_permissions no_faults ''7'' (Inr (''c1'', [demo_input ''c1'', demo_input ''c2''])) ?db"
  note str = trim_space_def trim_by_def trim_right_def is_space_def go_spaces_def split_and_trim_allowed_def wildcard_def
  have p: "param_id ''7'' = Some 7"
    by (simp add: param_id_def go_atoi_def parse_digits_def is_digit_def digits_val_def digit_val_def in_int64_def less_eq_char_def)
  have kept: "filter (input_kept (remdups (split_and_trim_allowed ''c1''))) [demo_input ''c1'', demo_input ''c2''] = [demo_input ''c1'']"
    by (simp add: input_kept_def demo_input_def has_wildcard_iccid_def str)
  have s: "snd ?r = Answered 200 ()"
    by (simp add: update_user_permissions_def p find_user_def demo_user_def is_admin_def replace_user_permissions_def
        input_kept_def demo_input_def has_wildcard_iccid_def rule_taken_def save_user_def demo_rule_def str)
  have "rules_unique ?db" by (simp add: rules_unique_def)
  with permissions_replaced [of no_faults "''7''" "''c1''" "[demo_input ''c1'', demo_input ''c2'']" ?db "fst ?r" 200] s p
  show ?thesis
    unfolding kept by (cases ?r) (simp add: Let_def demo_rule_def)
qed

text \<open>
  The delete is not undone when a later \<open>Create\<close> fails: if the first rule cannot be written the user is
  left without rules, which grants everything on the allowed SIMs.
\<close>

lemma failed_update_opens:
  assumes "faults ''rules.delete'' = None" "faults (''rules.create.'' @ trim_space (pin_iccid i)) = Some e"
    "input_kept (remdups (split_and_trim_allowed allowed)) i"
  shows "replace_user_permissions faults uid allowed (i # is) db =
    (db\<lparr>t_permissions := filter (\<lambda>r. p_user_id r \<noteq> uid) (t_permissions db)\<rparr>, Inl e)"
  using assms
  by (simp add: replace_user_permissions_def db_call_def Let_def rule_of_input_def rule_taken_def list_ex_iff)

lemma no_rules_grant_all:
  assumes "rules_of db u = []" "user_can_access_iccid u iccid"
  shows "actor_can_access no_faults db (Some \<lparr> ac_user = u, ac_key = None \<rparr>) iccid perm = Granted"
  using assms by (simp add: actor_can_access_def permission_flag_from_key_def)

subsection \<open>What a new API key may do\<close>

text \<open>
  What \<open>CreateMyAPIKey\<close> stores, given gorm's documented rule that a zero-valued field of a column
  with a \<open>default\<close> tag is stored with the default: the key belongs to the caller and is active, and
  each of its four flags is set whatever the request asked for, because the columns default to true.
\<close>

theorem created_api_key:
  assumes "create_my_api_key faults hash random parse_time dflt fresh actor req db = (db', Answered s (raw, k))"
    "dflt True False = True" "dflt True True = True"
  shows "t_api_keys db' = t_api_keys db @ [k] \<and> k_hash k = hash raw \<and> k_is_active k \<and>
    (\<exists>a. actor = Some a \<and> k_user_id k = u_id (ac_user a)) \<and> \<not> key_taken (hash raw) (t_api_keys db) \<and>
    k_can_make_call k \<and> k_can_view_sms k \<and> k_can_send_sms k \<and> k_can_send_at k"
proof -
  have d: "dflt True b" for b using assms(2,3) by (cases b) simp_all
  from assms(1) show ?thesis
    by (auto simp: create_my_api_key_def Let_def d split: option.splits sum.splits if_splits)
qed

definition demo_key_request :: create_key_request where
  "demo_key_request = \<lparr> ck_name = ''read only'', ck_can_make_call = Some False, ck_can_view_sms = None,
     ck_can_send_sms = Some False, ck_can_send_at = Some False, ck_expires_at = [] \<rparr>"

theorem created_api_key_witness:
  "case create_my_api_key no_faults (\<lambda>s. s) (Inr ''smsie_1'') (\<lambda>_. None) (\<lambda>d v. v \<or> d) 3
     (Some \<lparr> ac_user = demo_admin, ac_key = None \<rparr>) (Inr demo_key_request) empty_db of
     (_, Answered _ (_, k)) \<Rightarrow> k_can_send_sms k | _ \<Rightarrow> False"
proof -
  obtain db' s raw k where r: "create_my_api_key no_faults (\<lambda>s. s) (Inr ''smsie_1'') (\<lambda>_. None) (\<lambda>d v. v \<or> d) 3
     (Some \<lparr> ac_user = demo_admin, ac_key = None \<rparr>) (Inr demo_key_request) empty_db = (db', Answered s (raw, k))"
    by (simp add: create_my_api_key_def demo_admin_def is_admin_def base_flag_def granted_flag_def demo_key_request_def
        trim_space_def trim_by_def trim_right_def is_space_def go_spaces_def key_taken_def empty_db_def Let_def)
  from created_api_key [OF r] show ?thesis by (simp add: r)
qed

end
