(* ===== verification/Go_Regexp.thy ===== *)
theory Go_Regexp
  imports Go_Strings
begin

text \<open>
  Go's \<open>regexp\<close> package as the source uses it: character classes, sequences, alternatives, greedy
  and lazy repetition, captures, \<open>^\<close>, \<open>$\<close> and \<open>\b\<close>. A pattern yields the list of its matches at a
  position in order of preference, and the match that Go takes is the first one at the leftmost
  position that has any (leftmost-first semantics). Subjects are byte strings, as everywhere in the
  model.
\<close>

datatype re =
    R_Eps
  | R_Char "char \<Rightarrow> bool"
  | R_Seq re re
  | R_Alt re re
  | R_Star bool re
  | R_Cap nat re
  | R_Bol
  | R_Eol
  | R_Word_Boundary

text \<open>
  The state of a match: the characters before the position (last one first), those after it, and the
  captures so far (the latest first).
\<close>

type_synonym re_state = "string \<times> string \<times> (nat \<times> string) list"

definition word_char :: "char \<Rightarrow> bool" where
  "word_char c \<longleftrightarrow> is_digit c \<or> (CHR ''a'' \<le> c \<and> c \<le> CHR ''z'') \<or> (CHR ''A'' \<le> c \<and> c \<le> CHR ''Z'') \<or> c = CHR ''_''"

definition at_boundary :: "string \<Rightarrow> string \<Rightarrow> bool" where
  "at_boundary b a \<longleftrightarrow>
     (case b of [] \<Rightarrow> False | c # _ \<Rightarrow> word_char c) \<noteq> (case a of [] \<Rightarrow> False | c # _ \<Rightarrow> word_char c)"

text \<open>
  A repetition takes at most as many rounds as there are characters left: a round that consumes
  nothing is not repeated.
\<close>

fun star_matches :: "(re_state \<Rightarrow> re_state list) \<Rightarrow> bool \<Rightarrow> nat \<Rightarrow> re_state \<Rightarrow> re_state list" where
  "star_matches step greedy 0 s = [s]"
| "star_matches step greedy (Suc n) s =
     (let more = concat (map (\<lambda>t. if length (fst (snd t)) < length (fst (snd s)) then star_matches step greedy n t else [])
                    (step s))
      in if greedy then more @ [s] else s # more)"

fun re_matches :: "re \<Rightarrow> re_state \<Rightarrow> re_state list" where
  "re_matches R_Eps s = [s]"
| "re_matches (R_Char P) s =
     (case s of (b, [], cs) \<Rightarrow> [] | (b, c # a, cs) \<Rightarrow> if P c then [(c # b, a, cs)] else [])"
| "re_matches (R_Seq p q) s = concat (map (re_matches q) (re_matches p s))"
| "re_matches (R_Alt p q) s = re_matches p s @ re_matches q s"
| "re_matches (R_Star greedy p) s = star_matches (re_matches p) greedy (length (fst (snd s))) s"
| "re_matches (R_Cap n p) s =
     map (\<lambda>(b, a, cs). (b, a, (n, rev (take (length b - length (fst s)) b)) # cs)) (re_matches p s)"
| "re_matches R_Bol s = (if fst s = [] then [s] else [])"
| "re_matches R_Eol s = (if fst (snd s) = [] then [s] else [])"
| "re_matches R_Word_Boundary s = (if at_boundary (fst s) (fst (snd s)) then [s] else [])"

fun re_find_from :: "re \<Rightarrow> string \<Rightarrow> string \<Rightarrow> (re_state \<times> string) option" where
  "re_find_from p b [] = (case re_matches p (b, [], []) of [] \<Rightarrow> None | m # _ \<Rightarrow> Some (m, b))"
| "re_find_from p b (c # a) =
     (case re_matches p (b, c # a, []) of [] \<Rightarrow> re_find_from p (c # b) a | m # _ \<Rightarrow> Some (m, b))"

text \<open>\<open>MatchString\<close> and \<open>FindStringSubmatch\<close>: group \<open>n\<close> of a match, empty when it did not take part.\<close>

definition re_search :: "re \<Rightarrow> string \<Rightarrow> bool" where
  "re_search p s \<longleftrightarrow> re_find_from p [] s \<noteq> None"

definition re_submatch :: "re \<Rightarrow> string \<Rightarrow> (nat \<times> string) list option" where
  "re_submatch p s = map_option (\<lambda>((_, _, cs), _). cs) (re_find_from p [] s)"

definition group :: "nat \<Rightarrow> (nat \<times> string) list \<Rightarrow> string" where
  "group n cs = (case map_of cs n of None \<Rightarrow> [] | Some x \<Rightarrow> x)"

text \<open>
  \<open>FindAllStringSubmatch\<close>: the matches from left to right, each search starting where the last match
  ended. The patterns of the source that are used this way match no empty string; the fuel is the
  length of the subject.
\<close>

fun re_find_all :: "nat \<Rightarrow> re \<Rightarrow> string \<Rightarrow> string \<Rightarrow> (nat \<times> string) list list" where
  "re_find_all 0 p b a = []"
| "re_find_all (Suc n) p b a =
     (case re_find_from p b a of None \<Rightarrow> []
      | Some ((b', a', cs), _) \<Rightarrow> if length a' < length a then cs # re_find_all n p b' a' else [cs])"

definition re_submatches :: "re \<Rightarrow> string \<Rightarrow> (nat \<times> string) list list" where
  "re_submatches p s = re_find_all (length s) p [] s"

subsection \<open>Building patterns\<close>

definition r_plus :: "re \<Rightarrow> re" where "r_plus p = R_Seq p (R_Star True p)"
definition r_opt :: "re \<Rightarrow> re" where "r_opt p = R_Alt p R_Eps"
definition r_digit :: re where "r_digit = R_Char is_digit"
definition r_space :: re where "r_space = R_Char (\<lambda>c. c \<in> set [CHR 0x09, CHR 0x0A, CHR 0x0C, CHR 0x0D, CHR '' ''])"
definition r_not :: "char \<Rightarrow> re" where "r_not d = R_Char (\<lambda>c. c \<noteq> d)"

fun r_lit :: "string \<Rightarrow> re" where
  "r_lit [] = R_Eps"
| "r_lit (c # s) = R_Seq (R_Char (\<lambda>d. d = c)) (r_lit s)"

fun r_seq :: "re list \<Rightarrow> re" where
  "r_seq [] = R_Eps"
| "r_seq (p # ps) = R_Seq p (r_seq ps)"

fun r_alts :: "re list \<Rightarrow> re" where
  "r_alts [] = R_Char (\<lambda>_. False)"
| "r_alts [p] = p"
| "r_alts (p # q # ps) = R_Alt p (r_alts (q # ps))"

fun r_repeat :: "nat \<Rightarrow> re \<Rightarrow> re" where
  "r_repeat 0 p = R_Eps"
| "r_repeat (Suc n) p = R_Seq p (r_repeat n p)"

text \<open>\<open>p{m,m+k}\<close>, greedy.\<close>

fun r_upto :: "nat \<Rightarrow> re \<Rightarrow> re" where
  "r_upto 0 p = R_Eps"
| "r_upto (Suc k) p = R_Alt (R_Seq p (r_upto k p)) R_Eps"

definition r_range :: "nat \<Rightarrow> nat \<Rightarrow> re \<Rightarrow> re" where
  "r_range m n p = R_Seq (r_repeat m p) (r_upto (n - m) p)"

subsection \<open>Whole-string patterns over one class\<close>

text \<open>The pattern of one or more characters of a class between \<open>^\<close> and \<open>$\<close>, as \<open>dialNumberPattern\<close>.\<close>

definition r_all_of :: "(char \<Rightarrow> bool) \<Rightarrow> re" where
  "r_all_of P = r_seq [R_Bol, r_plus (R_Char P), R_Eol]"


lemma star_char_ends:
  "length a \<le> n \<Longrightarrow>
     (\<exists>m \<in> set (star_matches (re_matches (R_Char P)) True n (b, a, cs)). fst (snd m) = []) \<longleftrightarrow> list_all P a"
proof (induction n arbitrary: a b)
  case (Suc n)
  show ?case
  proof (cases a)
    case (Cons c r)
    with Suc.prems have "length r \<le> n" by simp
    with Suc.IH [OF this, of "c # b"] Cons show ?thesis by simp
  qed simp
qed simp

lemma re_find_bol: "re_find_from (R_Seq R_Bol p) (c # b) a = None"
  by (induction a arbitrary: c b) simp_all

text \<open>Such a pattern matches exactly the non-empty strings over the class.\<close>

lemma re_search_all_of: "re_search (r_all_of P) s \<longleftrightarrow> s \<noteq> [] \<and> list_all P s"
proof (cases s)
  case Nil
  then show ?thesis by (simp add: re_search_def r_all_of_def r_plus_def)
next
  case (Cons c r)
  let ?ms = "star_matches (re_matches (R_Char P)) True (length r) ([c], r, [])"
  have ends: "filter (\<lambda>m. fst (snd m) = []) ?ms = [] \<longleftrightarrow> \<not> list_all P r"
    using star_char_ends [of r "length r" P "[c]" "[]"] by (auto simp: filter_empty_conv)
  have eol: "concat (map (re_matches (R_Seq R_Eol R_Eps)) ms) = filter (\<lambda>m. fst (snd m) = []) ms" for ms
    by (induction ms) simp_all
  have "re_matches (r_all_of P) ([], s, []) = (if P c then filter (\<lambda>m. fst (snd m) = []) ?ms else [])"
    by (simp add: Cons r_all_of_def r_plus_def eol)
  moreover have "re_find_from (r_all_of P) [c] r = None"
    using re_find_bol [of "r_seq [r_plus (R_Char P), R_Eol]" c "[]" r] by (simp add: r_all_of_def)
  ultimately show ?thesis
    using ends by (cases "P c"; cases "filter (\<lambda>m. fst (snd m) = []) ?ms") (simp_all add: re_search_def Cons)
qed

end
