(* ===== verification/At_Parse.thy ===== *)
theory At_Parse
  imports Go_Regexp Smsie_Model
begin

text \<open>
  The parsers of modem responses in \<open>internal/worker\<close>: the lines of the serial port, response fields,
  registration, call lists, stored messages, balances, phone numbers and plan data. Lower-casing of text in the
  carrier's language (\<open>lower\<close>), the SMS alphabets and the optional table of \<open>mcc_mnc.json\<close> are
  parameters.
\<close>

subsection \<open>Helpers of the standard library\<close>

definition contains_any_hex_letter :: "string \<Rightarrow> bool" where
  "contains_any_hex_letter = list_ex (\<lambda>c. c \<in> set ''ABCDEFabcdef'')"

definition hex_digit_val :: "char \<Rightarrow> nat option" where
  "hex_digit_val c =
     (if is_digit c then Some (nat (digit_val c))
      else if CHR ''a'' \<le> c \<and> c \<le> CHR ''f'' then Some (of_char c - 87)
      else if CHR ''A'' \<le> c \<and> c \<le> CHR ''F'' then Some (of_char c - 55)
      else None)"

text \<open>\<open>hex.DecodeString\<close>.\<close>

fun hex_decode :: "string \<Rightarrow> string option" where
  "hex_decode [] = Some []"
| "hex_decode [c] = None"
| "hex_decode (c # d # s) =
     (case (hex_digit_val c, hex_digit_val d, hex_decode s) of
        (Some h, Some l, Some r) \<Rightarrow> Some (char_of (16 * h + l) # r)
      | _ \<Rightarrow> None)"

definition hex_char :: "nat \<Rightarrow> char" where
  "hex_char n = (if n < 10 then char_of (48 + n) else char_of (55 + n))"

text \<open>\<open>strings.ToUpper(hex.EncodeToString(b))\<close>.\<close>

definition hex_encode_upper :: "string \<Rightarrow> string" where
  "hex_encode_upper s = concat (map (\<lambda>c. [hex_char (of_char c div 16), hex_char (of_char c mod 16)]) s)"

text \<open>\<open>strconv.ParseInt\<close> in base 16 and 10.\<close>

definition go_parse_int :: "nat \<Rightarrow> string \<Rightarrow> int option" where
  "go_parse_int base s =
     (let (neg, body) = (case s of [] \<Rightarrow> (False, [])
                         | c # r \<Rightarrow> if c = CHR ''-'' then (True, r)
                                    else if c = CHR ''+'' then (False, r) else (False, s));
          ds = map hex_digit_val body
      in if body = [] \<or> list_ex (\<lambda>d. d = None \<or> base \<le> the d) ds then None
         else let v = foldl (\<lambda>a d. int base * a + int (the d)) 0 ds; w = (if neg then - v else v)
              in if in_int64 w then Some w else None)"

text \<open>\<open>strings.NewReplacer(...).Replace\<close>: at every position the first pair that applies.\<close>

function replacer :: "(string \<times> string) list \<Rightarrow> string \<Rightarrow> string" where
  "replacer ps [] = []"
| "replacer ps (c # s) =
     (case find (\<lambda>(old, new). old \<noteq> [] \<and> has_prefix (c # s) old) ps of
        None \<Rightarrow> c # replacer ps s
      | Some (old, new) \<Rightarrow> new @ replacer ps (drop (length old - 1) s))"
  by pat_completeness auto
termination
  by (relation "measure (\<lambda>(ps, s). length s)") auto

lemma hex_digit_val_hex_char: "n < 16 \<Longrightarrow> hex_digit_val (hex_char n) = Some n"
proof -
  have "list_all (\<lambda>n. hex_digit_val (hex_char n) = Some n) [0..<16]"
    by (simp add: upt_rec hex_digit_val_def hex_char_def is_digit_def digit_val_def less_eq_char_def)
  moreover assume "n < 16"
  ultimately show ?thesis by (simp add: list_all_iff)
qed

lemma hex_decode_encode: "hex_decode (hex_encode_upper s) = Some s"
proof (induction s)
  case (Cons c s)
  have "of_char c < (256 :: nat)" by simp
  then have "of_char c div 16 < (16 :: nat)" by (simp add: less_mult_imp_div_less)
  with Cons show ?case
    by (simp add: hex_encode_upper_def hex_digit_val_hex_char)
qed (simp add: hex_encode_upper_def)

subsection \<open>Lines of the serial port\<close>

text \<open>
  \<open>readLoop\<close>, per byte: carriage returns are dropped, a line feed ends the line, and a \<open>>\<close> in front
  of which there is only white space is a line of its own (the prompt of \<open>AT+CMGS\<close> ends with no line
  feed). \<open>buf\<close> is the reversed line buffer.
\<close>

definition flush_line :: "string \<Rightarrow> string list" where
  "flush_line buf = (let l = trim_space (rev buf) in if l = [] then [] else [l])"

fun read_bytes :: "string \<Rightarrow> string \<Rightarrow> string list \<times> string" where
  "read_bytes buf [] = ([], buf)"
| "read_bytes buf (c # s) =
     (if c = CHR 0x0D then read_bytes buf s
      else if c = CHR 0x0A then (let (ls, b) = read_bytes [] s in (flush_line buf @ ls, b))
      else if c = CHR ''>'' \<and> trim_space (rev buf) = [] then (let (ls, b) = read_bytes [] s in (''>'' # ls, b))
      else read_bytes (c # buf) s)"

text \<open>How the port cuts the stream into reads does not matter.\<close>

lemma read_bytes_append:
  "read_bytes buf (s @ t) = (let (ls, b) = read_bytes buf s; (ls', b') = read_bytes b t in (ls @ ls', b'))"
  by (induction s arbitrary: buf) (auto simp: Let_def split: prod.split)

definition plain_line :: "string \<Rightarrow> bool" where
  "plain_line l \<longleftrightarrow> l \<noteq> [] \<and> trim_space l = l \<and> hd l \<noteq> CHR ''>'' \<and> CHR 0x0D \<notin> set l \<and> CHR 0x0A \<notin> set l"

definition on_wire :: "string list \<Rightarrow> string" where
  "on_wire ls = concat (map (\<lambda>l. l @ [CHR 0x0D, CHR 0x0A]) ls)"

lemma trim_space_Cons_ne: "\<not> is_space c \<Longrightarrow> trim_space (c # s) \<noteq> []"
  by (simp add: trim_space_def trim_by_def trim_right_def dropWhile_eq_Nil_conv)

lemma read_bytes_body:
  "rev buf \<noteq> [] \<Longrightarrow> \<not> is_space (hd (rev buf)) \<Longrightarrow> CHR 0x0D \<notin> set l \<Longrightarrow> CHR 0x0A \<notin> set l \<Longrightarrow>
     read_bytes buf (l @ s) = read_bytes (rev l @ buf) s"
proof (induction l arbitrary: buf)
  case (Cons c l)
  obtain d r where d: "rev buf = d # r" "\<not> is_space d" using Cons.prems(1,2) by (cases "rev buf") auto
  then have "trim_space (rev buf) \<noteq> []" using trim_space_Cons_ne by simp
  moreover have "rev (c # buf) = d # (r @ [c])" using d by simp
  moreover have "c \<noteq> CHR 0x0D" "c \<noteq> CHR 0x0A" using Cons.prems(3,4) by auto
  ultimately show ?case using Cons.IH [of "c # buf"] Cons.prems d by simp
qed simp

lemma plain_line_hd: "plain_line l \<Longrightarrow> \<not> is_space (hd l)"
proof -
  assume p: "plain_line l"
  then have "trim_by is_space l = l" "l \<noteq> []" by (simp_all add: plain_line_def trim_space_def)
  then have "hd (dropWhile is_space l) = hd l" "dropWhile is_space l \<noteq> []"
    by (metis trim_by_def trim_right_hd trim_right_def dropWhile.simps(1) rev.simps(1))+
  then show ?thesis by (metis hd_dropWhile)
qed

lemma read_bytes_line:
  assumes "plain_line l"
  shows "read_bytes [] (l @ [CHR 0x0D, CHR 0x0A] @ s) = (let (ls, b) = read_bytes [] s in (l # ls, b))"
proof -
  obtain c r where l: "l = c # r" using assms by (cases l) (auto simp: plain_line_def)
  have c: "\<not> is_space c" "c \<noteq> CHR 0x0D" "c \<noteq> CHR 0x0A" "c \<noteq> CHR ''>''" "CHR 0x0D \<notin> set r" "CHR 0x0A \<notin> set r"
    using assms plain_line_hd [OF assms] by (auto simp: plain_line_def l)
  have "read_bytes [] (l @ [CHR 0x0D, CHR 0x0A] @ s) = read_bytes (rev r @ [c]) ([CHR 0x0D, CHR 0x0A] @ s)"
    using c read_bytes_body [of "[c]" r "[CHR 0x0D, CHR 0x0A] @ s"] by (simp add: l)
  also have "\<dots> = (let (ls, b) = read_bytes [] s in (flush_line (rev r @ [c]) @ ls, b))"
    by simp
  also have "flush_line (rev r @ [c]) = [l]"
    using assms by (simp add: flush_line_def Let_def plain_line_def l)
  finally show ?thesis by simp
qed

lemma read_bytes_lines: "list_all plain_line ls \<Longrightarrow> read_bytes [] (on_wire ls) = (ls, [])"
proof (induction ls)
  case (Cons l ls)
  then show ?case
    using read_bytes_line [of l "on_wire ls"] by (simp add: on_wire_def)
qed (simp add: on_wire_def)

subsection \<open>Response fields\<close>

definition resp_lines :: "string \<Rightarrow> string list" where
  "resp_lines resp = map trim_space (split_on (CHR 0x0A) resp)"

definition parse_id :: "string \<Rightarrow> string \<Rightarrow> string" where
  "parse_id resp prefix =
     (case find (\<lambda>l. has_prefix l prefix) (resp_lines resp) of
        None \<Rightarrow> [] | Some l \<Rightarrow> trim_space (trim_prefix l prefix))"

definition imei_pattern_14_16 :: re where
  "imei_pattern_14_16 = r_seq [R_Bol, r_range 14 16 r_digit, R_Eol]"

definition parse_imei :: "string \<Rightarrow> string" where
  "parse_imei resp = (case find (re_search imei_pattern_14_16) (resp_lines resp) of None \<Rightarrow> [] | Some l \<Rightarrow> l)"

definition cme_sim_not_inserted :: re where
  "cme_sim_not_inserted = r_seq [r_lit ''+CME ERROR:'', R_Star True r_space, r_lit ''10'', R_Word_Boundary]"

definition is_sim_not_inserted :: "string option \<Rightarrow> bool" where
  "is_sim_not_inserted err =
     (case err of None \<Rightarrow> False
      | Some msg \<Rightarrow> re_search cme_sim_not_inserted msg \<or> contains (to_lower msg) ''sim not inserted'')"

definition strip_trailing_f :: "string \<Rightarrow> string" where
  "strip_trailing_f iccid = trim_right (\<lambda>c. c = CHR ''F'') (to_upper iccid)"

definition trim_quotes :: "string \<Rightarrow> string" where
  "trim_quotes = trim_by (\<lambda>c. c = CHR 0x22)"

definition creg_text :: "string \<Rightarrow> string" where
  "creg_text stat =
     (if stat = ''1'' then ''Home Network'' else if stat = ''5'' then ''Roaming''
      else if stat = ''2'' then ''Searching...'' else if stat = ''3'' then ''Denied''
      else if stat = ''4'' then ''Unknown'' else if stat = ''0'' then ''Not Registered'' else ''Unknown'')"

definition parse_creg_status :: "string \<Rightarrow> (string \<times> string) result" where
  "parse_creg_status resp =
     (let body = trim_space (parse_id resp ''+CREG:'')
      in if body = [] then Inl ''missing +CREG response''
         else let parts = split_on (CHR '','') body;
                  stat = trim_quotes (trim_space (if 2 \<le> length parts then parts ! 1 else hd parts))
              in Inr (stat, creg_text stat))"

text \<open>\<open>fmt.Sscanf(s, "%d", &n)\<close>: leading white space, a sign and the digits that follow.\<close>

definition scan_int :: "string \<Rightarrow> int option" where
  "scan_int s0 =
     (let s = dropWhile (\<lambda>c. is_space c \<and> c \<noteq> CHR 0x0A) s0;
          (neg, body) = (case s of [] \<Rightarrow> (False, [])
             | c # r \<Rightarrow> if c = CHR ''-'' then (True, r) else if c = CHR ''+'' then (False, r) else (False, s));
          ds = takeWhile is_digit body
      in if ds = [] then None
         else let v = (if neg then - digits_val ds else digits_val ds) in if in_int64 v then Some v else None)"

text \<open>
  \<open>int(float64(rssi) / 31.0 * 100.0)\<close>. The quotient is rounded twice in \<open>float64\<close>; for the values 0 to
  31 of the standard the truncated result is the exact one.
\<close>

definition signal_percent :: "int \<Rightarrow> int" where
  "signal_percent rssi = (if rssi = 99 then 0 else go_div (rssi * 100) 31)"

definition parse_hex_or_int :: "string \<Rightarrow> int result" where
  "parse_hex_or_int s =
     (let v = trim_quotes (to_lower (trim_space s))
      in if v = [] then Inl ''empty value''
         else case (if has_prefix v ''0x'' then go_parse_int 16 (trim_prefix v ''0x'') else go_parse_int 10 v) of
                None \<Rightarrow> Inl ''invalid syntax'' | Some n \<Rightarrow> Inr n)"

text \<open>\<open>probeUACEnabled\<close> after the response: the identity of the audio device and whether it is on.\<close>

definition parse_usbcfg :: "string \<Rightarrow> (string \<times> string) option \<times> bool result" where
  "parse_usbcfg resp =
     (let line = parse_id resp ''+QCFG:''
      in if line = [] then (None, Inl ''missing +QCFG response'')
         else if \<not> contains (to_upper line) ([CHR 0x22] @ ''USBCFG'' @ [CHR 0x22]) then (None, Inl ''unexpected QCFG payload'')
         else
           (case index_of (CHR '','') line of
              None \<Rightarrow> (None, Inl ''invalid QCFG format'')
            | Some i \<Rightarrow>
                if length line \<le> i + 1 then (None, Inl ''invalid QCFG format'')
                else
                  (let parts = split_on (CHR '','') (drop (i + 1) line)
                   in if length parts < 9 then (None, Inl ''insufficient QCFG columns'')
                      else
                        (let vid = trim_space (parts ! 0); pid = trim_space (parts ! 1);
                             norm = (\<lambda>s. to_upper (trim_space (trim_prefix s ''0x'')))
                         in (Some (norm vid, norm pid),
                             and_then (parse_hex_or_int (trim_space (last parts))) (\<lambda>v. Inr (v = 1)))))))"

definition requires_interactive_transaction :: "string \<Rightarrow> bool" where
  "requires_interactive_transaction cmd \<longleftrightarrow>
     has_prefix (to_upper (trim_space cmd)) ''AT+CMGS='' \<or> has_prefix (to_upper (trim_space cmd)) ''AT+CMGW='' \<or>
     has_suffix cmd [CHR 0x1A] \<or> has_suffix cmd [CHR 0x1B]"

subsection \<open>Operators\<close>

record network_operator =
  no_mcc :: string
  no_mnc :: string
  no_name :: string

definition builtin_vn :: "string \<Rightarrow> string" where
  "builtin_vn mnc =
     (case map_of [(''01'', ''Mobifone''), (''02'', ''Vinaphone''), (''04'', ''Viettel''), (''05'', ''Vietnamobile''),
                   (''07'', ''Gmobile''), (''08'', ''Viettel'')] mnc of None \<Rightarrow> [] | Some n \<Rightarrow> n)"

definition get_operator_name :: "network_operator list \<Rightarrow> string \<Rightarrow> string \<Rightarrow> string" where
  "get_operator_name ops mcc mnc =
     (case find (\<lambda>o'. no_mcc o' = mcc \<and> no_mnc o' = mnc) ops of
        Some o' \<Rightarrow> no_name o' | None \<Rightarrow> if mcc = ''452'' then builtin_vn mnc else [])"

definition resolve_operator_name :: "network_operator list \<Rightarrow> string \<Rightarrow> string" where
  "resolve_operator_name ops op0 =
     (let op = trim_space op0; name = get_operator_name ops (take 3 op) (drop 3 op)
      in if length op \<noteq> 5 \<and> length op \<noteq> 6 then op
         else if \<not> list_all is_digit op then op
         else if name \<noteq> [] then name else op)"

text \<open>
  \<open>lookupCodeFor\<close>: the first configured operator whose name contains, or is contained in, the given
  one (\<open>codes\<close> in Go's iteration order), and once more by name when the operator is still a number.
  The recursion ends because the name of an operator in the table is tried only once: \<open>fuel\<close> counts the
  calls, and 2 is what the built-in table needs.
\<close>

fun lookup_code_for :: "nat \<Rightarrow> network_operator list \<Rightarrow> string \<Rightarrow> (string \<times> string) list \<Rightarrow> string" where
  "lookup_code_for 0 ops oper codes = []"
| "lookup_code_for (Suc n) ops oper codes =
     (let op = to_lower (trim_space oper)
      in if op = [] then []
         else
           (case find (\<lambda>(name, code). contains op (to_lower name) \<or> contains (to_lower name) op) codes of
              Some (name, code) \<Rightarrow> code
            | None \<Rightarrow>
                if 5 \<le> length op \<and> take 3 op = ''452'' then
                  (let name = get_operator_name ops ''452'' (drop 3 op)
                   in if name \<noteq> [] \<and> \<not> equal_fold name op then lookup_code_for n ops name codes else [])
                else []))"

subsection \<open>Calls\<close>

record clcc_details =
  cc_direction :: int
  cc_stat :: int
  cc_mode :: int
  cc_number :: string

definition parse_clcc_like_parts :: "string list \<Rightarrow> clcc_details option" where
  "parse_clcc_like_parts parts =
     (if length parts < 5 then None
      else
        (case (go_atoi (trim_space (parts ! 1)), go_atoi (trim_space (parts ! 2)), go_atoi (trim_space (parts ! 3))) of
           (Some d, Some st, Some m) \<Rightarrow>
             Some \<lparr> cc_direction = d, cc_stat = st, cc_mode = m,
               cc_number = (if 6 \<le> length parts then trim_quotes (trim_space (parts ! 5)) else []) \<rparr>
         | _ \<Rightarrow> None))"

definition after_colon :: "string \<Rightarrow> string option" where
  "after_colon line =
     (case index_of (CHR '':'') line of None \<Rightarrow> None
      | Some i \<Rightarrow> if length line \<le> i + 1 then None else Some (trim_space (drop (i + 1) line)))"

definition parse_clcc_state :: "string \<Rightarrow> clcc_details option" where
  "parse_clcc_state line =
     (case after_colon line of None \<Rightarrow> None | Some body \<Rightarrow> parse_clcc_like_parts (split_on (CHR '','') body))"

definition parse_ccinfo_state :: "string \<Rightarrow> clcc_details option" where
  "parse_ccinfo_state line =
     (case after_colon line of None \<Rightarrow> None
      | Some body \<Rightarrow>
          (let parts = split_on (CHR '','') body
           in if length parts < 6 then None
              else if trim_quotes (trim_space (hd parts)) \<noteq> ''ccinfo'' then None
              else parse_clcc_like_parts (tl parts)))"

definition is_ccinfo_qind :: "string \<Rightarrow> bool" where
  "is_ccinfo_qind line \<longleftrightarrow>
     has_prefix (to_upper (trim_space line)) ''+QIND:'' \<and>
     contains (to_upper (trim_space line)) ([CHR 0x22] @ ''CCINFO'' @ [CHR 0x22])"

definition should_handle_call_urc :: "bool \<Rightarrow> string \<Rightarrow> bool" where
  "should_handle_call_urc calling line \<longleftrightarrow>
     calling \<and> to_upper (trim_space line) \<noteq> [] \<and>
     (to_upper (trim_space line) \<in> set [''NO CARRIER'', ''BUSY'', ''NO ANSWER'', ''NO DIALTONE'', ''RING''] \<or>
      has_prefix (to_upper (trim_space line)) ''+CLCC:'' \<or> is_ccinfo_qind line)"

definition is_urc :: "bool \<Rightarrow> string \<Rightarrow> bool" where
  "is_urc calling line \<longleftrightarrow>
     has_prefix line ''+CMTI:'' \<or> has_prefix line ''+CREG:'' \<or> has_prefix line ''+CUSD:'' \<or>
     should_handle_call_urc calling line"

subsection \<open>Stored messages\<close>

record stored_sms =
  st_index :: int
  st_pdu :: string

text \<open>One line of \<open>parseStoredSMS\<close>: \<open>index\<close> is -1 when no message header precedes.\<close>

definition stored_header_index :: "string \<Rightarrow> int" where
  "stored_header_index line =
     (case go_atoi (trim_space (hd (split_on (CHR '','') (trim_space (trim_prefix line ''+CMGL:''))))) of
        Some n \<Rightarrow> if 0 \<le> n then n else - 1 | None \<Rightarrow> - 1)"

fun stored_lines :: "(string \<Rightarrow> bool) \<Rightarrow> int \<Rightarrow> string list \<Rightarrow> stored_sms list" where
  "stored_lines urc index [] = []"
| "stored_lines urc index (l # ls) =
     (if has_prefix l ''+CMGL:'' then stored_lines urc (stored_header_index l) ls
      else if l = [] \<or> urc l then stored_lines urc index ls
      else if 0 \<le> index then
        (if hex_decode l \<noteq> None then [\<lparr> st_index = index, st_pdu = l \<rparr>] else []) @ stored_lines urc (- 1) ls
      else stored_lines urc index ls)"

definition parse_stored_sms :: "(string \<Rightarrow> bool) \<Rightarrow> string \<Rightarrow> stored_sms list" where
  "parse_stored_sms urc response = stored_lines urc (- 1) (resp_lines response)"

fun cmgl_lines :: "(string \<Rightarrow> bool) \<Rightarrow> bool \<Rightarrow> string list \<Rightarrow> string list \<times> bool" where
  "cmgl_lines urc expect [] = ([], False)"
| "cmgl_lines urc expect (l # ls) =
     (if l = [] \<or> l = ''OK'' then cmgl_lines urc expect ls
      else if has_prefix l ''+CMGL:'' then (fst (cmgl_lines urc True ls), True)
      else if urc l \<or> \<not> expect then cmgl_lines urc expect ls
      else (let (ps, seen) = cmgl_lines urc False ls in ((if hex_decode l \<noteq> None then [l] else []) @ ps, seen)))"

definition parse_cmgl_pdus :: "(string \<Rightarrow> bool) \<Rightarrow> string \<Rightarrow> string list \<times> bool" where
  "parse_cmgl_pdus urc response = cmgl_lines urc False (resp_lines response)"

subsection \<open>Messages of the carrier\<close>

definition phone_pattern :: re where
  "phone_pattern =
     r_seq [R_Alt R_Bol (R_Char (\<lambda>c. \<not> is_digit c)), R_Alt (R_Seq (r_opt (r_lit ''+'')) (r_lit ''84'')) (r_lit ''0''),
       R_Cap 1 (r_repeat 9 r_digit), R_Word_Boundary]"

definition parse_phone_number :: "string \<Rightarrow> string option" where
  "parse_phone_number text =
     map_option (\<lambda>m. CHR ''0'' # group 1 m)
       (find (\<lambda>m. hd (group 1 m) \<in> set ''35789'') (re_submatches phone_pattern text))"

definition main_account :: re where
  "main_account = r_alts [r_lit ''tk chinh'', r_lit ''tai khoan chinh'', r_lit ''tkc'']"

definition balance_pattern :: re where
  "balance_pattern =
     r_seq [main_account, R_Star True r_space, r_lit '':'', R_Star True r_space,
       R_Cap 1 (R_Seq r_digit (R_Star True (R_Char (\<lambda>c. is_digit c \<or> c \<in> set ''., '')))),
       R_Star True r_space, R_Alt (r_lit ''d'') (r_lit ''vnd'')]"

definition txt_tai_khoan_chinh :: string where
  "txt_tai_khoan_chinh = ''t'' @ [CHR 0xC3, CHR 0xA0] @ ''i kho'' @ [CHR 0xE1, CHR 0xBA, CHR 0xA3] @ ''n ch'' @ [CHR 0xC3, CHR 0xAD] @ ''nh''"

definition txt_tk_chinh :: string where
  "txt_tk_chinh = ''tk ch'' @ [CHR 0xC3, CHR 0xAD] @ ''nh''"

definition txt_dd :: string where
  "txt_dd = [CHR 0xC4, CHR 0x91]"

definition parse_balance_vnd :: "(string \<Rightarrow> string) \<Rightarrow> string \<Rightarrow> int option" where
  "parse_balance_vnd lower text =
     (case re_submatch balance_pattern
             (replacer [(txt_tai_khoan_chinh, ''tai khoan chinh''), (txt_tk_chinh, ''tk chinh''), (txt_dd, ''d'')] (lower text)) of
        None \<Rightarrow> None
      | Some m \<Rightarrow> go_parse_int 10 (replacer [(''.'', []), ('','', []), ('' '', [])] (group 1 m)))"

subsection \<open>Plan data\<close>

definition plan_date :: re where
  "plan_date = r_seq [r_range 1 2 r_digit, r_lit ''/'', r_range 1 2 r_digit, r_lit ''/'', r_repeat 4 r_digit]"

definition plan_number :: re where
  "plan_number = R_Seq (r_plus r_digit) (r_opt (R_Seq (R_Char (\<lambda>c. c = CHR ''.'' \<or> c = CHR '','')) (r_plus r_digit)))"

definition plan_main_expiry :: re where
  "plan_main_expiry =
     r_seq [main_account, R_Star False (r_not (CHR 0x0A)), r_lit ''het han'', R_Star True r_space, R_Cap 1 plan_date]"

definition plan_until :: re where
  "plan_until =
     r_opt (r_seq [R_Star False (R_Char (\<lambda>c. c \<noteq> CHR ''.'' \<and> c \<noteq> CHR 0x0A)), r_lit ''het han'', R_Star True r_space,
       R_Cap 2 plan_date])"

definition plan_free_minutes :: re where
  "plan_free_minutes =
     r_seq [r_lit ''thoai'', R_Star True r_space, r_lit ''nm'', R_Star True (R_Char (\<lambda>c. \<not> is_digit c)),
       R_Cap 1 plan_number, R_Star True r_space, r_lit ''phut'', plan_until]"

definition plan_free_sms :: re where
  "plan_free_sms =
     r_seq [r_lit ''sms'', R_Star True r_space, r_lit ''noi'', R_Star True r_space, r_lit ''mang'',
       R_Star True (R_Char (\<lambda>c. \<not> is_digit c)), R_Cap 1 (r_plus r_digit), R_Star True r_space, r_lit ''sms'', plan_until]"

definition plan_data :: re where
  "plan_data = r_seq [R_Cap 1 plan_number, R_Star True r_space, R_Cap 2 (R_Alt (r_lit ''mb'') (r_lit ''gb'')), R_Word_Boundary]"

definition plan_normalizer :: "(string \<times> string) list" where
  "plan_normalizer =
     [(txt_tai_khoan_chinh, ''tai khoan chinh''), (txt_tk_chinh, ''tk chinh''),
      (''h'' @ [CHR 0xE1, CHR 0xBA, CHR 0xBF] @ ''t h'' @ [CHR 0xE1, CHR 0xBA, CHR 0xA1] @ ''n'', ''het han''),
      (''tho'' @ [CHR 0xE1, CHR 0xBA, CHR 0xA1] @ ''i'', ''thoai''),
      (''n'' @ [CHR 0xE1, CHR 0xBB, CHR 0x99] @ ''i m'' @ [CHR 0xE1, CHR 0xBA, CHR 0xA1] @ ''ng'', ''noi mang''),
      (''d'' @ [CHR 0xE1, CHR 0xBB, CHR 0xAF] @ '' li'' @ [CHR 0xE1, CHR 0xBB, CHR 0x87] @ ''u'', ''du lieu''),
      (''ph'' @ [CHR 0xC3, CHR 0xBA] @ ''t'', ''phut''), (txt_dd, ''d'')]"

text \<open>\<open>strconv.ParseFloat\<close> of digits with at most one decimal point, as an exact rational.\<close>

definition plan_parse_float :: "string \<Rightarrow> rat option" where
  "plan_parse_float s =
     (case split_on (CHR ''.'') (map (\<lambda>c. if c = CHR '','' then CHR ''.'' else c) s) of
        [a] \<Rightarrow> map_option of_int (parse_digits a)
      | [a, b] \<Rightarrow>
          (case (parse_digits a, parse_digits b) of
             (Some x, Some y) \<Rightarrow> Some (of_int x + of_int y / 10 ^ length b)
           | _ \<Rightarrow> None)
      | _ \<Rightarrow> None)"

text \<open>
  \<open>time.ParseInLocation("02/01/2006", s, time.Local)\<close>: two digits for the day and the month, four for
  the year, and a day that the month has.
\<close>

definition days_in_month :: "int \<Rightarrow> int \<Rightarrow> int" where
  "days_in_month y m = month_day0 (12 * y + m) - month_day0 (12 * y + m - 1)"

definition plan_parse_date :: "int \<Rightarrow> string \<Rightarrow> gtime option" where
  "plan_parse_date tz s =
     (case split_on (CHR ''/'') s of
        [d, m, y] \<Rightarrow>
          (case (parse_digits d, parse_digits m, parse_digits y) of
             (Some dv, Some mv, Some yv) \<Rightarrow>
               if length d = 2 \<and> length m = 2 \<and> length y = 4 \<and> 1 \<le> mv \<and> mv \<le> 12 \<and> 1 \<le> dv \<and> dv \<le> days_in_month yv mv
               then Some ((month_day0 (12 * yv + mv - 1) + dv - 1) * day_ns - tz) else None
           | _ \<Rightarrow> None)
      | _ \<Rightarrow> None)"

definition empty_plan :: plan_info where
  "empty_plan = \<lparr> pi_plan_expires_at = None, pi_free_minutes = None, pi_free_minutes_expires_at = None,
     pi_free_sms = None, pi_free_sms_expires_at = None, pi_data_mb = None, pi_raw = [] \<rparr>"

definition plan_main_of :: "int \<Rightarrow> string \<Rightarrow> plan_info \<Rightarrow> plan_info \<times> bool" where
  "plan_main_of tz n p =
     (case re_submatch plan_main_expiry n of None \<Rightarrow> (p, False)
      | Some m \<Rightarrow> (case plan_parse_date tz (group 1 m) of None \<Rightarrow> (p, False)
                    | Some t \<Rightarrow> (p\<lparr>pi_plan_expires_at := Some t\<rparr>, True)))"

definition plan_minutes_of :: "int \<Rightarrow> string \<Rightarrow> plan_info \<Rightarrow> plan_info \<times> bool" where
  "plan_minutes_of tz n p =
     (case re_submatch plan_free_minutes n of None \<Rightarrow> (p, False)
      | Some m \<Rightarrow> (case plan_parse_float (group 1 m) of None \<Rightarrow> (p, False)
                    | Some v \<Rightarrow> (p\<lparr>pi_free_minutes := Some v,
                        pi_free_minutes_expires_at := plan_parse_date tz (group 2 m)\<rparr>, True)))"

definition plan_sms_of :: "int \<Rightarrow> string \<Rightarrow> plan_info \<Rightarrow> plan_info \<times> bool" where
  "plan_sms_of tz n p =
     (case re_submatch plan_free_sms n of None \<Rightarrow> (p, False)
      | Some m \<Rightarrow> (case go_atoi (group 1 m) of None \<Rightarrow> (p, False)
                    | Some v \<Rightarrow> (p\<lparr>pi_free_sms := Some v,
                        pi_free_sms_expires_at := plan_parse_date tz (group 2 m)\<rparr>, True)))"

definition plan_data_of :: "string \<Rightarrow> plan_info \<Rightarrow> plan_info \<times> bool" where
  "plan_data_of n p =
     (case re_submatch plan_data n of None \<Rightarrow> (p, False)
      | Some m \<Rightarrow> (case plan_parse_float (group 1 m) of None \<Rightarrow> (p, False)
                    | Some v \<Rightarrow> (p\<lparr>pi_data_mb := Some (if group 2 m = ''gb'' then v * 1024 else v)\<rparr>, True)))"

definition plan_raw_max :: nat where
  "plan_raw_max = 500"

text \<open>\<open>runes\<close> splits UTF-8 into characters; \<open>string(r[:500])\<close> keeps the first 500 of them.\<close>

definition parse_plan_info :: "(string \<Rightarrow> string) \<Rightarrow> (string \<Rightarrow> string list) \<Rightarrow> int \<Rightarrow> string \<Rightarrow> plan_info option" where
  "parse_plan_info lower split_runes tz text =
     (let n = replacer plan_normalizer (lower text);
          (p1, ok1) = plan_main_of tz n empty_plan;
          (p2, ok2) = plan_minutes_of tz n p1;
          (p3, ok3) = plan_sms_of tz n p2;
          (p4, ok4) = plan_data_of n p3;
          raw = trim_space text
      in if \<not> (ok1 \<or> ok2 \<or> ok3 \<or> ok4) then None
         else Some (p4\<lparr>pi_raw := (if plan_raw_max < length (split_runes raw)
                                  then concat (take plan_raw_max (split_runes raw)) else raw)\<rparr>))"

subsection \<open>USSD answers\<close>

definition cusd_pattern :: re where
  "cusd_pattern =
     r_seq [R_Bol, r_lit ''+CUSD:'', R_Star True r_space, r_digit, R_Star True r_space, r_lit '','', R_Star True r_space,
       R_Char (\<lambda>c. c = CHR 0x22), R_Cap 1 (R_Star True (r_not (CHR 0x22))), R_Char (\<lambda>c. c = CHR 0x22),
       r_opt (r_seq [R_Star True r_space, r_lit '','', R_Star True r_space, R_Cap 2 (r_plus r_digit)])]"

definition is_ucs2_dcs :: "string \<Rightarrow> bool" where
  "is_ucs2_dcs s = (case go_atoi s of None \<Rightarrow> False | Some n \<Rightarrow> n div 4 mod 4 = 2)"

text \<open>
  The decoders of the SMS library are parameters that yield the text when it is decodable and its
  characters are all printable.
\<close>

definition decode_cusd :: "(string \<Rightarrow> string option) \<Rightarrow> (string \<Rightarrow> string option) \<Rightarrow> string \<Rightarrow> string" where
  "decode_cusd ucs2 gsm7 line =
     (case re_submatch cusd_pattern (trim_space line) of None \<Rightarrow> line
      | Some m \<Rightarrow>
          (let text = group 1 m; dcs = is_ucs2_dcs (group 2 m)
           in case hex_decode text of None \<Rightarrow> text
              | Some raw \<Rightarrow>
                  if length raw < 2 \<or> (\<not> contains_any_hex_letter text \<and> \<not> dcs) then text
                  else
                    (case (if even (length raw) then ucs2 raw else None) of Some t \<Rightarrow> t
                     | None \<Rightarrow> if dcs then text else (case gsm7 raw of Some t \<Rightarrow> t | None \<Rightarrow> text))))"

subsection \<open>Stored messages are read back\<close>

text \<open>
  The lines of an \<open>AT+CMGL\<close> answer: for every message a header, notifications that the modem may send
  in between, and the PDU; then the final result.
\<close>

definition cmgl_header :: "int \<Rightarrow> string" where
  "cmgl_header i = ''+CMGL: '' @ go_itoa i @ '',1,,24''"

definition cmgl_answer :: "(stored_sms \<times> string list) list \<Rightarrow> string list" where
  "cmgl_answer ms = concat (map (\<lambda>(e, noise). cmgl_header (st_index e) # noise @ [st_pdu e]) ms) @ [''OK'']"

definition stored_ok :: "(string \<Rightarrow> bool) \<Rightarrow> stored_sms \<times> string list \<Rightarrow> bool" where
  "stored_ok urc m \<longleftrightarrow> (case m of (e, noise) \<Rightarrow>
     0 \<le> st_index e \<and> in_int64 (st_index e) \<and> st_pdu e \<noteq> [] \<and> hex_decode (st_pdu e) \<noteq> None \<and> \<not> urc (st_pdu e) \<and>
     list_all (\<lambda>l. urc l \<and> plain_line l \<and> \<not> has_prefix l ''+CMGL:'') noise)"

lemma dropWhile_hd: "l \<noteq> [] \<Longrightarrow> \<not> P (hd l) \<Longrightarrow> dropWhile P l = l"
  by (cases l) auto

lemma trim_space_id: "l \<noteq> [] \<Longrightarrow> \<not> is_space (hd l) \<Longrightarrow> \<not> is_space (last l) \<Longrightarrow> trim_space l = l"
  by (simp add: trim_space_def trim_by_def dropWhile_hd trim_right_id)

lemma hex_char_plain:
  assumes "hex_digit_val c \<noteq> None"
  shows "\<not> is_space c \<and> c \<noteq> CHR ''>'' \<and> c \<noteq> CHR ''+'' \<and> c \<noteq> CHR 0x0D \<and> c \<noteq> CHR 0x0A"
  using assms
  by (auto simp: hex_digit_val_def is_digit_def is_space_def go_spaces_def less_eq_char_def)

lemma hex_decode_chars: "hex_decode s = Some r \<Longrightarrow> c \<in> set s \<Longrightarrow> hex_digit_val c \<noteq> None"
  by (induction s arbitrary: r rule: hex_decode.induct) (auto split: option.splits)

lemma pdu_plain:
  assumes "s \<noteq> []" "hex_decode s \<noteq> None"
  shows "plain_line s" "\<not> has_prefix s ''+CMGL:''"
proof -
  have c: "hex_digit_val c \<noteq> None" if "c \<in> set s" for c
    using assms(2) hex_decode_chars that by blast
  have h: "hd s \<in> set s" "last s \<in> set s" using assms(1) by simp_all
  have p: "list_all (\<lambda>c. \<not> is_space c \<and> c \<noteq> CHR ''>'' \<and> c \<noteq> CHR 0x0D \<and> c \<noteq> CHR 0x0A) s"
    unfolding list_all_iff using hex_char_plain c by blast
  then have "trim_space s = s"
    using assms(1) h by (intro trim_space_id) (auto simp: list_all_iff)
  with p assms(1) h(1) show "plain_line s"
    unfolding plain_line_def list_all_iff by blast
  show "\<not> has_prefix s ''+CMGL:''"
    using hex_char_plain [OF c [OF h(1)]] assms(1) by (cases s) (auto simp: has_prefix_def)
qed

lemma digit_not_space: "is_digit c \<Longrightarrow> \<not> is_space c \<and> c \<noteq> CHR '','' \<and> c \<noteq> CHR 0x0D \<and> c \<noteq> CHR 0x0A"
  by (auto simp: is_digit_def is_space_def go_spaces_def less_eq_char_def)

lemma itoa_digits:
  assumes "0 \<le> i"
  shows "go_itoa i \<noteq> []" "list_all is_digit (go_itoa i)"
  using assms show_nat_digits by (simp_all add: go_itoa_def)

lemma trim_space_itoa: "0 \<le> i \<Longrightarrow> trim_space (go_itoa i) = go_itoa i"
  using itoa_digits [of i] digit_not_space
  by (intro trim_space_id) (auto simp: list_all_iff)

lemma cmgl_header_plain:
  assumes "0 \<le> i"
  shows "plain_line (cmgl_header i)"
proof -
  have d: "CHR 0x0D \<notin> set (go_itoa i)" "CHR 0x0A \<notin> set (go_itoa i)"
    using itoa_digits(2) [OF assms] unfolding list_all_iff by (auto dest!: bspec simp: is_digit_def less_eq_char_def)
  have "trim_space (cmgl_header i) = cmgl_header i"
    by (rule trim_space_id) (simp_all add: cmgl_header_def is_space_def go_spaces_def)
  with d show ?thesis by (simp add: plain_line_def cmgl_header_def)
qed

lemma stored_header_index_header:
  assumes "0 \<le> i" "in_int64 i"
  shows "stored_header_index (cmgl_header i) = i"
proof -
  have "trim_prefix (cmgl_header i) ''+CMGL:'' = CHR '' '' # go_itoa i @ '',1,,24''"
    by (simp add: cmgl_header_def trim_prefix_def has_prefix_def)
  moreover have "trim_space (CHR '' '' # go_itoa i @ '',1,,24'') = go_itoa i @ '',1,,24''"
  proof -
    have "trim_space (CHR '' '' # go_itoa i @ '',1,,24'') = trim_space (go_itoa i @ '',1,,24'')"
      by (simp add: trim_space_def trim_by_def is_space_def go_spaces_def)
    also have "\<dots> = go_itoa i @ '',1,,24''"
      using itoa_digits [OF assms(1)] digit_not_space
      by (intro trim_space_id) (auto simp: list_all_iff is_space_def go_spaces_def)
    finally show ?thesis .
  qed
  moreover have "hd (split_on (CHR '','') (go_itoa i @ '',1,,24'')) = go_itoa i"
    using itoa_digits(2) [OF assms(1)] digit_not_space
    by (subst split_on_append [where s = "''1,,24''"]) (auto simp: list_all_iff)
  ultimately show ?thesis
    using assms by (simp add: stored_header_index_def trim_space_itoa go_atoi_itoa)
qed

lemma stored_lines_noise:
  "list_all (\<lambda>l. urc l \<and> plain_line l \<and> \<not> has_prefix l ''+CMGL:'') noise \<Longrightarrow>
     stored_lines urc i (noise @ ls) = stored_lines urc i ls"
  by (induction noise) auto

lemma stored_lines_answer:
  "list_all (stored_ok urc) ms \<Longrightarrow> stored_lines urc (- 1) (cmgl_answer ms) = map fst ms"
proof (induction ms)
  case (Cons m ms)
  obtain e noise where m: "m = (e, noise)" by (cases m)
  with Cons.prems have e: "0 \<le> st_index e" "in_int64 (st_index e)" "st_pdu e \<noteq> []" "hex_decode (st_pdu e) \<noteq> None"
    "\<not> urc (st_pdu e)" and n: "list_all (\<lambda>l. urc l \<and> plain_line l \<and> \<not> has_prefix l ''+CMGL:'') noise"
    by (simp_all add: stored_ok_def)
  have a: "cmgl_answer ((e, noise) # ms) = cmgl_header (st_index e) # noise @ st_pdu e # cmgl_answer ms"
    by (simp add: cmgl_answer_def)
  have h: "has_prefix (cmgl_header (st_index e)) ''+CMGL:''"
    by (simp add: cmgl_header_def has_prefix_def)
  show ?case
    using Cons e pdu_plain(2) [OF e(3,4)] n
    by (simp add: a h stored_header_index_header stored_lines_noise m)
qed (simp add: cmgl_answer_def has_prefix_def)

lemma answer_plain: "list_all (stored_ok urc) ms \<Longrightarrow> list_all plain_line (cmgl_answer ms)"
proof (induction ms)
  case (Cons m ms)
  then show ?case
    using pdu_plain(1)
    by (cases m) (auto simp: cmgl_answer_def stored_ok_def cmgl_header_plain list_all_iff)
qed (simp add: cmgl_answer_def plain_line_def trim_space_def trim_by_def trim_right_def is_space_def go_spaces_def)

lemma resp_lines_join:
  assumes "ls \<noteq> []" "list_all plain_line ls"
  shows "resp_lines (join_with [CHR 0x0A] ls) = ls"
proof -
  have "split_on (CHR 0x0A) (join_with [CHR 0x0A] ls) = ls"
    using assms by (intro split_join) (auto simp: list_all_iff plain_line_def)
  then show ?thesis
    using assms(2) by (simp add: resp_lines_def list_all_iff plain_line_def map_idI)
qed



end
