(* ===== verification/Webhook_Service.thy ===== *)
theory Webhook_Service
  imports Sim_Repository Auth
begin

text \<open>
  \<open>internal/logic/webhook_service.go\<close>, the deletion in \<open>webhook_repo.go\<close> and
  \<open>internal/api/webhook_handler.go\<close>. A request to a webhook is its address and its JSON body; whether
  the post succeeds is only logged, so the model ends where the request is handed to the HTTP client.
  Rendering of templates (\<open>text/template\<close>) and of messages as JSON, and the readability of addresses
  by \<open>http.NewRequest\<close>, are parameters. The goroutines of one dispatch are listed in the order in which
  they are started.
\<close>

subsection \<open>Payloads\<close>

datatype json_field = Text_Field string | Markdown_Field | Chat_Field string | Sms_Field sms

record http_post =
  hp_url :: string
  hp_body :: "json_field list"

record webhook_env =
  we_render :: "string \<Rightarrow> sms \<Rightarrow> string option"
  we_url_ok :: "string \<Rightarrow> bool"
  we_marshal_ok :: "json_field list \<Rightarrow> bool"

text \<open>Alerts skip the template, and a template that does not parse or run is ignored.\<close>

definition webhook_content :: "webhook_env \<Rightarrow> webhook \<Rightarrow> sms \<Rightarrow> string" where
  "webhook_content env wh s =
     (if w_template wh \<noteq> [] \<and> s_type s \<noteq> ''alert'' then
        (case we_render env (w_template wh) s of None \<Rightarrow> s_content s | Some t \<Rightarrow> t)
      else s_content s)"

definition webhook_body :: "webhook \<Rightarrow> string \<Rightarrow> sms \<Rightarrow> json_field list" where
  "webhook_body wh content s =
     (if w_platform wh = ''telegram'' then
        (if contains (w_url wh) ''slack.com'' then [Text_Field content]
         else [Text_Field content, Markdown_Field] @
              (if w_channel_id wh \<noteq> [] then [Chat_Field (w_channel_id wh)] else []))
      else [Text_Field content, Sms_Field s])"

text \<open>The request of \<open>sendWebhook\<close>, or none when it cannot be built.\<close>

definition send_webhook :: "webhook_env \<Rightarrow> webhook \<Rightarrow> sms \<Rightarrow> http_post list" where
  "send_webhook env wh s =
     (let body = webhook_body wh (webhook_content env wh s) s
      in if \<not> we_marshal_ok env body then []
         else if \<not> we_url_ok env (w_url wh) then []
         else [\<lparr> hp_url = w_url wh, hp_body = body \<rparr>])"

subsection \<open>Dispatching\<close>

definition dispatch :: "webhook_env \<Rightarrow> faults \<Rightarrow> sms \<Rightarrow> database \<Rightarrow> http_post list" where
  "dispatch env faults s db =
     (case webhooks_of_iccid faults (s_iccid s) db of
        Inl _ \<Rightarrow> [] | Inr whs \<Rightarrow> concat (map (\<lambda>wh. send_webhook env wh s) whs))"

definition alert_message :: "string \<Rightarrow> string \<Rightarrow> gtime \<Rightarrow> sms" where
  "alert_message iccid text now = \<lparr> s_iccid = iccid, s_phone = [], s_content = text, s_timestamp = now,
     s_type = ''alert'', s_is_read = False, s_raw_pdu = [], s_created_at = 0 \<rparr>"

text \<open>\<open>now k\<close> is the clock when the message for the \<open>k\<close>-th webhook is made.\<close>

definition dispatch_text_to ::
  "webhook_env \<Rightarrow> faults \<Rightarrow> (nat \<Rightarrow> gtime) \<Rightarrow> string \<Rightarrow> string \<Rightarrow> database \<Rightarrow> http_post list" where
  "dispatch_text_to env faults now iccid text db =
     (case webhooks_of_iccid faults iccid db of
        Inl _ \<Rightarrow> []
      | Inr whs \<Rightarrow> concat (map (\<lambda>(k, wh). send_webhook env wh (alert_message iccid text (now k))) (enumerate 0 whs)))"

definition broadcast ::
  "webhook_env \<Rightarrow> faults \<Rightarrow> (nat \<Rightarrow> gtime) \<Rightarrow> string \<Rightarrow> database \<Rightarrow> http_post list" where
  "broadcast env faults now text db =
     (case webhooks_enabled faults db of
        Inl _ \<Rightarrow> []
      | Inr whs \<Rightarrow>
          concat (map (\<lambda>(k, wh). send_webhook env wh (alert_message (w_iccid wh) text (now k))) (enumerate 0 whs)))"

subsection \<open>Deleting and the handler\<close>

definition delete_webhook_row :: "faults \<Rightarrow> int \<Rightarrow> database \<Rightarrow> database result" where
  "delete_webhook_row faults i db =
     db_call faults ''webhook.delete'' (db\<lparr>t_webhooks := filter (\<lambda>w. w_id w \<noteq> i) (t_webhooks db)\<rparr>)"

definition list_webhooks :: "faults \<Rightarrow> string \<Rightarrow> database \<Rightarrow> webhook list reply" where
  "list_webhooks faults iccid db =
     (case db_call faults ''webhook.list'' (filter (\<lambda>w. w_iccid w = iccid) (t_webhooks db)) of
        Inl e \<Rightarrow> Refused 500 e | Inr ws \<Rightarrow> Answered 200 ws)"

text \<open>
  The database draws an id for a row that has none; an id that is taken is refused. \<open>dflt\<close> is what gorm
  stores for a column with a default tag, as in the theory of users.
\<close>

definition create_webhook_request ::
  "faults \<Rightarrow> (bool \<Rightarrow> bool \<Rightarrow> bool) \<Rightarrow> int \<Rightarrow> webhook result \<Rightarrow> database \<Rightarrow> database \<times> webhook reply" where
  "create_webhook_request faults dflt fresh req db =
     (case req of Inl e \<Rightarrow> (db, Refused 400 e)
      | Inr wh \<Rightarrow>
          (let w = (if w_id wh = 0 then wh\<lparr>w_id := fresh\<rparr> else wh)\<lparr>w_enabled := dflt True (w_enabled wh)\<rparr>
           in if w_id w \<in> set (map w_id (t_webhooks db)) then (db, Refused 500 unique_violation)
              else
                (case create_webhook faults w db of
                   Inl e \<Rightarrow> (db, Refused 500 e) | Inr db' \<Rightarrow> (db', Answered 200 w))))"

text \<open>An id that is no number is 0, the id of no row.\<close>

definition webhook_id :: "string \<Rightarrow> int" where
  "webhook_id s = (case go_atoi s of None \<Rightarrow> 0 | Some n \<Rightarrow> n)"

definition delete_webhook :: "faults \<Rightarrow> string \<Rightarrow> database \<Rightarrow> database \<times> unit reply" where
  "delete_webhook faults id_param db =
     (case delete_webhook_row faults (webhook_id id_param) db of
        Inl e \<Rightarrow> (db, Refused 500 e) | Inr db' \<Rightarrow> (db', Answered 200 ()))"

subsection \<open>Who is told what\<close>

lemma send_webhook_url: "p \<in> set (send_webhook env wh s) \<Longrightarrow> hp_url p = w_url wh \<and> hp_body p = webhook_body wh (webhook_content env wh s) s"
  by (auto simp: send_webhook_def Let_def split: if_splits)

lemma dispatch_post:
  assumes "p \<in> set (dispatch env faults s db)"
  obtains wh where "wh \<in> set (t_webhooks db)" "w_iccid wh = s_iccid s" "w_enabled wh" "p \<in> set (send_webhook env wh s)"
  using assms by (auto simp: dispatch_def webhooks_of_iccid_def db_call_def split: option.splits)

text \<open>The text of an alert reaches the receiver as it is, whatever template the webhook has.\<close>

lemma alert_text_kept: "Text_Field text \<in> set (webhook_body wh (webhook_content env wh (alert_message c text t)) (alert_message c text t))"
  by (simp add: webhook_body_def webhook_content_def alert_message_def)

lemma enabled_hook_told:
  assumes "faults ''webhook.find'' = None" "wh \<in> set (t_webhooks db)" "w_iccid wh = s_iccid s" "w_enabled wh"
    "\<forall>b. we_marshal_ok env b" "we_url_ok env (w_url wh)"
  shows "\<exists>p \<in> set (dispatch env faults s db). hp_url p = w_url wh"
  using assms by (force simp: dispatch_def webhooks_of_iccid_def db_call_def send_webhook_def Let_def)

end
