(* ===== verification/Worker_Core.thy ===== *)
theory Worker_Core
  imports At_Parse Sim_Repository Alert_Log Webhook_Service
begin

text \<open>
  The modem worker of \<open>internal/worker\<close>: its state, the command loop \<open>atSession.execute\<close>, the
  unsolicited result codes and the call state. The serial port is a list of events, what the worker will
  receive in order; the theorems hold for every such list, so for every behaviour of a modem. The database
  may fail differently at every clock reading (\<open>en_faults\<close>).
\<close>

subsection \<open>State\<close>

record call_snapshot =
  cs_state :: string
  cs_reason :: string
  cs_number :: string
  cs_direction :: int
  cs_stat :: int
  cs_mode :: int
  cs_incoming :: bool
  cs_voice :: bool
  cs_ringing :: bool
  cs_updated_at :: gtime

definition call_idle :: string where "call_idle = ''idle''"
definition call_dialing :: string where "call_dialing = ''dialing''"
definition call_in_call :: string where "call_in_call = ''in_call''"

definition init_call :: "gtime \<Rightarrow> call_snapshot" where
  "init_call now = \<lparr> cs_state = call_idle, cs_reason = ''init'', cs_number = [], cs_direction = 0, cs_stat = 0,
     cs_mode = 0, cs_incoming = False, cs_voice = False, cs_ringing = False, cs_updated_at = now \<rparr>"

text \<open>
  A zero \<open>time.Time\<close> is \<open>None\<close>. \<open>wk_sent\<close> lists the commands written to the port and
  \<open>wk_notified\<close> the snapshots handed to the call state listeners.
\<close>

record worker =
  wk_port :: string
  wk_modem :: "modem option"
  wk_call :: call_snapshot
  wk_uac_ready :: bool
  wk_uac_id :: "string \<times> string"
  wk_balance_requested_at :: "gtime option"
  wk_lookup_until :: "gtime option"
  wk_last_registered_write :: "gtime option"
  wk_lookup_tried :: bool
  wk_searching_since :: "gtime option"
  wk_stopped :: bool
  wk_reprobe :: bool
  wk_trigger :: bool
  wk_sent :: "string list"
  wk_notified :: "call_snapshot list"

definition new_modem_worker :: "string \<Rightarrow> gtime \<Rightarrow> worker" where
  "new_modem_worker port now = \<lparr> wk_port = port, wk_modem = None, wk_call = init_call now, wk_uac_ready = False,
     wk_uac_id = ([], []), wk_balance_requested_at = None, wk_lookup_until = None, wk_last_registered_write = None,
     wk_lookup_tried = False, wk_searching_since = None, wk_stopped = False, wk_reprobe = False, wk_trigger = False,
     wk_sent = [], wk_notified = [] \<rparr>"

text \<open>What happens on the port next: a line, a read error, the timer of the command, a stop, a write error.\<close>

datatype at_event = Rx_Line string | Rx_Error string | Timer_Fired | Stop_Asked | Write_Failed string

text \<open>\<open>ws_posts\<close> lists the requests handed to the webhook dispatcher for received messages.\<close>

record wstate =
  ws_worker :: worker
  ws_world :: world
  ws_rx :: "at_event list"
  ws_posts :: "http_post list"

text \<open>
  A received TPDU as the SMS library presents it: whether it is a delivery, the sender, the time stamp of
  the centre (none when zero), the text or the error of decoding it, and the raw user data.
\<close>

record received_tpdu =
  td_deliver :: bool
  td_sender :: string
  td_time :: "gtime option"
  td_text :: "string result"
  td_user_data :: string

record worker_env =
  en_calling :: bool
  en_config :: app_config
  en_clock :: clock
  en_faults :: "nat \<Rightarrow> faults"
  en_operators :: "network_operator list"
  en_lower :: "string \<Rightarrow> string"
  en_runes :: "string \<Rightarrow> string list"
  en_ucs2 :: "string \<Rightarrow> string option"
  en_gsm7 :: "string \<Rightarrow> string option"
  en_tz :: int
  en_webhook :: webhook_env
  en_unmarshal :: "string \<Rightarrow> received_tpdu result"
  en_encode :: "string \<Rightarrow> bool \<Rightarrow> string \<Rightarrow> string result list result"

definition on_worker :: "(worker \<Rightarrow> worker) \<Rightarrow> wstate \<Rightarrow> wstate" where
  "on_worker f s = s\<lparr>ws_worker := f (ws_worker s)\<rparr>"

definition on_db :: "(database \<Rightarrow> database) \<Rightarrow> wstate \<Rightarrow> wstate" where
  "on_db f s = s\<lparr>ws_world := (ws_world s)\<lparr>wd_db := f (wd_db (ws_world s))\<rparr>\<rparr>"

definition ws_db :: "wstate \<Rightarrow> database" where
  "ws_db s = wd_db (ws_world s)"

definition now_of :: "worker_env \<Rightarrow> wstate \<Rightarrow> gtime" where
  "now_of env s = world_now (en_clock env) (ws_world s)"

definition ws_tick :: "wstate \<Rightarrow> wstate" where
  "ws_tick s = s\<lparr>ws_world := tick (ws_world s)\<rparr>"

definition faults_of :: "worker_env \<Rightarrow> wstate \<Rightarrow> faults" where
  "faults_of env s = en_faults env (wd_tick (ws_world s))"

text \<open>A write whose error the worker only logs.\<close>

definition db_write :: "(database \<Rightarrow> database result) \<Rightarrow> wstate \<Rightarrow> wstate \<times> bool" where
  "db_write f s = (case f (ws_db s) of Inl _ \<Rightarrow> (s, False) | Inr db \<Rightarrow> (on_db (\<lambda>_. db) s, True))"

lemma on_worker_simps [simp]:
  "ws_worker (on_worker f s) = f (ws_worker s)" "ws_world (on_worker f s) = ws_world s" "ws_rx (on_worker f s) = ws_rx s"
  "ws_db (on_worker f s) = ws_db s" "ws_posts (on_worker f s) = ws_posts s"
  by (simp_all add: on_worker_def ws_db_def)

lemma on_db_simps [simp]:
  "ws_worker (on_db f s) = ws_worker s" "ws_db (on_db f s) = f (ws_db s)" "ws_rx (on_db f s) = ws_rx s"
  "ws_posts (on_db f s) = ws_posts s"
  by (simp_all add: on_db_def ws_db_def)

lemma ws_tick_simps [simp]:
  "ws_worker (ws_tick s) = ws_worker s" "ws_db (ws_tick s) = ws_db s" "ws_rx (ws_tick s) = ws_rx s"
  "ws_posts (ws_tick s) = ws_posts s"
  by (simp_all add: ws_tick_def ws_db_def)

lemma db_write_simps [simp]:
  "ws_worker (fst (db_write f s)) = ws_worker s" "ws_rx (fst (db_write f s)) = ws_rx s"
  "ws_posts (fst (db_write f s)) = ws_posts s"
  by (simp_all add: db_write_def split: sum.split)

definition modem_iccid :: "worker \<Rightarrow> string" where
  "modem_iccid w = (case wk_modem w of None \<Rightarrow> [] | Some m \<Rightarrow> m_iccid m)"

definition update_modem :: "(modem \<Rightarrow> modem) \<Rightarrow> worker \<Rightarrow> worker" where
  "update_modem f w = w\<lparr>wk_modem := map_option f (wk_modem w)\<rparr>"

definition stop_for_reprobe :: "worker \<Rightarrow> worker" where
  "stop_for_reprobe w = w\<lparr>wk_reprobe := True, wk_stopped := True\<rparr>"

subsection \<open>The call state\<close>

definition clear_call_details :: "call_snapshot \<Rightarrow> call_snapshot" where
  "clear_call_details c = c\<lparr>cs_number := [], cs_direction := 0, cs_stat := 0, cs_mode := 0, cs_incoming := False,
     cs_voice := False, cs_ringing := False\<rparr>"

text \<open>
  \<open>setCallStateWithMeta\<close>: empty strings leave state and reason alone; listeners hear of the new snapshot
  exactly when it differs from the old one.
\<close>

definition next_call :: "string \<Rightarrow> string \<Rightarrow> (call_snapshot \<Rightarrow> call_snapshot) option \<Rightarrow> call_snapshot \<Rightarrow> call_snapshot" where
  "next_call state reason upd c =
     (let c1 = (if state \<noteq> [] then c\<lparr>cs_state := state\<rparr> else c);
          c2 = (if reason \<noteq> [] then c1\<lparr>cs_reason := reason\<rparr> else c1)
      in case upd of None \<Rightarrow> c2 | Some f \<Rightarrow> f c2)"

definition set_call_state ::
  "worker_env \<Rightarrow> string \<Rightarrow> string \<Rightarrow> (call_snapshot \<Rightarrow> call_snapshot) option \<Rightarrow> wstate \<Rightarrow> wstate" where
  "set_call_state env state reason upd s =
     (let prev = wk_call (ws_worker s); c = next_call state reason upd prev
      in if (state = [] \<and> upd = None) \<or> c = prev then s
         else
           (let c' = c\<lparr>cs_updated_at := now_of env s\<rparr>
            in ws_tick (on_worker (\<lambda>w. w\<lparr>wk_call := c', wk_notified := wk_notified w @ [c']\<rparr>) s)))"

definition apply_clcc_state :: "worker_env \<Rightarrow> clcc_details \<Rightarrow> string \<Rightarrow> wstate \<Rightarrow> wstate" where
  "apply_clcc_state env info source s =
     (let incoming_voice = (cc_direction info = 1 \<and> cc_mode info = 0);
          ringing = (incoming_voice \<and> (cc_stat info = 4 \<or> cc_stat info = 5));
          (state, reason) =
            (if cc_stat info = 0 \<or> cc_stat info = 1 then
               (call_in_call, source @ (if incoming_voice then ''_incoming_active'' else ''_active''))
             else if cc_stat info = 2 \<or> cc_stat info = 3 then (call_dialing, source @ ''_progress'')
             else if cc_stat info = 4 \<or> cc_stat info = 5 then
               (call_dialing, source @ (if incoming_voice then ''_incoming'' else ''_progress''))
             else ([], []))
      in set_call_state env state reason
           (Some (\<lambda>c. c\<lparr>cs_number := cc_number info, cs_direction := cc_direction info, cs_stat := cc_stat info,
                 cs_mode := cc_mode info, cs_incoming := incoming_voice, cs_voice := (cc_mode info = 0),
                 cs_ringing := ringing\<rparr>)) s)"

definition handle_call_urc :: "worker_env \<Rightarrow> string \<Rightarrow> wstate \<Rightarrow> wstate" where
  "handle_call_urc env line s =
     (let upper = to_upper (trim_space line); clear = Some clear_call_details
      in if upper = ''RING'' then
           (if cs_state (wk_call (ws_worker s)) = call_idle then set_call_state env call_dialing ''ring'' clear s else s)
         else if upper = ''NO CARRIER'' then set_call_state env call_idle ''no_carrier'' clear s
         else if upper = ''BUSY'' then set_call_state env call_idle ''busy'' clear s
         else if upper = ''NO ANSWER'' then set_call_state env call_idle ''no_answer'' clear s
         else if upper = ''NO DIALTONE'' then set_call_state env call_idle ''no_dialtone'' clear s
         else if has_prefix upper ''+CLCC:'' then
           (case parse_clcc_state line of None \<Rightarrow> s | Some info \<Rightarrow> apply_clcc_state env info ''clcc'' s)
         else if is_ccinfo_qind line then
           (case parse_ccinfo_state line of None \<Rightarrow> s | Some info \<Rightarrow> apply_clcc_state env info ''ccinfo'' s)
         else s)"

subsection \<open>What is picked out of messages\<close>

definition capture_phone_number :: "worker_env \<Rightarrow> string \<Rightarrow> wstate \<Rightarrow> wstate" where
  "capture_phone_number env text s =
     (let now = now_of env s; s1 = ws_tick s; w = ws_worker s
      in if \<not> (case wk_lookup_until w of None \<Rightarrow> False | Some u \<Rightarrow> now < u) then s1
         else
           (case parse_phone_number text of None \<Rightarrow> s1
            | Some phone \<Rightarrow>
                if modem_iccid w = [] then s1
                else
                  (let s2 = on_worker (\<lambda>w. w\<lparr>wk_lookup_until := None\<rparr>) s1
                   in fst (db_write (\<lambda>db. and_then (set_phone_number (faults_of env s2) (modem_iccid w) phone ''ussd''
                              (now_of env s2) db) (\<lambda>(db', _). Inr db')) s2))))"

definition capture_balance :: "worker_env \<Rightarrow> string \<Rightarrow> wstate \<Rightarrow> wstate" where
  "capture_balance env text s =
     (case parse_balance_vnd (en_lower env) text of None \<Rightarrow> s
      | Some v \<Rightarrow>
          if modem_iccid (ws_worker s) = [] then s
          else
            (let iccid = modem_iccid (ws_worker s); now = now_of env s; f = faults_of env s;
                 (s1, ok) = db_write (update_balance f iccid v now) (ws_tick s)
             in if \<not> ok then s1
                else fst (db_write (add_snapshot f iccid v now) (fst (db_write (fill_balance f iccid v now) s1)))))"

definition capture_plan_info :: "worker_env \<Rightarrow> string \<Rightarrow> wstate \<Rightarrow> wstate" where
  "capture_plan_info env text s =
     (case parse_plan_info (en_lower env) (en_runes env) (en_tz env) text of None \<Rightarrow> s
      | Some info \<Rightarrow>
          if modem_iccid (ws_worker s) = [] then s
          else fst (db_write (update_plan_info (faults_of env s) (modem_iccid (ws_worker s)) info (now_of env s)) (ws_tick s)))"

definition capture_all :: "worker_env \<Rightarrow> string \<Rightarrow> wstate \<Rightarrow> wstate" where
  "capture_all env text s = capture_plan_info env text (capture_balance env text (capture_phone_number env text s))"

subsection \<open>Unsolicited result codes\<close>

definition handle_creg_urc :: "worker_env \<Rightarrow> string \<Rightarrow> wstate \<Rightarrow> wstate" where
  "handle_creg_urc env line s =
     (case parse_creg_status line of Inl _ \<Rightarrow> s
      | Inr (code, text) \<Rightarrow>
          if wk_modem (ws_worker s) = None then s
          else
            (let now = now_of env s
             in ws_tick (on_worker (update_modem (\<lambda>m.
                  (let m1 = m\<lparr>m_registration := text, m_last_seen := now\<rparr>
                   in if code \<noteq> ''1'' \<and> code \<noteq> ''5'' then m1\<lparr>m_operator := []\<rparr> else m1))) s)))"

definition handle_urc :: "worker_env \<Rightarrow> string \<Rightarrow> wstate \<Rightarrow> wstate" where
  "handle_urc env line s =
     (let upper = to_upper (trim_space line)
      in if has_prefix line ''+CMTI:'' then on_worker (\<lambda>w. w\<lparr>wk_trigger := True\<rparr>) s
         else if has_prefix upper ''+CUSD:'' then
           capture_all env (decode_cusd (en_ucs2 env) (en_gsm7 env) line) s
         else
           (let s1 = (if has_prefix upper ''+CREG:'' then handle_creg_urc env line s else s)
            in if should_handle_call_urc (en_calling env) line then handle_call_urc env line s1 else s1))"

definition handle_if_urc :: "worker_env \<Rightarrow> string \<Rightarrow> wstate \<Rightarrow> wstate" where
  "handle_if_urc env line s = (if is_urc (en_calling env) line then handle_urc env line s else s)"

subsection \<open>Commands\<close>

definition err_stopped :: string where
  "err_stopped = ''modem worker stopped''"

text \<open>
  The loop of \<open>execute\<close> over the events: \<open>acc\<close> are the response lines so far. When the list ends the
  timer of the command is what happens next. The first component is the state after the handled result
  codes, the second the events that are left.
\<close>

fun exec_loop ::
  "worker_env \<Rightarrow> string \<Rightarrow> string list \<Rightarrow> at_event list \<Rightarrow> wstate \<Rightarrow> wstate \<times> at_event list \<times> string result" where
  "exec_loop env cmd acc [] s = (s, [], Inl ''timeout'')"
| "exec_loop env cmd acc (Timer_Fired # es) s = (s, es, Inl ''timeout'')"
| "exec_loop env cmd acc (Stop_Asked # es) s = (on_worker (\<lambda>w. w\<lparr>wk_stopped := True\<rparr>) s, es, Inl err_stopped)"
| "exec_loop env cmd acc (Rx_Error e # es) s = (on_worker stop_for_reprobe s, es, Inl e)"
| "exec_loop env cmd acc (Write_Failed e # es) s = exec_loop env cmd acc es s"
| "exec_loop env cmd acc (Rx_Line l # es) s =
     (if has_prefix l ''>'' \<and> has_prefix cmd ''AT+CMGS='' then (s, es, Inr l)
      else
        (let s' = handle_if_urc env l s; acc' = acc @ [l]
         in if l = ''OK'' then (s', es, Inr (join_with [CHR 0x0A] acc'))
            else if contains l ''ERROR'' then (s', es, Inl (''modem error: '' @ join_with [CHR 0x0A] acc'))
            else exec_loop env cmd acc' es s'))"

definition execute :: "worker_env \<Rightarrow> string \<Rightarrow> wstate \<Rightarrow> wstate \<times> string result" where
  "execute env cmd s =
     (let s1 = on_worker (\<lambda>w. w\<lparr>wk_sent := wk_sent w @ [cmd]\<rparr>) s
      in case ws_rx s of
           Write_Failed e # es \<Rightarrow> (on_worker stop_for_reprobe (s\<lparr>ws_rx := es\<rparr>), Inl e)
         | _ \<Rightarrow> (case exec_loop env cmd [] (ws_rx s) s1 of (s2, es, r) \<Rightarrow> (s2\<lparr>ws_rx := es\<rparr>, r)))"

text \<open>\<open>runATTransaction\<close>: nothing runs once the worker stopped.\<close>

definition run_at_transaction :: "(wstate \<Rightarrow> wstate \<times> 'a result) \<Rightarrow> wstate \<Rightarrow> wstate \<times> 'a result" where
  "run_at_transaction run s = (if wk_stopped (ws_worker s) then (s, Inl err_stopped) else run s)"

definition execute_at :: "worker_env \<Rightarrow> string \<Rightarrow> wstate \<Rightarrow> wstate \<times> string result" where
  "execute_at env cmd s =
     (if requires_interactive_transaction cmd then
        (s, Inl ''interactive AT input must run in a single modem transaction'')
      else run_at_transaction (execute env cmd) s)"

text \<open>The idle branch of \<open>runLoop\<close>: a line outside a command.\<close>

definition idle_event :: "worker_env \<Rightarrow> at_event \<Rightarrow> wstate \<Rightarrow> wstate" where
  "idle_event env e s =
     (case e of
        Rx_Line l \<Rightarrow> handle_if_urc env l s
      | Rx_Error _ \<Rightarrow> on_worker stop_for_reprobe s
      | Stop_Asked \<Rightarrow> on_worker (\<lambda>w. w\<lparr>wk_stopped := True\<rparr>) s
      | _ \<Rightarrow> s)"

subsection \<open>What every command keeps\<close>

text \<open>
  The contract between the command loop and the operations built on it: a property of the worker's state
  that every result code, every stop and every write to the port keeps is kept by every command,
  whatever the modem does.
\<close>

locale command_invariant =
  fixes env :: worker_env
    and Q :: "wstate \<Rightarrow> bool"
  assumes urc: "Q s \<Longrightarrow> Q (handle_urc env l s)"
    and stop: "Q s \<Longrightarrow> Q (on_worker (\<lambda>w. w\<lparr>wk_stopped := True\<rparr>) s)"
    and reprobe: "Q s \<Longrightarrow> Q (on_worker stop_for_reprobe s)"
    and sent: "Q s \<Longrightarrow> Q (on_worker (\<lambda>w. w\<lparr>wk_sent := wk_sent w @ [c]\<rparr>) s)"
    and rx: "Q s \<Longrightarrow> Q (s\<lparr>ws_rx := es\<rparr>)"
begin

lemma if_urc: "Q s \<Longrightarrow> Q (handle_if_urc env l s)"
  by (simp add: handle_if_urc_def urc)

lemma exec_loop_keeps: "exec_loop env cmd acc es s = (s', es', r) \<Longrightarrow> Q s \<Longrightarrow> Q s'"
proof (induction env\<equiv>env cmd acc es s rule: exec_loop.induct)
  case (6 cmd acc l es s)
  then show ?case by (auto simp: Let_def intro: if_urc split: if_splits)
qed (auto intro: stop reprobe)

lemma execute_keeps:
  assumes "Q s"
  shows "Q (fst (execute env cmd s))"
proof -
  obtain s2 es r where e: "exec_loop env cmd [] (ws_rx s) (on_worker (\<lambda>w. w\<lparr>wk_sent := wk_sent w @ [cmd]\<rparr>) s) = (s2, es, r)"
    by (rule prod_cases3)
  from exec_loop_keeps [OF e sent [OF assms]] show ?thesis
    unfolding execute_def Let_def e using assms by (simp add: reprobe rx split: list.split at_event.split)
qed

lemma execute_pair: "execute env cmd s = (s', r) \<Longrightarrow> Q s \<Longrightarrow> Q s'"
  using execute_keeps [of s cmd] by simp

lemma transaction_keeps: "(Q s \<Longrightarrow> Q (fst (run s))) \<Longrightarrow> Q s \<Longrightarrow> Q (fst (run_at_transaction run s))"
  by (simp add: run_at_transaction_def)

lemma execute_at_keeps: "Q s \<Longrightarrow> Q (fst (execute_at env cmd s))"
  by (simp add: execute_at_def transaction_keeps execute_keeps)

lemma execute_at_pair: "execute_at env cmd s = (s', r) \<Longrightarrow> Q s \<Longrightarrow> Q s'"
  using execute_at_keeps [of s cmd] by simp

lemma idle_keeps: "Q s \<Longrightarrow> Q (idle_event env e s)"
  by (cases e) (simp_all add: idle_event_def if_urc stop reprobe)

end

subsection \<open>What the handlers leave alone\<close>

lemma capture_all_frame:
  "wk_call (ws_worker (capture_all env text s)) = wk_call (ws_worker s)"
  "wk_notified (ws_worker (capture_all env text s)) = wk_notified (ws_worker s)"
  "wk_sent (ws_worker (capture_all env text s)) = wk_sent (ws_worker s)"
  "wk_modem (ws_worker (capture_all env text s)) = wk_modem (ws_worker s)"
  "wk_stopped (ws_worker (capture_all env text s)) = wk_stopped (ws_worker s)"
  "ws_posts (capture_all env text s) = ws_posts s"
  by (simp_all add: capture_all_def capture_phone_number_def capture_balance_def capture_plan_info_def Let_def
      case_prod_beta split: option.split)

lemma set_call_state_frame [simp]:
  "wk_sent (ws_worker (set_call_state env st rs u s)) = wk_sent (ws_worker s)"
  "wk_modem (ws_worker (set_call_state env st rs u s)) = wk_modem (ws_worker s)"
  "wk_stopped (ws_worker (set_call_state env st rs u s)) = wk_stopped (ws_worker s)"
  "ws_posts (set_call_state env st rs u s) = ws_posts s"
  "ws_db (set_call_state env st rs u s) = ws_db s"
  by (simp_all add: set_call_state_def Let_def)

lemma handle_call_frame:
  "wk_sent (ws_worker (handle_call_urc env l s)) = wk_sent (ws_worker s)"
  "wk_modem (ws_worker (handle_call_urc env l s)) = wk_modem (ws_worker s)"
  "wk_stopped (ws_worker (handle_call_urc env l s)) = wk_stopped (ws_worker s)"
  "ws_posts (handle_call_urc env l s) = ws_posts s"
  "ws_db (handle_call_urc env l s) = ws_db s"
  by (simp_all add: handle_call_urc_def apply_clcc_state_def Let_def case_prod_beta split: option.split)

lemma handle_creg_frame:
  "wk_call (ws_worker (handle_creg_urc env l s)) = wk_call (ws_worker s)"
  "wk_notified (ws_worker (handle_creg_urc env l s)) = wk_notified (ws_worker s)"
  "wk_sent (ws_worker (handle_creg_urc env l s)) = wk_sent (ws_worker s)"
  "modem_iccid (ws_worker (handle_creg_urc env l s)) = modem_iccid (ws_worker s)"
  "wk_stopped (ws_worker (handle_creg_urc env l s)) = wk_stopped (ws_worker s)"
  "ws_posts (handle_creg_urc env l s) = ws_posts s"
  "ws_db (handle_creg_urc env l s) = ws_db s"
  by (auto simp: handle_creg_urc_def Let_def update_modem_def modem_iccid_def split: sum.split option.split)

lemma db_write_sms:
  "(\<And>db db'. f db = Inr db' \<Longrightarrow> t_sms db' = t_sms db) \<Longrightarrow> t_sms (ws_db (fst (db_write f s))) = t_sms (ws_db s)"
  by (simp add: db_write_def split: sum.split)

lemma repository_sms:
  "set_phone_number f c p src n db = Inr r \<Longrightarrow> t_sms (fst r) = t_sms db"
  "update_balance f c v n db = Inr db' \<Longrightarrow> t_sms db' = t_sms db"
  "fill_balance f c v n db = Inr db' \<Longrightarrow> t_sms db' = t_sms db"
  "add_snapshot f c v n db = Inr db' \<Longrightarrow> t_sms db' = t_sms db"
  "update_plan_info f c info n db = Inr db' \<Longrightarrow> t_sms db' = t_sms db"
  "touch_registered f c n db = Inr db' \<Longrightarrow> t_sms db' = t_sms db"
  by (auto simp: set_phone_number_def update_balance_def fill_balance_def add_snapshot_def update_plan_info_def
      touch_registered_def update_modem_row_def and_then_Inr_iff db_call_Inr_iff split: option.splits if_splits list.splits)

lemma phone_write_sms:
  "and_then (set_phone_number f c p src n db) (\<lambda>(db', _). Inr db') = Inr db' \<Longrightarrow> t_sms db' = t_sms db"
  using repository_sms(1) by (fastforce simp: and_then_Inr_iff)

lemmas write_sms =
  db_write_sms [OF phone_write_sms] db_write_sms [OF repository_sms(2)] db_write_sms [OF repository_sms(3)]
  db_write_sms [OF repository_sms(4)] db_write_sms [OF repository_sms(5)] db_write_sms [OF repository_sms(6)]

lemma capture_phone_sms: "t_sms (ws_db (capture_phone_number env text s)) = t_sms (ws_db s)"
  by (simp add: capture_phone_number_def Let_def write_sms split: option.split)

lemma capture_balance_sms: "t_sms (ws_db (capture_balance env text s)) = t_sms (ws_db s)"
  by (simp add: capture_balance_def Let_def write_sms case_prod_beta split: option.split)

lemma capture_plan_sms: "t_sms (ws_db (capture_plan_info env text s)) = t_sms (ws_db s)"
  by (simp add: capture_plan_info_def Let_def write_sms split: option.split)

lemma capture_all_sms: "t_sms (ws_db (capture_all env text s)) = t_sms (ws_db s)"
  by (simp add: capture_all_def capture_phone_sms capture_balance_sms capture_plan_sms)

lemma modem_iccid_same: "wk_modem w' = wk_modem w \<Longrightarrow> modem_iccid w' = modem_iccid w"
  by (simp add: modem_iccid_def)

lemma modem_iccid_other [simp]:
  "modem_iccid (w\<lparr>wk_trigger := b\<rparr>) = modem_iccid w" "modem_iccid (w\<lparr>wk_stopped := b\<rparr>) = modem_iccid w"
  "modem_iccid (w\<lparr>wk_sent := cs\<rparr>) = modem_iccid w" "modem_iccid (w\<lparr>wk_lookup_tried := b\<rparr>) = modem_iccid w"
  "modem_iccid (w\<lparr>wk_searching_since := t\<rparr>) = modem_iccid w" "modem_iccid (w\<lparr>wk_lookup_until := t\<rparr>) = modem_iccid w"
  "modem_iccid (w\<lparr>wk_last_registered_write := t\<rparr>) = modem_iccid w" "modem_iccid (stop_for_reprobe w) = modem_iccid w"
  by (simp_all add: modem_iccid_def stop_for_reprobe_def)

lemma ws_db_rx [simp]: "ws_db (s\<lparr>ws_rx := es\<rparr>) = ws_db s"
  by (simp add: ws_db_def)

lemma handle_urc_frame:
  "wk_sent (ws_worker (handle_urc env l s)) = wk_sent (ws_worker s)"
  "modem_iccid (ws_worker (handle_urc env l s)) = modem_iccid (ws_worker s)"
  "wk_stopped (ws_worker (handle_urc env l s)) = wk_stopped (ws_worker s)"
  "ws_posts (handle_urc env l s) = ws_posts s"
  "t_sms (ws_db (handle_urc env l s)) = t_sms (ws_db s)"
  using modem_iccid_same [OF capture_all_frame(4)] modem_iccid_same [OF handle_call_frame(2)]
  by (simp_all add: handle_urc_def Let_def capture_all_frame capture_all_sms handle_call_frame handle_creg_frame)

text \<open>Commands leave the messages, the SIM and the requests alone, and a stop is final.\<close>

interpretation sms_frame: command_invariant env
  "\<lambda>s. t_sms (ws_db s) = rows \<and> modem_iccid (ws_worker s) = c \<and> ws_posts s = ps" for env rows c ps
  by unfold_locales (simp_all add: handle_urc_frame)

interpretation stop_final: command_invariant env "\<lambda>s. wk_stopped (ws_worker s)" for env
  by unfold_locales (auto simp: handle_urc_frame stop_for_reprobe_def)

lemma execute_frame:
  assumes "execute env cmd s = (s', r)"
  shows "t_sms (ws_db s') = t_sms (ws_db s)" "modem_iccid (ws_worker s') = modem_iccid (ws_worker s)" "ws_posts s' = ws_posts s"
  using sms_frame.execute_pair [OF assms, of "t_sms (ws_db s)" "modem_iccid (ws_worker s)" "ws_posts s"] by simp_all

end
