(* ===== verification/Worker_Calls.thy ===== *)
theory Worker_Calls
  imports Worker_Core
begin

text \<open>
  Calls of a modem: \<open>Dial\<close>, \<open>Answer\<close>, \<open>Hangup\<close> and \<open>Reboot\<close> of \<open>internal/worker/worker.go\<close>, and the
  invariant of the call state over every sequence of operations and events.
\<close>

subsection \<open>Operations\<close>

definition err_invalid_dial_number :: string where "err_invalid_dial_number = ''invalid dial number''"
definition err_call_in_progress :: string where "err_call_in_progress = ''call already in progress''"
definition err_calling_disabled :: string where "err_calling_disabled = ''calling disabled in this build''"
definition err_no_incoming_call :: string where "err_no_incoming_call = ''no incoming call to answer''"

definition dial_char :: "char \<Rightarrow> bool" where
  "dial_char c \<longleftrightarrow> is_digit c \<or> c \<in> set ''*#+''"

definition dial_number_pattern :: re where
  "dial_number_pattern = r_all_of dial_char"

text \<open>Voice over the audio device is switched on, the command runs, and off again when it fails.\<close>

definition with_uac_voice :: "worker_env \<Rightarrow> string \<Rightarrow> wstate \<Rightarrow> wstate \<times> unit result" where
  "with_uac_voice env cmd s =
     (case execute env ''AT+QPCMV=1,2'' s of
        (s1, Inl e) \<Rightarrow> (s1, Inl (''enable UAC voice failed: '' @ e))
      | (s1, Inr _) \<Rightarrow>
          (case execute env cmd s1 of
             (s2, Inl e) \<Rightarrow> (fst (execute env ''AT+QPCMV=0'' s2), Inl e)
           | (s2, Inr _) \<Rightarrow> (s2, Inr ())))"

definition dial_command :: "string \<Rightarrow> string" where
  "dial_command number = ''ATD'' @ number @ '';''"

definition dial :: "worker_env \<Rightarrow> string \<Rightarrow> wstate \<Rightarrow> wstate \<times> unit result" where
  "dial env number0 s =
     (let number = trim_space number0
      in if \<not> en_calling env then (s, Inl err_calling_disabled)
         else if number = [] \<or> \<not> re_search dial_number_pattern number then (s, Inl err_invalid_dial_number)
         else if cs_state (wk_call (ws_worker s)) \<noteq> call_idle then (s, Inl err_call_in_progress)
         else
           (case run_at_transaction (with_uac_voice env (dial_command number)) s of
              (s1, Inl e) \<Rightarrow> (set_call_state env call_idle ''dial_error'' (Some clear_call_details) s1, Inl e)
            | (s1, Inr _) \<Rightarrow>
                (set_call_state env call_in_call ''dial_ok''
                   (Some (\<lambda>c. c\<lparr>cs_stat := 0, cs_mode := 0, cs_voice := True, cs_ringing := False\<rparr>))
                   (set_call_state env call_dialing ''dial''
                     (Some (\<lambda>c. (clear_call_details c)\<lparr>cs_number := number, cs_direction := 0, cs_stat := 2,
                                  cs_mode := 0, cs_voice := True\<rparr>)) s1), Inr ())))"

definition answer :: "worker_env \<Rightarrow> wstate \<Rightarrow> wstate \<times> unit result" where
  "answer env s =
     (if \<not> en_calling env then (s, Inl err_calling_disabled)
      else if cs_state (wk_call (ws_worker s)) = call_idle \<or> \<not> cs_incoming (wk_call (ws_worker s))
      then (s, Inl err_no_incoming_call)
      else
        (case run_at_transaction (with_uac_voice env ''ATA'') s of
           (s1, Inl e) \<Rightarrow> (s1, Inl e)
         | (s1, Inr _) \<Rightarrow>
             (set_call_state env call_in_call ''answer_ok''
                (Some (\<lambda>c. c\<lparr>cs_stat := 0, cs_mode := 0, cs_incoming := True, cs_voice := True, cs_ringing := False\<rparr>)) s1,
              Inr ())))"

definition hangup_transaction :: "worker_env \<Rightarrow> wstate \<Rightarrow> wstate \<times> unit result" where
  "hangup_transaction env s =
     (case execute env ''ATH'' s of
        (s1, Inl e) \<Rightarrow> (s1, Inl e)
      | (s1, Inr _) \<Rightarrow> (fst (execute env ''AT+QPCMV=0'' s1), Inr ()))"

definition hangup :: "worker_env \<Rightarrow> wstate \<Rightarrow> wstate \<times> unit result" where
  "hangup env s =
     (let idle = set_call_state env call_idle ''hangup'' (Some clear_call_details)
      in if \<not> en_calling env then (s, Inl err_calling_disabled)
         else if cs_state (wk_call (ws_worker s)) = call_idle then
           (idle (fst (execute_at env ''AT+QPCMV=0'' s)), Inr ())
         else
           (case run_at_transaction (hangup_transaction env) s of
              (s1, Inl e) \<Rightarrow> (s1, Inl e)
            | (s1, Inr _) \<Rightarrow> (idle s1, Inr ())))"

definition reboot :: "worker_env \<Rightarrow> wstate \<Rightarrow> wstate \<times> unit result" where
  "reboot env s =
     (if \<not> en_calling env then (s, Inl err_calling_disabled)
      else
        (case execute_at env ''AT+CFUN=1,1''
                (on_worker (\<lambda>w. w\<lparr>wk_uac_ready := False\<rparr>) (set_call_state env call_idle ''reboot'' None s)) of
           (s1, Inr _) \<Rightarrow> (s1, Inr ())
         | (s1, Inl e) \<Rightarrow>
             (s1, if contains (to_lower e) ''timeout'' \<or> contains (to_lower e) ''closed'' \<or> contains (to_lower e) ''port''
                  then Inr () else Inl e)))"

definition is_invalid_dial_number_error :: "string \<Rightarrow> bool" where
  "is_invalid_dial_number_error e \<longleftrightarrow> e = err_invalid_dial_number"

definition is_call_in_progress_error :: "string \<Rightarrow> bool" where
  "is_call_in_progress_error e \<longleftrightarrow> e = err_call_in_progress"

text \<open>\<open>CallState\<close> as the API shows it.\<close>

record call_state =
  ct_snapshot :: call_snapshot
  ct_uac_vid :: string
  ct_uac_pid :: string

definition call_state_of :: "worker \<Rightarrow> call_state" where
  "call_state_of w = \<lparr> ct_snapshot = wk_call w, ct_uac_vid = fst (wk_uac_id w), ct_uac_pid = snd (wk_uac_id w) \<rparr>"

subsection \<open>Every operation reports what it changes\<close>

text \<open>
  What the listeners were told last is the present call state, and the state is one of three; a phone
  that rings is an incoming voice call that is being set up.
\<close>

definition call_wf :: "call_snapshot \<Rightarrow> bool" where
  "call_wf c \<longleftrightarrow>
     (cs_state c = call_idle \<or> cs_state c = call_dialing \<or> cs_state c = call_in_call) \<and>
     (cs_ringing c \<longrightarrow> cs_state c = call_dialing \<and> cs_incoming c) \<and> (cs_incoming c \<longrightarrow> cs_voice c)"

definition told :: "gtime \<Rightarrow> worker \<Rightarrow> bool" where
  "told start w \<longleftrightarrow> last (init_call start # wk_notified w) = wk_call w"

definition call_inv :: "gtime \<Rightarrow> wstate \<Rightarrow> bool" where
  "call_inv start s \<longleftrightarrow> call_wf (wk_call (ws_worker s)) \<and> told start (ws_worker s)"

named_theorems call_inv_intros "operations that keep the invariant of the call state"

lemma call_inv_other [call_inv_intros]:
  "call_inv start s \<Longrightarrow> wk_call (f (ws_worker s)) = wk_call (ws_worker s) \<Longrightarrow>
     wk_notified (f (ws_worker s)) = wk_notified (ws_worker s) \<Longrightarrow> call_inv start (on_worker f s)"
  by (simp add: call_inv_def told_def)

lemma call_inv_worker: "ws_worker s' = ws_worker s \<Longrightarrow> call_inv start s' = call_inv start s"
  by (simp add: call_inv_def)

lemma call_inv_tick [simp]: "call_inv start (ws_tick s) = call_inv start s"
  by (rule call_inv_worker) simp

lemma call_inv_rx [simp]: "call_inv start (s\<lparr>ws_rx := es\<rparr>) = call_inv start s"
  by (rule call_inv_worker) simp

lemma call_inv_db_write [simp]: "call_inv start (fst (db_write f s)) = call_inv start s"
  by (rule call_inv_worker) simp

lemma call_wf_updated [simp]: "call_wf (c\<lparr>cs_updated_at := t\<rparr>) = call_wf c"
  by (simp add: call_wf_def)

lemma last_Cons_snoc: "last (x # xs @ [y]) = y"
  by simp

lemma set_call_state_inv:
  assumes "call_inv start s" "call_wf (next_call state reason upd (wk_call (ws_worker s)))"
  shows "call_inv start (set_call_state env state reason upd s)"
  using assms by (auto simp: set_call_state_def Let_def call_inv_def told_def last_Cons_snoc simp del: last.simps)

lemma set_call_state_cleared [call_inv_intros]:
  assumes "call_inv start s" "state = call_idle \<or> state = call_dialing"
  shows "call_inv start (set_call_state env state reason (Some clear_call_details) s)"
  using assms by (intro set_call_state_inv)
    (auto simp: next_call_def Let_def call_wf_def clear_call_details_def call_idle_def call_dialing_def)

lemma apply_clcc_inv [call_inv_intros]:
  assumes "call_inv start s"
  shows "call_inv start (apply_clcc_state env info source s)"
proof -
  have w: "call_wf (wk_call (ws_worker s))" using assms by (simp add: call_inv_def)
  show ?thesis
    unfolding apply_clcc_state_def Let_def case_prod_beta
    by (rule set_call_state_inv [OF assms])
      (use w in \<open>auto simp: next_call_def Let_def call_wf_def call_idle_def call_dialing_def call_in_call_def\<close>)
qed

lemma handle_call_urc_inv [call_inv_intros]: "call_inv start s \<Longrightarrow> call_inv start (handle_call_urc env line s)"
  unfolding handle_call_urc_def Let_def by (auto intro!: call_inv_intros split: option.split)

lemma capture_all_inv [call_inv_intros]: "call_inv start s \<Longrightarrow> call_inv start (capture_all env text s)"
  by (simp add: call_inv_def told_def capture_all_frame)

lemma handle_creg_inv [call_inv_intros]: "call_inv start s \<Longrightarrow> call_inv start (handle_creg_urc env line s)"
  by (simp add: call_inv_def told_def handle_creg_frame)

lemma handle_urc_inv [call_inv_intros]: "call_inv start s \<Longrightarrow> call_inv start (handle_urc env line s)"
  unfolding handle_urc_def Let_def by (auto intro!: call_inv_intros)

interpretation call_state: command_invariant env "call_inv start" for env start
  by unfold_locales (auto simp: stop_for_reprobe_def intro!: call_inv_intros)

lemmas execute_inv [call_inv_intros] = call_state.execute_keeps
lemmas execute_at_inv [call_inv_intros] = call_state.execute_at_keeps
lemmas execute_inv_pair = call_state.execute_pair
lemmas transaction_inv = call_state.transaction_keeps
lemmas idle_event_inv = call_state.idle_keeps

lemma with_uac_voice_inv: "call_inv start s \<Longrightarrow> call_inv start (fst (with_uac_voice env cmd s))"
  unfolding with_uac_voice_def
  by (auto split: prod.split sum.split dest: execute_inv_pair intro: execute_inv)

lemma dial_inv:
  assumes "call_inv start s"
  shows "call_inv start (fst (dial env number s))"
proof -
  let ?d = "\<lambda>c. (clear_call_details c)\<lparr>cs_number := trim_space number, cs_direction := 0, cs_stat := 2, cs_mode := 0, cs_voice := True\<rparr>"
  let ?a = "\<lambda>c. c\<lparr>cs_stat := 0, cs_mode := 0, cs_voice := True, cs_ringing := False\<rparr>"
  obtain s1 r where t: "run_at_transaction (with_uac_voice env (dial_command (trim_space number))) s = (s1, r)" by fastforce
  have 1: "call_inv start s1"
    using transaction_inv [where run = "with_uac_voice env (dial_command (trim_space number))", OF with_uac_voice_inv assms] t by simp
  have 2: "call_inv start (set_call_state env call_dialing ''dial'' (Some ?d) s1)"
    by (rule set_call_state_inv [OF 1])
      (simp add: next_call_def Let_def call_wf_def clear_call_details_def call_dialing_def)
  have 3: "call_inv start (set_call_state env call_in_call ''dial_ok'' (Some ?a) s2)" if "call_inv start s2" for s2
    by (rule set_call_state_inv [OF that])
      (use that in \<open>simp add: next_call_def Let_def call_wf_def call_inv_def call_in_call_def\<close>)
  have 4: "call_inv start (set_call_state env call_idle ''dial_error'' (Some clear_call_details) s1)"
    by (rule set_call_state_cleared [OF 1]) simp
  show ?thesis
    using assms 3 [OF 2] 4 by (simp add: dial_def Let_def t split: sum.split)
qed

lemma answer_inv:
  assumes "call_inv start s"
  shows "call_inv start (fst (answer env s))"
proof -
  let ?a = "\<lambda>c. c\<lparr>cs_stat := 0, cs_mode := 0, cs_incoming := True, cs_voice := True, cs_ringing := False\<rparr>"
  obtain s1 r where t: "run_at_transaction (with_uac_voice env ''ATA'') s = (s1, r)" by fastforce
  have 1: "call_inv start s1"
    using transaction_inv [where run = "with_uac_voice env ''ATA''", OF with_uac_voice_inv assms] t by simp
  have 2: "call_inv start (set_call_state env call_in_call ''answer_ok'' (Some ?a) s1)"
    by (rule set_call_state_inv [OF 1]) (simp add: next_call_def Let_def call_wf_def call_in_call_def)
  show ?thesis
    using assms 1 2 by (simp add: answer_def t split: sum.split)
qed

lemma hangup_inv:
  assumes "call_inv start s"
  shows "call_inv start (fst (hangup env s))"
proof -
  have h: "call_inv start (fst (hangup_transaction env s))" if "call_inv start s" for s
    unfolding hangup_transaction_def using that
    by (auto split: prod.split sum.split dest: execute_inv_pair intro: execute_inv)
  obtain s1 r where t: "run_at_transaction (hangup_transaction env) s = (s1, r)" by fastforce
  have 1: "call_inv start s1"
    using transaction_inv [where run = "hangup_transaction env", OF h assms] t by simp
  have 2: "call_inv start s2 \<Longrightarrow> call_inv start (set_call_state env call_idle ''hangup'' (Some clear_call_details) s2)" for s2
    by (rule set_call_state_cleared) simp_all
  show ?thesis
    using assms 1 2 by (simp add: hangup_def Let_def t execute_at_inv split: sum.split)
qed

subsection \<open>What Dial does\<close>

lemma dial_number_iff: "re_search dial_number_pattern n \<longleftrightarrow> n \<noteq> [] \<and> list_all dial_char n"
  by (simp add: dial_number_pattern_def re_search_all_of)

lemma exec_loop_sent: "exec_loop env cmd acc es s = (s', es', r) \<Longrightarrow> wk_sent (ws_worker s') = wk_sent (ws_worker s)"
proof (induction env cmd acc es s rule: exec_loop.induct)
  case (6 env cmd acc l es s)
  have "wk_sent (ws_worker (handle_if_urc env l s)) = wk_sent (ws_worker s)"
    by (simp add: handle_if_urc_def handle_urc_frame)
  with 6 show ?case by (auto simp: Let_def split: if_splits)
qed (auto simp: stop_for_reprobe_def)

lemma execute_cases:
  assumes "execute env cmd s = (s', r)"
  shows "(\<exists>e es. ws_rx s = Write_Failed e # es \<and> s' = on_worker stop_for_reprobe (s\<lparr>ws_rx := es\<rparr>) \<and> r = Inl e) \<or>
    (\<exists>s2 es. exec_loop env cmd [] (ws_rx s) (on_worker (\<lambda>w. w\<lparr>wk_sent := wk_sent w @ [cmd]\<rparr>) s) = (s2, es, r) \<and>
       s' = s2\<lparr>ws_rx := es\<rparr>)"
proof -
  obtain s2 es q where e: "exec_loop env cmd [] (ws_rx s) (on_worker (\<lambda>w. w\<lparr>wk_sent := wk_sent w @ [cmd]\<rparr>) s) = (s2, es, q)"
    by (rule prod_cases3)
  from assms show ?thesis
    unfolding execute_def Let_def e by (simp split: list.splits at_event.splits)
qed

lemma execute_sent: "execute env cmd s = (s', Inr r) \<Longrightarrow> wk_sent (ws_worker s') = wk_sent (ws_worker s) @ [cmd]"
  by (drule execute_cases) (auto dest: exec_loop_sent)

lemma with_uac_voice_sent:
  "with_uac_voice env cmd s = (s', Inr r) \<Longrightarrow> wk_sent (ws_worker s') = wk_sent (ws_worker s) @ [''AT+QPCMV=1,2'', cmd]"
  by (auto simp: with_uac_voice_def split: prod.splits sum.splits dest!: execute_sent)

text \<open>The state is the one that was set, unless the update writes it.\<close>

lemma set_call_state_state:
  assumes "state \<noteq> []" "\<And>c. cs_state (f c) = cs_state c"
  shows "cs_state (wk_call (ws_worker (set_call_state env state reason (Some f) s))) = state"
proof -
  have "cs_state (next_call state reason (Some f) (wk_call (ws_worker s))) = state"
    using assms by (simp add: next_call_def Let_def)
  then show ?thesis by (auto simp: set_call_state_def Let_def)
qed

lemma set_call_idle: "cs_state (wk_call (ws_worker (set_call_state env call_idle rs (Some clear_call_details) s))) = call_idle"
  by (rule set_call_state_state) (simp_all add: call_idle_def clear_call_details_def)

lemma set_dial_ok:
  "cs_state (wk_call (ws_worker (set_call_state env call_in_call rs
     (Some (\<lambda>c. c\<lparr>cs_stat := 0, cs_mode := 0, cs_voice := True, cs_ringing := False\<rparr>)) s))) = call_in_call"
  by (rule set_call_state_state) (simp_all add: call_in_call_def)

lemma dial_result_cases:
  assumes "dial env number s = (s', r)"
  shows "case r of
      Inr _ \<Rightarrow> cs_state (wk_call (ws_worker s)) = call_idle \<and> \<not> wk_stopped (ws_worker s) \<and>
        list_all dial_char (trim_space number) \<and>
        wk_sent (ws_worker s') = wk_sent (ws_worker s) @ [''AT+QPCMV=1,2'', dial_command (trim_space number)] \<and>
        cs_state (wk_call (ws_worker s')) = call_in_call
    | Inl e \<Rightarrow> (e \<in> {err_calling_disabled, err_invalid_dial_number, err_call_in_progress} \<and> s' = s) \<or>
        cs_state (wk_call (ws_worker s')) = call_idle"
proof -
  obtain s1 q where t: "run_at_transaction (with_uac_voice env (dial_command (trim_space number))) s = (s1, q)" by fastforce
  show ?thesis
  proof (cases "\<not> en_calling env \<or> trim_space number = [] \<or> \<not> re_search dial_number_pattern (trim_space number) \<or>
      cs_state (wk_call (ws_worker s)) \<noteq> call_idle")
    case True
    with assms show ?thesis by (auto simp: dial_def Let_def split: if_splits)
  next
    case False
    show ?thesis
    proof (cases q)
      case (Inl e)
      with False assms t show ?thesis by (auto simp: dial_def Let_def set_call_idle)
    next
      case (Inr u)
      with t have "\<not> wk_stopped (ws_worker s)" "with_uac_voice env (dial_command (trim_space number)) s = (s1, Inr u)"
        by (auto simp: run_at_transaction_def split: if_splits)
      with False assms t Inr show ?thesis
        by (auto simp: dial_def Let_def set_dial_ok dial_number_iff dest!: with_uac_voice_sent)
    qed
  qed
qed

text \<open>
  A successful \<open>Dial\<close> started from an idle modem that was not stopped, dialled digits, \<open>*\<close>, \<open>#\<close> and
  \<open>+\<close> only, sent exactly the two commands of an outgoing voice call, and leaves the modem in the call; a
  refused one (bad number, call in progress) sends nothing and changes nothing; and after any other failure
  the modem is idle again.
\<close>

theorem dial_result:
  "case dial env number s of
     (s', Inr _) \<Rightarrow> cs_state (wk_call (ws_worker s)) = call_idle \<and> \<not> wk_stopped (ws_worker s) \<and>
       list_all dial_char (trim_space number) \<and>
       wk_sent (ws_worker s') = wk_sent (ws_worker s) @ [''AT+QPCMV=1,2'', dial_command (trim_space number)] \<and>
       cs_state (wk_call (ws_worker s')) = call_in_call
   | (s', Inl e) \<Rightarrow> (e \<in> {err_calling_disabled, err_invalid_dial_number, err_call_in_progress} \<and> s' = s) \<or>
       cs_state (wk_call (ws_worker s')) = call_idle"
proof -
  obtain s' r where d: "dial env number s = (s', r)" by fastforce
  from dial_result_cases [OF d] show ?thesis by (simp add: d split: sum.splits)
qed

end
