(* ===== verification/Worker_Sms.thy ===== *)
theory Worker_Sms
  imports Worker_Calls
begin

text \<open>
  Polling and messages of \<open>internal/worker\<close>: \<open>SetOperator\<close>, \<open>ScanNetworks\<close>, \<open>probeUACEnabled\<close>,
  \<open>ensureAutoScanMode\<close>, USSD requests, \<open>checkSignal\<close>, \<open>checkSMS\<close>, \<open>poll\<close> and \<open>SendSMS\<close>. A step
  that runs inside a transaction calls \<open>execute\<close>, one that runs outside calls \<open>execute_at\<close>. The codec
  of the SMS library is \<open>en_unmarshal\<close> and \<open>en_encode\<close>.
\<close>

subsection \<open>Operators\<close>

definition quoted :: "string \<Rightarrow> string" where
  "quoted s = [CHR 0x22] @ s @ [CHR 0x22]"

definition set_operator_command :: "string \<Rightarrow> string" where
  "set_operator_command oper =
     (if oper \<noteq> [] \<and> oper \<noteq> ''AUTO'' then ''AT+COPS=1,0,'' @ quoted oper else ''AT+COPS=0'')"

definition set_operator :: "worker_env \<Rightarrow> string \<Rightarrow> wstate \<Rightarrow> wstate \<times> unit result" where
  "set_operator env oper s =
     (case execute_at env (set_operator_command oper) s of
        (s1, Inl e) \<Rightarrow> (s1, Inl e) | (s1, Inr _) \<Rightarrow> (s1, Inr ()))"

definition scan_group :: re where
  "scan_group = r_seq [r_lit ''('', R_Cap 1 (r_plus (r_not (CHR '')''))), r_lit '')'']"

text \<open>One group of the answer to \<open>AT+COPS=?\<close>, or none for the groups that only list ranges.\<close>

definition scanned_network :: "network_operator list \<Rightarrow> string \<Rightarrow> string option" where
  "scanned_network ops inner =
     (let parts = split_on (CHR '','') inner
      in if length parts < 4 then None
         else
           (let stat = trim_by (\<lambda>c. c = CHR '' '') (parts ! 0);
                long = trim_quotes (parts ! 1);
                numeric = trim_quotes (parts ! 3);
                named = (if long = [] \<and> 5 \<le> length numeric
                         then get_operator_name ops (take 3 numeric) (drop 3 numeric) else long);
                shown = (if named = [] then ''Unknown'' else named);
                stat_str = (if stat = ''1'' then ''Available'' else if stat = ''2'' then ''Current''
                            else if stat = ''3'' then ''Forbidden'' else ''Unknown'')
            in Some (shown @ '' ('' @ numeric @ '') ['' @ stat_str @ '']'')))"

definition scan_networks :: "worker_env \<Rightarrow> wstate \<Rightarrow> wstate \<times> string list result" where
  "scan_networks env s =
     (case execute_at env ''AT+COPS=?'' s of
        (s1, Inl e) \<Rightarrow> (s1, Inl e)
      | (s1, Inr resp) \<Rightarrow>
          (let found = List.map_filter (\<lambda>m. scanned_network (en_operators env) (group 1 m))
                         (re_submatches scan_group (parse_id resp ''+COPS:''))
           in (s1, Inr (if found = [] then [resp] else found))))"

subsection \<open>The audio device and the network mode\<close>

definition probe_uac_enabled :: "worker_env \<Rightarrow> wstate \<Rightarrow> wstate \<times> bool result" where
  "probe_uac_enabled env s =
     (case execute_at env (''AT+QCFG='' @ quoted ''usbcfg'') s of
        (s1, Inl e) \<Rightarrow> (s1, Inl e)
      | (s1, Inr resp) \<Rightarrow>
          (case parse_usbcfg resp of
             (None, r) \<Rightarrow> (s1, r)
           | (Some ids, r) \<Rightarrow> (on_worker (\<lambda>w. w\<lparr>wk_uac_id := ids\<rparr>) s1, r)))"

definition ensure_auto_scan_mode :: "worker_env \<Rightarrow> wstate \<Rightarrow> wstate" where
  "ensure_auto_scan_mode env s =
     (case execute_at env (''AT+QCFG='' @ quoted ''nwscanmode'') s of
        (s1, Inl _) \<Rightarrow> s1
      | (s1, Inr resp) \<Rightarrow>
          if \<not> contains resp (quoted ''nwscanmode'' @ '',3'') then s1
          else
            (case execute_at env (''AT+QCFG='' @ quoted ''nwscanmode'' @ '',0,1'') s1 of
               (s2, Inl _) \<Rightarrow> s2
             | (s2, Inr _) \<Rightarrow> fst (execute_at env ''AT+COPS=0'' s2)))"

subsection \<open>USSD requests\<close>

definition cusd_command :: "string \<Rightarrow> string" where
  "cusd_command code = ''AT+CUSD=1,'' @ quoted code @ '',15''"

definition lookup_fuel :: "worker_env \<Rightarrow> nat" where
  "lookup_fuel env = length (en_operators env) + 2"

definition err_balance_check_in_progress :: string where
  "err_balance_check_in_progress = ''balance check already requested''"

definition balance_code :: "worker_env \<Rightarrow> worker \<Rightarrow> string" where
  "balance_code env w =
     (let cfg = c_balance (en_config env);
          named = (case wk_modem w of None \<Rightarrow> []
                   | Some m \<Rightarrow> lookup_code_for (lookup_fuel env) (en_operators env) (m_operator m) (bc_ussd_codes cfg))
      in if named \<noteq> [] then named else if bc_ussd_code cfg \<noteq> [] then bc_ussd_code cfg else ''*101#'')"

definition request_balance :: "worker_env \<Rightarrow> wstate \<Rightarrow> wstate \<times> unit result" where
  "request_balance env s =
     (let now = now_of env s; s1 = ws_tick s
      in if (case wk_balance_requested_at (ws_worker s) of None \<Rightarrow> False
             | Some t \<Rightarrow> time_sub now t < 30 * second_ns)
         then (s1, Inl err_balance_check_in_progress)
         else
           (let again = now_of env s1;
                s2 = ws_tick (on_worker (\<lambda>w. w\<lparr>wk_balance_requested_at := Some again\<rparr>) s1)
            in case execute_at env (cusd_command (balance_code env (ws_worker s2))) s2 of
                 (s3, Inl e) \<Rightarrow> (on_worker (\<lambda>w. w\<lparr>wk_balance_requested_at := None\<rparr>) s3, Inl e)
               | (s3, Inr _) \<Rightarrow> (s3, Inr ())))"

definition phone_lookup_window :: duration where
  "phone_lookup_window = 90 * second_ns"

text \<open>
  \<open>RequestPhoneNumber\<close> and \<open>lookupPhoneIfMissing\<close>, over the way in which the command is run
  (\<open>exec\<close>): \<open>initModem\<close> and the API call them from outside the worker's loop, \<open>checkSignal\<close> from inside.
\<close>

definition request_phone_number ::
  "(string \<Rightarrow> wstate \<Rightarrow> wstate \<times> string result) \<Rightarrow> worker_env \<Rightarrow> wstate \<Rightarrow> wstate \<times> unit result" where
  "request_phone_number exec env s =
     (let oper = (case wk_modem (ws_worker s) of None \<Rightarrow> [] | Some m \<Rightarrow> m_operator m);
          code = lookup_code_for (lookup_fuel env) (en_operators env) oper (pc_codes (c_phone_lookup (en_config env)))
      in if code = [] then (s, Inl ''no phone lookup code'')
         else
           (let until = now_of env s + phone_lookup_window
            in case exec (cusd_command code) (ws_tick (on_worker (\<lambda>w. w\<lparr>wk_lookup_until := Some until\<rparr>) s)) of
                 (s1, Inl e) \<Rightarrow> (on_worker (\<lambda>w. w\<lparr>wk_lookup_until := None\<rparr>) s1, Inl e)
               | (s1, Inr _) \<Rightarrow> (s1, Inr ())))"

definition lookup_phone_if_missing ::
  "(string \<Rightarrow> wstate \<Rightarrow> wstate \<times> string result) \<Rightarrow> worker_env \<Rightarrow> string \<Rightarrow> wstate \<Rightarrow> wstate" where
  "lookup_phone_if_missing exec env iccid s =
     (if \<not> pc_enabled (c_phone_lookup (en_config env)) then s
      else
        (case find_by_iccid (faults_of env s) iccid (ws_db s) of
           Inl _ \<Rightarrow> s
         | Inr m \<Rightarrow> if m_phone_number m \<noteq> [] then s else fst (request_phone_number exec env s)))"

text \<open>
  \<open>ExecuteATSilent\<close> called from inside a transaction: the transaction it queues can only run when the
  running one has ended, which waits for it. The only way out of the two waits is that the worker is
  stopped, so the state in which the call returns is that of a stopped worker.
\<close>

definition execute_at_nested :: "string \<Rightarrow> wstate \<Rightarrow> wstate \<times> string result" where
  "execute_at_nested cmd s =
     (if requires_interactive_transaction cmd then
        (s, Inl ''interactive AT input must run in a single modem transaction'')
      else (on_worker (\<lambda>w. w\<lparr>wk_stopped := True\<rparr>) s, Inl err_stopped))"

subsection \<open>Signal, registration and operator\<close>

definition check_registration :: "worker_env \<Rightarrow> wstate \<Rightarrow> wstate \<times> string" where
  "check_registration env s =
     (case execute env ''AT+CREG?'' s of
        (s1, Inl _) \<Rightarrow> (s1, [])
      | (s1, Inr resp) \<Rightarrow>
          (case parse_creg_status resp of
             Inl _ \<Rightarrow> (s1, [])
           | Inr (code, text) \<Rightarrow> (on_worker (update_modem (\<lambda>m. m\<lparr>m_registration := text\<rparr>)) s1, code)))"

definition check_operator :: "worker_env \<Rightarrow> wstate \<Rightarrow> wstate" where
  "check_operator env s =
     (case execute env ''AT+COPS?'' s of
        (s1, Inl _) \<Rightarrow> s1
      | (s1, Inr resp) \<Rightarrow>
          (let parts = split_on (CHR 0x22) resp
           in if contains resp ''+COPS:'' \<and> 3 \<le> length parts
              then on_worker (update_modem (\<lambda>m. m\<lparr>m_operator := resolve_operator_name (en_operators env) (parts ! 1)\<rparr>)) s1
              else s1))"

text \<open>A modem that searches for a network for more than 90 seconds is told to select one again.\<close>

definition search_watch :: "worker_env \<Rightarrow> string \<Rightarrow> wstate \<Rightarrow> wstate" where
  "search_watch env code s =
     (if code \<noteq> ''2'' then on_worker (\<lambda>w. w\<lparr>wk_searching_since := None\<rparr>) s
      else
        (let now = now_of env s; s1 = ws_tick s
         in case wk_searching_since (ws_worker s) of
              None \<Rightarrow> on_worker (\<lambda>w. w\<lparr>wk_searching_since := Some now\<rparr>) s1
            | Some t \<Rightarrow>
                if time_sub now t \<le> 90 * second_ns then s1
                else
                  (let s2 = fst (execute env ''AT+COPS=0'' s1); again = now_of env s2
                   in ws_tick (on_worker (\<lambda>w. w\<lparr>wk_searching_since := Some again\<rparr>) s2))))"

text \<open>The time of registration is written at most every ten minutes.\<close>

definition write_registered :: "worker_env \<Rightarrow> wstate \<Rightarrow> wstate" where
  "write_registered env s =
     (let now = now_of env s; s1 = ws_tick s; iccid = modem_iccid (ws_worker s)
      in if (case wk_last_registered_write (ws_worker s) of None \<Rightarrow> False
             | Some t \<Rightarrow> time_sub now t < 10 * minute_ns) \<or> iccid = [] then s1
         else
           (let touched = now_of env s1; (s2, ok) = db_write (touch_registered (faults_of env s1) iccid touched) (ws_tick s1)
            in if ok then (let again = now_of env s2
                           in ws_tick (on_worker (\<lambda>w. w\<lparr>wk_last_registered_write := Some again\<rparr>) s2)) else s2))"

definition first_phone_lookup :: "worker_env \<Rightarrow> wstate \<Rightarrow> wstate" where
  "first_phone_lookup env s =
     (if wk_lookup_tried (ws_worker s) then s
      else
        (let s1 = on_worker (\<lambda>w. w\<lparr>wk_lookup_tried := True\<rparr>) s; iccid = modem_iccid (ws_worker s)
         in if iccid = [] then s1 else lookup_phone_if_missing execute_at_nested env iccid s1))"

definition by_registration :: "worker_env \<Rightarrow> string \<Rightarrow> wstate \<Rightarrow> wstate" where
  "by_registration env code s =
     (if code = ''1'' \<or> code = ''5'' then first_phone_lookup env (write_registered env (check_operator env s))
      else if code \<noteq> [] then on_worker (update_modem (\<lambda>m. m\<lparr>m_operator := []\<rparr>)) s
      else s)"

definition csq_rssi :: "string \<Rightarrow> int" where
  "csq_rssi resp =
     (case scan_int (hd (split_on (CHR '','') (trim_space (split_on (CHR '':'') resp ! 1)))) of
        None \<Rightarrow> 0 | Some n \<Rightarrow> n)"

definition read_signal :: "worker_env \<Rightarrow> wstate \<Rightarrow> wstate" where
  "read_signal env s =
     (case execute env ''AT+CSQ'' s of
        (s1, Inl _) \<Rightarrow> s1
      | (s1, Inr resp) \<Rightarrow>
          if \<not> contains resp ''+CSQ:'' then s1
          else
            (let now = now_of env s1
             in ws_tick (on_worker (update_modem (\<lambda>m.
                  m\<lparr>m_signal_strength := signal_percent (csq_rssi resp), m_last_seen := now\<rparr>)) s1)))"

definition check_signal :: "worker_env \<Rightarrow> wstate \<Rightarrow> wstate" where
  "check_signal env s =
     (case check_registration env s of
        (s1, code) \<Rightarrow> read_signal env (by_registration env code (search_watch env code s1)))"

subsection \<open>Received messages\<close>

definition strip_smsc :: "string \<Rightarrow> string" where
  "strip_smsc b =
     (case b of [] \<Rightarrow> []
      | c # r \<Rightarrow> if of_char c + 1 < length b then drop (of_char c + 1) b else b)"

definition received_sms :: "string \<Rightarrow> string \<Rightarrow> received_tpdu \<Rightarrow> string \<Rightarrow> gtime \<Rightarrow> gtime \<Rightarrow> sms" where
  "received_sms iccid raw t text created stamp = \<lparr> s_iccid = iccid, s_phone = td_sender t,
     s_content = (if text = [] \<and> td_user_data t \<noteq> [] then ''UD Hex: '' @ hex_encode_upper (td_user_data t) else text),
     s_timestamp = (case td_time t of None \<Rightarrow> stamp | Some u \<Rightarrow> u), s_type = ''received'', s_is_read = False,
     s_raw_pdu = raw, s_created_at = created \<rparr>"

definition post_sms :: "worker_env \<Rightarrow> sms \<Rightarrow> wstate \<Rightarrow> wstate" where
  "post_sms env m s = s\<lparr>ws_posts := ws_posts s @ dispatch (en_webhook env) (faults_of env s) m (ws_db s)\<rparr>"

definition store_received :: "worker_env \<Rightarrow> string \<Rightarrow> received_tpdu \<Rightarrow> string \<Rightarrow> wstate \<Rightarrow> wstate \<times> unit result" where
  "store_received env raw t text s =
     (let s1 = ws_tick s; s2 = ws_tick s1;
          m = received_sms (modem_iccid (ws_worker s)) raw t text (now_of env s) (now_of env s1)
      in case create_received_once (faults_of env s2) m (ws_db s2) of
           Inl e \<Rightarrow> (s2, Inl e)
         | Inr (db, created) \<Rightarrow>
             if \<not> created then (on_db (\<lambda>_. db) s2, Inr ())
             else (post_sms env m (capture_all env (s_content m) (on_db (\<lambda>_. db) s2)), Inr ()))"

definition process_pdu :: "worker_env \<Rightarrow> string \<Rightarrow> wstate \<Rightarrow> wstate \<times> unit result" where
  "process_pdu env raw s =
     (case hex_decode raw of None \<Rightarrow> (s, Inl ''invalid hex'')
      | Some b \<Rightarrow>
          (case en_unmarshal env (strip_smsc b) of Inl e \<Rightarrow> (s, Inl e)
           | Inr t \<Rightarrow>
               if \<not> td_deliver t then (s, Inl ''unsupported SMS PDU type; retained for inspection'')
               else
                 (case td_text t of Inl e \<Rightarrow> (s, Inl e)
                  | Inr text \<Rightarrow> store_received env raw t text s)))"

definition cmgd_command :: "int \<Rightarrow> string" where
  "cmgd_command i = ''AT+CMGD='' @ go_itoa i @ '',0''"

fun store_and_delete :: "worker_env \<Rightarrow> stored_sms list \<Rightarrow> wstate \<Rightarrow> wstate" where
  "store_and_delete env [] s = s"
| "store_and_delete env (e # es) s =
     (case process_pdu env (st_pdu e) s of
        (s1, Inl _) \<Rightarrow> store_and_delete env es s1
      | (s1, Inr _) \<Rightarrow> store_and_delete env es (fst (execute env (cmgd_command (st_index e)) s1)))"

definition check_sms :: "worker_env \<Rightarrow> wstate \<Rightarrow> wstate" where
  "check_sms env s =
     (case execute env ''AT+CMGL=4'' s of
        (s1, Inl _) \<Rightarrow> s1
      | (s1, Inr resp) \<Rightarrow>
          if trim_space resp = ''OK'' then s1
          else store_and_delete env (parse_stored_sms (is_urc (en_calling env)) resp) s1)"

definition poll :: "worker_env \<Rightarrow> wstate \<Rightarrow> wstate" where
  "poll env s =
     fst (run_at_transaction (\<lambda>s.
       if wk_modem (ws_worker s) = None \<or> cs_state (wk_call (ws_worker s)) \<noteq> call_idle then (s, Inr ())
       else (check_sms env (check_signal env s), Inr ())) s)"

subsection \<open>Sent messages\<close>

definition pdu_of :: "string \<Rightarrow> string" where
  "pdu_of tpdu = hex_encode_upper (CHR 0x00 # tpdu) @ [CHR 0x1A]"

definition cmgs_command :: "string \<Rightarrow> string" where
  "cmgs_command tpdu = ''AT+CMGS='' @ go_itoa (int (length tpdu))"

fun send_pdus :: "worker_env \<Rightarrow> string result list \<Rightarrow> wstate \<Rightarrow> wstate \<times> unit result" where
  "send_pdus env [] s = (s, Inr ())"
| "send_pdus env (Inl e # ts) s = (s, Inl (''failed to marshal PDU: '' @ e))"
| "send_pdus env (Inr tpdu # ts) s =
     (case execute env (cmgs_command tpdu) s of
        (s1, Inl e) \<Rightarrow> (s1, Inl (''AT+CMGS failed: '' @ e))
      | (s1, Inr resp) \<Rightarrow>
          if \<not> contains resp ''>'' then (s1, Inl (''AT+CMGS did not return prompt: '' @ resp))
          else
            (case execute env (pdu_of tpdu) s1 of
               (s2, Inl e) \<Rightarrow> (fst (execute env [CHR 0x1B] s2), Inl (''failed to send PDU: '' @ e))
             | (s2, Inr resp2) \<Rightarrow>
                 if \<not> contains resp2 ''+CMGS:'' then (s2, Inl (''SMS send failed, response: '' @ resp2))
                 else send_pdus env ts s2))"

definition send_transaction :: "worker_env \<Rightarrow> string result list \<Rightarrow> wstate \<Rightarrow> wstate \<times> unit result" where
  "send_transaction env tpdus s =
     (case execute env ''AT+CMGF=0'' (fst (execute env ''AT+CSMS=1'' s)) of
        (s1, Inl e) \<Rightarrow> (s1, Inl (''failed to set PDU mode: '' @ e))
      | (s1, Inr _) \<Rightarrow> send_pdus env tpdus s1)"

definition sent_sms :: "string \<Rightarrow> string \<Rightarrow> string \<Rightarrow> gtime \<Rightarrow> gtime \<Rightarrow> sms" where
  "sent_sms iccid phone message now created = \<lparr> s_iccid = iccid, s_phone = phone, s_content = message, s_timestamp = now,
     s_type = ''sent'', s_is_read = True, s_raw_pdu = [], s_created_at = created \<rparr>"

text \<open>The creation time of the row is the database's clock. Only a leading \<open>+\<close> makes a number international.\<close>

definition send_sms :: "worker_env \<Rightarrow> string \<Rightarrow> string \<Rightarrow> wstate \<Rightarrow> wstate \<times> unit result" where
  "send_sms env phone0 message s =
     (case wk_modem (ws_worker s) of None \<Rightarrow> (s, Inl ''modem not initialized'')
      | Some modem \<Rightarrow>
          (let phone = trim_space phone0
           in if phone = [] then (s, Inl ''phone number is required'')
              else if message = [] then (s, Inl ''message is required'')
              else
                (case en_encode env phone (has_prefix phone ''+'') message of
                   Inl e \<Rightarrow> (s, Inl (''failed to encode SMS: '' @ e))
                 | Inr tpdus \<Rightarrow>
                     (case run_at_transaction (send_transaction env tpdus) s of
                        (s1, Inl e) \<Rightarrow> (s1, Inl e)
                      | (s1, Inr _) \<Rightarrow>
                          (fst (db_write (create_sms (faults_of env s1)
                             (sent_sms (m_iccid modem) phone message (now_of env s1) (now_of env (ws_tick s1)))) (ws_tick s1)),
                           Inr ())))))"

end
