(* ===== verification/Worker_Messages.thy ===== *)
theory Worker_Messages
  imports Worker_Sms
begin

text \<open>
  What holds of the messages of a modem: a message is deleted from the SIM only after it was stored, a
  message that was sent is recorded once and only when every part was taken, and the wait that the first
  poll of a new SIM runs into.
\<close>

subsection \<open>Storing and deleting\<close>

lemma execute_sends:
  assumes "execute env cmd s = (s', r)"
  shows "wk_sent (ws_worker s') = wk_sent (ws_worker s) @ [cmd] \<or> wk_sent (ws_worker s') = wk_sent (ws_worker s)"
  using execute_cases [OF assms] by (auto dest: exec_loop_sent simp: stop_for_reprobe_def)

lemma post_sms_frame [simp]:
  "ws_worker (post_sms env m s) = ws_worker s" "ws_db (post_sms env m s) = ws_db s" "ws_rx (post_sms env m s) = ws_rx s"
  by (simp_all add: post_sms_def ws_db_def)

lemma received_sms_simps [simp]:
  "s_type (received_sms c raw t text cr st) = ''received''" "s_iccid (received_sms c raw t text cr st) = c"
  "s_raw_pdu (received_sms c raw t text cr st) = raw"
  by (simp_all add: received_sms_def)

text \<open>What \<open>processPDU\<close> does to the table, the commands and the SIM.\<close>

lemma store_received_result:
  assumes "store_received env raw t text s = (s', r)"
  shows "wk_sent (ws_worker s') = wk_sent (ws_worker s)" "modem_iccid (ws_worker s') = modem_iccid (ws_worker s)"
    and "\<exists>new. t_sms (ws_db s') = t_sms (ws_db s) @ new \<and> list_all (\<lambda>m. s_type m = ''received'') new"
    and "r = Inr u \<Longrightarrow> (modem_iccid (ws_worker s), raw) \<in> set (received_keys (t_sms (ws_db s')))"
    and "distinct (received_keys (t_sms (ws_db s))) \<Longrightarrow> distinct (received_keys (t_sms (ws_db s')))"
proof -
  let ?s2 = "ws_tick (ws_tick s)"
  let ?m = "received_sms (modem_iccid (ws_worker s)) raw t text (now_of env s) (now_of env (ws_tick s))"
  note d = assms [unfolded store_received_def Let_def]
  have all: "wk_sent (ws_worker s') = wk_sent (ws_worker s) \<and> modem_iccid (ws_worker s') = modem_iccid (ws_worker s) \<and>
    (\<exists>new. t_sms (ws_db s') = t_sms (ws_db s) @ new \<and> list_all (\<lambda>m. s_type m = ''received'') new) \<and>
    (r = Inr u \<longrightarrow> (modem_iccid (ws_worker s), raw) \<in> set (received_keys (t_sms (ws_db s')))) \<and>
    (distinct (received_keys (t_sms (ws_db s))) \<longrightarrow> distinct (received_keys (t_sms (ws_db s'))))"
  proof (cases "create_received_once (faults_of env ?s2) ?m (ws_db ?s2)")
    case (Inl e)
    with d show ?thesis by (auto intro: exI [of _ "[]"])
  next
    case (Inr x)
    obtain db created where x: "x = (db, created)" by fastforce
    note c = create_received_once_result [OF Inr [unfolded x]] received_distinct [OF Inr [unfolded x]]
    have db: "t_sms (ws_db s') = t_sms db" "wk_sent (ws_worker s') = wk_sent (ws_worker s)"
      "wk_modem (ws_worker s') = wk_modem (ws_worker s)"
      using d Inr x by (auto simp: capture_all_frame capture_all_sms split: if_splits)
    show ?thesis
      using c db modem_iccid_same [OF db(3)] by (cases created) (auto simp: received_key_def)
  qed
  then show "wk_sent (ws_worker s') = wk_sent (ws_worker s)" "modem_iccid (ws_worker s') = modem_iccid (ws_worker s)"
    "\<exists>new. t_sms (ws_db s') = t_sms (ws_db s) @ new \<and> list_all (\<lambda>m. s_type m = ''received'') new"
    "r = Inr u \<Longrightarrow> (modem_iccid (ws_worker s), raw) \<in> set (received_keys (t_sms (ws_db s')))"
    "distinct (received_keys (t_sms (ws_db s))) \<Longrightarrow> distinct (received_keys (t_sms (ws_db s')))"
    by blast+
qed

definition kept_result :: "wstate \<Rightarrow> wstate \<Rightarrow> bool" where
  "kept_result s s' \<longleftrightarrow>
     modem_iccid (ws_worker s') = modem_iccid (ws_worker s) \<and>
     (\<exists>new. t_sms (ws_db s') = t_sms (ws_db s) @ new \<and> list_all (\<lambda>m. s_type m = ''received'') new) \<and>
     (distinct (received_keys (t_sms (ws_db s))) \<longrightarrow> distinct (received_keys (t_sms (ws_db s'))))"

lemma kept_refl [simp]: "kept_result s s"
  by (simp add: kept_result_def)

lemma kept_trans: "kept_result s t \<Longrightarrow> kept_result t u \<Longrightarrow> kept_result s u"
  by (fastforce simp: kept_result_def)

lemma kept_keys: "kept_result s s' \<Longrightarrow> set (received_keys (t_sms (ws_db s))) \<subseteq> set (received_keys (t_sms (ws_db s')))"
  by (auto simp: kept_result_def)

lemma kept_execute: "execute env cmd s = (s', r) \<Longrightarrow> kept_result s s'"
  by (simp add: kept_result_def execute_frame)

lemma process_pdu_result:
  assumes "process_pdu env raw s = (s', r)"
  shows "kept_result s s'" "wk_sent (ws_worker s') = wk_sent (ws_worker s)"
    and "r = Inr u \<Longrightarrow> (modem_iccid (ws_worker s), raw) \<in> set (received_keys (t_sms (ws_db s')))"
proof -
  consider (refused) e where "s' = s" "r = Inl e" | (stored) t body where "store_received env raw t body s = (s', r)"
    using assms by (auto simp: process_pdu_def split: option.splits sum.splits if_splits)
  then have "kept_result s s' \<and> wk_sent (ws_worker s') = wk_sent (ws_worker s) \<and>
    (r = Inr u \<longrightarrow> (modem_iccid (ws_worker s), raw) \<in> set (received_keys (t_sms (ws_db s'))))"
  proof cases
    case stored
    show ?thesis using store_received_result [OF stored] by (simp add: kept_result_def)
  qed simp
  then show "kept_result s s'" "wk_sent (ws_worker s') = wk_sent (ws_worker s)"
    "r = Inr u \<Longrightarrow> (modem_iccid (ws_worker s), raw) \<in> set (received_keys (t_sms (ws_db s')))"
    by blast+
qed

text \<open>The deletions that are covered: the message under that index is in the table.\<close>

definition covered_deletions :: "stored_sms list \<Rightarrow> wstate \<Rightarrow> string set" where
  "covered_deletions es s =
     {cmgd_command (st_index e) | e. e \<in> set es \<and> (modem_iccid (ws_worker s), st_pdu e) \<in> set (received_keys (t_sms (ws_db s)))}"

lemma covered_mono: "kept_result s s' \<Longrightarrow> covered_deletions es s \<subseteq> covered_deletions es s'"
  using kept_keys [of s s'] by (fastforce simp: covered_deletions_def kept_result_def)

lemma covered_Cons: "covered_deletions es s \<subseteq> covered_deletions (e # es) s"
  by (auto simp: covered_deletions_def)

lemma store_and_delete_result:
  "kept_result s (store_and_delete env es s) \<and>
   (\<exists>cmds. wk_sent (ws_worker (store_and_delete env es s)) = wk_sent (ws_worker s) @ cmds \<and>
      set cmds \<subseteq> covered_deletions es (store_and_delete env es s))"
proof (induction es arbitrary: s)
  case (Cons e es)
  obtain s1 r where p: "process_pdu env (st_pdu e) s = (s1, r)" by fastforce
  note pr = process_pdu_result [OF p]
  show ?case
  proof (cases r)
    case (Inl x)
    have sd: "store_and_delete env (e # es) s = store_and_delete env es s1" by (simp add: p Inl)
    from Cons.IH [of s1] pr(1,2) show ?thesis
      unfolding sd using covered_Cons [of es _ e] by (fastforce intro: kept_trans)
  next
    case (Inr u)
    obtain s2 q where x: "execute env (cmgd_command (st_index e)) s1 = (s2, q)" by fastforce
    have sd: "store_and_delete env (e # es) s = store_and_delete env es s2" (is "_ = ?z") by (simp add: p Inr x)
    from Cons.IH [of s2] obtain cmds where IH: "kept_result s2 ?z"
      "wk_sent (ws_worker ?z) = wk_sent (ws_worker s2) @ cmds" "set cmds \<subseteq> covered_deletions es ?z" by blast
    have k: "kept_result s1 ?z" by (rule kept_trans [OF kept_execute [OF x] IH(1)])
    have "(modem_iccid (ws_worker s1), st_pdu e) \<in> set (received_keys (t_sms (ws_db s1)))"
      using pr(3) [OF Inr] pr(1) by (simp add: kept_result_def)
    then have "cmgd_command (st_index e) \<in> covered_deletions (e # es) s1"
      by (auto simp: covered_deletions_def)
    then have c: "cmgd_command (st_index e) \<in> covered_deletions (e # es) ?z"
      using covered_mono [OF k] by blast
    from execute_sends [OF x] IH(2) pr(2) have "\<exists>pre. set pre \<subseteq> {cmgd_command (st_index e)} \<and>
      wk_sent (ws_worker ?z) = wk_sent (ws_worker s) @ pre @ cmds"
      by (auto intro: exI [of _ "[]"] exI [of _ "[cmgd_command (st_index e)]"])
    then obtain pre where "set (pre @ cmds) \<subseteq> covered_deletions (e # es) ?z"
      "wk_sent (ws_worker ?z) = wk_sent (ws_worker s) @ pre @ cmds"
      using c IH(3) covered_Cons [of es ?z e] by fastforce
    with kept_trans [OF pr(1) k] show ?thesis unfolding sd by blast
  qed
qed simp

text \<open>The messages that the modem lists in answer to the command of the check.\<close>

definition listed_messages :: "worker_env \<Rightarrow> wstate \<Rightarrow> stored_sms list" where
  "listed_messages env s =
     (case snd (execute env ''AT+CMGL=4'' s) of
        Inl _ \<Rightarrow> [] | Inr resp \<Rightarrow> parse_stored_sms (is_urc (en_calling env)) resp)"

text \<open>
  The commands that one check of the SIM's messages sends are the listing and deletions of listed
  messages whose PDU is in the table of received messages of this SIM by then; the table only grows, by
  received messages, and keeps holding every message once.
\<close>

theorem delete_only_stored:
  "\<exists>cmds. wk_sent (ws_worker (check_sms env s)) = wk_sent (ws_worker s) @ cmds \<and>
     set cmds \<subseteq> insert ''AT+CMGL=4'' (covered_deletions (listed_messages env s) (check_sms env s)) \<and>
     kept_result s (check_sms env s)"
proof -
  obtain s1 r where x: "execute env ''AT+CMGL=4'' s = (s1, r)" by fastforce
  note e = execute_sends [OF x] kept_execute [OF x]
  show ?thesis
  proof (cases "check_sms env s = s1")
    case True
    with e show ?thesis by (auto intro: exI [of _ "[]"] exI [of _ "[''AT+CMGL=4'']"])
  next
    case False
    then have z: "check_sms env s = store_and_delete env (listed_messages env s) s1"
      by (auto simp: check_sms_def listed_messages_def x split: sum.splits if_splits)
    from store_and_delete_result [of s1 env "listed_messages env s"] obtain cmds where
      c: "kept_result s1 (check_sms env s)" "wk_sent (ws_worker (check_sms env s)) = wk_sent (ws_worker s1) @ cmds"
      "set cmds \<subseteq> covered_deletions (listed_messages env s) (check_sms env s)"
      unfolding z [symmetric] by blast
    with e(1) have "\<exists>pre. set pre \<subseteq> {''AT+CMGL=4''} \<and> wk_sent (ws_worker (check_sms env s)) = wk_sent (ws_worker s) @ pre @ cmds"
      by (auto intro: exI [of _ "[]"] exI [of _ "[''AT+CMGL=4'']"])
    then obtain pre where "set (pre @ cmds) \<subseteq> insert ''AT+CMGL=4'' (covered_deletions (listed_messages env s) (check_sms env s))"
      "wk_sent (ws_worker (check_sms env s)) = wk_sent (ws_worker s) @ pre @ cmds"
      using c(3) by fastforce
    with kept_trans [OF e(2) c(1)] show ?thesis by blast
  qed
qed

subsection \<open>Sending\<close>

text \<open>The two commands of one part of a message.\<close>

definition part_commands :: "string \<Rightarrow> string list" where
  "part_commands tpdu = [cmgs_command tpdu, pdu_of tpdu]"

lemma execute_sms [simp]: "t_sms (ws_db (fst (execute env cmd s))) = t_sms (ws_db s)"
  by (metis execute_frame(1) prod.collapse)

lemma send_pdus_sent:
  "send_pdus env ts s = (s', Inr u) \<Longrightarrow> \<exists>pdus. ts = map Inr pdus \<and>
     wk_sent (ws_worker s') = wk_sent (ws_worker s) @ concat (map part_commands pdus)"
proof (induction ts arbitrary: s)
  case (Cons t ts)
  show ?case
  proof (cases t)
    case (Inr tpdu)
    with Cons.prems obtain s1 resp s2 resp2 where x: "execute env (cmgs_command tpdu) s = (s1, Inr resp)"
        "execute env (pdu_of tpdu) s1 = (s2, Inr resp2)" "send_pdus env ts s2 = (s', Inr u)"
      by (auto split: prod.splits sum.splits if_splits)
    from Cons.IH [OF x(3)] obtain pdus where
      "ts = map Inr pdus" "wk_sent (ws_worker s') = wk_sent (ws_worker s2) @ concat (map part_commands pdus)" by blast
    with execute_sent [OF x(1)] execute_sent [OF x(2)] Inr show ?thesis
      by (intro exI [of _ "tpdu # pdus"]) (simp add: part_commands_def [of tpdu])
  qed (use Cons.prems in simp)
qed auto

lemma send_pdus_sms: "t_sms (ws_db (fst (send_pdus env ts s))) = t_sms (ws_db s)"
proof (induction ts arbitrary: s)
  case (Cons t ts)
  then show ?case
    by (cases t) (auto split: prod.splits sum.splits simp: execute_frame dest: execute_frame(1))
qed simp

lemma send_transaction_sms: "t_sms (ws_db (fst (send_transaction env ts s))) = t_sms (ws_db s)"
  using send_pdus_sms by (auto simp: send_transaction_def execute_frame(1) split: prod.splits sum.splits)

lemma send_transaction_sent:
  assumes "send_transaction env ts s = (s', Inr u)"
  shows "\<exists>mode pdus. ts = map Inr pdus \<and> mode \<in> {[''AT+CSMS=1'', ''AT+CMGF=0''], [''AT+CMGF=0'']} \<and>
    wk_sent (ws_worker s') = wk_sent (ws_worker s) @ mode @ concat (map part_commands pdus)"
proof -
  obtain s1 q where x: "execute env ''AT+CSMS=1'' s = (s1, q)" by fastforce
  with assms obtain s2 r where y: "execute env ''AT+CMGF=0'' s1 = (s2, Inr r)" "send_pdus env ts s2 = (s', Inr u)"
    by (auto simp: send_transaction_def split: prod.splits sum.splits)
  from send_pdus_sent [OF y(2)] obtain pdus where "ts = map Inr pdus"
    "wk_sent (ws_worker s') = wk_sent (ws_worker s2) @ concat (map part_commands pdus)" by blast
  with execute_sends [OF x] execute_sent [OF y(1)] show ?thesis
    by (elim disjE) (rule exI [of _ "[''AT+CSMS=1'', ''AT+CMGF=0'']"] exI [of _ "[''AT+CMGF=0'']"], rule exI [of _ pdus], simp)+
qed

text \<open>The row that records a sent message, up to its two instants.\<close>

definition records_sent :: "wstate \<Rightarrow> string \<Rightarrow> string \<Rightarrow> sms \<Rightarrow> bool" where
  "records_sent s phone message m \<longleftrightarrow> m = sent_sms (modem_iccid (ws_worker s)) phone message (s_timestamp m) (s_created_at m)"


end
