(* ===== verification/Worker_Init.thy ===== *)
theory Worker_Init
  imports Worker_Sms
begin

text \<open>
  \<open>initModem\<close> of \<open>internal/worker/worker.go\<close>: what a worker does when it starts, from the probe of the
  port to the first observation of the SIM in its bay. \<open>claim\<close> is the answer of the manager's
  \<open>RegisterICCID\<close> for the port of the worker.
\<close>

subsection \<open>Parts\<close>

fun run_commands :: "worker_env \<Rightarrow> string list \<Rightarrow> wstate \<Rightarrow> wstate" where
  "run_commands env [] s = s"
| "run_commands env (c # cs) s = run_commands env cs (fst (execute_at env c s))"

definition init_uac :: "worker_env \<Rightarrow> wstate \<Rightarrow> wstate" where
  "init_uac env s =
     (if \<not> en_calling env then on_worker (\<lambda>w. w\<lparr>wk_uac_ready := False\<rparr>) s
      else
        (case probe_uac_enabled env s of
           (s1, Inl _) \<Rightarrow> on_worker (\<lambda>w. w\<lparr>wk_uac_ready := False\<rparr>) s1
         | (s1, Inr ok) \<Rightarrow> on_worker (\<lambda>w. w\<lparr>wk_uac_ready := ok\<rparr>) s1))"

definition read_imei :: "worker_env \<Rightarrow> wstate \<Rightarrow> wstate \<times> string" where
  "read_imei env s =
     (case execute_at env ''AT+CGSN'' s of (s1, Inl _) \<Rightarrow> (s1, []) | (s1, Inr resp) \<Rightarrow> (s1, parse_imei resp))"

text \<open>The ICCID with the error of the query, and for an empty ICCID the reason that \<open>AT+CPIN?\<close> gives.\<close>

definition read_iccid :: "worker_env \<Rightarrow> bool \<Rightarrow> wstate \<Rightarrow> wstate \<times> string \<times> string option" where
  "read_iccid env quectel s =
     (case execute_at env (if quectel then ''AT+QCCID'' else ''AT+ICCID'') s of
        (s1, Inl e) \<Rightarrow> (s1, [], Some e)
      | (s1, Inr resp) \<Rightarrow> (s1, strip_trailing_f (parse_id resp (if quectel then ''+QCCID:'' else ''+ICCID:'')), None))"

definition why_no_sim :: "worker_env \<Rightarrow> string option \<Rightarrow> wstate \<Rightarrow> wstate \<times> string option" where
  "why_no_sim env err s =
     (if err = None \<or> is_sim_not_inserted err then (s, err)
      else
        (case execute_at env ''AT+CPIN?'' s of
           (s1, Inr _) \<Rightarrow> (s1, err)
         | (s1, Inl e) \<Rightarrow> (s1, if is_sim_not_inserted (Some e) then Some e else err)))"

definition init_signal :: "worker_env \<Rightarrow> wstate \<Rightarrow> wstate \<times> int" where
  "init_signal env s =
     (case execute_at env ''AT+CSQ'' s of (s1, Inl _) \<Rightarrow> (s1, 0)
      | (s1, Inr resp) \<Rightarrow>
          (s1, case scan_int (hd (split_on (CHR '','') (parse_id resp ''+CSQ:''))) of
                 None \<Rightarrow> 0 | Some rssi \<Rightarrow> signal_percent rssi))"

definition init_registration :: "worker_env \<Rightarrow> wstate \<Rightarrow> wstate \<times> string \<times> string" where
  "init_registration env s =
     (case execute_at env ''AT+CREG?'' s of (s1, Inl _) \<Rightarrow> (s1, [], [])
      | (s1, Inr resp) \<Rightarrow>
          (s1, case parse_creg_status resp of Inl _ \<Rightarrow> ([], ''Unknown'') | Inr (code, text) \<Rightarrow> (code, text)))"

definition on_network :: "string \<Rightarrow> bool" where
  "on_network code \<longleftrightarrow> code = ''1'' \<or> code = ''5''"

definition init_operator :: "worker_env \<Rightarrow> string \<Rightarrow> wstate \<Rightarrow> wstate \<times> string" where
  "init_operator env code s =
     (if \<not> on_network code then (s, [])
      else
        (case execute_at env ''AT+COPS?'' s of (s1, Inl _) \<Rightarrow> (s1, [])
         | (s1, Inr resp) \<Rightarrow>
             (s1, if contains resp [CHR 0x22]
                  then resolve_operator_name (en_operators env) (split_on (CHR 0x22) resp ! 1) else [])))"

text \<open>A new SIM is kept alive by default; the row of a known one only takes over the IMEI.\<close>

definition new_sim_row :: "string \<Rightarrow> string \<Rightarrow> string \<Rightarrow> modem" where
  "new_sim_row iccid imei port = (new_modem iccid)\<lparr>m_imei := imei, m_port_name := port, m_keepalive_enabled := True\<rparr>"

definition runtime_row :: "string \<Rightarrow> string \<Rightarrow> string \<Rightarrow> int \<Rightarrow> string \<Rightarrow> string \<Rightarrow> gtime \<Rightarrow> modem" where
  "runtime_row iccid imei port signal operator reg now =
     (new_modem iccid)\<lparr>m_imei := imei, m_port_name := port, m_status := ''online'', m_signal_strength := signal,
        m_operator := operator, m_registration := reg, m_last_seen := now\<rparr>"

subsection \<open>Initialisation\<close>

datatype init_outcome =
    Not_A_Modem | Not_Identified | No_Sim bool | Duplicate_Sim | Not_Saved | Serving string

text \<open>The bay takes note of the SIM; a change asks for the balance and, without a number, for the number.\<close>

definition observe_sim :: "worker_env \<Rightarrow> string \<Rightarrow> string \<Rightarrow> string \<Rightarrow> string \<Rightarrow> wstate \<Rightarrow> wstate" where
  "observe_sim env imei iccid operator code s =
     (let now = now_of env s; f = faults_of env s; s0 = ws_tick s;
          (s1, events) = (case observe f \<lparr> o_imei = imei, o_iccid = iccid, o_operator = operator,
                             o_port_name = wk_port (ws_worker s), o_at = now \<rparr> (ws_db s0) of
              Inl _ \<Rightarrow> (s0, []) | Inr (db, evs) \<Rightarrow> (on_db (\<lambda>_. db) s0, evs));
          s2 = (if events \<noteq> [] \<and> on_network code then fst (request_balance env s1) else s1)
      in if on_network code then lookup_phone_if_missing (execute_at env) env iccid s2 else s2)"

definition serve_sim ::
  "worker_env \<Rightarrow> string \<Rightarrow> string \<Rightarrow> wstate \<Rightarrow> wstate \<times> init_outcome" where
  "serve_sim env imei iccid s =
     (let (s1, signal) = init_signal env s;
          (s2, code, text) = init_registration env s1;
          (s3, operator) = init_operator env code s2;
          port = wk_port (ws_worker s3); now = now_of env s3; f = faults_of env s3;
          (s4, ok) = db_write (upsert_modem f (new_sim_row iccid imei port)) (ws_tick s3)
      in if \<not> ok then (s4, Not_Saved)
         else
           (let s5 = on_worker (\<lambda>w. w\<lparr>wk_modem := Some (runtime_row iccid imei port signal operator text now)\<rparr>) s4;
                s6 = fst (db_write (set_first_seen_if_null (faults_of env s5) iccid (now_of env s5)) (ws_tick s5));
                s7 = (if on_network code
                      then fst (db_write (touch_registered (faults_of env s6) iccid (now_of env s6)) (ws_tick s6)) else s6)
            in (observe_sim env imei iccid operator code s7, Serving iccid)))"

definition no_sim :: "worker_env \<Rightarrow> string \<Rightarrow> string option \<Rightarrow> wstate \<Rightarrow> wstate \<times> init_outcome" where
  "no_sim env imei err s =
     (let s1 = (if imei \<noteq> [] \<and> is_sim_not_inserted err
                then fst (db_write (mark_empty (faults_of env s) imei (wk_port (ws_worker s)) (now_of env s)) (ws_tick s))
                else s)
      in (s1, No_Sim (imei \<noteq> [])))"

definition init_modem :: "worker_env \<Rightarrow> (string \<Rightarrow> bool) \<Rightarrow> wstate \<Rightarrow> wstate \<times> init_outcome" where
  "init_modem env claim s =
     (case execute_at env ''AT'' s of
        (s1, Inl _) \<Rightarrow> (on_worker (\<lambda>w. w\<lparr>wk_stopped := True\<rparr>) s1, Not_A_Modem)
      | (s1, Inr _) \<Rightarrow>
          (case execute_at env ''ATI'' (init_uac env (run_commands env (rc_init_at_commands (c_serial (en_config env))) s1)) of
             (s2, Inl _) \<Rightarrow> (s2, Not_Identified)
           | (s2, Inr ident) \<Rightarrow>
               (let quectel = contains ident ''Quectel'';
                    (s3, imei) = read_imei env s2;
                    s4 = (if quectel then ensure_auto_scan_mode env s3 else s3);
                    (s5, iccid, err) = read_iccid env quectel s4
                in if iccid = [] then (case why_no_sim env err s5 of (s6, err6) \<Rightarrow> no_sim env imei err6 s6)
                   else if \<not> claim iccid then (on_worker (\<lambda>w. w\<lparr>wk_stopped := True\<rparr>) s5, Duplicate_Sim)
                   else serve_sim env imei iccid s5)))"

text \<open>\<open>scheduleReprobe\<close>: after the delay the worker stops so that the manager probes the port again.\<close>

definition reprobe_due :: "wstate \<Rightarrow> wstate" where
  "reprobe_due s = (if wk_stopped (ws_worker s) then s else on_worker stop_for_reprobe s)"

end
