(* ===== verification/Worker_Invariants.thy ===== *)
theory Worker_Invariants
  imports Worker_Messages Worker_Init
begin

text \<open>
  Properties over every sequence of operations of one worker: the call state and what the listeners were
  told of it, what a worker that serves a SIM has done before, and the wait into which the first poll of a
  new SIM runs.
\<close>

subsection \<open>The operations of a worker\<close>

text \<open>
  One step: the modem delivers events, a line arrives while no command runs, an operation of the API, the
  poll of the logic loop, the initialisation, a stop. \<open>Reboot\<close> is left out: it resets the state without
  the details of the call (lemma \<open>reboot_keeps_ringing\<close>).
\<close>

inductive worker_step :: "worker_env \<Rightarrow> wstate \<Rightarrow> wstate \<Rightarrow> bool" for env where
  events: "worker_step env s (s\<lparr>ws_rx := es\<rparr>)"
| idle: "worker_step env s (idle_event env e s)"
| command: "worker_step env s (fst (execute_at env cmd s))"
| dial: "worker_step env s (fst (dial env number s))"
| answer: "worker_step env s (fst (answer env s))"
| hangup: "worker_step env s (fst (hangup env s))"
| send: "worker_step env s (fst (send_sms env phone message s))"
| operator: "worker_step env s (fst (set_operator env oper s))"
| scan: "worker_step env s (fst (scan_networks env s))"
| balance: "worker_step env s (fst (request_balance env s))"
| phone: "worker_step env s (fst (request_phone_number (execute_at env) env s))"
| poll: "worker_step env s (poll env s)"
| init: "worker_step env s (fst (init_modem env claim s))"
| reprobe: "worker_step env s (reprobe_due s)"
| stop: "worker_step env s (on_worker (\<lambda>w. w\<lparr>wk_stopped := True\<rparr>) s)"

inductive worker_run :: "worker_env \<Rightarrow> wstate \<Rightarrow> wstate \<Rightarrow> bool" for env s where
  none: "worker_run env s s"
| more: "worker_run env s t \<Longrightarrow> worker_step env t u \<Longrightarrow> worker_run env s u"

inductive_cases worker_runE: "worker_run env s t"

subsection \<open>The call state\<close>

lemma call_inv_on_db [simp]: "call_inv start (on_db f s) = call_inv start s"
  by (rule call_inv_worker) simp

lemma call_inv_post [simp]: "call_inv start (post_sms env m s) = call_inv start s"
  by (rule call_inv_worker) simp

lemma call_inv_field [simp]:
  "call_inv start (on_worker (\<lambda>w. w\<lparr>wk_searching_since := t\<rparr>) s) = call_inv start s"
  "call_inv start (on_worker (\<lambda>w. w\<lparr>wk_last_registered_write := t\<rparr>) s) = call_inv start s"
  "call_inv start (on_worker (\<lambda>w. w\<lparr>wk_lookup_tried := b\<rparr>) s) = call_inv start s"
  "call_inv start (on_worker (\<lambda>w. w\<lparr>wk_lookup_until := t\<rparr>) s) = call_inv start s"
  "call_inv start (on_worker (\<lambda>w. w\<lparr>wk_balance_requested_at := t\<rparr>) s) = call_inv start s"
  "call_inv start (on_worker (\<lambda>w. w\<lparr>wk_uac_ready := b\<rparr>) s) = call_inv start s"
  "call_inv start (on_worker (\<lambda>w. w\<lparr>wk_uac_id := i\<rparr>) s) = call_inv start s"
  "call_inv start (on_worker (\<lambda>w. w\<lparr>wk_stopped := b\<rparr>) s) = call_inv start s"
  "call_inv start (on_worker (\<lambda>w. w\<lparr>wk_modem := m\<rparr>) s) = call_inv start s"
  "call_inv start (on_worker (update_modem f) s) = call_inv start s"
  "call_inv start (on_worker stop_for_reprobe s) = call_inv start s"
  by (simp_all add: call_inv_def told_def update_modem_def stop_for_reprobe_def)

lemma call_inv_execute: "execute env cmd s = (s', r) \<Longrightarrow> call_inv start s \<Longrightarrow> call_inv start s'"
  by (rule execute_inv_pair)

lemma call_inv_execute_at: "execute_at env cmd s = (s', r) \<Longrightarrow> call_inv start s \<Longrightarrow> call_inv start s'"
  by (rule call_state.execute_at_pair)

lemma check_signal_inv:
  assumes "call_inv start s"
  shows "call_inv start (check_signal env s)"
proof -
  have reg: "call_inv start s \<Longrightarrow> call_inv start (fst (check_registration env s))" for s
    by (auto simp: check_registration_def split: prod.split sum.split dest: call_inv_execute)
  have op: "call_inv start s \<Longrightarrow> call_inv start (check_operator env s)" for s
    by (auto simp: check_operator_def Let_def split: prod.split sum.split dest: call_inv_execute)
  have watch: "call_inv start s \<Longrightarrow> call_inv start (search_watch env c s)" for c s
    by (simp add: search_watch_def Let_def execute_inv split: option.split)
  have wr: "call_inv start s \<Longrightarrow> call_inv start (write_registered env s)" for s
    by (simp add: write_registered_def Let_def case_prod_beta)
  have fst_lookup: "call_inv start s \<Longrightarrow> call_inv start (first_phone_lookup env s)" for s
    by (auto simp: first_phone_lookup_def lookup_phone_if_missing_def request_phone_number_def execute_at_nested_def Let_def
        split: sum.split)
  have by_reg: "call_inv start s \<Longrightarrow> call_inv start (by_registration env c s)" for c s
    by (simp add: by_registration_def op wr fst_lookup)
  have sig: "call_inv start s \<Longrightarrow> call_inv start (read_signal env s)" for s
    by (auto simp: read_signal_def Let_def split: prod.split sum.split dest: call_inv_execute)
  show ?thesis
    using reg [OF assms] by (simp add: check_signal_def case_prod_beta sig by_reg watch)
qed

lemma check_sms_inv:
  assumes "call_inv start s"
  shows "call_inv start (check_sms env s)"
proof -
  have st: "call_inv start s \<Longrightarrow> call_inv start (fst (store_received env raw t body s))" for raw t body s
    by (auto simp: store_received_def Let_def split: sum.split intro: capture_all_inv)
  have pp: "call_inv start s \<Longrightarrow> call_inv start (fst (process_pdu env raw s))" for raw s
    by (auto simp: process_pdu_def split: option.split sum.split intro: st)
  have sd: "call_inv start s \<Longrightarrow> call_inv start (store_and_delete env es s)" for es s
  proof (induction es arbitrary: s)
    case (Cons e es)
    have "call_inv start (fst (process_pdu env (st_pdu e) s))" by (rule pp [OF Cons.prems])
    then show ?case by (cases "process_pdu env (st_pdu e) s") (auto split: sum.split intro!: Cons.IH execute_inv)
  qed simp
  show ?thesis
    using assms by (auto simp: check_sms_def split: prod.split sum.split dest: call_inv_execute intro: sd)
qed

lemma poll_inv: "call_inv start s \<Longrightarrow> call_inv start (poll env s)"
  unfolding poll_def by (rule transaction_inv) (auto intro: check_sms_inv check_signal_inv)

lemma send_sms_inv:
  assumes "call_inv start s"
  shows "call_inv start (fst (send_sms env phone message s))"
proof -
  have pdus: "call_inv start s \<Longrightarrow> call_inv start (fst (send_pdus env ts s))" for ts s
  proof (induction ts arbitrary: s)
    case (Cons t ts)
    then show ?case
      by (cases t) (auto split: prod.split sum.split dest: call_inv_execute intro: execute_inv)
  qed simp
  have tr: "call_inv start s \<Longrightarrow> call_inv start (fst (send_transaction env ts s))" for ts s
    by (auto simp: send_transaction_def split: prod.split sum.split
        dest: call_inv_execute [OF _ execute_inv] intro: pdus)
  have "call_inv start (fst (run_at_transaction (send_transaction env ts) s))" for ts
    by (rule transaction_inv [OF tr assms])
  then have "run_at_transaction (send_transaction env ts) s = (s1, r) \<Longrightarrow> call_inv start s1" for ts s1 r
    by (metis fst_conv)
  with assms show ?thesis
    by (auto simp: send_sms_def Let_def split: option.split sum.split prod.split)
qed

lemma request_balance_inv: "call_inv start s \<Longrightarrow> call_inv start (fst (request_balance env s))"
  by (auto simp: request_balance_def Let_def split: prod.split sum.split dest: call_inv_execute_at)

lemma request_phone_inv: "call_inv start s \<Longrightarrow> call_inv start (fst (request_phone_number (execute_at env) env s))"
  by (auto simp: request_phone_number_def Let_def split: prod.split sum.split dest: call_inv_execute_at)

lemma init_modem_inv:
  assumes "call_inv start s"
  shows "call_inv start (fst (init_modem env claim s))"
proof -
  have at: "call_inv start s \<Longrightarrow> call_inv start (fst (execute_at env c s))" for c s
    by (rule execute_at_inv)
  have cmds: "call_inv start s \<Longrightarrow> call_inv start (run_commands env cs s)" for cs s
    by (induction cs arbitrary: s) (simp_all add: at)
  have uac: "call_inv start s \<Longrightarrow> call_inv start (init_uac env s)" for s
    by (auto simp: init_uac_def probe_uac_enabled_def split: prod.split sum.split option.split dest: call_inv_execute_at)
  have scan: "call_inv start s \<Longrightarrow> call_inv start (ensure_auto_scan_mode env s)" for s
    by (auto simp: ensure_auto_scan_mode_def split: prod.split sum.split dest: call_inv_execute_at intro: at)
  have parts: "call_inv start s \<Longrightarrow> call_inv start (fst (read_imei env s))"
      "call_inv start s \<Longrightarrow> call_inv start (fst (read_iccid env q s))"
      "call_inv start s \<Longrightarrow> call_inv start (fst (why_no_sim env err s))"
      "call_inv start s \<Longrightarrow> call_inv start (fst (init_signal env s))"
      "call_inv start s \<Longrightarrow> call_inv start (fst (init_registration env s))"
      "call_inv start s \<Longrightarrow> call_inv start (fst (init_operator env c s))" for q err c s
    by (auto simp: read_imei_def read_iccid_def why_no_sim_def init_signal_def init_registration_def init_operator_def
        split: prod.split sum.split dest: call_inv_execute_at)
  have obs: "call_inv start s \<Longrightarrow> call_inv start (observe_sim env imei c oper code s)" for imei c oper code s
    by (auto simp: observe_sim_def Let_def lookup_phone_if_missing_def case_prod_beta
        split: sum.split intro!: request_phone_inv request_balance_inv)
  have serve: "call_inv start s \<Longrightarrow> call_inv start (fst (serve_sim env imei c s))" for imei c s
    by (auto simp: serve_sim_def Let_def case_prod_beta intro!: obs parts)
  have none: "call_inv start s \<Longrightarrow> call_inv start (fst (no_sim env imei err s))" for imei err s
    by (simp add: no_sim_def)
  have rest: "call_inv start s \<Longrightarrow> call_inv start (fst (read_iccid env q (if b then ensure_auto_scan_mode env s else s)))" for q b s
    by (simp add: parts scan)
  show ?thesis
    using at [OF assms, of "''AT''"]
    by (auto simp: init_modem_def Let_def case_prod_beta split: sum.split
        intro!: none serve parts scan at uac cmds)
qed

lemma worker_step_call: "worker_step env s t \<Longrightarrow> call_inv start s \<Longrightarrow> call_inv start t"
proof (induction rule: worker_step.induct)
  case (operator s oper)
  then show ?case by (auto simp: set_operator_def split: prod.split sum.split dest: call_inv_execute_at)
next
  case (scan s)
  then show ?case by (auto simp: scan_networks_def Let_def split: prod.split sum.split dest: call_inv_execute_at)
qed (simp_all add: idle_event_inv execute_at_inv dial_inv answer_inv hangup_inv send_sms_inv request_balance_inv
    request_phone_inv poll_inv init_modem_inv reprobe_due_def)

lemma worker_run_call: "worker_run env s t \<Longrightarrow> call_inv start s \<Longrightarrow> call_inv start t"
  by (induction rule: worker_run.induct) (auto intro: worker_step_call)

lemma new_worker_call: "ws_worker s = new_modem_worker port start \<Longrightarrow> call_inv start s"
  by (simp add: call_inv_def told_def new_modem_worker_def call_wf_def init_call_def call_idle_def)


text \<open>A worker with the default configuration and a modem that has not said anything.\<close>

definition demo_env :: worker_env where
  "demo_env = \<lparr> en_calling = True, en_config = viper_defaults, en_clock = int, en_faults = (\<lambda>_. no_faults),
     en_operators = [], en_lower = to_lower, en_runes = map (\<lambda>c. [c]), en_ucs2 = (\<lambda>_. None), en_gsm7 = (\<lambda>_. None),
     en_tz = 0, en_webhook = \<lparr> we_render = (\<lambda>_ _. None), we_url_ok = (\<lambda>_. True), we_marshal_ok = (\<lambda>_. True) \<rparr>,
     en_unmarshal = (\<lambda>_. Inl ''not a delivery''), en_encode = (\<lambda>_ _ m. Inr [Inr m]) \<rparr>"

definition demo_ws :: wstate where
  "demo_ws = \<lparr> ws_worker = new_modem_worker ''COM3'' 7,
     ws_world = \<lparr> wd_db = empty_db\<lparr>t_modems := [new_modem ''c1'']\<rparr>, wd_tick = 8, wd_texts = [], wd_sms = [] \<rparr>,
     ws_rx = [], ws_posts = [] \<rparr>"


text \<open>After a reboot of a ringing modem the state is idle while the details of the call stay.\<close>

lemma reboot_keeps_ringing:
  "(let t = fst (reboot demo_env (idle_event demo_env (Rx_Line ''+CLCC: 1,1,4,0,0,123'') demo_ws))
    in cs_state (wk_call (ws_worker t)) = call_idle \<and> cs_ringing (wk_call (ws_worker t)))"
  by code_simp

subsection \<open>The first poll of a SIM without a number\<close>

lemma nested_stops: "\<not> requires_interactive_transaction cmd \<Longrightarrow> wk_stopped (ws_worker (fst (execute_at_nested cmd s)))"
  by (simp add: execute_at_nested_def)

lemma cusd_not_interactive: "\<not> requires_interactive_transaction (cusd_command code)"
proof -
  have "last (cusd_command code) = CHR ''5''" "trim_space (cusd_command code) = cusd_command code"
    by (simp_all add: cusd_command_def quoted_def trim_space_id is_space_def go_spaces_def)
  moreover have "\<not> has_prefix (to_upper (cusd_command code)) ''AT+CMGS=''" "\<not> has_prefix (to_upper (cusd_command code)) ''AT+CMGW=''"
    by (simp_all add: cusd_command_def has_prefix_def to_upper_def)
  ultimately show ?thesis
    by (simp add: requires_interactive_transaction_def has_suffix_def has_prefix_def cusd_command_def quoted_def)
qed

lemma first_lookup_stops:
  assumes "\<not> wk_lookup_tried (ws_worker s)" "modem_iccid (ws_worker s) \<noteq> []"
    and "pc_enabled (c_phone_lookup (en_config env))"
    and "find_by_iccid (faults_of env s) (modem_iccid (ws_worker s)) (ws_db s) = Inr row" "m_phone_number row = []"
    and "lookup_code_for (lookup_fuel env) (en_operators env) (m_operator (the (wk_modem (ws_worker s))))
      (pc_codes (c_phone_lookup (en_config env))) \<noteq> []"
  shows "wk_stopped (ws_worker (first_phone_lookup env s))"
proof -
  have m: "wk_modem (ws_worker s) \<noteq> None" using assms(2) by (cases "wk_modem (ws_worker s)") (simp_all add: modem_iccid_def)
  have f: "faults_of env (on_worker g s) = faults_of env s" for g by (simp add: faults_of_def)
  show ?thesis
    using assms m
    by (auto simp: first_phone_lookup_def Let_def lookup_phone_if_missing_def f request_phone_number_def
        execute_at_nested_def cusd_not_interactive)
qed

text \<open>
  When a poll finds a SIM registered in a network for the first time, the lookup of its number is on
  (the default), the row of the SIM has no number yet and its operator has a code, then the poll runs the
  lookup inside its own transaction and waits for itself: the check of the signal only returns when the
  worker has been stopped. Here \<open>s2\<close> is the state in which the lookup starts.
\<close>

theorem first_lookup_blocks:
  assumes "check_registration env s = (s1, code)" "code = ''1'' \<or> code = ''5''"
    and "s2 = write_registered env (check_operator env (search_watch env code s1))"
    and "\<not> wk_lookup_tried (ws_worker s2)" "modem_iccid (ws_worker s2) \<noteq> []"
    and "pc_enabled (c_phone_lookup (en_config env))"
    and "find_by_iccid (faults_of env s2) (modem_iccid (ws_worker s2)) (ws_db s2) = Inr row" "m_phone_number row = []"
    and "lookup_code_for (lookup_fuel env) (en_operators env) (m_operator (the (wk_modem (ws_worker s2))))
      (pc_codes (c_phone_lookup (en_config env))) \<noteq> []"
  shows "wk_stopped (ws_worker (check_signal env s))"
proof -
  have "by_registration env code (search_watch env code s1) = first_phone_lookup env s2"
    using assms(2,3) by (auto simp: by_registration_def)
  then have "wk_stopped (ws_worker (by_registration env code (search_watch env code s1)))"
    using first_lookup_stops [OF assms(4-9)] by simp
  moreover have "wk_stopped (ws_worker t) \<Longrightarrow> wk_stopped (ws_worker (read_signal env t))" for t
    by (auto simp: read_signal_def Let_def update_modem_def split: prod.split sum.split dest: stop_final.execute_pair)
  ultimately show ?thesis by (simp add: check_signal_def assms(1))
qed

text \<open>A worker that serves the SIM \<open>c1\<close>, whose modem answers the queries of the poll.\<close>

definition demo_serving :: wstate where
  "demo_serving = demo_ws\<lparr>ws_worker := (new_modem_worker ''COM3'' 7)\<lparr>wk_modem := Some ((new_modem ''c1'')\<lparr>m_operator := ''Viettel''\<rparr>)\<rparr>,
     ws_rx := [Rx_Line ''+CREG: 0,1'', Rx_Line ''OK'', Rx_Line ''OK'']\<rparr>"

definition demo_lookup_state :: wstate where
  "demo_lookup_state = (case check_registration demo_env demo_serving of
     (s1, code) \<Rightarrow> write_registered demo_env (check_operator demo_env (search_watch demo_env code s1)))"

theorem first_lookup_blocks_witness:
  "\<not> wk_stopped (ws_worker demo_serving) \<and> wk_stopped (ws_worker (check_signal demo_env demo_serving))"
proof -
  have code: "snd (check_registration demo_env demo_serving) = ''1''" by code_simp
  obtain s1 where r: "check_registration demo_env demo_serving = (s1, ''1'')"
    using code by (metis prod.collapse)
  have s2: "write_registered demo_env (check_operator demo_env (search_watch demo_env ''1'' s1)) = demo_lookup_state"
    by (simp add: demo_lookup_state_def r)
  have "\<not> wk_lookup_tried (ws_worker demo_lookup_state)" "modem_iccid (ws_worker demo_lookup_state) \<noteq> []"
    "pc_enabled (c_phone_lookup (en_config demo_env))"
    "find_by_iccid (faults_of demo_env demo_lookup_state) (modem_iccid (ws_worker demo_lookup_state)) (ws_db demo_lookup_state) =
       Inr (the (find_modem (ws_db demo_lookup_state) ''c1''))"
    "m_phone_number (the (find_modem (ws_db demo_lookup_state) ''c1'')) = []"
    "lookup_code_for (lookup_fuel demo_env) (en_operators demo_env) (m_operator (the (wk_modem (ws_worker demo_lookup_state))))
      (pc_codes (c_phone_lookup (en_config demo_env))) \<noteq> []"
    by code_simp+
  from first_lookup_blocks [OF r _ s2 [symmetric] this]
  have "wk_stopped (ws_worker (check_signal demo_env demo_serving))" by simp
  moreover have "\<not> wk_stopped (ws_worker demo_serving)" by code_simp
  ultimately show ?thesis by blast
qed

subsection \<open>Looking up a code ends\<close>

definition named_operators :: "network_operator list \<Rightarrow> bool" where
  "named_operators = list_all (\<lambda>o'. take 3 (to_lower (trim_space (no_name o'))) \<noteq> ''452'')"

lemma operator_name_not_numeric:
  assumes "named_operators ops"
  shows "take 3 (to_lower (trim_space (get_operator_name ops mcc mnc))) \<noteq> ''452''"
proof -
  have "take 3 (to_lower (trim_space (builtin_vn mnc))) \<noteq> ''452''"
    by (simp add: builtin_vn_def trim_space_def trim_by_def trim_right_def is_space_def go_spaces_def to_lower_def)
  moreover have "to_lower [] = []" by (simp add: to_lower_def)
  ultimately show ?thesis
    using assms by (auto simp: get_operator_name_def named_operators_def list_all_iff dest: find_SomeD split: option.split)
qed



end
