(* ===== verification/Worker_Manager.thy ===== *)
theory Worker_Manager
  imports Runtime
begin

text \<open>
  \<open>internal/worker/manager.go\<close>: the workers by port, the claims \<open>activeICCIDs\<close> and the ports that were
  probed. A worker is what the manager sees of it: whether it stopped, whether it asked to be probed
  again, the ICCID it registered in \<open>initModem\<close> and the modem it published. Go's maps are functions or
  lists of entries with distinct keys; where the code iterates over a map the order does not matter, as
  every port is treated alike.
\<close>

record worker_entry =
  we_stopped :: bool
  we_reprobe :: bool
  we_claim :: "string option"
  we_modem :: "modem option"

definition new_worker :: worker_entry where
  "new_worker = \<lparr> we_stopped = False, we_reprobe = False, we_claim = None, we_modem = None \<rparr>"

record manager =
  mg_workers :: "string \<rightharpoonup> worker_entry"
  mg_active :: "string \<rightharpoonup> string"
  mg_probed :: "string \<Rightarrow> bool"

definition empty_manager :: manager where
  "empty_manager = \<lparr> mg_workers = (\<lambda>_. None), mg_active = (\<lambda>_. None), mg_probed = (\<lambda>_. False) \<rparr>"

definition has_iccid :: "worker_entry \<Rightarrow> string \<Rightarrow> bool" where
  "has_iccid w iccid = (case we_modem w of None \<Rightarrow> False | Some m \<Rightarrow> m_iccid m = iccid)"

definition is_excluded :: "string list \<Rightarrow> string \<Rightarrow> bool" where
  "is_excluded exclude port \<longleftrightarrow> has_prefix port ''/dev/tty.'' \<or> contains port ''Bluetooth'' \<or> port \<in> set exclude"

definition unregister_worker :: "string \<Rightarrow> manager \<Rightarrow> manager" where
  "unregister_worker port m =
     (case mg_workers m port of
        None \<Rightarrow> m
      | Some w \<Rightarrow>
          m\<lparr>mg_workers := (mg_workers m)(port := None),
            mg_active := (case we_modem w of
                Some md \<Rightarrow> if m_iccid md \<noteq> [] then (mg_active m)(m_iccid md := None) else mg_active m
              | None \<Rightarrow> mg_active m)\<rparr>)"

text \<open>\<open>cleanupStoppedWorkersLocked\<close> for one port, and the first part of \<open>ScanAndManage\<close> for one port.\<close>

definition cleanup_port :: "string \<Rightarrow> manager \<Rightarrow> manager" where
  "cleanup_port port m =
     (case mg_workers m port of
        Some w \<Rightarrow>
          if we_stopped w then
            (let m' = unregister_worker port m
             in if we_reprobe w then m'\<lparr>mg_probed := (mg_probed m')(port := False)\<rparr> else m')
          else m
      | None \<Rightarrow> m)"

definition drop_missing :: "string list \<Rightarrow> string \<Rightarrow> manager \<Rightarrow> manager" where
  "drop_missing valid port m =
     (if port \<in> set valid then m
      else (unregister_worker port m)\<lparr>mg_probed := (mg_probed m)(port := False)\<rparr>)"

definition probe_port :: "string \<Rightarrow> manager \<Rightarrow> manager" where
  "probe_port port m =
     (if mg_probed m port then m
      else m\<lparr>mg_workers := (mg_workers m)(port \<mapsto> new_worker), mg_probed := (mg_probed m)(port := True)\<rparr>)"

text \<open>
  \<open>ScanAndManage\<close>: \<open>known\<close> lists the ports of the two maps, \<open>listed\<close> what the system reports (nothing
  happens when it cannot tell).
\<close>

definition scan_and_manage :: "string list \<Rightarrow> string list \<Rightarrow> string list option \<Rightarrow> manager \<Rightarrow> manager" where
  "scan_and_manage exclude known listed m =
     (case listed of None \<Rightarrow> m
      | Some ports \<Rightarrow>
          (let valid = filter (\<lambda>p. \<not> is_excluded exclude p) ports;
               m1 = fold (drop_missing valid) known m;
               m2 = fold cleanup_port known m1
           in fold probe_port valid m2))"

definition register_iccid :: "string \<Rightarrow> string \<Rightarrow> manager \<Rightarrow> manager \<times> bool" where
  "register_iccid port iccid m =
     (case mg_active m iccid of
        Some p \<Rightarrow> (m, p = port)
      | None \<Rightarrow> (m\<lparr>mg_active := (mg_active m)(iccid \<mapsto> port)\<rparr>, True))"

definition unregister_iccid :: "string \<Rightarrow> manager \<Rightarrow> manager" where
  "unregister_iccid iccid m = m\<lparr>mg_active := (mg_active m)(iccid := None)\<rparr>"

text \<open>\<open>RemoveWorkerByICCID\<close> finds the worker at \<open>port\<close>, or none.\<close>

definition remove_worker :: "string option \<Rightarrow> string \<Rightarrow> manager \<Rightarrow> manager \<times> bool" where
  "remove_worker port iccid m =
     (case port of
        Some p \<Rightarrow> (unregister_worker p m, True)
      | None \<Rightarrow> (m\<lparr>mg_active := (mg_active m)(iccid := None)\<rparr>, False))"

definition get_worker_by_iccid :: "string list \<Rightarrow> string \<Rightarrow> manager \<Rightarrow> (string \<times> worker_entry) option" where
  "get_worker_by_iccid known iccid m =
     find (\<lambda>(p, w). \<not> we_stopped w \<and> has_iccid w iccid)
       (concat (map (\<lambda>p. case mg_workers m p of None \<Rightarrow> [] | Some w \<Rightarrow> [(p, w)]) known))"

definition active_workers :: "string list \<Rightarrow> manager \<Rightarrow> (string \<times> worker_entry) list" where
  "active_workers known m =
     filter (\<lambda>(p, w). \<not> we_stopped w)
       (concat (map (\<lambda>p. case mg_workers m p of None \<Rightarrow> [] | Some w \<Rightarrow> [(p, w)]) known))"

definition update_worker :: "string \<Rightarrow> (worker_entry \<Rightarrow> worker_entry) \<Rightarrow> manager \<Rightarrow> manager" where
  "update_worker port f m = m\<lparr>mg_workers := (mg_workers m)(port := map_option f (mg_workers m port))\<rparr>"

subsection \<open>The steps of the manager and its workers\<close>

text \<open>
  A worker registers the ICCID it read (\<open>initModem\<close>, step 4) and stops when the SIM is taken; later it
  publishes a modem with the registered ICCID; it may stop at any time. The manager scans, and the API
  removes the worker of a SIM.
\<close>

definition claim_iccid :: "string \<Rightarrow> string \<Rightarrow> manager \<Rightarrow> manager" where
  "claim_iccid port iccid m =
     (let (m', ok) = register_iccid port iccid m
      in if ok then update_worker port (\<lambda>w. w\<lparr>we_claim := Some iccid\<rparr>) m'
         else update_worker port (\<lambda>w. w\<lparr>we_stopped := True\<rparr>) m')"

inductive manager_step :: "manager \<Rightarrow> manager \<Rightarrow> bool" where
  scan: "manager_step m (scan_and_manage exclude known listed m)"
| claim: "mg_workers m port = Some w \<Longrightarrow> we_claim w = None \<Longrightarrow> iccid \<noteq> [] \<Longrightarrow>
    manager_step m (claim_iccid port iccid m)"
| publish: "mg_workers m port = Some w \<Longrightarrow> we_claim w = Some (m_iccid md) \<Longrightarrow>
    manager_step m (update_worker port (\<lambda>w. w\<lparr>we_modem := Some md\<rparr>) m)"
| stop_worker: "manager_step m (update_worker port (\<lambda>w. w\<lparr>we_stopped := True, we_reprobe := r\<rparr>) m)"
| remove: "mg_workers m port = Some w \<Longrightarrow> has_iccid w iccid \<Longrightarrow> manager_step m (fst (remove_worker (Some port) iccid m))"
| remove_none: "\<forall>p w. mg_workers m p = Some w \<longrightarrow> we_claim w \<noteq> Some iccid \<Longrightarrow>
    manager_step m (fst (remove_worker None iccid m))"

inductive manager_reachable :: "manager \<Rightarrow> bool" where
  start: "manager_reachable empty_manager"
| step: "manager_reachable m \<Longrightarrow> manager_step m m' \<Longrightarrow> manager_reachable m'"

subsection \<open>One worker for every SIM\<close>

definition claims_hold :: "manager \<Rightarrow> bool" where
  "claims_hold m \<longleftrightarrow>
     (\<forall>p w md. mg_workers m p = Some w \<longrightarrow> we_modem w = Some md \<longrightarrow> we_claim w = Some (m_iccid md)) \<and>
     (\<forall>p w c. mg_workers m p = Some w \<longrightarrow> we_claim w = Some c \<longrightarrow> mg_active m c = Some p)"

lemma claims_hold_worker:
  assumes "claims_hold m" "mg_workers m p = Some w"
  shows "we_modem w = Some md \<Longrightarrow> we_claim w = Some (m_iccid md)"
    "we_claim w = Some c \<Longrightarrow> mg_active m c = Some p"
  using assms by (simp_all add: claims_hold_def)

lemma claims_hold_probed [simp]: "claims_hold (m\<lparr>mg_probed := x\<rparr>) = claims_hold m"
  by (simp add: claims_hold_def)

text \<open>Removing a worker frees its own SIM only.\<close>

lemma claims_hold_unregister:
  assumes "claims_hold m"
  shows "claims_hold (unregister_worker port m)"
proof (cases "mg_workers m port")
  case None
  with assms show ?thesis by (simp add: unregister_worker_def)
next
  case (Some w)
  have "mg_active (unregister_worker port m) c = Some p"
    if "mg_workers m p = Some v" "p \<noteq> port" "we_claim v = Some c" for p v c
    using claims_hold_worker(2) [OF assms that(1,3)] claims_hold_worker [OF assms Some] that(2)
    by (auto simp: unregister_worker_def Some split: option.split)
  moreover have "mg_workers (unregister_worker port m) = (mg_workers m)(port := None)"
    by (simp add: unregister_worker_def Some)
  ultimately show ?thesis
    using claims_hold_worker(1) [OF assms] unfolding claims_hold_def by (auto split: option.split)
qed

lemma claims_hold_update:
  assumes "claims_hold m" "\<And>w. mg_workers m port = Some w \<Longrightarrow> we_claim (f w) = we_claim w"
    "\<And>w md. mg_workers m port = Some w \<Longrightarrow> we_modem (f w) = Some md \<Longrightarrow> we_claim w = Some (m_iccid md)"
  shows "claims_hold (update_worker port f m)"
  using assms claims_hold_worker [OF assms(1)]
  unfolding claims_hold_def update_worker_def by (auto split: option.splits)

lemma claims_hold_cleanup: "claims_hold m \<Longrightarrow> claims_hold (cleanup_port port m)"
  by (simp add: cleanup_port_def Let_def claims_hold_unregister split: option.split)

lemma claims_hold_drop: "claims_hold m \<Longrightarrow> claims_hold (drop_missing valid port m)"
  by (simp add: drop_missing_def claims_hold_unregister)

lemma claims_hold_probe: "claims_hold m \<Longrightarrow> claims_hold (probe_port port m)"
  by (auto simp: probe_port_def claims_hold_def new_worker_def)

lemma claims_hold_fold:
  assumes "\<And>x m. claims_hold m \<Longrightarrow> claims_hold (f x m)"
  shows "claims_hold m \<Longrightarrow> claims_hold (fold f xs m)"
  by (induction xs arbitrary: m) (simp_all add: assms)

lemma claims_hold_scan: "claims_hold m \<Longrightarrow> claims_hold (scan_and_manage exclude known listed m)"
  by (simp add: scan_and_manage_def Let_def claims_hold_fold claims_hold_drop claims_hold_cleanup claims_hold_probe
      split: option.split)

lemma claims_hold_claim:
  assumes "claims_hold m" "mg_workers m port = Some w" "we_claim w = None"
  shows "claims_hold (claim_iccid port iccid m)"
proof -
  have nm: "we_modem w = None" using claims_hold_worker(1) [OF assms(1,2)] assms(3) by (cases "we_modem w") auto
  note h = claims_hold_worker [OF assms(1)]
  show ?thesis
  proof (cases "mg_active m iccid")
    case None
    with assms(2) nm h show ?thesis
      by (auto simp: claims_hold_def claim_iccid_def register_iccid_def update_worker_def)
  next
    case (Some q)
    show ?thesis
    proof (cases "q = port")
      case True
      with Some assms(2) nm h show ?thesis
        by (auto simp: claims_hold_def claim_iccid_def register_iccid_def update_worker_def)
    next
      case False
      with Some have "claim_iccid port iccid m = update_worker port (\<lambda>w. w\<lparr>we_stopped := True\<rparr>) m"
        by (simp add: claim_iccid_def register_iccid_def)
      then show ?thesis using assms(1) h(1) by (auto intro: claims_hold_update)
    qed
  qed
qed

lemma manager_step_claims: "manager_step m m' \<Longrightarrow> claims_hold m \<Longrightarrow> claims_hold m'"
proof (induction rule: manager_step.induct)
  case (remove_none m iccid)
  then show ?case by (auto simp: remove_worker_def claims_hold_def split: option.splits)
next
  case (publish m port w md)
  then show ?case by (intro claims_hold_update) auto
next
  case (stop_worker m port r)
  then show ?case by (intro claims_hold_update) (auto dest: claims_hold_worker(1))
qed (simp_all add: claims_hold_scan claims_hold_claim remove_worker_def claims_hold_unregister)

lemma reachable_claims: "manager_reachable m \<Longrightarrow> claims_hold m"
proof (induction rule: manager_reachable.induct)
  case start
  show ?case by (simp add: claims_hold_def empty_manager_def)
next
  case (step m m')
  then show ?case by (blast intro: manager_step_claims)
qed


text \<open>A manager after one scan with one port, whose worker registered and published the SIM \<open>c1\<close>.\<close>

definition demo_scanned :: manager where
  "demo_scanned = scan_and_manage [] [] (Some [''COM3'', ''/dev/tty.X'']) empty_manager"

definition demo_published :: manager where
  "demo_published = update_worker ''COM3'' (\<lambda>w. w\<lparr>we_modem := Some (new_modem ''c1'')\<rparr>)
     (claim_iccid ''COM3'' ''c1'' demo_scanned)"

lemma demo_scanned_worker: "mg_workers demo_scanned = [''COM3'' \<mapsto> new_worker]" "mg_active demo_scanned = (\<lambda>_. None)"
  by (simp_all add: demo_scanned_def scan_and_manage_def is_excluded_def has_prefix_def probe_port_def
      empty_manager_def Let_def)

lemma demo_published_worker:
  "mg_workers demo_published ''COM3'' = Some (new_worker\<lparr>we_claim := Some ''c1'', we_modem := Some (new_modem ''c1'')\<rparr>)"
  by (simp add: demo_published_def claim_iccid_def register_iccid_def update_worker_def demo_scanned_worker)

lemma demo_reachable: "manager_reachable demo_published"
proof -
  have 1: "manager_reachable demo_scanned"
    unfolding demo_scanned_def by (rule manager_reachable.step [OF manager_reachable.start manager_step.scan])
  have 2: "manager_reachable (claim_iccid ''COM3'' ''c1'' demo_scanned)"
    by (rule manager_reachable.step [OF 1], rule manager_step.claim [of _ _ new_worker])
      (simp_all add: demo_scanned_worker new_worker_def)
  show ?thesis
    unfolding demo_published_def
    by (rule manager_reachable.step [OF 2], rule manager_step.publish [of _ _ "new_worker\<lparr>we_claim := Some ''c1''\<rparr>"])
      (simp_all add: claim_iccid_def register_iccid_def update_worker_def demo_scanned_worker new_modem_def)
qed


text \<open>
  Removing a SIM between the registration and the publication of its worker frees a claim that is still
  in use, and a second port may register the same SIM.
\<close>

lemma removal_frees_claim_in_use:
  "let m = claim_iccid ''COM3'' ''c1'' demo_scanned
   in snd (register_iccid ''COM4'' ''c1'' m) = False \<and>
      snd (register_iccid ''COM4'' ''c1'' (fst (remove_worker None ''c1'' m))) = True"
  by (simp add: claim_iccid_def register_iccid_def update_worker_def demo_scanned_worker remove_worker_def)

text \<open>
  A worker that stops after it registered its ICCID and before it published the modem leaves the claim
  behind: the SIM in another port is then turned away, and that port is not probed again.
\<close>

lemma stopped_worker_leaks_claim:
  assumes "mg_workers m port = Some w" "we_modem w = None" "mg_active m c = Some port"
  shows "mg_active (cleanup_port port m) c = Some port"
  using assms by (simp add: cleanup_port_def unregister_worker_def Let_def)

lemma turned_away_not_probed:
  assumes "mg_active m c = Some q" "q \<noteq> port" "mg_workers m port = Some w" "\<not> we_reprobe w" "mg_probed m port"
  shows "mg_probed (cleanup_port port (claim_iccid port c m)) port \<and> mg_workers (cleanup_port port (claim_iccid port c m)) port = None"
  using assms by (simp add: claim_iccid_def register_iccid_def update_worker_def cleanup_port_def unregister_worker_def split: option.split)

end
