(* ===== verification/Modem_Api.thy ===== *)
theory Modem_Api
  imports Worker_Init Worker_Manager User_Admin
begin

text \<open>
  \<open>internal/api/modem_handler.go\<close> but for what it does with calls: what the API shows of a modem, its SIP settings and
  profile, its deletion, and the handlers that hand a command to the worker. \<open>wk\<close> is the worker that the
  manager finds for an ICCID and \<open>line\<close> the SIP line of an ICCID. A body that cannot be bound is
  \<open>Inl\<close> of the message.
\<close>

subsection \<open>What is shown\<close>

definition modem_with_runtime_state :: "modem \<Rightarrow> runtime_modem option \<Rightarrow> modem" where
  "modem_with_runtime_state m rt =
     (case rt of
        None \<Rightarrow> m\<lparr>m_status := ''offline'', m_signal_strength := 0, m_operator := [], m_registration := ''Unknown'',
                  m_last_seen := 0\<rparr>
      | Some r \<Rightarrow>
          m\<lparr>m_iccid := (if rt_iccid r \<noteq> [] then rt_iccid r else m_iccid m),
            m_imei := (if rt_imei r \<noteq> [] then rt_imei r else m_imei m),
            m_port_name := (if rt_port_name r \<noteq> [] then rt_port_name r else m_port_name m),
            m_status := rt_status r, m_signal_strength := rt_signal_strength r, m_operator := rt_operator r,
            m_registration := rt_registration r, m_last_seen := rt_last_seen r\<rparr>)"

record sip_line_info =
  sl_line_id :: string
  sl_iccid :: string
  sl_local_port :: int
  sl_transport :: string
  sl_active :: bool
  sl_register_state :: string
  sl_register_reason :: string
  sl_updated_at :: gtime

record modem_with_worker =
  mw_modem :: modem
  mw_has_password :: bool
  mw_worker_exists :: bool
  mw_call_supported :: bool
  mw_sip_available :: bool
  mw_sip_line_id :: string
  mw_sip_active :: bool
  mw_sip_transport :: string
  mw_sip_register_state :: string
  mw_sip_register_reason :: string
  mw_sip_register_updated_at :: gtime

text \<open>The runtime state of a worker; one without a modem yet keeps the stored values.\<close>

definition worker_runtime :: "worker \<Rightarrow> runtime_modem option" where
  "worker_runtime w = runtime_modem_state (wk_modem w) (wk_stopped w)"

definition upper_or_udp :: "string \<Rightarrow> string" where
  "upper_or_udp t = (let u = to_upper (trim_space t) in if u = [] then ''UDP'' else u)"

definition modem_with_worker_state ::
  "(string \<Rightarrow> worker option) \<Rightarrow> (string \<Rightarrow> sip_line_info option) \<Rightarrow> modem \<Rightarrow> modem_with_worker" where
  "modem_with_worker_state wk line m0 =
     (let w = wk (m_iccid m0);
          m = (case w of None \<Rightarrow> modem_with_runtime_state m0 None
               | Some v \<Rightarrow> (case worker_runtime v of None \<Rightarrow> m0 | Some rt \<Rightarrow> modem_with_runtime_state m0 (Some rt)));
          supported = (case w of None \<Rightarrow> False | Some v \<Rightarrow> wk_uac_ready v);
          info = line (m_iccid m);
          base = \<lparr> mw_modem = m, mw_has_password = (trim_space (m_sip_password m) \<noteq> []), mw_worker_exists = (w \<noteq> None),
                   mw_call_supported = supported,
                   mw_sip_available = (supported \<and> m_sip_enabled m \<and> trim_space (m_sip_username m) \<noteq> [] \<and>
                     trim_space (m_sip_proxy m) \<noteq> []),
                   mw_sip_line_id = [], mw_sip_active = False, mw_sip_transport = upper_or_udp (m_sip_transport m),
                   mw_sip_register_state = [], mw_sip_register_reason = [], mw_sip_register_updated_at = 0 \<rparr>
      in case info of None \<Rightarrow> base
         | Some i \<Rightarrow> base\<lparr>mw_sip_line_id := sl_line_id i, mw_sip_active := sl_active i,
             mw_sip_transport := (if sl_transport i \<noteq> [] then to_upper (sl_transport i) else mw_sip_transport base),
             mw_sip_register_state := sl_register_state i, mw_sip_register_reason := sl_register_reason i,
             mw_sip_register_updated_at := sl_updated_at i\<rparr>)"

definition list_modems ::
  "faults \<Rightarrow> (string \<Rightarrow> worker option) \<Rightarrow> (string \<Rightarrow> sip_line_info option) \<Rightarrow> actor option \<Rightarrow> database \<Rightarrow>
     modem_with_worker list reply" where
  "list_modems faults wk line actor db =
     (case actor of None \<Rightarrow> Refused 401 ''Unauthorized''
      | Some a \<Rightarrow>
          if \<not> permission_flag_from_key (ac_key a) [] then Refused 403 ''API key permission denied''
          else
            (case allowed_iccids_for_permission faults db (ac_user a) [] of
               Inl _ \<Rightarrow> Refused 500 ''permission check failed''
             | Inr allowed \<Rightarrow>
                 (case db_call faults ''modems.find''
                         (if is_admin (ac_user a) \<or> has_wildcard_iccid allowed then t_modems db
                          else filter (\<lambda>m. m_iccid m \<in> set allowed) (t_modems db)) of
                    Inl e \<Rightarrow> Refused 500 e
                  | Inr ms \<Rightarrow> Answered 200 (map (modem_with_worker_state wk line) ms))))"

text \<open>Permission for one SIM, before the handler proper.\<close>

definition enforced :: "faults \<Rightarrow> database \<Rightarrow> actor option \<Rightarrow> string \<Rightarrow> string \<Rightarrow> 's \<Rightarrow> ('s \<Rightarrow> 's \<times> 'a reply) \<Rightarrow> 's \<times> 'a reply" where
  "enforced faults db actor iccid perm s h =
     (case actor_can_access faults db actor iccid perm of Denied st msg \<Rightarrow> (s, Refused st msg) | Granted \<Rightarrow> h s)"

definition admin_required :: "actor option \<Rightarrow> 's \<Rightarrow> ('s \<Rightarrow> 's \<times> 'a reply) \<Rightarrow> 's \<times> 'a reply" where
  "admin_required actor s h =
     (case actor of None \<Rightarrow> (s, Refused 401 ''Unauthorized'')
      | Some a \<Rightarrow> if is_admin (ac_user a) then h s else (s, Refused 403 ''Admin access required''))"

definition get_modem ::
  "faults \<Rightarrow> (string \<Rightarrow> worker option) \<Rightarrow> (string \<Rightarrow> sip_line_info option) \<Rightarrow> actor option \<Rightarrow> string \<Rightarrow> database \<Rightarrow>
     modem_with_worker reply" where
  "get_modem faults wk line actor iccid db =
     (case actor_can_access faults db actor iccid [] of Denied st msg \<Rightarrow> Refused st msg
      | Granted \<Rightarrow>
          (let rt = (case wk iccid of None \<Rightarrow> None | Some w \<Rightarrow> worker_runtime w);
               shown = (\<lambda>m. Answered 200 (modem_with_worker_state wk line (modem_with_runtime_state m rt)))
           in case find_by_iccid faults iccid db of
                Inr m \<Rightarrow> shown m
              | Inl _ \<Rightarrow> if rt \<noteq> None then shown (new_modem iccid) else Refused 404 ''Modem not found''))"

subsection \<open>The SIP settings\<close>

record update_modem_request =
  um_name :: string
  um_sip_enabled :: bool
  um_sip_username :: string
  um_sip_password :: string
  um_sip_proxy :: string
  um_sip_port :: int
  um_sip_domain :: string
  um_sip_transport :: string
  um_sip_register :: bool
  um_sip_tls_skip_verify :: bool
  um_sip_listen_port :: int
  um_sip_accept_incoming :: bool
  um_sip_invite_target :: string

definition apply_update :: "update_modem_request \<Rightarrow> string \<Rightarrow> modem \<Rightarrow> modem" where
  "apply_update r transport m =
     (let m1 = m\<lparr>m_name := um_name r, m_sip_enabled := um_sip_enabled r, m_sip_username := trim_space (um_sip_username r),
            m_sip_proxy := trim_space (um_sip_proxy r), m_sip_port := um_sip_port r, m_sip_domain := trim_space (um_sip_domain r),
            m_sip_transport := transport, m_sip_register := um_sip_register r,
            m_sip_tls_skip_verify := um_sip_tls_skip_verify r, m_sip_listen_port := um_sip_listen_port r,
            m_sip_accept_incoming := um_sip_accept_incoming r, m_sip_invite_target := trim_space (um_sip_invite_target r)\<rparr>
      in if trim_space (um_sip_password r) \<noteq> [] then m1\<lparr>m_sip_password := um_sip_password r\<rparr> else m1)"

definition port_ok :: "int \<Rightarrow> bool" where
  "port_ok p \<longleftrightarrow> 0 \<le> p \<and> p \<le> 65535"

text \<open>The check for a conflicting port ignores the error of its query.\<close>

definition port_conflict :: "faults \<Rightarrow> string \<Rightarrow> int \<Rightarrow> database \<Rightarrow> bool" where
  "port_conflict faults iccid p db \<longleftrightarrow>
     0 < p \<and> 0 < db_or faults ''modem.port_count'' 0
       (count_rows (\<lambda>m. m_iccid m \<noteq> iccid \<and> m_sip_listen_port m = p) (t_modems db))"

definition update_transport :: "update_modem_request \<Rightarrow> string" where
  "update_transport r = (let t = to_lower (trim_space (um_sip_transport r)) in if t = [] then ''udp'' else t)"

definition settings_error :: "faults \<Rightarrow> string \<Rightarrow> update_modem_request \<Rightarrow> database \<Rightarrow> (int \<times> string) option" where
  "settings_error faults iccid r db =
     (if update_transport r \<notin> set [''udp'', ''tcp'', ''tls''] then Some (400, ''sip transport must be udp, tcp or tls'')
      else if \<not> port_ok (um_sip_port r) \<or> \<not> port_ok (um_sip_listen_port r)
      then Some (400, ''sip ports must be between 0 and 65535'')
      else if port_conflict faults iccid (um_sip_listen_port r) db
      then Some (409, ''sip listener port already assigned to another modem'')
      else None)"

definition update_modem_settings ::
  "faults \<Rightarrow> (string \<Rightarrow> worker option) \<Rightarrow> (string \<Rightarrow> sip_line_info option) \<Rightarrow> user option \<Rightarrow> string \<Rightarrow>
     update_modem_request result \<Rightarrow> database \<Rightarrow> database \<times> modem_with_worker reply" where
  "update_modem_settings faults wk line user iccid req db =
     (case user of None \<Rightarrow> (db, Refused 401 ''Unauthorized'')
      | Some u \<Rightarrow>
          if \<not> is_admin u then (db, Refused 403 ''Admin access required'')
          else
            (case req of Inl e \<Rightarrow> (db, Refused 400 e)
             | Inr r \<Rightarrow>
                 (case find_by_iccid faults iccid db of Inl _ \<Rightarrow> (db, Refused 404 ''Modem not found'')
                  | Inr _ \<Rightarrow>
                      (case settings_error faults iccid r db of Some (st, msg) \<Rightarrow> (db, Refused st msg)
                       | None \<Rightarrow>
                           (case db_call faults ''modem.update'' (update_modem_row iccid (apply_update r (update_transport r)) db) of
                              Inl _ \<Rightarrow> (db, Refused 500 ''Failed to update modem'')
                            | Inr db' \<Rightarrow>
                                (case db_call faults ''modem.reload'' (find_modem db' iccid) of
                                   Inr (Some m) \<Rightarrow> (db', Answered 200 (modem_with_worker_state wk line m))
                                 | _ \<Rightarrow> (db', Refused 500 ''Failed to reload modem'')))))))"

subsection \<open>The profile\<close>

text \<open>A member of the body: absent, \<open>null\<close>, of a type that cannot be read, or a value.\<close>

datatype 'a member = Absent | Null | Bad | Value 'a

record profile_request =
  pf_phone_number :: "string option"
  pf_hardware_path :: "string option"
  pf_balance_vnd :: "int option"
  pf_low_balance_vnd :: "int member"
  pf_keepalive_enabled :: "bool member"
  pf_keepalive_interval :: "int member"

definition phone_number_pattern :: re where
  "phone_number_pattern = r_seq [R_Bol, r_opt (R_Char (\<lambda>c. c = CHR ''+'')), r_range 9 15 r_digit, R_Eol]"

definition bad_path :: "string \<Rightarrow> bool" where
  "bad_path p \<longleftrightarrow> 512 < length p \<or> list_ex (\<lambda>c. c \<in> set [CHR 0x0D, CHR 0x0A, CHR 0x00]) p"

definition at_least :: "int \<Rightarrow> int member \<Rightarrow> bool" where
  "at_least n m = (case m of Bad \<Rightarrow> False | Value v \<Rightarrow> n \<le> v | _ \<Rightarrow> True)"

definition nullable :: "'a member \<Rightarrow> 'a option" where
  "nullable m = (case m of Value v \<Rightarrow> Some v | _ \<Rightarrow> None)"

text \<open>The first complaint about the body, in the order of the handler.\<close>

definition profile_error :: "profile_request \<Rightarrow> string option" where
  "profile_error r =
     (if \<not> at_least 0 (pf_low_balance_vnd r) then Some ''low_balance_vnd must be a non-negative integer''
      else if pf_keepalive_enabled r = Bad then Some ''keepalive_enabled must be a boolean''
      else if \<not> at_least 1 (pf_keepalive_interval r) then Some ''keepalive_interval must be an integer >= 1''
      else if (case pf_phone_number r of None \<Rightarrow> False
               | Some p \<Rightarrow> trim_space p \<noteq> [] \<and> \<not> re_search phone_number_pattern (trim_space p))
      then Some ''phone_number must contain 9 to 15 digits''
      else if (case pf_hardware_path r of None \<Rightarrow> False | Some p \<Rightarrow> bad_path (trim_space p)) then Some ''hardware_path is invalid''
      else if (case pf_balance_vnd r of None \<Rightarrow> False | Some v \<Rightarrow> v < 0) then Some ''balance_vnd cannot be negative''
      else None)"

definition profile_columns :: "profile_request \<Rightarrow> bool" where
  "profile_columns r \<longleftrightarrow> pf_hardware_path r \<noteq> None \<or> pf_balance_vnd r \<noteq> None \<or> pf_low_balance_vnd r \<noteq> Absent \<or>
     pf_keepalive_enabled r \<noteq> Absent \<or> pf_keepalive_interval r \<noteq> Absent"

definition apply_profile :: "profile_request \<Rightarrow> gtime \<Rightarrow> modem \<Rightarrow> modem" where
  "apply_profile r now m =
     (let m1 = (case pf_hardware_path r of None \<Rightarrow> m | Some p \<Rightarrow> m\<lparr>m_hardware_path := trim_space p\<rparr>);
          m2 = (case pf_balance_vnd r of None \<Rightarrow> m1 | Some v \<Rightarrow> m1\<lparr>m_balance_vnd := v, m_balance_updated_at := Some now\<rparr>);
          m3 = (if pf_low_balance_vnd r \<noteq> Absent then m2\<lparr>m_low_balance_vnd := nullable (pf_low_balance_vnd r)\<rparr> else m2);
          m4 = (if pf_keepalive_enabled r \<noteq> Absent then m3\<lparr>m_keepalive_enabled := (pf_keepalive_enabled r = Value True)\<rparr> else m3)
      in if pf_keepalive_interval r \<noteq> Absent then m4\<lparr>m_keepalive_interval := nullable (pf_keepalive_interval r)\<rparr> else m4)"

definition update_profile ::
  "faults \<Rightarrow> (string \<Rightarrow> worker option) \<Rightarrow> (string \<Rightarrow> sip_line_info option) \<Rightarrow> actor option \<Rightarrow> string \<Rightarrow> gtime \<Rightarrow>
     profile_request option \<Rightarrow> database \<Rightarrow> database \<times> modem_with_worker reply" where
  "update_profile faults wk line actor iccid0 now req db =
     (if (case actor of None \<Rightarrow> True | Some a \<Rightarrow> \<not> is_admin (ac_user a)) then (db, Refused 403 ''Admin access required'')
      else
        (let iccid = trim_space iccid0
         in case req of None \<Rightarrow> (db, Refused 400 ''Invalid profile data'')
            | Some r \<Rightarrow>
                (case profile_error r of Some e \<Rightarrow> (db, Refused 400 e)
                 | None \<Rightarrow>
                     (case find_by_iccid faults iccid db of Inl _ \<Rightarrow> (db, Refused 404 ''Modem not found'')
                      | Inr m0 \<Rightarrow>
                          (case (case pf_phone_number r of None \<Rightarrow> Inr (db, False)
                                 | Some p \<Rightarrow> set_phone_number faults iccid (trim_space p) ''manual'' now db) of
                             Inl _ \<Rightarrow> (db, Refused 500 ''Failed to update phone number'')
                           | Inr (db1, _) \<Rightarrow>
                               if \<not> profile_columns r \<and> pf_phone_number r = None
                               then (db1, Refused 400 ''No profile fields supplied'')
                               else
                                 (case (if profile_columns r then
                                          db_call faults ''modem.profile'' (update_modem_row iccid (apply_profile r now) db1)
                                        else Inr db1) of
                                    Inl _ \<Rightarrow> (db1, Refused 500 ''Failed to update modem profile'')
                                  | Inr db2 \<Rightarrow>
                                      (db2, Answered 200 (modem_with_worker_state wk line
                                         (db_or faults ''modem.reload'' m0 (the (find_modem db2 iccid)))))))))))"

subsection \<open>Deleting a SIM\<close>

definition remove_iccid_from_allowed_list :: "string \<Rightarrow> string \<Rightarrow> string" where
  "remove_iccid_from_allowed_list raw0 iccid =
     (let raw = trim_space raw0; target = trim_space iccid
      in if raw = [] \<or> raw = wildcard then raw
         else if target = [] then raw
         else join_with '','' (filter (\<lambda>v. v \<noteq> [] \<and> \<not> equal_fold v target) (map trim_space (split_on (CHR '','') raw))))"

definition clean_user :: "string \<Rightarrow> user \<Rightarrow> user" where
  "clean_user iccid u = u\<lparr>u_allowed_modems := remove_iccid_from_allowed_list (u_allowed_modems u) iccid\<rparr>"

text \<open>The users are updated one by one; the deleted ones are not among them.\<close>

fun clean_users :: "faults \<Rightarrow> string \<Rightarrow> user list \<Rightarrow> database \<Rightarrow> database result" where
  "clean_users faults iccid [] db = Inr db"
| "clean_users faults iccid (u # us) db =
     (if remove_iccid_from_allowed_list (u_allowed_modems u) iccid = u_allowed_modems u then clean_users faults iccid us db
      else
        and_then (db_call faults (''delete.user.'' @ go_itoa (u_id u))
            (db\<lparr>t_users := update_where (\<lambda>v. u_id v = u_id u) (clean_user iccid) (t_users db)\<rparr>))
          (clean_users faults iccid us))"

definition delete_modem_rows :: "faults \<Rightarrow> string \<Rightarrow> database \<Rightarrow> database result" where
  "delete_modem_rows faults iccid db =
     and_then (db_call faults ''delete.begin'' ()) (\<lambda>_.
     and_then (db_call faults ''delete.sms'' (db\<lparr>t_sms := filter (\<lambda>s. s_iccid s \<noteq> iccid) (t_sms db)\<rparr>)) (\<lambda>db1.
     and_then (db_call faults ''delete.webhooks'' (db1\<lparr>t_webhooks := filter (\<lambda>w. w_iccid w \<noteq> iccid) (t_webhooks db1)\<rparr>)) (\<lambda>db2.
     and_then (db_call faults ''delete.bay'' (db2\<lparr>t_bays := update_where (\<lambda>b. b_current_iccid b = iccid)
                 (\<lambda>b. b\<lparr>b_current_iccid := []\<rparr>) (t_bays db2)\<rparr>)) (\<lambda>db3.
     and_then (db_call faults ''delete.rules'' (db3\<lparr>t_permissions := filter (\<lambda>r. p_iccid r \<noteq> iccid) (t_permissions db3)\<rparr>)) (\<lambda>db4.
     and_then (db_call faults ''delete.modem'' (db4\<lparr>t_modems := filter (\<lambda>m. m_iccid m \<noteq> iccid) (t_modems db4)\<rparr>)) (\<lambda>db5.
     and_then (db_call faults ''delete.users'' (filter (\<lambda>u. u_deleted_at u = None) (t_users db5))) (\<lambda>us.
     and_then (clean_users faults iccid us db5) (\<lambda>db6.
     db_call faults ''delete.commit'' db6))))))))"

text \<open>
  The worker goes first, outside the transaction; \<open>port\<close> is where the manager finds it. What the handler
  does to the calls of the SIM before is in \<open>Call_Api\<close>.
\<close>

definition delete_modem ::
  "faults \<Rightarrow> actor option \<Rightarrow> string \<Rightarrow> string option \<Rightarrow> manager \<times> database \<Rightarrow> (manager \<times> database) \<times> string reply" where
  "delete_modem faults actor iccid0 port s =
     admin_required actor s (\<lambda>(mg, db).
       let iccid = trim_space iccid0
       in if iccid = [] then ((mg, db), Refused 400 ''iccid is required'')
          else
            (let mg' = fst (remove_worker port iccid mg)
             in case delete_modem_rows faults iccid db of
                  Inl e \<Rightarrow> ((mg', db), Refused 500 e) | Inr db' \<Rightarrow> ((mg', db'), Answered 200 iccid)))"

subsection \<open>Commands for the worker\<close>

text \<open>
  The worker that is found, with its database, or none; \<open>none\<close> is the answer when the modem is not active.
\<close>

definition with_worker :: "int \<Rightarrow> string \<Rightarrow> (wstate \<Rightarrow> wstate \<times> 'a reply) \<Rightarrow> wstate option \<Rightarrow> wstate option \<times> 'a reply" where
  "with_worker st msg h w =
     (case w of None \<Rightarrow> (None, Refused st msg) | Some s \<Rightarrow> (case h s of (s', r) \<Rightarrow> (Some s', r)))"

definition not_active :: string where
  "not_active = ''Modem not active (worker not found)''"

definition answered :: "string \<Rightarrow> int \<Rightarrow> wstate \<times> 'a result \<Rightarrow> wstate \<times> 'a reply" where
  "answered what st r = (case r of (s, Inl e) \<Rightarrow> (s, Refused 500 (what @ e)) | (s, Inr x) \<Rightarrow> (s, Answered st x))"

definition api_scan_networks :: "worker_env \<Rightarrow> actor option \<Rightarrow> wstate option \<Rightarrow> wstate option \<times> string list reply" where
  "api_scan_networks env actor w =
     admin_required actor w (with_worker 404 not_active (\<lambda>s. answered ''Scan failed: '' 200 (scan_networks env s)))"

definition api_set_operator :: "worker_env \<Rightarrow> actor option \<Rightarrow> string result \<Rightarrow> wstate option \<Rightarrow> wstate option \<times> unit reply" where
  "api_set_operator env actor req w =
     admin_required actor w (\<lambda>w. case req of Inl e \<Rightarrow> (w, Refused 400 e)
       | Inr oper \<Rightarrow> with_worker 404 not_active (\<lambda>s. answered ''Set operator failed: '' 200 (set_operator env oper s)) w)"

definition execute_command ::
  "worker_env \<Rightarrow> faults \<Rightarrow> database \<Rightarrow> actor option \<Rightarrow> string \<Rightarrow> string result \<Rightarrow> wstate option \<Rightarrow> wstate option \<times> string reply" where
  "execute_command env faults db actor iccid req w =
     enforced faults db actor iccid perm_send_at w (\<lambda>w. case req of Inl e \<Rightarrow> (w, Refused 400 e)
       | Inr cmd \<Rightarrow> with_worker 404 not_active (\<lambda>s. answered [] 200 (execute_at env cmd s)) w)"

definition check_balance ::
  "worker_env \<Rightarrow> faults \<Rightarrow> database \<Rightarrow> actor option \<Rightarrow> string \<Rightarrow> wstate option \<Rightarrow> wstate option \<times> unit reply" where
  "check_balance env faults db actor iccid w =
     enforced faults db actor iccid perm_send_at w (with_worker 404 not_active (\<lambda>s.
       case request_balance env s of
         (s', Inl e) \<Rightarrow> (s', if e = err_balance_check_in_progress then Refused 409 ''Balance check already in progress''
                             else Refused 500 (''Balance check failed: '' @ e))
       | (s', Inr _) \<Rightarrow> (s', Answered 202 ())))"

definition phone_lookup ::
  "worker_env \<Rightarrow> faults \<Rightarrow> database \<Rightarrow> actor option \<Rightarrow> string \<Rightarrow> wstate option \<Rightarrow> wstate option \<times> unit reply" where
  "phone_lookup env faults db actor iccid w =
     enforced faults db actor iccid perm_send_at w (with_worker 409 ''modem offline'' (\<lambda>s.
       case request_phone_number (execute_at env) env s of
         (s', Inl e) \<Rightarrow> (s', if e = ''no phone lookup code'' then Refused 400 e else Refused 500 (''Phone lookup failed: '' @ e))
       | (s', Inr _) \<Rightarrow> (s', Answered 202 ())))"

definition api_phone_history ::
  "faults \<Rightarrow> actor option \<Rightarrow> string \<Rightarrow> database \<Rightarrow> phone_number_history list reply" where
  "api_phone_history faults actor iccid db =
     snd (enforced faults db actor iccid perm_view_sms () (\<lambda>_.
       case phone_history faults iccid db of
         Inl _ \<Rightarrow> ((), Refused 500 ''Failed to load phone history'') | Inr rows \<Rightarrow> ((), Answered 200 rows)))"

definition api_send_sms ::
  "worker_env \<Rightarrow> faults \<Rightarrow> database \<Rightarrow> actor option \<Rightarrow> string \<Rightarrow> (string \<times> string) result \<Rightarrow> wstate option \<Rightarrow>
     wstate option \<times> unit reply" where
  "api_send_sms env faults db actor iccid req w =
     enforced faults db actor iccid perm_send_sms w (\<lambda>w. case req of Inl e \<Rightarrow> (w, Refused 400 e)
       | Inr (phone, message) \<Rightarrow>
           if phone = [] then (w, Refused 400 ''Phone number is required'')
           else if message = [] then (w, Refused 400 ''Message is required'')
           else with_worker 404 not_active (\<lambda>s. answered ''Send SMS failed: '' 200 (send_sms env phone message s)) w)"

subsection \<open>What a deletion leaves\<close>

lemma clean_user_simps [simp]:
  "u_id (clean_user c u) = u_id u" "u_deleted_at (clean_user c u) = u_deleted_at u" "is_admin (clean_user c u) = is_admin u"
  by (simp_all add: clean_user_def is_admin_def)

definition clean_row :: "string \<Rightarrow> user \<Rightarrow> user" where
  "clean_row iccid u = (if u_deleted_at u = None then clean_user iccid u else u)"

lemma clean_user_same: "remove_iccid_from_allowed_list (u_allowed_modems u) c = u_allowed_modems u \<Longrightarrow> clean_user c u = u"
  by (simp add: clean_user_def)

text \<open>Going through the users updates exactly the listed rows.\<close>

lemma clean_users_result:
  assumes "clean_users faults c us db = Inr db'" "distinct (map u_id (t_users db))" "set us \<subseteq> set (t_users db)" "distinct us"
  shows "db' = db\<lparr>t_users := map (\<lambda>u. if u \<in> set us then clean_user c u else u) (t_users db)\<rparr>"
  using assms
proof (induction us arbitrary: db)
  case (Cons u us)
  have inj: "v = w" if "v \<in> set (t_users db)" "w \<in> set (t_users db)" "u_id v = u_id w" for v w
    using that Cons.prems(2) by (auto simp: distinct_map inj_on_def)
  show ?case
  proof (cases "remove_iccid_from_allowed_list (u_allowed_modems u) c = u_allowed_modems u")
    case True
    with Cons.prems have "db' = db\<lparr>t_users := map (\<lambda>v. if v \<in> set us then clean_user c v else v) (t_users db)\<rparr>"
      by (intro Cons.IH) auto
    with clean_user_same [OF True] show ?thesis by (auto intro!: arg_cong [where f = "\<lambda>x. db\<lparr>t_users := x\<rparr>"])
  next
    case False
    let ?d = "db\<lparr>t_users := update_where (\<lambda>v. u_id v = u_id u) (clean_user c) (t_users db)\<rparr>"
    from False Cons.prems(1) have step: "clean_users faults c us ?d = Inr db'"
      by (auto simp: and_then_Inr_iff db_call_Inr_iff)
    have row: "update_where (\<lambda>v. u_id v = u_id u) (clean_user c) (t_users db) = map (\<lambda>v. if v = u then clean_user c v else v) (t_users db)"
      using inj Cons.prems(3) by (auto simp: update_where_def)
    have ids: "map u_id (t_users ?d) = map u_id (t_users db)" by (simp add: row comp_def if_distrib [of u_id])
    have sub: "set us \<subseteq> set (t_users ?d)"
    proof
      fix v assume v: "v \<in> set us"
      with Cons.prems(3,4) have "v \<in> set (t_users db)" "v \<noteq> u" by auto
      then show "v \<in> set (t_users ?d)" by (auto simp: row)
    qed
    have fresh: "clean_user c u \<notin> set us"
    proof
      assume a: "clean_user c u \<in> set us"
      then have "clean_user c u \<in> set (t_users db)" "u \<in> set (t_users db)" using Cons.prems(3) by auto
      then have "clean_user c u = u" by (rule inj) simp
      with a Cons.prems(4) show False by simp
    qed
    have "db' = ?d\<lparr>t_users := map (\<lambda>v. if v \<in> set us then clean_user c v else v) (t_users ?d)\<rparr>"
      using step Cons.prems sub ids by (intro Cons.IH) auto
    also have "\<dots> = db\<lparr>t_users := map (\<lambda>v. if v \<in> set (u # us) then clean_user c v else v) (t_users db)\<rparr>"
      using fresh Cons.prems(4) by (auto simp: row)
    finally show ?thesis .
  qed
qed simp

text \<open>What the tables are after a deletion.\<close>

definition without_sim :: "string \<Rightarrow> database \<Rightarrow> database" where
  "without_sim c db = db\<lparr>t_sms := filter (\<lambda>s. s_iccid s \<noteq> c) (t_sms db),
     t_webhooks := filter (\<lambda>w. w_iccid w \<noteq> c) (t_webhooks db),
     t_bays := update_where (\<lambda>b. b_current_iccid b = c) (\<lambda>b. b\<lparr>b_current_iccid := []\<rparr>) (t_bays db),
     t_permissions := filter (\<lambda>r. p_iccid r \<noteq> c) (t_permissions db),
     t_modems := filter (\<lambda>m. m_iccid m \<noteq> c) (t_modems db),
     t_users := map (clean_row c) (t_users db)\<rparr>"

lemma delete_modem_rows_result:
  assumes "delete_modem_rows faults c db = Inr db'" "distinct (map u_id (t_users db))"
  shows "db' = without_sim c db"
proof -
  from assms(1) obtain db5 where db5: "db5 = (without_sim c db)\<lparr>t_users := t_users db\<rparr>"
    and cl: "clean_users faults c (filter (\<lambda>u. u_deleted_at u = None) (t_users db)) db5 = Inr db'"
    by (auto simp: delete_modem_rows_def and_then_Inr_iff db_call_Inr_iff without_sim_def)
  have "distinct (t_users db)" using assms(2) by (simp add: distinct_map)
  with clean_users_result [OF cl] assms(2)
  have "db' = db5\<lparr>t_users := map (\<lambda>u. if u \<in> set (filter (\<lambda>u. u_deleted_at u = None) (t_users db)) then clean_user c u else u) (t_users db)\<rparr>"
    by (simp add: db5 without_sim_def)
  also have "\<dots> = without_sim c db"
    by (auto simp: db5 without_sim_def clean_row_def intro!: arg_cong2 [where f = "\<lambda>x y. y\<lparr>t_users := x\<rparr>"])
  finally show ?thesis .
qed

definition trimmed_item :: "string \<Rightarrow> bool" where
  "trimmed_item v \<longleftrightarrow> v \<noteq> [] \<and> trim_space v = v \<and> CHR '','' \<notin> set v"

lemma trimmed_ends: "trim_space v = v \<Longrightarrow> v \<noteq> [] \<Longrightarrow> \<not> is_space (hd v) \<and> \<not> is_space (last v)"
proof -
  assume v: "trim_space v = v" "v \<noteq> []"
  then have t: "trim_right is_space (dropWhile is_space v) = v" by (simp add: trim_space_def trim_by_def)
  have d: "dropWhile is_space v \<noteq> []"
  proof
    assume "dropWhile is_space v = []"
    with t have "trim_right is_space [] = v" by simp
    with v(2) show False by (simp add: trim_right_def)
  qed
  then have "\<not> is_space (hd (dropWhile is_space v))" by (rule hd_dropWhile)
  moreover have "hd (dropWhile is_space v) = hd v" using trim_right_hd [of is_space "dropWhile is_space v"] t v(2) by simp
  moreover have "\<not> is_space (last v)" using trim_right_last [of is_space "dropWhile is_space v"] t v(2) by simp
  ultimately show ?thesis by simp
qed

lemma join_ends:
  assumes "vs \<noteq> []" "list_all trimmed_item vs"
  shows "join_with '','' vs \<noteq> [] \<and> hd (join_with '','' vs) = hd (hd vs) \<and> last (join_with '','' vs) = last (last vs)"
  using assms
proof (induction vs rule: join_with.induct [where ?a0.0 = "'',''"])
  case (3 v w vs)
  then show ?case by (auto simp: trimmed_item_def)
qed (auto simp: trimmed_item_def)

lemma trim_join:
  assumes "list_all trimmed_item vs"
  shows "trim_space (join_with '','' vs) = join_with '','' vs"
proof (cases "vs = []")
  case False
  then have "hd vs \<in> set vs" "last vs \<in> set vs" by simp_all
  with assms have "trimmed_item (hd vs)" "trimmed_item (last vs)" by (simp_all add: list_all_iff)
  with join_ends [OF False assms] trimmed_ends show ?thesis
    by (intro trim_space_id) (auto simp: trimmed_item_def)
qed simp

lemma split_join_allowed:
  assumes "list_all trimmed_item vs"
  shows "split_and_trim_allowed (join_with '','' vs) = vs"
proof (cases "vs = []")
  case False
  have s: "split_on (CHR '','') (join_with [CHR '',''] vs) = vs"
    using False assms by (intro split_join) (auto simp: trimmed_item_def list_all_iff)
  have m: "map trim_space vs = vs" "filter (\<lambda>p. p \<noteq> []) vs = vs"
    using assms by (auto simp: trimmed_item_def list_all_iff intro: map_idI filter_True)
  have "join_with '','' vs = wildcard \<Longrightarrow> vs = [wildcard]"
    using s by (auto simp: wildcard_def)
  with s m join_ends [OF False assms] show ?thesis
    by (auto simp: split_and_trim_allowed_def Let_def trim_join [OF assms])
qed (simp add: split_and_trim_allowed_def)

lemma removed_allowed:
  assumes "trim_space raw \<noteq> wildcard" "trim_space c \<noteq> []"
  shows "split_and_trim_allowed (remove_iccid_from_allowed_list raw c) =
    filter (\<lambda>v. \<not> equal_fold v (trim_space c)) (split_and_trim_allowed raw)"
proof (cases "trim_space raw = []")
  case True
  then show ?thesis by (simp add: remove_iccid_from_allowed_list_def split_and_trim_allowed_def Let_def)
next
  case False
  let ?vs = "filter (\<lambda>v. v \<noteq> [] \<and> \<not> equal_fold v (trim_space c)) (map trim_space (split_on (CHR '','') (trim_space raw)))"
  have no_comma: "CHR '','' \<notin> set (trim_space x)" if "x \<in> set (split_on (CHR '','') (trim_space raw))" for x
  proof -
    have "set (trim_space x) \<subseteq> set x"
      by (auto simp: trim_space_def trim_by_def trim_right_def dest!: set_dropWhileD)
    with split_on_no_sep [OF that] show ?thesis by blast
  qed
  then have "list_all trimmed_item ?vs" by (auto simp: trimmed_item_def list_all_iff)
  from split_join_allowed [OF this] False assms show ?thesis
    by (simp add: remove_iccid_from_allowed_list_def split_and_trim_allowed_def Let_def filter_filter comp_def)
qed

lemma equal_fold_refl [simp]: "equal_fold s s"
  by (simp add: equal_fold_def)

text \<open>A user whose list named the SIM has lost it, unless the list is the wildcard or contains it.\<close>

lemma cleaned_user_access:
  assumes "\<not> is_admin u" "wildcard \<notin> set (split_and_trim_allowed (u_allowed_modems u))" "trim_space c = c" "c \<noteq> []"
  shows "\<not> user_can_access_iccid (clean_user c u) c"
proof -
  have "trim_space (u_allowed_modems u) \<noteq> wildcard"
    using assms(2) by (auto simp: split_and_trim_allowed_def Let_def wildcard_def)
  from removed_allowed [OF this, of c] assms show ?thesis
    by (auto simp: user_can_access_iccid_def clean_user_def is_admin_def list_ex_iff)
qed

text \<open>
  C24: a deletion that succeeds leaves the database without the SIM: its messages, webhooks, rules and row
  are gone, its bay is empty, the lists of the users no longer name it, so that no user without the wildcard
  who is not an admin has access to it; everything else is as before. A deletion that fails leaves the
  database as it was.
\<close>

theorem delete_modem_result:
  assumes "distinct (map u_id (t_users db))"
  shows "case delete_modem faults actor iccid port (mg, db) of
      ((_, db'), Refused _ _) \<Rightarrow> db' = db
    | ((_, db'), Answered _ c) \<Rightarrow> c = trim_space iccid \<and> c \<noteq> [] \<and> (\<exists>a. actor = Some a \<and> is_admin (ac_user a)) \<and>
        db' = without_sim c db \<and>
        filter (\<lambda>u. u_deleted_at u = None \<and> \<not> is_admin u \<and> wildcard \<notin> set (split_and_trim_allowed (u_allowed_modems u)) \<and>
          user_can_access_iccid u c) (t_users db') = []"
proof -
  obtain s' r where d: "delete_modem faults actor iccid port (mg, db) = (s', r)" by fastforce
  show ?thesis
  proof (cases r)
    case (Refused st msg)
    with d show ?thesis
      by (auto simp: delete_modem_def admin_required_def Let_def split: option.splits if_splits sum.splits)
  next
    case (Answered st c)
    with d obtain a mg' db' where x: "actor = Some a" "is_admin (ac_user a)" "c = trim_space iccid" "c \<noteq> []"
      "s' = (mg', db')" "delete_modem_rows faults c db = Inr db'"
      by (auto simp: delete_modem_def admin_required_def Let_def split: option.splits if_splits sum.splits)
    have w: "db' = without_sim c db" by (rule delete_modem_rows_result [OF x(6) assms])
    have "\<not> user_can_access_iccid v c"
      if v: "v \<in> set (t_users db')" "u_deleted_at v = None" "\<not> is_admin v"
        "wildcard \<notin> set (split_and_trim_allowed (u_allowed_modems v))" for v
    proof -
      from v(1,2) obtain u where u: "u \<in> set (t_users db)" "v = clean_user c u"
        by (auto simp: w without_sim_def clean_row_def split: if_splits)
      have c: "trim_space c = c" by (simp add: x(3))
      show ?thesis
      proof (cases "wildcard \<in> set (split_and_trim_allowed (u_allowed_modems u))")
        case False
        with v(3) u(2) c x(4) show ?thesis by (simp add: cleaned_user_access)
      next
        case True
        then show ?thesis
        proof (cases "trim_space (u_allowed_modems u) = wildcard")
          case True
          then have "v\<lparr>u_allowed_modems := []\<rparr> = v\<lparr>u_allowed_modems := []\<rparr> \<and> u_allowed_modems v = wildcard"
            by (simp add: u(2) clean_user_def remove_iccid_from_allowed_list_def Let_def)
          with v(4) show ?thesis by (simp add: split_and_trim_allowed_def wildcard_def trim_space_def trim_by_def
                trim_right_def is_space_def go_spaces_def)
        next
          case False
          from removed_allowed [OF False, of c] c x(4) v(3,4) u(2) show ?thesis
            by (auto simp: user_can_access_iccid_def clean_user_def list_ex_iff)
        qed
      qed
    qed
    with d Answered x w show ?thesis by (auto simp: filter_empty_conv)
  qed
qed

definition demo_db :: database where
  "demo_db = empty_db\<lparr>t_modems := [new_modem ''c1'', new_modem ''c2''],
     t_users := [\<lparr> u_id = 1, u_username = ''root'', u_password_hash = [], u_role = ''admin'', u_allowed_modems = [], u_deleted_at = None \<rparr>,
                 \<lparr> u_id = 2, u_username = ''ann'', u_password_hash = [], u_role = ''user'', u_allowed_modems = ''c1, c2'', u_deleted_at = None \<rparr>],
     t_permissions := [\<lparr> p_user_id = 2, p_iccid = ''c1'', p_can_make_call = False, p_can_view_sms = True, p_can_send_sms = False,
                 p_can_send_at = False \<rparr>]\<rparr>"

definition demo_root :: actor where
  "demo_root = \<lparr> ac_user = hd (t_users demo_db), ac_key = None \<rparr>"

theorem delete_modem_result_witness:
  "snd (fst (delete_modem no_faults (Some demo_root) ''c1'' None (empty_manager, demo_db))) = without_sim ''c1'' demo_db \<and>
   map u_allowed_modems (t_users (without_sim ''c1'' demo_db)) = [[], ''c2'']"
proof -
  have d: "distinct (map u_id (t_users demo_db))" by (simp add: demo_db_def)
  have u: "map u_allowed_modems (t_users (without_sim ''c1'' demo_db)) = [[], ''c2'']" by code_simp
  have r: "snd (delete_modem no_faults (Some demo_root) ''c1'' None (empty_manager, demo_db)) = Answered 200 ''c1''"
    by code_simp
  have "snd (fst (delete_modem no_faults (Some demo_root) ''c1'' None (empty_manager, demo_db))) = without_sim ''c1'' demo_db"
    using delete_modem_result [OF d, where faults = no_faults and actor = "Some demo_root" and iccid = "''c1''" and port = None
      and mg = empty_manager] r
    by (simp split: prod.splits reply.splits)
  with u show ?thesis by blast
qed

text \<open>
  A user without rules has every permission on the SIMs of the list. The only rule of a user goes with the
  SIM it is about, and so the user gains every permission on the other SIMs.
\<close>

lemma deletion_widens_permissions:
  "(let ann = \<lparr> ac_user = t_users demo_db ! 1, ac_key = None \<rparr>; db' = without_sim ''c1'' demo_db
    in actor_can_access no_faults demo_db (Some ann) ''c2'' perm_send_at = Denied 403 ''Permission denied for this modem'' \<and>
       actor_can_access no_faults db' (Some \<lparr> ac_user = t_users db' ! 1, ac_key = None \<rparr>) ''c2'' perm_send_at = Granted)"
  by code_simp

subsection \<open>The fixed ports of the SIP lines\<close>

definition ports_unique :: "modem list \<Rightarrow> bool" where
  "ports_unique ms \<longleftrightarrow>
     (\<forall>m \<in> set ms. \<forall>n \<in> set ms. 0 < m_sip_listen_port m \<and> m_sip_listen_port m = m_sip_listen_port n \<longrightarrow> m_iccid m = m_iccid n)"

lemma apply_update_simps [simp]:
  "m_iccid (apply_update r t m) = m_iccid m" "m_sip_listen_port (apply_update r t m) = um_sip_listen_port r"
  by (simp_all add: apply_update_def Let_def)

lemma update_ports_unique:
  assumes "ports_unique (t_modems db)" "faults ''modem.port_count'' = None"
    and "\<not> port_conflict faults c (um_sip_listen_port r) db"
  shows "ports_unique (t_modems (update_modem_row c (apply_update r t) db))"
proof -
  have f: "m_sip_listen_port m \<noteq> um_sip_listen_port r"
    if "m \<in> set (t_modems db)" "m_iccid m \<noteq> c" "0 < um_sip_listen_port r" for m
    using assms(2,3) that by (auto simp: port_conflict_def db_or_def count_rows_0_iff)
  show ?thesis
  proof (unfold ports_unique_def, intro ballI impI, elim conjE)
    fix m n assume m: "m \<in> set (t_modems (update_modem_row c (apply_update r t) db))"
      and n: "n \<in> set (t_modems (update_modem_row c (apply_update r t) db))"
      and p: "0 < m_sip_listen_port m" "m_sip_listen_port m = m_sip_listen_port n"
    from m obtain x where x: "x \<in> set (t_modems db)" "m = (if m_iccid x = c then apply_update r t x else x)"
      by (auto simp: update_modem_row_def set_update_where)
    from n obtain y where y: "y \<in> set (t_modems db)" "n = (if m_iccid y = c then apply_update r t y else y)"
      by (auto simp: update_modem_row_def set_update_where)
    show "m_iccid m = m_iccid n"
    proof (cases "m_iccid x = c")
      case True
      with x y p f [OF y(1)] show ?thesis by (cases "m_iccid y = c") auto
    next
      case False
      then have mx: "m = x" using x(2) by simp
      have "m_iccid y \<noteq> c"
      proof
        assume "m_iccid y = c"
        with y(2) have "m_sip_listen_port n = um_sip_listen_port r" by simp
        with f [OF x(1) False] p mx show False by simp
      qed
      then have ny: "n = y" using y(2) by simp
      from assms(1) x(1) y(1) p show ?thesis unfolding mx ny ports_unique_def by blast
    qed
  qed
qed

lemma settings_result:
  "fst (update_modem_settings faults wk line u c req db) = db \<or>
   (\<exists>r t. \<not> port_conflict faults c (um_sip_listen_port r) db \<and>
      fst (update_modem_settings faults wk line u c req db) = update_modem_row c (apply_update r t) db)"
proof (cases "\<exists>a r m. u = Some a \<and> is_admin a \<and> req = Inr r \<and> find_by_iccid faults c db = Inr m \<and> settings_error faults c r db = None")
  case False
  then show ?thesis
    by (intro disjI1) (cases u; cases req; cases "find_by_iccid faults c db"; force simp: update_modem_settings_def)
next
  case True
  then obtain a r m where x: "u = Some a" "is_admin a" "req = Inr r" "find_by_iccid faults c db = Inr m"
    "settings_error faults c r db = None" by blast
  from x(5) have "\<not> port_conflict faults c (um_sip_listen_port r) db"
    by (simp add: settings_error_def split: if_splits)
  moreover have "fst (update_modem_settings faults wk line u c req db) = db \<or>
      fst (update_modem_settings faults wk line u c req db) = update_modem_row c (apply_update r (update_transport r)) db"
    by (simp add: update_modem_settings_def x db_call_def split: option.split)
  ultimately show ?thesis by blast
qed

text \<open>Requests for the SIP settings of several modems, in order.\<close>

fun settings_requests ::
  "(faults \<times> user option \<times> string \<times> update_modem_request result) list \<Rightarrow> (string \<Rightarrow> worker option) \<Rightarrow>
     (string \<Rightarrow> sip_line_info option) \<Rightarrow> database \<Rightarrow> database" where
  "settings_requests [] wk line db = db"
| "settings_requests ((faults, u, c, req) # rs) wk line db =
     settings_requests rs wk line (fst (update_modem_settings faults wk line u c req db))"

text \<open>
  C25: no sequence of changes of SIP settings, accepted or refused, gives two modems the same fixed
  listener port, as long as the query for the conflict itself does not fail.
\<close>

theorem sip_ports_stay_unique:
  assumes "ports_unique (t_modems db)" "list_all (\<lambda>x. fst x ''modem.port_count'' = None) rs"
  shows "ports_unique (t_modems (settings_requests rs wk line db))"
  using assms
proof (induction rs wk line db rule: settings_requests.induct)
  case (2 faults u c req rs wk line db)
  have "ports_unique (t_modems (fst (update_modem_settings faults wk line u c req db)))"
    using settings_result [of faults wk line u c req db] update_ports_unique [of db faults c] 2(2,3) by auto
  with 2 show ?case by simp
qed simp

definition demo_settings :: "int \<Rightarrow> update_modem_request" where
  "demo_settings p = \<lparr> um_name = [], um_sip_enabled = True, um_sip_username = ''u'', um_sip_password = [], um_sip_proxy = ''p'',
     um_sip_port = 0, um_sip_domain = [], um_sip_transport = [], um_sip_register = False, um_sip_tls_skip_verify = False,
     um_sip_listen_port = p, um_sip_accept_incoming = False, um_sip_invite_target = [] \<rparr>"

theorem sip_ports_stay_unique_witness:
  "(let rs = [(no_faults, Some (ac_user demo_root), ''c1'', Inr (demo_settings 5070)),
              (no_faults, Some (ac_user demo_root), ''c2'', Inr (demo_settings 5070))]
    in ports_unique (t_modems (settings_requests rs (\<lambda>_. None) (\<lambda>_. None) demo_db)) \<and>
       map m_sip_listen_port (t_modems (settings_requests rs (\<lambda>_. None) (\<lambda>_. None) demo_db)) = [5070, 0])"
  (is "let rs = ?rs in _")
proof -
  have p: "ports_unique (t_modems demo_db)" by (simp add: ports_unique_def demo_db_def new_modem_def)
  have f: "list_all (\<lambda>x. fst x ''modem.port_count'' = None) ?rs" by (simp add: no_faults_def)
  have m: "map m_sip_listen_port (t_modems (settings_requests ?rs (\<lambda>_. None) (\<lambda>_. None) demo_db)) = [5070, 0]" by code_simp
  from sip_ports_stay_unique [OF p f, of "\<lambda>_. None" "\<lambda>_. None"] m show ?thesis unfolding Let_def by (rule conjI)
qed

end
