(* ===== verification/G711.thy ===== *)
theory G711
  imports Smsie_Prelude
begin

text \<open>
  \<open>internal/calling/ulaw.go\<close>: the G.711 codecs between the 16-bit samples of the audio device and the
  bytes of RTP. Samples are \<open>16 word\<close> read as signed, bytes \<open>8 word\<close>; the arithmetic in between is Go's
  \<open>int\<close>, and no value leaves its range.
\<close>

unbundle bit_operations_syntax

type_synonym sample = "16 word"
type_synonym byte = "8 word"

definition ulaw_bias :: int where "ulaw_bias = 0x84"
definition ulaw_clip :: int where "ulaw_clip = 32635"

text \<open>The loop that looks for the highest set bit: \<open>exponent\<close> counts down while its mask misses \<open>s\<close>.\<close>

fun ulaw_exponent :: "nat \<Rightarrow> int \<Rightarrow> int \<Rightarrow> nat" where
  "ulaw_exponent 0 msk s = 0"
| "ulaw_exponent (Suc e) msk s = (if s AND msk = 0 then ulaw_exponent e (drop_bit 1 msk) s else Suc e)"

definition linear_to_ulaw :: "sample \<Rightarrow> byte" where
  "linear_to_ulaw smp =
     (let s0 = sint smp;
          sign = (if s0 < 0 then 0x80 else 0 :: int);
          s1 = (if s0 < 0 then - s0 else s0);
          s2 = (if s1 > ulaw_clip then ulaw_clip else s1) + ulaw_bias;
          e = ulaw_exponent 7 0x4000 s2;
          mantissa = drop_bit (e + 3) s2 AND 0x0F
      in NOT (word_of_int (sign OR push_bit 4 (int e) OR mantissa)))"

definition clamp16 :: "int \<Rightarrow> int" where
  "clamp16 v = (let v1 = (if v > 32767 then 32767 else v) in if v1 < - 32768 then - 32768 else v1)"

definition ulaw_to_linear :: "byte \<Rightarrow> sample" where
  "ulaw_to_linear b0 =
     (let b = NOT b0;
          sign = b AND 0x80;
          e = unat (drop_bit 4 b AND 0x07);
          mantissa = b AND 0x0F;
          v = push_bit e (push_bit 3 (uint mantissa) + ulaw_bias) - ulaw_bias
      in word_of_int (clamp16 (if sign \<noteq> 0 then - v else v)))"

definition alaw_to_linear :: "byte \<Rightarrow> sample" where
  "alaw_to_linear b0 =
     (let b = b0 XOR 0x55;
          sign = b AND 0x80;
          e = unat (drop_bit 4 b AND 0x07);
          m = push_bit 4 (uint (b AND 0x0F));
          v = (if e = 0 then m + 8 else push_bit (e - 1) (m + 0x108))
      in word_of_int (clamp16 (if sign = 0 then - v else v)))"

text \<open>\<open>for v := s >> 8; v > 1 && exponent < 7; v >>= 1 { exponent++ }\<close>, with 6 rounds at most.\<close>

fun alaw_exponent :: "nat \<Rightarrow> int \<Rightarrow> nat \<Rightarrow> nat" where
  "alaw_exponent 0 v e = e"
| "alaw_exponent (Suc k) v e = (if v > 1 then alaw_exponent k (drop_bit 1 v) (Suc e) else e)"

definition linear_to_alaw :: "sample \<Rightarrow> byte" where
  "linear_to_alaw smp =
     (let s0 = sint smp;
          sign = (if s0 < 0 then 0x80 else 0 :: int);
          s1 = (if s0 < 0 then - s0 else s0);
          s = (if s1 > 32767 then 32767 else s1);
          e = (if s \<ge> 256 then alaw_exponent 6 (drop_bit 8 s) 1 else 0);
          mantissa = (if s \<ge> 256 then drop_bit (e + 3) s AND 0x0F else drop_bit 4 s)
      in word_of_int (sign OR push_bit 4 (int e) OR (mantissa AND 0x0F)) XOR 0x55)"

definition encode_ulaw :: "sample list \<Rightarrow> byte list" where "encode_ulaw = map linear_to_ulaw"
definition decode_ulaw :: "byte list \<Rightarrow> sample list" where "decode_ulaw = map ulaw_to_linear"
definition decode_alaw :: "byte list \<Rightarrow> sample list" where "decode_alaw = map alaw_to_linear"
definition encode_alaw :: "sample list \<Rightarrow> byte list" where "encode_alaw = map linear_to_alaw"

subsection \<open>Round trips\<close>

lemma ulaw_exponent_numeral:
  "ulaw_exponent (numeral k) m s = (if s AND m = 0 then ulaw_exponent (pred_numeral k) (drop_bit 1 m) s else numeral k)"
  by (simp add: numeral_eq_Suc)

lemma alaw_exponent_numeral:
  "alaw_exponent (numeral k) v e = (if v > 1 then alaw_exponent (pred_numeral k) (drop_bit 1 v) (Suc e) else e)"
  by (simp add: numeral_eq_Suc)

lemmas ulaw_eval = linear_to_ulaw_def ulaw_to_linear_def Let_def ulaw_bias_def ulaw_clip_def clamp16_def ulaw_exponent_numeral
lemmas alaw_eval = linear_to_alaw_def alaw_to_linear_def Let_def clamp16_def alaw_exponent_numeral

lemma all_bytes: "b \<in> set (map word_of_nat [0..<256])" for b :: byte
proof -
  have "unat b < 2 ^ LENGTH(8)" by (rule unsigned_less)
  then have "unat b \<in> set [0..<256]" by simp
  moreover have "b = word_of_nat (unat b)" by simp
  ultimately show ?thesis unfolding set_map by (rule rev_image_eqI)
qed

text \<open>Every byte is computed, in blocks that \<open>simp\<close> evaluates quickly.\<close>

definition byte_block :: "nat \<Rightarrow> byte list" where
  "byte_block k = map (\<lambda>i. word_of_nat (32 * k + i)) [0..<32]"

lemma byte_in_block: "b \<in> set (byte_block (unat b div 32))" for b :: byte
proof -
  have "b = word_of_nat (32 * (unat b div 32) + unat b mod 32)" by simp
  moreover have "unat b mod 32 \<in> set [0..<32]" by simp
  ultimately show ?thesis unfolding byte_block_def set_map by (rule rev_image_eqI [rotated])
qed

lemma block_bound: "unat b div 32 \<in> {0, 1, 2, 3, 4, 5, 6, 7}" for b :: byte
proof -
  have "unat b < 2 ^ LENGTH(8)" by (rule unsigned_less)
  then have "unat b div 32 < 8" by simp
  then show ?thesis by auto
qed

lemma upt_32: "[0..<32] = [0::nat,1,2,3,4,5,6,7,8,9,10,11,12,13,14,15,16,17,18,19,20,21,22,23,24,25,26,27,28,29,30,31]"
  by (simp add: upt_rec)

lemma not_one: "NOT (1::byte) = 0xFE"
  by code_simp

lemma ulaw_zero: "linear_to_ulaw (ulaw_to_linear 0) = 0"
  by code_simp

lemma ulaw_blocks:
  "list_all (\<lambda>b. linear_to_ulaw (ulaw_to_linear b) = b) (byte_block 0)"
  "list_all (\<lambda>b. linear_to_ulaw (ulaw_to_linear b) = b) (byte_block 1)"
  "list_all (\<lambda>b. linear_to_ulaw (ulaw_to_linear b) = b) (byte_block 2)"
  "list_all (\<lambda>b. linear_to_ulaw (ulaw_to_linear b) = (if b = 0x7F then 0xFF else b)) (byte_block 3)"
  "list_all (\<lambda>b. linear_to_ulaw (ulaw_to_linear b) = b) (byte_block 4)"
  "list_all (\<lambda>b. linear_to_ulaw (ulaw_to_linear b) = b) (byte_block 5)"
  "list_all (\<lambda>b. linear_to_ulaw (ulaw_to_linear b) = b) (byte_block 6)"
  "list_all (\<lambda>b. linear_to_ulaw (ulaw_to_linear b) = b) (byte_block 7)"
  by (simp add: byte_block_def upt_32 ulaw_zero; intro conjI; simp add: not_one ulaw_eval del: not_one_eq)+

lemma alaw_blocks:
  "list_all (\<lambda>b. linear_to_alaw (alaw_to_linear b) = b XOR 0x80) (byte_block 0)"
  "list_all (\<lambda>b. linear_to_alaw (alaw_to_linear b) = b XOR 0x80) (byte_block 1)"
  "list_all (\<lambda>b. linear_to_alaw (alaw_to_linear b) = b XOR 0x80) (byte_block 2)"
  "list_all (\<lambda>b. linear_to_alaw (alaw_to_linear b) = b XOR 0x80) (byte_block 3)"
  "list_all (\<lambda>b. linear_to_alaw (alaw_to_linear b) = b XOR 0x80) (byte_block 4)"
  "list_all (\<lambda>b. linear_to_alaw (alaw_to_linear b) = b XOR 0x80) (byte_block 5)"
  "list_all (\<lambda>b. linear_to_alaw (alaw_to_linear b) = b XOR 0x80) (byte_block 6)"
  "list_all (\<lambda>b. linear_to_alaw (alaw_to_linear b) = b XOR 0x80) (byte_block 7)"
  by (simp add: byte_block_def upt_32; intro conjI; simp add: alaw_eval)+

lemma no_seven_f: "unat (0x7F :: byte) div 32 = 3"
  by simp

lemma ulaw_byte: "linear_to_ulaw (ulaw_to_linear b) = (if b = 0x7F then 0xFF else b)"
proof (cases "unat b div 32 = 3")
  case True
  with byte_in_block [of b] have "b \<in> set (byte_block 3)" by simp
  with ulaw_blocks(4) show ?thesis unfolding list_all_iff by (rule bspec)
next
  case False
  with no_seven_f have "b \<noteq> 0x7F" by blast
  have "list_all (\<lambda>b. linear_to_ulaw (ulaw_to_linear b) = b) (byte_block (unat b div 32))"
    using block_bound [of b] False ulaw_blocks by (elim insertE; simp only:; simp)
  then have "linear_to_ulaw (ulaw_to_linear b) = b" using byte_in_block unfolding list_all_iff by (rule bspec)
  with \<open>b \<noteq> 0x7F\<close> show ?thesis by simp
qed

lemma alaw_byte: "linear_to_alaw (alaw_to_linear b) = b XOR 0x80"
proof -
  have "list_all (\<lambda>b. linear_to_alaw (alaw_to_linear b) = b XOR 0x80) (byte_block (unat b div 32))"
    using block_bound [of b] alaw_blocks by (elim insertE; simp only:; simp)
  then show ?thesis using byte_in_block unfolding list_all_iff by (rule bspec)
qed

text \<open>
  C26: Encoding a decoded byte stream gives the stream back for the mu-law, where the second code of
  zero becomes the first. For the A-law it gives every byte with its sign bit inverted: the encoder
  uses the sign bit the other way round than the decoder (and G.711), so a sample that is sent and
  received by this program comes back negated.
\<close>

theorem g711_roundtrip:
  "encode_ulaw (decode_ulaw bs) = map (\<lambda>b. if b = 0x7F then 0xFF else b) bs \<and>
   encode_alaw (decode_alaw bs) = map (\<lambda>b. b XOR 0x80) bs"
  by (simp add: encode_ulaw_def decode_ulaw_def encode_alaw_def decode_alaw_def ulaw_byte alaw_byte)

end
