(* ===== verification/Ring_Buffer.thy ===== *)
theory Ring_Buffer
  imports G711
begin

text \<open>
  \<open>internal/calling/ringbuffer.go\<close>: the ring of samples between the audio device and a call. Every
  operation holds the mutex from its first to its last statement, so it is one step. The contract is a
  bounded queue that forgets its oldest samples; the locale \<open>dropping_queue\<close> states it and derives what
  a sequence of operations returns, and the ring of the code interprets it.
\<close>

record ring =
  r_buf :: "sample list"
  r_head :: nat
  r_tail :: nat
  r_count :: nat
  r_shutdown :: bool

definition new_int16_ring :: "int \<Rightarrow> ring" where
  "new_int16_ring capacity =
     (let c = (if capacity < 1 then 1 else capacity)
      in \<lparr>r_buf = replicate (nat c) 0, r_head = 0, r_tail = 0, r_count = 0, r_shutdown = False\<rparr>)"

definition close_ring :: "ring \<Rightarrow> ring" where
  "close_ring r = r\<lparr>r_shutdown := True\<rparr>"

text \<open>Moving the head over the oldest sample, the body of the loop of \<open>Write\<close>, and the loop.\<close>

definition ring_skip :: "ring \<Rightarrow> ring" where
  "ring_skip r = r\<lparr>r_head := (r_head r + 1) mod length (r_buf r), r_count := r_count r - 1\<rparr>"

definition ring_put :: "sample \<Rightarrow> ring \<Rightarrow> ring" where
  "ring_put v r0 =
     (let r = (if r_count r0 = length (r_buf r0) then ring_skip r0 else r0)
      in r\<lparr>r_buf := (r_buf r)[r_tail r := v],
           r_tail := (r_tail r + 1) mod length (r_buf r), r_count := r_count r + 1\<rparr>)"

definition write_ring :: "sample list \<Rightarrow> ring \<Rightarrow> ring" where
  "write_ring data r = fold ring_put data r"

text \<open>The loop of \<open>ReadPartial\<close>: \<open>todo\<close> rounds are left and \<open>i\<close> is the next index of \<open>dst\<close>.\<close>

fun ring_get :: "nat \<Rightarrow> nat \<Rightarrow> sample list \<Rightarrow> ring \<Rightarrow> sample list \<times> ring" where
  "ring_get 0 i dst r = (dst, r)"
| "ring_get (Suc todo) i dst r = ring_get todo (i + 1) (dst[i := r_buf r ! r_head r]) (ring_skip r)"

definition read_partial :: "sample list \<Rightarrow> ring \<Rightarrow> (nat \<times> bool) \<times> sample list \<times> ring" where
  "read_partial dst r =
     (if r_shutdown r then ((0, False), dst, r)
      else if length dst = 0 \<or> r_count r = 0 then ((0, True), dst, r)
      else let n = (if length dst > r_count r then r_count r else length dst)
           in ((n, True), ring_get n 0 dst r))"

subsection \<open>The contract\<close>

datatype queue_op = Put "sample list" | Get nat | Shut

text \<open>The queue as a list, oldest first, with its capacity and whether it is closed.\<close>

type_synonym queue_view = "nat \<times> sample list \<times> bool"

fun keep_newest :: "nat \<Rightarrow> 'a list \<Rightarrow> 'a list" where
  "keep_newest c q = drop (length q - c) q"

fun queue_step :: "queue_op \<Rightarrow> queue_view \<Rightarrow> sample list option \<times> queue_view" where
  "queue_step (Put data) (c, q, sh) = (Some [], c, keep_newest c (q @ data), sh)"
| "queue_step (Get k) (c, q, sh) = (if sh then (None, c, q, sh) else (Some (take k q), c, drop k q, sh))"
| "queue_step Shut (c, q, sh) = (Some [], c, q, True)"

fun run_ops :: "('o \<Rightarrow> 's \<Rightarrow> 'a \<times> 's) \<Rightarrow> 'o list \<Rightarrow> 's \<Rightarrow> 'a list \<times> 's" where
  "run_ops f [] s = ([], s)"
| "run_ops f (op # ops) s = (let (out, s1) = f op s; (outs, s2) = run_ops f ops s1 in (out # outs, s2))"

fun step_of :: "(sample list \<Rightarrow> 'r \<Rightarrow> 'r) \<Rightarrow> (nat \<Rightarrow> 'r \<Rightarrow> sample list option \<times> 'r) \<Rightarrow> ('r \<Rightarrow> 'r) \<Rightarrow>
    queue_op \<Rightarrow> 'r \<Rightarrow> sample list option \<times> 'r" where
  "step_of put get shut (Put data) r = (Some [], put data r)"
| "step_of put get shut (Get k) r = get k r"
| "step_of put get shut Shut r = (Some [], shut r)"

locale dropping_queue =
  fixes view :: "'r \<Rightarrow> queue_view" and ok :: "'r \<Rightarrow> bool"
    and put :: "sample list \<Rightarrow> 'r \<Rightarrow> 'r" and get :: "nat \<Rightarrow> 'r \<Rightarrow> sample list option \<times> 'r" and shut :: "'r \<Rightarrow> 'r"
  assumes put_ok: "ok r \<Longrightarrow> ok (put data r)"
    and put_view: "ok r \<Longrightarrow> queue_step (Put data) (view r) = (Some [], view (put data r))"
    and get_ok: "ok r \<Longrightarrow> ok (snd (get k r))"
    and get_view: "ok r \<Longrightarrow> queue_step (Get k) (view r) = (fst (get k r), view (snd (get k r)))"
    and shut_ok: "ok r \<Longrightarrow> ok (shut r)"
    and shut_view: "ok r \<Longrightarrow> queue_step Shut (view r) = (Some [], view (shut r))"
begin

lemma step_refines:
  assumes "ok r"
  shows "ok (snd (step_of put get shut op r))"
    and "queue_step op (view r) = (fst (step_of put get shut op r), view (snd (step_of put get shut op r)))"
  using assms by (cases op; simp add: put_ok put_view get_ok get_view shut_ok shut_view del: queue_step.simps)+

lemma run_refines:
  assumes "ok r"
  shows "ok (snd (run_ops (step_of put get shut) ops r))"
    and "run_ops queue_step ops (view r) =
      (fst (run_ops (step_of put get shut) ops r), view (snd (run_ops (step_of put get shut) ops r)))"
  using assms
proof (induction ops arbitrary: r)
  case (Cons op ops)
  {
    case 1
    then show ?case using Cons.IH(1) [OF step_refines(1) [OF 1, of op]] by (simp add: split_beta)
  next
    case 2
    then show ?case using Cons.IH(2) [OF step_refines(1) [OF 2, of op]] step_refines(2) [OF 2, of op]
      by (simp add: split_beta del: queue_step.simps)
  }
qed simp_all

end

subsection \<open>The ring keeps the contract\<close>

definition ring_ok :: "ring \<Rightarrow> bool" where
  "ring_ok r \<longleftrightarrow> r_head r < length (r_buf r) \<and> r_count r \<le> length (r_buf r) \<and>
     r_tail r = (r_head r + r_count r) mod length (r_buf r)"

definition ring_items :: "ring \<Rightarrow> sample list" where
  "ring_items r = map (\<lambda>i. r_buf r ! ((r_head r + i) mod length (r_buf r))) [0..<r_count r]"

definition ring_view :: "ring \<Rightarrow> queue_view" where
  "ring_view r = (length (r_buf r), ring_items r, r_shutdown r)"

definition ring_read :: "nat \<Rightarrow> ring \<Rightarrow> sample list option \<times> ring" where
  "ring_read k r =
     (case read_partial (replicate k 0) r of ((n, ok), dst, r') \<Rightarrow> (if ok then Some (take n dst) else None, r'))"

definition ring_step :: "queue_op \<Rightarrow> ring \<Rightarrow> sample list option \<times> ring" where
  "ring_step = step_of write_ring ring_read close_ring"

lemma length_ring_items [simp]: "length (ring_items r) = r_count r"
  by (simp add: ring_items_def)

lemma mod_apart: "i < j \<Longrightarrow> j - i < n \<Longrightarrow> (h + i) mod n \<noteq> (h + j) mod (n::nat)"
  by (metis add_diff_cancel_left le_add2 less_imp_le_nat mod_eq_dvd_iff_nat nat_add_left_cancel_le
      nat_dvd_not_less zero_less_diff)

lemma ring_skip_spec:
  assumes "ring_ok r" and "0 < r_count r"
  shows "ring_ok (ring_skip r)" and "ring_items (ring_skip r) = tl (ring_items r)"
    and "length (r_buf (ring_skip r)) = length (r_buf r)" and "r_shutdown (ring_skip r) = r_shutdown r"
    and "r_buf r ! r_head r = hd (ring_items r)"
proof -
  let ?n = "length (r_buf r)"
  obtain c where c: "r_count r = Suc c" using assms(2) by (cases "r_count r") simp_all
  have shift: "(Suc (r_head r) mod ?n + i) mod ?n = (r_head r + Suc i) mod ?n" for i
    by (simp add: mod_add_left_eq)
  have "0 < ?n" using assms by (auto simp: ring_ok_def)
  then show "ring_ok (ring_skip r)" using assms(1) shift [of c] c by (auto simp: ring_ok_def ring_skip_def)
  show "ring_items (ring_skip r) = tl (ring_items r)"
    by (rule nth_equalityI) (simp_all add: ring_items_def ring_skip_def c shift nth_tl del: upt_Suc)
  show "r_buf r ! r_head r = hd (ring_items r)"
    using assms(1) c by (simp add: ring_items_def ring_ok_def hd_map upt_conv_Cons del: upt_Suc)
qed (simp_all add: ring_skip_def)

lemma ring_append_spec:
  assumes "ring_ok r" and "r_count r < length (r_buf r)"
  shows "ring_ok (ring_put v r)" and "ring_items (ring_put v r) = ring_items r @ [v]"
    and "length (r_buf (ring_put v r)) = length (r_buf r)" and "r_shutdown (ring_put v r) = r_shutdown r"
proof -
  let ?n = "length (r_buf r)"
  have room: "r_count r \<noteq> ?n" and t: "r_tail r = (r_head r + r_count r) mod ?n" and "0 < ?n"
    using assms by (auto simp: ring_ok_def)
  show "ring_ok (ring_put v r)"
    using assms room by (auto simp: ring_ok_def ring_put_def mod_Suc_eq)
  have "r_tail r \<noteq> (r_head r + i) mod ?n" if "i < r_count r" for i
    using mod_apart [of i "r_count r" ?n "r_head r"] that assms(2) t by linarith
  with room \<open>0 < ?n\<close> show "ring_items (ring_put v r) = ring_items r @ [v]"
    by (auto simp: ring_items_def ring_put_def t)
qed (simp_all add: ring_put_def ring_skip_def)

lemma ring_put_spec:
  assumes "ring_ok r"
  shows "ring_ok (ring_put v r)" and "ring_items (ring_put v r) = keep_newest (length (r_buf r)) (ring_items r @ [v])"
    and "length (r_buf (ring_put v r)) = length (r_buf r)" and "r_shutdown (ring_put v r) = r_shutdown r"
proof -
  note n = assms [unfolded ring_ok_def]
  have "ring_ok (ring_put v r) \<and> ring_items (ring_put v r) = keep_newest (length (r_buf r)) (ring_items r @ [v])"
  proof (cases "r_count r = length (r_buf r)")
    case True
    then have p: "0 < r_count r" using n by auto
    note s = ring_skip_spec [OF assms p]
    have room: "r_count (ring_skip r) < length (r_buf (ring_skip r))" using True p by (simp add: ring_skip_def)
    have "ring_put v r = ring_put v (ring_skip r)" using True room by (simp add: ring_put_def)
    with ring_append_spec [OF s(1) room, of v] s(2) show ?thesis
      using True p by (simp add: drop_Suc tl_append2 flip: length_greater_0_conv)
  next
    case False
    with n have "r_count r < length (r_buf r)" by simp
    with ring_append_spec [OF assms this, of v] show ?thesis by simp
  qed
  then show "ring_ok (ring_put v r)" "ring_items (ring_put v r) = keep_newest (length (r_buf r)) (ring_items r @ [v])"
    by blast+
qed (simp_all add: ring_put_def ring_skip_def Let_def)

lemma keep_newest_twice: "keep_newest c (keep_newest c q @ data) = keep_newest c (q @ data)"
proof (cases "length q \<le> c")
  case False
  then have n: "length (q @ data) - c = length data + (length q - c)" by simp
  have "keep_newest c (q @ data) = drop (length data) (drop (length q - c) (q @ data))"
    by (simp only: keep_newest.simps n drop_drop)
  with False show ?thesis by simp
qed simp

lemma write_ring_spec:
  assumes "ring_ok r"
  shows "ring_ok (write_ring data r) \<and> ring_items (write_ring data r) = keep_newest (length (r_buf r)) (ring_items r @ data) \<and>
    length (r_buf (write_ring data r)) = length (r_buf r) \<and> r_shutdown (write_ring data r) = r_shutdown r"
  using assms unfolding write_ring_def
proof (induction data arbitrary: r)
  case Nil
  then show ?case by (simp add: ring_ok_def)
next
  case (Cons v data)
  note p = ring_put_spec [OF Cons.prems, of v]
  from Cons.IH [OF p(1)] show ?case
    using keep_newest_twice [of "length (r_buf r)" "ring_items r @ [v]" data] by (simp add: p del: keep_newest.simps)
qed

lemma ring_get_spec:
  assumes "ring_ok r" and "todo \<le> r_count r" and "i + todo \<le> length dst"
  shows "\<exists>r'. ring_get todo i dst r = (take i dst @ take todo (ring_items r) @ drop (i + todo) dst, r') \<and>
    ring_ok r' \<and> ring_items r' = drop todo (ring_items r) \<and> length (r_buf r') = length (r_buf r) \<and> r_shutdown r' = r_shutdown r"
  using assms
proof (induction todo arbitrary: i dst r)
  case (Suc todo)
  then have p: "0 < r_count r" by simp
  note s = ring_skip_spec [OF Suc.prems(1) p]
  have q: "ring_items r = hd (ring_items r) # tl (ring_items r)" using p by (metis length_ring_items length_greater_0_conv list.collapse)
  have "todo \<le> r_count (ring_skip r)" using Suc.prems(2) by (simp add: ring_skip_def)
  from Suc.IH [OF s(1) this, of "i + 1" "dst[i := r_buf r ! r_head r]"] Suc.prems(3) show ?case
    by (simp add: s take_Suc_conv_app_nth) (metis q append_Cons append_Nil drop_Suc take_Suc_Cons)
qed simp

lemma new_int16_ring_spec:
  "ring_ok (new_int16_ring c)" "ring_view (new_int16_ring c) = (nat (max 1 c), [], False)"
  by (auto simp: new_int16_ring_def ring_ok_def ring_view_def ring_items_def Let_def)

lemma close_ring_spec: "ring_ok r \<Longrightarrow> ring_ok (close_ring r)" "ring_items (close_ring r) = ring_items r"
  by (simp_all add: close_ring_def ring_ok_def ring_items_def)

lemma ring_read_spec:
  assumes "ring_ok r"
  shows "ring_ok (snd (ring_read k r)) \<and> queue_step (Get k) (ring_view r) = (fst (ring_read k r), ring_view (snd (ring_read k r)))"
proof (cases "r_shutdown r \<or> k = 0 \<or> r_count r = 0")
  case True
  then show ?thesis using assms by (auto simp: ring_read_def read_partial_def ring_view_def ring_items_def)
next
  case False
  define n where "n = (if k > r_count r then r_count r else k)"
  have n: "n \<le> r_count r" "0 + n \<le> length (replicate k (0::sample))" by (simp_all add: n_def)
  from ring_get_spec [OF assms this] obtain r' where
    g: "ring_get n 0 (replicate k 0) r = (take n (ring_items r) @ drop n (replicate k 0), r')"
    and r': "ring_ok r'" "ring_items r' = drop n (ring_items r)" "length (r_buf r') = length (r_buf r)"
      "r_shutdown r' = r_shutdown r" by auto
  have read: "ring_read k r = (Some (take n (ring_items r)), r')"
    using False g n by (simp add: ring_read_def read_partial_def n_def Let_def min_def split: if_splits)
  have "take n (ring_items r) = take k (ring_items r)" "drop n (ring_items r) = drop k (ring_items r)"
    by (simp_all add: n_def)
  with False r' show ?thesis by (simp add: read ring_view_def)
qed

interpretation sample_ring: dropping_queue ring_view ring_ok write_ring ring_read close_ring
proof
  show "ring_ok (write_ring data r)" if "ring_ok r" for r data using write_ring_spec [OF that] by blast
  show "queue_step (Put data) (ring_view r) = (Some [], ring_view (write_ring data r))" if "ring_ok r" for r data
    using write_ring_spec [OF that, of data] by (simp add: ring_view_def)
  show "queue_step Shut (ring_view r) = (Some [], ring_view (close_ring r))" if "ring_ok r" for r
    using that by (simp add: ring_view_def close_ring_spec) (simp add: close_ring_def)
qed (use ring_read_spec close_ring_spec in blast)+

text \<open>
  C10: whatever is written, read and closed in which order, a ring made for \<open>capacity\<close> samples returns what
  a queue of that capacity (one at least) returns that drops its oldest samples when it is full: every
  read gives the oldest samples that are still held, in the order they were written, and fails once the
  ring is closed.
\<close>

theorem ring_refines_queue:
  "fst (run_ops ring_step ops (new_int16_ring capacity)) =
   fst (run_ops queue_step ops (nat (max 1 capacity), [], False))"
  using sample_ring.run_refines(2) [OF new_int16_ring_spec(1), of ops capacity]
  unfolding new_int16_ring_spec(2) ring_step_def by simp

end
