(* ===== verification/Sip_Text.thy ===== *)
theory Sip_Text
  imports Worker_Calls Ring_Buffer
begin

text \<open>
  The parts of \<open>internal/calling\<close> that only compute: the configuration (\<open>config.go\<close>), addresses,
  session descriptions (SDP), DTMF bodies, caller identity and the RTP packets of \<open>sip_client.go\<close>, and
  the payloads of \<open>webrtc_peer.go\<close>. Name resolution, the parser of addresses and the SIP library are
  arguments.
\<close>

subsection \<open>Configuration (\<open>config.go\<close>)\<close>

record audio_cfg =
  ac_device_keyword :: string
  ac_output_device_name :: string
  ac_sample_rate :: int
  ac_channels :: int
  ac_bits_per_sample :: int
  ac_capture_chunk_ms :: int
  ac_playback_chunk_ms :: int

record sip_cfg =
  sc_enabled :: bool
  sc_modem_iccid :: string
  sc_modem_iccids :: "string list"
  sc_username :: string
  sc_password :: string
  sc_proxy :: string
  sc_port :: int
  sc_domain :: string
  sc_transport :: string
  sc_tls_skip_verify :: bool
  sc_register :: bool
  sc_accept_incoming :: bool
  sc_invite_target :: string
  sc_register_expires :: int
  sc_local_host :: string
  sc_local_port :: int
  sc_rtp_bind_ip :: string
  sc_rtp_port_min :: int
  sc_rtp_port_max :: int
  sc_invite_timeout_sec :: int
  sc_dtmf_method :: string
  sc_dtmf_duration_millis :: int

definition empty_sip_cfg :: sip_cfg where
  "empty_sip_cfg =
     \<lparr>sc_enabled = False, sc_modem_iccid = [], sc_modem_iccids = [], sc_username = [], sc_password = [], sc_proxy = [],
      sc_port = 0, sc_domain = [], sc_transport = [], sc_tls_skip_verify = False, sc_register = False,
      sc_accept_incoming = False, sc_invite_target = [], sc_register_expires = 0, sc_local_host = [], sc_local_port = 0,
      sc_rtp_bind_ip = [], sc_rtp_port_min = 0, sc_rtp_port_max = 0, sc_invite_timeout_sec = 0, sc_dtmf_method = [],
      sc_dtmf_duration_millis = 0\<rparr>"

definition capture_samples :: "audio_cfg \<Rightarrow> int" where
  "capture_samples a =
     (if ac_sample_rate a \<le> 0 \<or> ac_capture_chunk_ms a \<le> 0 then 320
      else go_div (wrap64 (ac_sample_rate a * ac_capture_chunk_ms a)) 1000)"

definition playback_samples :: "audio_cfg \<Rightarrow> int" where
  "playback_samples a =
     (if ac_sample_rate a \<le> 0 \<or> ac_playback_chunk_ms a \<le> 0 then 800
      else go_div (wrap64 (ac_sample_rate a * ac_playback_chunk_ms a)) 1000)"

subsection \<open>Addresses\<close>

definition normalize_sip_transport :: "string \<Rightarrow> string" where
  "normalize_sip_transport transport =
     (let t = to_lower (trim_space transport)
      in if t = ''tcp'' then ''tcp'' else if t = ''tls'' then ''tls'' else ''udp'')"

text \<open>\<open>strings.LastIndexByte\<close> and \<open>net.SplitHostPort\<close>, whose errors the source does not tell apart.\<close>

definition last_index_of :: "char \<Rightarrow> string \<Rightarrow> nat option" where
  "last_index_of d s = map_option (\<lambda>i. length s - 1 - i) (index_of d (rev s))"

definition split_host_port :: "string \<Rightarrow> (string \<times> string) option" where
  "split_host_port s =
     (case last_index_of CHR '':'' s of
        None \<Rightarrow> None
      | Some i \<Rightarrow>
          if hd s = CHR ''[''
          then (case index_of CHR '']'' s of
                  None \<Rightarrow> None
                | Some e \<Rightarrow>
                    if Suc e \<noteq> i then None
                    else if CHR ''['' \<in> set (drop 1 s) \<or> CHR '']'' \<in> set (drop (Suc e) s) then None
                    else Some (take (e - 1) (drop 1 s), drop (Suc i) s))
          else if CHR '':'' \<in> set (take i s) then None
          else if CHR ''['' \<in> set s \<or> CHR '']'' \<in> set s then None
          else Some (take i s, drop (Suc i) s))"

definition err_proxy_required :: string where "err_proxy_required = ''sip proxy is required''"
definition err_atoi :: string where "err_atoi = ''strconv.Atoi: invalid number''"

definition parse_proxy_host_port :: "string \<Rightarrow> int \<Rightarrow> string \<Rightarrow> (string \<times> int) result" where
  "parse_proxy_host_port proxy0 port0 transport =
     (let proxy = trim_space proxy0;
          default_port = (\<lambda>p. if p \<le> 0 then (if transport = ''tls'' then 5061 else 5060) else p)
      in if proxy = [] then Inl err_proxy_required
         else case split_host_port proxy of
                None \<Rightarrow> Inr (proxy, default_port port0)
              | Some (h, p) \<Rightarrow>
                  (case go_atoi p of None \<Rightarrow> Inl err_atoi | Some n \<Rightarrow> Inr (h, default_port n)))"

definition format_bool :: "bool \<Rightarrow> string" where
  "format_bool b = (if b then ''true'' else ''false'')"

definition sip_config_fields :: "sip_cfg \<Rightarrow> string list" where
  "sip_config_fields c =
     [trim_space (sc_username c), trim_space (sc_password c), trim_space (sc_proxy c), go_itoa (sc_port c),
      trim_space (sc_domain c), normalize_sip_transport (sc_transport c), format_bool (sc_tls_skip_verify c),
      format_bool (sc_register c), format_bool (sc_accept_incoming c), trim_space (sc_invite_target c),
      go_itoa (sc_register_expires c), trim_space (sc_local_host c), go_itoa (sc_local_port c),
      trim_space (sc_rtp_bind_ip c), go_itoa (sc_rtp_port_min c), go_itoa (sc_rtp_port_max c),
      go_itoa (sc_invite_timeout_sec c), trim_space (sc_dtmf_method c), go_itoa (sc_dtmf_duration_millis c)]"

definition sip_config_signature :: "sip_cfg \<Rightarrow> string" where
  "sip_config_signature c = join_with ''|'' (sip_config_fields c)"

definition is_net_closed_error :: "bool \<Rightarrow> string \<Rightarrow> bool" where
  "is_net_closed_error is_err_closed msg \<longleftrightarrow>
     is_err_closed \<or> contains (to_lower msg) ''use of closed network connection''"

subsection \<open>Session descriptions\<close>

definition crlf :: string where "crlf = [CHR 0x0D, CHR 0x0A]"

definition local_sdp :: "int \<Rightarrow> string \<Rightarrow> int \<Rightarrow> string" where
  "local_sdp session_id media_ip port =
     ''v=0'' @ crlf @
     ''o=- '' @ go_itoa session_id @ '' '' @ go_itoa session_id @ '' IN IP4 '' @ media_ip @ crlf @
     ''s=smsie-sip'' @ crlf @
     ''c=IN IP4 '' @ media_ip @ crlf @
     ''t=0 0'' @ crlf @
     ''m=audio '' @ go_itoa port @ '' RTP/AVP 0 8 101'' @ crlf @
     ''a=rtpmap:0 PCMU/8000'' @ crlf @
     ''a=rtpmap:8 PCMA/8000'' @ crlf @
     ''a=rtpmap:101 telephone-event/8000'' @ crlf @
     ''a=fmtp:101 0-15'' @ crlf @
     ''a=ptime:20'' @ crlf @
     ''a=sendrecv'' @ crlf"

text \<open>The port of the RTP socket of the call, when it has one.\<close>

definition build_local_sdp :: "int option \<Rightarrow> int \<Rightarrow> string \<Rightarrow> string result" where
  "build_local_sdp rtp_port now_ns media_ip =
     (case rtp_port of
        None \<Rightarrow> Inl ''rtp not initialized''
      | Some port \<Rightarrow> if port \<le> 0 then Inl ''invalid local rtp port'' else Inr (local_sdp now_ns media_ip port))"

definition parse_sdp_connection_ip :: "string \<Rightarrow> string" where
  "parse_sdp_connection_ip line =
     (let fs = Go_Strings.fields (trim_space (trim_prefix line ''c='')) in if length fs < 3 then [] else fs ! 2)"

record sdp_scan =
  sd_session_ip :: string
  sd_audio_ip :: string
  sd_audio_port :: int
  sd_payloads :: "int list"
  sd_rtp_map :: "(int \<times> string) list"
  sd_in_audio :: bool

definition empty_sdp_scan :: sdp_scan where
  "empty_sdp_scan =
     \<lparr>sd_session_ip = [], sd_audio_ip = [], sd_audio_port = 0, sd_payloads = [], sd_rtp_map = [], sd_in_audio = False\<rparr>"

definition sdp_media_line :: "string \<Rightarrow> sdp_scan \<Rightarrow> sdp_scan" where
  "sdp_media_line line s0 =
     (let s = s0\<lparr>sd_in_audio := False\<rparr>;
          fs = Go_Strings.fields (trim_prefix line ''m='')
      in if length fs < 4 \<or> \<not> equal_fold (fs ! 0) ''audio'' then s
         else case go_atoi (fs ! 1) of
                None \<Rightarrow> s
              | Some port \<Rightarrow>
                  if port \<le> 0 then s
                  else s\<lparr>sd_audio_port := port,
                         sd_payloads := filter (\<lambda>v. 0 \<le> v \<and> v \<le> 127) (List.map_filter go_atoi (drop 3 fs)),
                         sd_in_audio := True\<rparr>)"

definition sdp_connection_line :: "string \<Rightarrow> sdp_scan \<Rightarrow> sdp_scan" where
  "sdp_connection_line line s =
     (let ip = parse_sdp_connection_ip line
      in if ip = [] then s
         else if sd_in_audio s then s\<lparr>sd_audio_ip := ip\<rparr> else s\<lparr>sd_session_ip := ip\<rparr>)"

definition sdp_rtpmap_line :: "string \<Rightarrow> sdp_scan \<Rightarrow> sdp_scan" where
  "sdp_rtpmap_line line s =
     (case split_two CHR '' '' (trim_space (drop (length ''a=rtpmap:'') line)) of
        [p, q] \<Rightarrow>
          (case go_atoi (trim_space p) of
             None \<Rightarrow> s
           | Some pt \<Rightarrow> s\<lparr>sd_rtp_map := (pt, to_upper (hd (split_two CHR ''/'' (trim_space q)))) # sd_rtp_map s\<rparr>)
      | _ \<Rightarrow> s)"

definition sdp_line :: "string \<Rightarrow> sdp_scan \<Rightarrow> sdp_scan" where
  "sdp_line raw s =
     (let line = trim_space raw
      in if line = [] then s
         else if has_prefix line ''m='' then sdp_media_line line s
         else if has_prefix line ''c='' then sdp_connection_line line s
         else if has_prefix (to_lower line) ''a=rtpmap:'' then sdp_rtpmap_line line s
         else s)"

definition payload_codec :: "(int \<times> string) list \<Rightarrow> int \<Rightarrow> string" where
  "payload_codec m pt =
     (let codec = (case map_of m pt of None \<Rightarrow> [] | Some c \<Rightarrow> to_upper c)
      in if codec = [] then (if pt = 0 then ''PCMU'' else if pt = 8 then ''PCMA'' else []) else codec)"

definition select_payload :: "sdp_scan \<Rightarrow> (int \<times> string) option" where
  "select_payload s =
     find (\<lambda>(pt, codec). codec = ''PCMU'' \<or> codec = ''PCMA'')
       (map (\<lambda>pt. (pt, payload_codec (sd_rtp_map s) pt)) (sd_payloads s))"

text \<open>
  A \<open>bufio.Scanner\<close> gives up on a line that fills its buffer of 64 KiB. Addresses of type \<open>'ip\<close> come from
  \<open>parse_ip\<close> (\<open>net.ParseIP\<close>) and \<open>lookup_ip\<close> (\<open>net.LookupIP\<close>, the empty list for an error).
\<close>

definition scanner_limit :: int where "scanner_limit = 65536"

definition parse_remote_sdp ::
    "(string \<Rightarrow> 'ip option) \<Rightarrow> (string \<Rightarrow> 'ip list) \<Rightarrow> string \<Rightarrow> (('ip \<times> int) \<times> int \<times> string) result" where
  "parse_remote_sdp parse_ip lookup_ip body =
     (let lines = split_on CHR 0x0A body;
          s = fold sdp_line lines empty_sdp_scan;
          ip = (if sd_audio_ip s = [] then sd_session_ip s else sd_audio_ip s)
      in if list_ex (\<lambda>l. scanner_limit \<le> int (length l)) lines then Inl ''bufio.Scanner: token too long''
         else if sd_audio_port s \<le> 0 then Inl ''remote SDP missing audio port''
         else if ip = [] then Inl ''remote SDP missing connection IP''
         else case select_payload s of
                None \<Rightarrow> Inl ''remote SDP has no PCMU/PCMA payload''
              | Some (pt, codec) \<Rightarrow>
                  (case parse_ip ip of
                     Some a \<Rightarrow> Inr ((a, sd_audio_port s), pt, codec)
                   | None \<Rightarrow>
                       (case lookup_ip ip of
                          [] \<Rightarrow> Inl (''invalid remote audio IP: '' @ ip)
                        | a # _ \<Rightarrow> Inr ((a, sd_audio_port s), pt, codec))))"

subsection \<open>Numbers, tones and identities\<close>

definition sip_dial_number_pattern :: re where
  "sip_dial_number_pattern = r_all_of dial_char"

definition dialable :: "string \<Rightarrow> bool" where
  "dialable number \<longleftrightarrow> \<not> (number = [] \<or> \<not> re_search sip_dial_number_pattern number)"

text \<open>A request of the SIP library, as far as the handlers look at it.\<close>

record sip_request =
  rq_recipient_user :: string
  rq_to_user :: "string option"
  rq_body :: string
  rq_dialog_id_uas :: "string option"
  rq_dialog_id_uac :: "string option"

definition extract_invite_number :: "sip_request option \<Rightarrow> string" where
  "extract_invite_number req =
     (case req of
        None \<Rightarrow> []
      | Some r \<Rightarrow>
          let v = trim_space (rq_recipient_user r)
          in if v \<noteq> [] then v
             else case rq_to_user r of None \<Rightarrow> [] | Some u \<Rightarrow> trim_space u)"

fun replace_crlf :: "string \<Rightarrow> string" where
  "replace_crlf (c # d # s) =
     (if c = CHR 0x0D \<and> d = CHR 0x0A then CHR 0x0A # replace_crlf s else c # replace_crlf (d # s))"
| "replace_crlf s = s"

definition dtmf_tones :: string where "dtmf_tones = ''0123456789*#''"

definition dtmf_line_tone :: "string \<Rightarrow> string option" where
  "dtmf_line_tone line =
     (case split_two CHR ''='' (trim_space line) of
        [k, v0] \<Rightarrow>
          let v = trim_space v0
          in if equal_fold (trim_space k) ''signal'' \<and> length v = 1 \<and> contains dtmf_tones v then Some v else None
      | _ \<Rightarrow> None)"

definition parse_dtmf_relay_tone :: "string \<Rightarrow> string" where
  "parse_dtmf_relay_tone body =
     (case List.map_filter dtmf_line_tone (split_on CHR 0x0A (replace_crlf body)) of [] \<Rightarrow> [] | t # _ \<Rightarrow> t)"

definition dtmf_body :: "string \<Rightarrow> int \<Rightarrow> string" where
  "dtmf_body tone duration = ''Signal='' @ tone @ crlf @ ''Duration='' @ go_itoa duration @ crlf"

definition default_dtmf_duration_ms :: int where "default_dtmf_duration_ms = 160"

text \<open>The checks of \<open>sipClientCall.SendDTMF\<close> and the body it sends; \<open>has_dialog\<close>: the call has a dialog.\<close>

definition send_dtmf_body :: "sip_cfg \<Rightarrow> bool \<Rightarrow> string \<Rightarrow> string result" where
  "send_dtmf_body cfg has_dialog tone =
     (if \<not> has_dialog then Inl ''no active sip call''
      else if length tone \<noteq> 1 then Inl ''invalid dtmf tone''
      else let m0 = to_lower (trim_space (sc_dtmf_method cfg));
               m = (if m0 = [] then ''info'' else m0);
               d = sc_dtmf_duration_millis cfg
           in if m \<noteq> ''info'' then Inl (''unsupported dtmf method: '' @ m)
              else Inr (dtmf_body tone (if d \<le> 0 then default_dtmf_duration_ms else d)))"

record sip_uri =
  u_scheme :: string
  u_user :: string
  u_host :: string
  u_params :: "(string \<times> string) list"

definition invite_target_raw :: "string \<Rightarrow> string \<Rightarrow> string" where
  "invite_target_raw target default_host =
     (if \<not> contains target '':''
      then (if contains target ''@'' then ''sip:'' @ target else ''sip:'' @ target @ ''@'' @ default_host)
      else if \<not> has_prefix (to_lower target) ''sip:'' \<and> \<not> has_prefix (to_lower target) ''sips:''
           then (if contains target ''@'' then ''sip:'' @ target else target)
           else target)"

definition build_invite_target_uri ::
    "(string \<Rightarrow> sip_uri result) \<Rightarrow> string \<Rightarrow> string \<Rightarrow> string \<Rightarrow> sip_uri result" where
  "build_invite_target_uri parse_uri target0 default_host transport =
     (let target = trim_space target0
      in if target = [] then Inl ''invite target is required''
         else case parse_uri (invite_target_raw target default_host) of
                Inl e \<Rightarrow> Inl (''invalid invite target: '' @ e)
              | Inr u0 \<Rightarrow>
                  let u1 = (if u_scheme u0 = [] then u0\<lparr>u_scheme := ''sip''\<rparr> else u0);
                      u2 = (if u_host u1 = [] then u1\<lparr>u_host := default_host\<rparr> else u1)
                  in Inr (if map_of (u_params u2) ''transport'' = None
                          then u2\<lparr>u_params := u_params u2 @ [(''transport'', transport)]\<rparr> else u2))"

definition build_incoming_caller_identity_headers ::
    "(sip_uri \<Rightarrow> string) \<Rightarrow> string \<Rightarrow> string \<Rightarrow> (string \<times> string) list" where
  "build_incoming_caller_identity_headers uri_string caller0 domain0 =
     (let caller = trim_space caller0; domain = trim_space domain0;
          v = ''<'' @ uri_string \<lparr>u_scheme = ''sip'', u_user = caller, u_host = domain, u_params = [(''user'', ''phone'')]\<rparr> @ ''>''
      in if caller = [] \<or> domain = [] then []
         else [(''P-Asserted-Identity'', v), (''Remote-Party-ID'', v @ '';party=calling;screen=yes;privacy=off'')])"

definition modem_end_reason :: "string \<Rightarrow> string" where
  "modem_end_reason reason0 =
     (let reason = trim_space reason0 in if reason = [] then ''modem_hangup'' else ''modem_'' @ reason)"

text \<open>Why an outgoing INVITE failed: its context was cancelled, a final response, or anything else.\<close>

datatype invite_error = Invite_Cancelled | Invite_Response int | Invite_Other string

definition classify_invite_failure :: "invite_error option \<Rightarrow> string" where
  "classify_invite_failure e =
     (case e of
        None \<Rightarrow> ''invite_error''
      | Some Invite_Cancelled \<Rightarrow> ''invite_cancelled''
      | Some (Invite_Response code) \<Rightarrow> ''invite_'' @ go_itoa code
      | Some (Invite_Other _) \<Rightarrow> ''invite_error'')"

subsection \<open>RTP\<close>

record rtp_packet =
  rp_payload_type :: "8 word"
  rp_sequence :: "16 word"
  rp_timestamp :: "32 word"
  rp_ssrc :: "32 word"
  rp_payload :: "byte list"

text \<open>The fields of a call that belong to its stream.\<close>

record rtp_stream =
  rs_open :: bool
  rs_remote :: bool
  rs_codec :: string
  rs_payload_type :: "8 word"
  rs_seq :: "16 word"
  rs_timestamp :: "32 word"
  rs_ssrc :: "32 word"

definition decode_sip_rtp :: "rtp_stream \<Rightarrow> 8 word \<Rightarrow> byte list \<Rightarrow> sample list option" where
  "decode_sip_rtp st pt payload =
     (if payload = [] \<or> pt = 101 then None
      else if to_upper (rs_codec st) = ''PCMA'' \<and> (pt = rs_payload_type st \<or> pt = 8) then Some (decode_alaw payload)
      else if to_upper (rs_codec st) \<noteq> ''PCMA'' \<and> (pt = rs_payload_type st \<or> pt = 0) then Some (decode_ulaw payload)
      else if pt = 0 then Some (decode_ulaw payload)
      else if pt = 8 then Some (decode_alaw payload)
      else None)"

function chunks_of :: "nat \<Rightarrow> 'a list \<Rightarrow> 'a list list" where
  "chunks_of n xs = (if n = 0 \<or> xs = [] then [] else take n xs # chunks_of n (drop n xs))"
  by auto
termination by (relation "measure (length \<circ> snd)") auto

declare chunks_of.simps [simp del]

definition rtp_frame :: nat where "rtp_frame = 160"

definition encode_chunk :: "rtp_stream \<Rightarrow> sample list \<Rightarrow> byte list" where
  "encode_chunk st chunk = (if equal_fold (rs_codec st) ''PCMA'' then encode_alaw chunk else encode_ulaw chunk)"

definition packet_of :: "rtp_stream \<Rightarrow> sample list \<Rightarrow> rtp_packet" where
  "packet_of st chunk =
     \<lparr>rp_payload_type = rs_payload_type st, rp_sequence = rs_seq st, rp_timestamp = rs_timestamp st,
      rp_ssrc = rs_ssrc st, rp_payload = encode_chunk st chunk\<rparr>"

datatype send_outcome = Packet_Sent | Marshal_Failed | Write_Failed string

text \<open>The loop of \<open>SendPCMFromUAC\<close>: the packets written, the stream afterwards, and the error if any.\<close>

fun send_frames ::
    "(rtp_packet \<Rightarrow> send_outcome) \<Rightarrow> sample list list \<Rightarrow> rtp_stream \<Rightarrow> rtp_packet list \<times> rtp_stream \<times> unit result" where
  "send_frames net [] st = ([], st, Inr ())"
| "send_frames net (chunk # rest) st =
     (case net (packet_of st chunk) of
        Marshal_Failed \<Rightarrow> send_frames net rest st
      | Write_Failed e \<Rightarrow> ([], st, Inl e)
      | Packet_Sent \<Rightarrow>
          (case send_frames net rest (st\<lparr>rs_seq := rs_seq st + 1, rs_timestamp := rs_timestamp st + of_nat (length chunk)\<rparr>) of
             (ps, st', r) \<Rightarrow> (packet_of st chunk # ps, st', r)))"

definition send_pcm_from_uac ::
    "(rtp_packet \<Rightarrow> send_outcome) \<Rightarrow> sample list \<Rightarrow> rtp_stream \<Rightarrow> rtp_packet list \<times> rtp_stream \<times> unit result" where
  "send_pcm_from_uac net samples st =
     (if samples = [] \<or> \<not> rs_open st \<or> \<not> rs_remote st then ([], st, Inr ())
      else send_frames net (chunks_of rtp_frame samples) st)"

text \<open>\<open>openRTPListener\<close>: \<open>bind\<close> tells whether a port can be opened.\<close>

fun first_port :: "(int \<Rightarrow> bool) \<Rightarrow> nat \<Rightarrow> int \<Rightarrow> int option" where
  "first_port bind 0 port = None"
| "first_port bind (Suc n) port = (if bind port then Some port else first_port bind n (port + 1))"

definition rtp_port_range :: "sip_cfg \<Rightarrow> int \<times> int" where
  "rtp_port_range cfg =
     (let lo = (if sc_rtp_port_min cfg \<le> 0 then 30000 else sc_rtp_port_min cfg)
      in (lo, if sc_rtp_port_max cfg < lo then lo else sc_rtp_port_max cfg))"

definition open_rtp_listener :: "(int \<Rightarrow> bool) \<Rightarrow> sip_cfg \<Rightarrow> int option \<Rightarrow> int result" where
  "open_rtp_listener bind cfg open_port =
     (case open_port of
        Some port \<Rightarrow> Inr port
      | None \<Rightarrow>
          (case rtp_port_range cfg of (lo, hi) \<Rightarrow>
             (case first_port bind (nat (hi - lo + 1)) lo of
                Some port \<Rightarrow> Inr port
              | None \<Rightarrow> Inl (''open rtp listener failed ('' @ go_itoa lo @ ''-'' @ go_itoa hi @ '')''))))"

text \<open>\<open>webrtc_peer.go\<close>: one packet of mu-law per frame to the browser, and the payloads from it.\<close>

definition send_pcm_to_browser ::
    "(rtp_packet \<Rightarrow> send_outcome) \<Rightarrow> sample list \<Rightarrow> 32 word \<times> 16 word \<Rightarrow> rtp_packet list \<times> (32 word \<times> 16 word) \<times> unit result" where
  "send_pcm_to_browser net samples pos =
     (case pos of (timestamp, sq) \<Rightarrow>
        let p = \<lparr>rp_payload_type = 0, rp_sequence = sq, rp_timestamp = timestamp, rp_ssrc = 1, rp_payload = encode_ulaw samples\<rparr>
        in if samples = [] then ([], pos, Inr ())
           else case net p of
                  Packet_Sent \<Rightarrow> ([p], (timestamp + of_nat (length samples), sq + 1), Inr ())
                | Marshal_Failed \<Rightarrow> ([], pos, Inl ''marshal failed'')
                | Write_Failed e \<Rightarrow> ([], pos, Inl e))"

definition decode_remote_payload :: "string \<Rightarrow> byte list \<Rightarrow> sample list result" where
  "decode_remote_payload mime payload =
     (if mime = ''audio/PCMU'' then Inr (decode_ulaw payload)
      else if mime = ''audio/PCMA'' then Inr (decode_alaw payload)
      else Inl (''unsupported incoming codec: '' @ mime))"

end
