(* ===== verification/Sip_Media.thy ===== *)
theory Sip_Media
  imports Sip_Text
begin

text \<open>
  What the texts and packets of \<open>Sip_Text\<close> promise: the bodies that are built are read back by the
  program's own parsers, a stream of samples is cut into packets without loss, a port is taken from the
  configured range, and when two configurations have the same signature.
\<close>

subsection \<open>Text that is built is read back\<close>

lemma split_on_crlf: "CHR 0x0A \<notin> set x \<Longrightarrow> split_on CHR 0x0A (x @ crlf @ s) = (x @ [CHR 0x0D]) # split_on CHR 0x0A s"
  using split_on_append [of "CHR 0x0A" "x @ [CHR 0x0D]" s] by (simp add: crlf_def)

lemma trim_right_snoc: "P c \<Longrightarrow> trim_right P (x @ [c]) = trim_right P x"
  by (simp add: trim_right_def)

lemma trim_space_cr:
  assumes "x \<noteq> []" "\<not> is_space (hd x)" "\<not> is_space (last x)"
  shows "trim_space (x @ [CHR 0x0D]) = x"
proof -
  have "is_space CHR 0x0D" by code_simp
  moreover obtain c r where "x = c # r" using assms(1) by (cases x) auto
  ultimately show ?thesis
    using assms trim_right_snoc [of is_space "CHR 0x0D" x] trim_right_id [of x is_space]
    by (simp add: trim_space_def trim_by_def)
qed

lemma fields_aux_token: "list_all (\<lambda>c. \<not> is_space c) x \<Longrightarrow> fields_aux acc (x @ s) = fields_aux (rev x @ acc) s"
  by (induction x arbitrary: acc) simp_all

lemma fields_token: "x \<noteq> [] \<Longrightarrow> list_all (\<lambda>c. \<not> is_space c) x \<Longrightarrow> Go_Strings.fields x = [x]"
  using fields_aux_token [of x "[]" "[]"] by (simp add: Go_Strings.fields_def)

lemma fields_token_space:
  "x \<noteq> [] \<Longrightarrow> list_all (\<lambda>c. \<not> is_space c) x \<Longrightarrow> is_space c \<Longrightarrow> Go_Strings.fields (x @ c # s) = x # Go_Strings.fields s"
  using fields_aux_token [of x "[]" "c # s"] by (simp add: Go_Strings.fields_def)

lemma itoa_no_space: "list_all (\<lambda>c. \<not> is_space c) (go_itoa n)" "go_itoa n \<noteq> []"
proof -
  have d: "is_digit c \<Longrightarrow> \<not> is_space c" for c
    by (auto simp: is_digit_def is_space_def go_spaces_def)
  have "\<not> is_space CHR ''-''" by code_simp
  then show "list_all (\<lambda>c. \<not> is_space c) (go_itoa n)" "go_itoa n \<noteq> []"
    using show_nat_digits d by (auto simp: go_itoa_def list_all_iff)
qed

text \<open>A token: something an address or a number may be, with no white space in it.\<close>

definition token :: "string \<Rightarrow> bool" where
  "token x \<longleftrightarrow> x \<noteq> [] \<and> list_all (\<lambda>c. \<not> is_space c) x"

lemma token_itoa [simp]: "token (go_itoa n)" by (simp add: token_def itoa_no_space)

lemma token_no_newline: "token x \<Longrightarrow> CHR 0x0A \<notin> set x"
proof -
  have "is_space CHR 0x0A" by code_simp
  then show "token x \<Longrightarrow> CHR 0x0A \<notin> set x" by (auto simp: token_def list_all_iff)
qed

lemma token_ends: "token x \<Longrightarrow> \<not> is_space (hd x) \<and> \<not> is_space (last x) \<and> x \<noteq> []"
  by (simp add: token_def list_all_iff)

lemma dtmf_tone_lines:
  assumes "t \<in> set dtmf_tones"
  shows "dtmf_line_tone (''Signal='' @ [t]) = Some [t]"
  using assms unfolding dtmf_tones_def by (auto; code_simp)

lemma replace_crlf_free: "CHR 0x0D \<notin> set x \<Longrightarrow> replace_crlf (x @ crlf @ s) = x @ CHR 0x0A # replace_crlf s"
  by (induction x rule: replace_crlf.induct) (auto simp: crlf_def)

lemma dtmf_parse:
  assumes "t \<in> set dtmf_tones"
  shows "parse_dtmf_relay_tone (dtmf_body [t] duration) = [t]"
proof -
  let ?x = "''Signal='' @ [t]" and ?y = "''Duration='' @ go_itoa duration @ crlf"
  have t: "t \<noteq> CHR 0x0D" "t \<noteq> CHR 0x0A" using assms by (auto simp: dtmf_tones_def)
  then have "replace_crlf (dtmf_body [t] duration) = ?x @ CHR 0x0A # replace_crlf ?y"
    using replace_crlf_free [of ?x ?y] by (simp add: dtmf_body_def)
  moreover have "split_on CHR 0x0A (?x @ CHR 0x0A # replace_crlf ?y) = ?x # split_on CHR 0x0A (replace_crlf ?y)"
    by (rule split_on_append) (use t in simp)
  ultimately show ?thesis
    by (simp add: parse_dtmf_relay_tone_def map_filter_simps dtmf_tone_lines [OF assms, simplified])
qed

lemma sdp_line_skip:
  "sdp_line (''v=0'' @ [CHR 0x0D]) s = s" "sdp_line (''s=smsie-sip'' @ [CHR 0x0D]) s = s"
  "sdp_line (''t=0 0'' @ [CHR 0x0D]) s = s" "sdp_line (''a=fmtp:101 0-15'' @ [CHR 0x0D]) s = s"
  "sdp_line (''a=ptime:20'' @ [CHR 0x0D]) s = s" "sdp_line (''a=sendrecv'' @ [CHR 0x0D]) s = s" "sdp_line [] s = s"
  by code_simp+

lemma sdp_line_rtpmap:
  "sdp_line (''a=rtpmap:0 PCMU/8000'' @ [CHR 0x0D]) s = s\<lparr>sd_rtp_map := (0, ''PCMU'') # sd_rtp_map s\<rparr>"
  "sdp_line (''a=rtpmap:8 PCMA/8000'' @ [CHR 0x0D]) s = s\<lparr>sd_rtp_map := (8, ''PCMA'') # sd_rtp_map s\<rparr>"
  "sdp_line (''a=rtpmap:101 telephone-event/8000'' @ [CHR 0x0D]) s =
     s\<lparr>sd_rtp_map := (101, ''TELEPHONE-EVENT'') # sd_rtp_map s\<rparr>"
  by code_simp+

lemma sdp_line_origin:
  assumes "token ip"
  shows "sdp_line (''o=- '' @ go_itoa i @ '' '' @ go_itoa i @ '' IN IP4 '' @ ip @ [CHR 0x0D]) s = s"
proof -
  have "\<not> is_space CHR ''o''" by code_simp
  then have "trim_space (''o=- '' @ go_itoa i @ '' '' @ go_itoa i @ '' IN IP4 '' @ ip @ [CHR 0x0D]) =
      ''o=- '' @ go_itoa i @ '' '' @ go_itoa i @ '' IN IP4 '' @ ip"
    using trim_space_cr [of "''o=- '' @ go_itoa i @ '' '' @ go_itoa i @ '' IN IP4 '' @ ip"] token_ends [OF assms] by simp
  then show ?thesis by (simp add: sdp_line_def has_prefix_def to_lower_def)
qed

lemma sdp_line_connection:
  assumes "token ip" and "\<not> sd_in_audio s"
  shows "sdp_line (''c=IN IP4 '' @ ip @ [CHR 0x0D]) s = s\<lparr>sd_session_ip := ip\<rparr>"
proof -
  have ch: "\<not> is_space CHR ''c''" "\<not> is_space CHR ''I''" "is_space CHR '' ''"
    "list_all (\<lambda>c. \<not> is_space c) ''IN''" "list_all (\<lambda>c. \<not> is_space c) ''IP4''" by code_simp+
  note e = token_ends [OF assms(1)]
  have t: "trim_space (''c=IN IP4 '' @ ip @ [CHR 0x0D]) = ''c=IN IP4 '' @ ip"
    using trim_space_cr [of "''c=IN IP4 '' @ ip"] ch e by simp
  have "trim_space (''IN IP4 '' @ ip) = ''IN IP4 '' @ ip" using trim_space_id [of "''IN IP4 '' @ ip"] ch e by simp
  moreover have "Go_Strings.fields (''IN IP4 '' @ ip) = [''IN'', ''IP4'', ip]"
    using fields_token_space [of "''IN''" "CHR '' ''" "''IP4 '' @ ip"] fields_token_space [of "''IP4''" "CHR '' ''" ip]
      fields_token [of ip] ch assms(1) by (simp add: token_def)
  ultimately have "parse_sdp_connection_ip (''c=IN IP4 '' @ ip) = ip"
    by (simp add: parse_sdp_connection_ip_def trim_prefix_def has_prefix_def)
  with t e assms(2) show ?thesis by (simp add: sdp_line_def has_prefix_def sdp_connection_line_def)
qed

lemma sdp_line_media:
  assumes "0 < port" and "in_int64 port"
  shows "sdp_line (''m=audio '' @ go_itoa port @ '' RTP/AVP 0 8 101'' @ [CHR 0x0D]) s =
    s\<lparr>sd_audio_port := port, sd_payloads := [0, 8, 101], sd_in_audio := True\<rparr>"
proof -
  have ch: "\<not> is_space CHR ''m''" "\<not> is_space CHR ''1''" "is_space CHR '' ''" "list_all (\<lambda>c. \<not> is_space c) ''audio''"
    "Go_Strings.fields ''RTP/AVP 0 8 101'' = [''RTP/AVP'', ''0'', ''8'', ''101'']"
    "filter (\<lambda>v. 0 \<le> v \<and> v \<le> 127) (List.map_filter go_atoi [''0'', ''8'', ''101'']) = [0, 8, 101]"
    "equal_fold ''audio'' ''audio''" by code_simp+
  have t: "trim_space (''m=audio '' @ go_itoa port @ '' RTP/AVP 0 8 101'' @ [CHR 0x0D]) =
      ''m=audio '' @ go_itoa port @ '' RTP/AVP 0 8 101''"
    using trim_space_cr [of "''m=audio '' @ go_itoa port @ '' RTP/AVP 0 8 101''"] ch by simp
  have f: "Go_Strings.fields (''audio '' @ go_itoa port @ '' RTP/AVP 0 8 101'') =
      [''audio'', go_itoa port, ''RTP/AVP'', ''0'', ''8'', ''101'']"
    using fields_token_space [of "''audio''" "CHR '' ''" "go_itoa port @ '' RTP/AVP 0 8 101''"]
      fields_token_space [of "go_itoa port" "CHR '' ''" "''RTP/AVP 0 8 101''"] ch itoa_no_space [of port] by simp
  show ?thesis
    using assms ch t f go_atoi_itoa [of port]
    by (simp add: sdp_line_def has_prefix_def sdp_media_line_def trim_prefix_def)
qed

lemma split_on_length: "l \<in> set (split_on d s) \<Longrightarrow> length l \<le> length s"
  by (induction d s arbitrary: l rule: split_on.induct)
    (auto split: if_splits list.splits intro: le_SucI)

definition local_sdp_lines :: "int \<Rightarrow> string \<Rightarrow> int \<Rightarrow> string list" where
  "local_sdp_lines i ip port =
     [''v=0'' @ [CHR 0x0D], ''o=- '' @ go_itoa i @ '' '' @ go_itoa i @ '' IN IP4 '' @ ip @ [CHR 0x0D],
      ''s=smsie-sip'' @ [CHR 0x0D], ''c=IN IP4 '' @ ip @ [CHR 0x0D], ''t=0 0'' @ [CHR 0x0D],
      ''m=audio '' @ go_itoa port @ '' RTP/AVP 0 8 101'' @ [CHR 0x0D], ''a=rtpmap:0 PCMU/8000'' @ [CHR 0x0D],
      ''a=rtpmap:8 PCMA/8000'' @ [CHR 0x0D], ''a=rtpmap:101 telephone-event/8000'' @ [CHR 0x0D],
      ''a=fmtp:101 0-15'' @ [CHR 0x0D], ''a=ptime:20'' @ [CHR 0x0D], ''a=sendrecv'' @ [CHR 0x0D], []]"

lemma local_sdp_split:
  assumes "token ip"
  shows "split_on CHR 0x0A (local_sdp i ip port) = local_sdp_lines i ip port"
proof -
  note n = token_no_newline [OF assms] token_no_newline [OF token_itoa]
  have l: "split_on CHR 0x0A (x @ crlf @ s) = (x @ [CHR 0x0D]) # t"
    if "CHR 0x0A \<notin> set x" "split_on CHR 0x0A s = t" for x s t
    using that split_on_crlf by simp
  have a: "local_sdp i ip port =
     ''v=0'' @ crlf @ (''o=- '' @ go_itoa i @ '' '' @ go_itoa i @ '' IN IP4 '' @ ip) @ crlf @ ''s=smsie-sip'' @ crlf @
     (''c=IN IP4 '' @ ip) @ crlf @ ''t=0 0'' @ crlf @ (''m=audio '' @ go_itoa port @ '' RTP/AVP 0 8 101'') @ crlf @
     ''a=rtpmap:0 PCMU/8000'' @ crlf @ ''a=rtpmap:8 PCMA/8000'' @ crlf @ ''a=rtpmap:101 telephone-event/8000'' @ crlf @
     ''a=fmtp:101 0-15'' @ crlf @ ''a=ptime:20'' @ crlf @ ''a=sendrecv'' @ crlf @ []"
    by (simp only: local_sdp_def append_assoc append_Nil2)
  have b: "local_sdp_lines i ip port =
     [''v=0'' @ [CHR 0x0D], (''o=- '' @ go_itoa i @ '' '' @ go_itoa i @ '' IN IP4 '' @ ip) @ [CHR 0x0D],
      ''s=smsie-sip'' @ [CHR 0x0D], (''c=IN IP4 '' @ ip) @ [CHR 0x0D], ''t=0 0'' @ [CHR 0x0D],
      (''m=audio '' @ go_itoa port @ '' RTP/AVP 0 8 101'') @ [CHR 0x0D], ''a=rtpmap:0 PCMU/8000'' @ [CHR 0x0D],
      ''a=rtpmap:8 PCMA/8000'' @ [CHR 0x0D], ''a=rtpmap:101 telephone-event/8000'' @ [CHR 0x0D],
      ''a=fmtp:101 0-15'' @ [CHR 0x0D], ''a=ptime:20'' @ [CHR 0x0D], ''a=sendrecv'' @ [CHR 0x0D], []]"
    by (simp only: local_sdp_lines_def append_assoc)
  show ?thesis unfolding a b by (intro l) (use n in simp_all)
qed

lemma local_sdp_scan:
  assumes "token ip" and "0 < port" and "in_int64 port"
  shows "fold sdp_line (local_sdp_lines i ip port) empty_sdp_scan =
    \<lparr>sd_session_ip = ip, sd_audio_ip = [], sd_audio_port = port, sd_payloads = [0, 8, 101],
     sd_rtp_map = [(101, ''TELEPHONE-EVENT''), (8, ''PCMA''), (0, ''PCMU'')], sd_in_audio = True\<rparr>"
  unfolding local_sdp_lines_def fold_simps empty_sdp_scan_def sdp_line_skip sdp_line_origin [OF assms(1)]
  by (subst sdp_line_connection [OF assms(1)])
     (simp_all only: sdp_line_media [OF assms(2,3)] sdp_line_skip sdp_line_rtpmap sdp_scan.simps sdp_scan.update_convs not_False_eq_True)

text \<open>
  The session description the program offers is read back by its own parser as the address and port
  it was built from, with payload type 0 and mu-law as the codec; and the body of a DTMF request as its
  tone.
\<close>

theorem sip_bodies_read_back:
  assumes "token ip" and "parse_ip ip = Some a" and "0 < port" and "in_int64 port"
    and "int (length (local_sdp i ip port)) < scanner_limit" and "t \<in> set dtmf_tones"
  shows "parse_remote_sdp parse_ip lookup_ip (local_sdp i ip port) = Inr ((a, port), 0, ''PCMU'') \<and>
    parse_dtmf_relay_tone (dtmf_body [t] duration) = [t]"
proof -
  have "to_upper ''PCMU'' = ''PCMU''" by code_simp
  then have p: "select_payload (fold sdp_line (local_sdp_lines i ip port) empty_sdp_scan) = Some (0, ''PCMU'')"
    by (simp add: local_sdp_scan [OF assms(1,3,4)] select_payload_def payload_codec_def)
  have "\<not> list_ex (\<lambda>l. scanner_limit \<le> int (length l)) (local_sdp_lines i ip port)"
    using assms(5) split_on_length [of _ "CHR 0x0A" "local_sdp i ip port"]
    by (fastforce simp: list_ex_iff local_sdp_split [OF assms(1)])
  moreover have "ip \<noteq> []" using token_ends [OF assms(1)] by blast
  ultimately have "parse_remote_sdp parse_ip lookup_ip (local_sdp i ip port) = Inr ((a, port), 0, ''PCMU'')"
    using assms(2,3) p by (simp add: parse_remote_sdp_def local_sdp_split [OF assms(1)] Let_def local_sdp_scan [OF assms(1,3,4)])
  then show ?thesis using dtmf_parse [OF assms(6)] by blast
qed

theorem sip_bodies_read_back_witness:
  "parse_remote_sdp Some (\<lambda>_. []) (local_sdp 1700000000 ''192.168.1.20'' 30000) =
     Inr ((''192.168.1.20'', 30000), 0, ''PCMU'') \<and>
   parse_dtmf_relay_tone (dtmf_body ''#'' 160) = ''#''"
proof -
  have "int (length (local_sdp 1700000000 ''192.168.1.20'' 30000)) < scanner_limit"
    by (simp add: scanner_limit_def local_sdp_def crlf_def go_itoa_def show_nat.simps)
  moreover have "token ''192.168.1.20''" "in_int64 30000" "CHR ''#'' \<in> set dtmf_tones" by code_simp+
  ultimately show ?thesis
    using sip_bodies_read_back [of "''192.168.1.20''" Some "''192.168.1.20''" 30000 1700000000 "CHR ''#''"] by simp
qed

subsection \<open>The stream of packets\<close>

lemma chunks_of_rec: "chunks_of n [] = []"
  "n \<noteq> 0 \<Longrightarrow> xs \<noteq> [] \<Longrightarrow> chunks_of n xs = take n xs # chunks_of n (drop n xs)"
  by (simp_all add: chunks_of.simps)

lemma concat_chunks_of: "n \<noteq> 0 \<Longrightarrow> concat (chunks_of n xs) = xs"
  by (induction n xs rule: chunks_of.induct) (metis append_take_drop_id chunks_of_rec concat.simps)

lemma chunks_of_lengths:
  "list_all (\<lambda>c. length c \<le> n) (chunks_of n xs)"
  "Suc i < length (chunks_of n xs) \<Longrightarrow> length (chunks_of n xs ! i) = n"
proof (induction n xs arbitrary: i rule: chunks_of.induct)
  case (1 n xs)
  {
    case 1
    then show ?case using "1.IH"(1) by (cases "n = 0 \<or> xs = []") (simp_all add: chunks_of.simps [of n xs])
  next
    case 2
    then have c: "\<not> (n = 0 \<or> xs = [])" by (auto simp: chunks_of.simps [of n xs] split: if_splits)
    show ?case
    proof (cases i)
      case 0
      with 2 c have "drop n xs \<noteq> []" by (auto simp: chunks_of_rec)
      with 0 c show ?thesis by (simp add: chunks_of_rec)
    next
      case (Suc j)
      with 2 c "1.IH"(2) [OF c, of j] show ?thesis by (simp add: chunks_of_rec)
    qed
  }
qed

lemma encode_chunk_append: "encode_chunk st (x @ y) = encode_chunk st x @ encode_chunk st y"
  by (simp add: encode_chunk_def encode_alaw_def encode_ulaw_def)

lemma encode_chunk_codec: "rs_codec st = rs_codec st' \<Longrightarrow> encode_chunk st = encode_chunk st'"
  by (simp add: encode_chunk_def fun_eq_iff)

text \<open>Whatever the network does, the numbers of the packets are consecutive.\<close>

lemma send_frames_sequence:
  assumes "send_frames net chunks st = (ps, st', r)"
  shows "map rp_sequence ps = map (\<lambda>i. rs_seq st + of_nat i) [0..<length ps] \<and> rs_seq st' = rs_seq st + of_nat (length ps)"
  using assms
proof (induction net chunks st arbitrary: ps st' r rule: send_frames.induct)
  case (2 net chunk rest st)
  show ?case
  proof (cases "net (packet_of st chunk)")
    case Packet_Sent
    with "2.prems" obtain qs where q: "ps = packet_of st chunk # qs"
      "send_frames net rest (st\<lparr>rs_seq := rs_seq st + 1, rs_timestamp := rs_timestamp st + of_nat (length chunk)\<rparr>) = (qs, st', r)"
      by (auto split: prod.splits)
    from "2.IH"(1) [OF Packet_Sent q(2)] show ?thesis
      by (simp add: q(1) packet_of_def map_upt_Suc algebra_simps del: upt_Suc)
  qed (use 2 in auto)
qed simp

text \<open>The stream after the chunks that have all been sent.\<close>

definition advanced :: "rtp_stream \<Rightarrow> sample list list \<Rightarrow> rtp_stream" where
  "advanced st chunks =
     st\<lparr>rs_seq := rs_seq st + of_nat (length chunks), rs_timestamp := rs_timestamp st + of_nat (length (concat chunks))\<rparr>"

lemma send_frames_sent:
  "send_frames (\<lambda>_. Packet_Sent) chunks st =
    (map (\<lambda>i. packet_of (advanced st (take i chunks)) (chunks ! i)) [0..<length chunks], advanced st chunks, Inr ())"
proof (induction chunks arbitrary: st)
  case (Cons c cs)
  let ?st = "st\<lparr>rs_seq := rs_seq st + 1, rs_timestamp := rs_timestamp st + of_nat (length c)\<rparr>"
  have a: "advanced ?st ds = advanced st (c # ds)" for ds by (simp add: advanced_def algebra_simps)
  show ?case using Cons.IH [of ?st] by (simp add: a map_upt_Suc del: upt_Suc) (simp add: advanced_def)
qed (simp add: advanced_def)

lemma encode_chunk_concat: "concat (map (encode_chunk st) cs) = encode_chunk st (concat cs)"
  by (induction cs) (simp_all add: encode_chunk_append, simp add: encode_chunk_def encode_alaw_def encode_ulaw_def)

lemma send_frames_payload:
  assumes "send_frames (\<lambda>_. Packet_Sent) chunks st = (ps, st', r)"
  shows "r = Inr ()" "concat (map rp_payload ps) = encode_chunk st (concat chunks)" "length ps = length chunks"
    "map (\<lambda>p. length (rp_payload p)) ps = map length chunks" "rs_timestamp st' = rs_timestamp st + of_nat (length (concat chunks))"
    "map rp_timestamp ps = map (\<lambda>i. rs_timestamp st + of_nat (length (concat (take i chunks)))) [0..<length chunks]"
proof -
  have ps: "ps = map (\<lambda>i. packet_of (advanced st (take i chunks)) (chunks ! i)) [0..<length chunks]"
    and st': "st' = advanced st chunks" and "r = Inr ()" using assms by (simp_all add: send_frames_sent)
  then show "r = Inr ()" "length ps = length chunks" "rs_timestamp st' = rs_timestamp st + of_nat (length (concat chunks))"
    "map rp_timestamp ps = map (\<lambda>i. rs_timestamp st + of_nat (length (concat (take i chunks)))) [0..<length chunks]"
    by (simp_all add: advanced_def packet_of_def)
  have e: "encode_chunk (advanced st ds) = encode_chunk st" for ds
    by (rule encode_chunk_codec) (simp add: advanced_def)
  have "map rp_payload ps = map (encode_chunk st) chunks"
    by (rule nth_equalityI) (simp_all add: ps packet_of_def e)
  then show "concat (map rp_payload ps) = encode_chunk st (concat chunks)" by (simp add: encode_chunk_concat)
  show "map (\<lambda>p. length (rp_payload p)) ps = map length chunks"
    by (rule nth_equalityI) (simp_all add: ps packet_of_def encode_chunk_def encode_alaw_def encode_ulaw_def)
qed

lemma take_full_chunks: "i < length (chunks_of n xs) \<Longrightarrow> length (concat (take i (chunks_of n xs))) = n * i"
proof (induction i)
  case (Suc i)
  then show ?case using chunks_of_lengths(2) [of i n xs] by (simp add: take_Suc_conv_app_nth)
qed simp

text \<open>
  The packets of a frame of samples carry consecutive sequence numbers (modulo \<open>2 ^ 16\<close>), and the next
  frame goes on from there, whatever the network does with them; no packet holds more than 160 samples. When
  every packet is written their payloads together are the encoding of the frame, the \<open>i\<close>-th packet has the
  timestamp of its first sample, and the clock of the stream moves on by the number of samples.
\<close>

theorem rtp_packets_in_order:
  "(case send_pcm_from_uac net samples st of (ps, st', r) \<Rightarrow>
      map rp_sequence ps = map (\<lambda>i. rs_seq st + of_nat i) [0..<length ps] \<and>
      rs_seq st' = rs_seq st + of_nat (length ps)) \<and>
   (case send_pcm_from_uac (\<lambda>_. Packet_Sent) samples (st\<lparr>rs_open := True, rs_remote := True\<rparr>) of (ps, st', r) \<Rightarrow>
      r = Inr () \<and> concat (map rp_payload ps) = encode_chunk st samples \<and>
      list_all (\<lambda>p. length (rp_payload p) \<le> 160) ps \<and>
      map rp_timestamp ps = map (\<lambda>i. rs_timestamp st + of_nat (160 * i)) [0..<length ps] \<and>
      rs_timestamp st' = rs_timestamp st + of_nat (length samples))"
  (is "?A \<and> ?B")
proof
  show ?A using send_frames_sequence by (auto simp: send_pcm_from_uac_def split: prod.splits)
  let ?st = "st\<lparr>rs_open := True, rs_remote := True\<rparr>" and ?cs = "chunks_of rtp_frame samples"
  obtain ps st' r where f: "send_frames (\<lambda>_. Packet_Sent) ?cs ?st = (ps, st', r)" by (metis prod_cases3)
  have s: "send_pcm_from_uac (\<lambda>_. Packet_Sent) samples ?st = (ps, st', r)"
    using f by (cases "samples = []") (simp_all add: send_pcm_from_uac_def chunks_of_rec)
  have c: "concat ?cs = samples" by (rule concat_chunks_of) (simp add: rtp_frame_def)
  have e: "encode_chunk ?st = encode_chunk st" by (rule encode_chunk_codec) simp
  note p = send_frames_payload [OF f, unfolded c e]
  have "list_all (\<lambda>n. n \<le> 160) (map length ?cs)"
    using chunks_of_lengths(1) [of rtp_frame samples] by (simp add: list_all_iff rtp_frame_def)
  then have "list_all (\<lambda>p. length (rp_payload p) \<le> 160) ps" unfolding p(4) [symmetric] by (simp add: list_all_iff)
  moreover have "map rp_timestamp ps = map (\<lambda>i. rs_timestamp st + of_nat (160 * i)) [0..<length ps]"
    using p(3,6) take_full_chunks [of _ rtp_frame samples] by (simp add: rtp_frame_def)
  ultimately show ?B using s p(1,2,5) by simp
qed

lemma first_port_spec:
  "first_port bind n port = Some p \<Longrightarrow> port \<le> p \<and> p < port + int n \<and> bind p \<and> (\<forall>q. port \<le> q \<longrightarrow> q < p \<longrightarrow> \<not> bind q)"
  "first_port bind n port = None \<Longrightarrow> port \<le> q \<Longrightarrow> q < port + int n \<Longrightarrow> \<not> bind q"
proof (induction bind n port rule: first_port.induct)
  case (2 bind n port)
  {
    case 1
    show ?case
    proof (cases "bind port")
      case False
      with 1 "2.IH"(1) have h: "port + 1 \<le> p \<and> p < port + 1 + int n \<and> bind p \<and> (\<forall>q. port + 1 \<le> q \<longrightarrow> q < p \<longrightarrow> \<not> bind q)"
        by simp
      then have "\<not> bind q" if "port \<le> q" "q < p" for q using that False by (cases "q = port") auto
      with h show ?thesis by simp
    qed (use 1 in simp)
  next
    case 2
    then show ?case using "2.IH"(2) by (cases "bind port"; cases "q = port") auto
  }
qed simp_all

text \<open>
  A call takes the lowest port of its range that can be bound, and fails only when none can.
\<close>

lemma rtp_port_taken:
  assumes "rtp_port_range cfg = (lo, hi)"
  shows "open_rtp_listener bind cfg None = Inr p \<Longrightarrow> lo \<le> p \<and> p \<le> hi \<and> bind p \<and> (\<forall>q. lo \<le> q \<longrightarrow> q < p \<longrightarrow> \<not> bind q)"
    and "open_rtp_listener bind cfg None = Inl e \<Longrightarrow> lo \<le> q \<Longrightarrow> q \<le> hi \<Longrightarrow> \<not> bind q"
proof -
  have "lo \<le> hi" using assms by (auto simp: rtp_port_range_def Let_def split: if_splits)
  then show "open_rtp_listener bind cfg None = Inr p \<Longrightarrow> lo \<le> p \<and> p \<le> hi \<and> bind p \<and> (\<forall>q. lo \<le> q \<longrightarrow> q < p \<longrightarrow> \<not> bind q)"
    "open_rtp_listener bind cfg None = Inl e \<Longrightarrow> lo \<le> q \<Longrightarrow> q \<le> hi \<Longrightarrow> \<not> bind q"
    using assms first_port_spec(1) [of bind "nat (hi - lo + 1)" lo p] first_port_spec(2) [of bind "nat (hi - lo + 1)" lo q]
    by (auto simp: open_rtp_listener_def split: option.splits)
qed

subsection \<open>Signatures\<close>

text \<open>
  Without a bar in them, configurations with equal signatures agree on every field that matters; with one
  they need not, and the gateway keeps running with the old configuration.
\<close>

lemma signature_fields:
  assumes "list_all (\<lambda>f. CHR ''|'' \<notin> set f) (sip_config_fields c)" "list_all (\<lambda>f. CHR ''|'' \<notin> set f) (sip_config_fields d)"
    and "sip_config_signature c = sip_config_signature d"
  shows "sip_config_fields c = sip_config_fields d"
proof -
  have ne: "sip_config_fields c \<noteq> []" "sip_config_fields d \<noteq> []" by (simp_all add: sip_config_fields_def)
  then show ?thesis
    using assms split_join [of "sip_config_fields c" "CHR ''|''"] split_join [of "sip_config_fields d" "CHR ''|''"]
    unfolding sip_config_signature_def list_all_iff by metis
qed

lemma signature_collision:
  "sip_config_signature (empty_sip_cfg\<lparr>sc_username := ''a'', sc_password := ''b|c'', sc_proxy := ''d''\<rparr>) =
   sip_config_signature (empty_sip_cfg\<lparr>sc_username := ''a|b'', sc_password := ''c'', sc_proxy := ''d''\<rparr>)"
  by (simp add: sip_config_signature_def sip_config_fields_def trim_space_def trim_by_def trim_right_def is_space_def go_spaces_def empty_sip_cfg_def)

end
