(* ===== verification/Sip_Gateway.thy ===== *)
theory Sip_Gateway
  imports Sip_Text
begin

text \<open>
  The calls of \<open>internal/calling/manager.go\<close> and \<open>sip_client.go\<close>: sessions (one per SIM), calls and the
  inbound gateways (one per SIP line). The objects that Go links by pointers live in lists and are named by
  their index; the maps of the manager name some of them.

  A session's \<open>sipMu\<close> can stay locked for ever (\<open>sn_locked\<close>), so an operation may never return: it yields
  \<open>None\<close> and the state the rest of the program then sees. Operations that wait for a modem or a peer are
  split where they wait, so that other operations can happen in between. The network, the audio device, the
  browser's connection and the SIP library answer through \<open>sip_env\<close>; what the modem is asked to do is an
  event.
\<close>

subsection \<open>State\<close>

record modem_target =
  mt_port_name :: string
  mt_vid :: string
  mt_pid :: string
  mt_serial :: string

datatype leg_direction = Sip_To_Modem | Modem_To_Sip

record sip_leg =
  lg_gateway :: nat
  lg_dialog_id :: string
  lg_iccid :: string
  lg_direction :: leg_direction
  lg_number :: string
  lg_ended_by_modem :: bool
  lg_invite_cancel :: bool

text \<open>Where a line listens and sends, from its configuration (shared by gateways and outgoing calls).\<close>

record sip_route =
  ro_transport :: string
  ro_proxy :: "string \<times> int"
  ro_domain :: string
  ro_signal_host :: string
  ro_signal_port :: int
  ro_media_ip :: string

text \<open>A call: \<open>cl_leg\<close> is the leg of a gateway it belongs to, \<open>None\<close> for a call made by \<open>DialSIP\<close>.\<close>

record sip_call =
  cl_session :: nat
  cl_cfg :: sip_cfg
  cl_leg :: "sip_leg option"
  cl_modem_controlled :: bool
  cl_dialog :: "string option"
  cl_dialog_uas :: "string option"
  cl_rtp_port :: "int option"
  cl_remote :: "((string \<times> int) \<times> int \<times> string) option"
  cl_route :: "sip_route option"
  cl_listener :: bool
  cl_closed :: bool

record sip_session =
  sn_target :: modem_target
  sn_bridge :: bool
  sn_sip_call :: "nat option"
  sn_call_state :: string
  sn_call_reason :: string
  sn_updated_at :: int
  sn_locked :: bool

record sip_hooks =
  hk_iccid :: string
  hk_required :: bool
  hk_hangup :: bool
  hk_dtmf :: bool

record sip_gateway =
  gw_line_id :: string
  gw_line_iccid :: string
  gw_cfg :: sip_cfg
  gw_hooks :: sip_hooks
  gw_transport :: string
  gw_proxy :: "string \<times> int"
  gw_domain :: string
  gw_signal_host :: string
  gw_signal_port :: int
  gw_media_ip :: string
  gw_open :: bool
  gw_listener :: bool
  gw_registering :: bool
  gw_register_state :: string
  gw_register_reason :: string
  gw_register_at :: int
  gw_active :: "nat option"

datatype sip_event =
    Responded int string
  | Bye_Sent nat string
  | Dial_Modem string string
  | Answer_Modem string
  | Hangup_Modem string
  | Dtmf_To_Modem string string

record sip_state =
  ss_calls :: "sip_call list"
  ss_sessions :: "sip_session list"
  ss_gateways :: "sip_gateway list"
  ss_by_iccid :: "string \<rightharpoonup> nat"
  ss_lines :: "(string \<times> nat) list"
  ss_events :: "sip_event list"

record sip_env =
  se_now :: int
  se_new_peer :: "unit result"
  se_audio :: "modem_target \<Rightarrow> unit result"
  se_parse_ip :: "string \<Rightarrow> string option"
  se_lookup_ip :: "string \<Rightarrow> string list"
  se_local_ip :: "string \<Rightarrow> string"
  se_sip_stack :: "string \<Rightarrow> int \<Rightarrow> unit result"
  se_listen :: "string \<Rightarrow> int \<Rightarrow> unit result"
  se_bind_rtp :: "int \<Rightarrow> bool"
  se_bye :: "nat \<Rightarrow> unit result"
  se_dialog_error :: "int \<Rightarrow> string"
  se_close_peer :: "unit result"
  se_close_bridge :: "unit result"

definition empty_sip_state :: sip_state where
  "empty_sip_state = \<lparr>ss_calls = [], ss_sessions = [], ss_gateways = [], ss_by_iccid = Map.empty, ss_lines = [], ss_events = []\<rparr>"

definition upd_call :: "nat \<Rightarrow> (sip_call \<Rightarrow> sip_call) \<Rightarrow> sip_state \<Rightarrow> sip_state" where
  "upd_call c f st = st\<lparr>ss_calls := (ss_calls st)[c := f (ss_calls st ! c)]\<rparr>"

definition upd_session :: "nat \<Rightarrow> (sip_session \<Rightarrow> sip_session) \<Rightarrow> sip_state \<Rightarrow> sip_state" where
  "upd_session s f st = st\<lparr>ss_sessions := (ss_sessions st)[s := f (ss_sessions st ! s)]\<rparr>"

definition upd_gateway :: "nat \<Rightarrow> (sip_gateway \<Rightarrow> sip_gateway) \<Rightarrow> sip_state \<Rightarrow> sip_state" where
  "upd_gateway g f st = st\<lparr>ss_gateways := (ss_gateways st)[g := f (ss_gateways st ! g)]\<rparr>"

definition emit :: "sip_event \<Rightarrow> sip_state \<Rightarrow> sip_state" where
  "emit e st = st\<lparr>ss_events := ss_events st @ [e]\<rparr>"

text \<open>Go on with the result of an operation, if it returned.\<close>

definition go_on :: "'a option \<times> sip_state \<Rightarrow> ('a \<Rightarrow> sip_state \<Rightarrow> 'b option \<times> sip_state) \<Rightarrow> 'b option \<times> sip_state" where
  "go_on m f = (case m of (None, st) \<Rightarrow> (None, st) | (Some x, st) \<Rightarrow> f x st)"

subsection \<open>Sessions (\<open>manager.go\<close>)\<close>

definition session_call_state :: "sip_env \<Rightarrow> string \<Rightarrow> string \<Rightarrow> nat \<Rightarrow> sip_state \<Rightarrow> sip_state" where
  "session_call_state env state reason s st =
     upd_session s (\<lambda>n. n\<lparr>sn_call_state := state, sn_call_reason := reason, sn_updated_at := se_now env\<rparr>) st"

definition ensure_session :: "sip_env \<Rightarrow> string \<Rightarrow> modem_target \<Rightarrow> sip_state \<Rightarrow> nat result \<times> sip_state" where
  "ensure_session env iccid target st =
     (case ss_by_iccid st iccid of
        Some s \<Rightarrow> (Inr s, upd_session s (\<lambda>n. n\<lparr>sn_target := target\<rparr>) st)
      | None \<Rightarrow>
          (case se_new_peer env of
             Inl e \<Rightarrow> (Inl e, st)
           | Inr _ \<Rightarrow>
               let s = length (ss_sessions st);
                   n = \<lparr>sn_target = target, sn_bridge = False, sn_sip_call = None, sn_call_state = ''idle'',
                        sn_call_reason = ''init'', sn_updated_at = se_now env, sn_locked = False\<rparr>
               in (Inr s, st\<lparr>ss_sessions := ss_sessions st @ [n], ss_by_iccid := (ss_by_iccid st)(iccid \<mapsto> s)\<rparr>)))"

definition ensure_audio :: "sip_env \<Rightarrow> string \<Rightarrow> sip_state \<Rightarrow> unit result \<times> sip_state" where
  "ensure_audio env iccid st =
     (case ss_by_iccid st iccid of
        None \<Rightarrow> (Inl ''webrtc session not initialized'', st)
      | Some s \<Rightarrow>
          if sn_bridge (ss_sessions st ! s) then (Inr (), st)
          else case se_audio env (sn_target (ss_sessions st ! s)) of
                 Inl e \<Rightarrow> (Inl e, st)
               | Inr _ \<Rightarrow> (Inr (), upd_session s (\<lambda>n. n\<lparr>sn_bridge := True\<rparr>) st))"

subsection \<open>The end of a call\<close>

text \<open>Taking the call out of its session; blocks when the lock of the session is never released.\<close>

definition release_slot :: "sip_env \<Rightarrow> string \<Rightarrow> nat \<Rightarrow> nat \<Rightarrow> sip_state \<Rightarrow> unit option \<times> sip_state" where
  "release_slot env reason s c st =
     (if sn_locked (ss_sessions st ! s) then (None, st)
      else (Some (), session_call_state env ''idle'' reason s
                       (upd_session s (\<lambda>n. n\<lparr>sn_sip_call := (if sn_sip_call n = Some c then None else sn_sip_call n)\<rparr>) st)))"

definition handle_leg_ended :: "sip_env \<Rightarrow> string \<Rightarrow> nat \<Rightarrow> sip_leg \<Rightarrow> sip_state \<Rightarrow> unit option \<times> sip_state" where
  "handle_leg_ended env reason c leg st =
     (let g = lg_gateway leg;
          st1 = upd_gateway g (\<lambda>w. w\<lparr>gw_active := (if gw_active w = Some c then None else gw_active w)\<rparr>) st;
          st2 = upd_call c (\<lambda>k. k\<lparr>cl_leg := Some (leg\<lparr>lg_invite_cancel := False\<rparr>)\<rparr>) st1
      in go_on (release_slot env reason (cl_session (ss_calls st ! c)) c st2)
           (\<lambda>_ st3. (Some (), if \<not> lg_ended_by_modem leg \<and> hk_hangup (gw_hooks (ss_gateways st ! g))
                              then emit (Hangup_Modem (lg_iccid leg)) st3 else st3)))"

text \<open>\<open>sipClientCall.Close\<close>: once, everything the call holds is released and its owner is told.\<close>

definition close_call :: "sip_env \<Rightarrow> string \<Rightarrow> nat \<Rightarrow> sip_state \<Rightarrow> unit option \<times> sip_state" where
  "close_call env reason c st =
     (let k = ss_calls st ! c
      in if cl_closed k then (Some (), st)
         else let st1 = upd_call c (\<lambda>k. k\<lparr>cl_closed := True, cl_dialog := None, cl_dialog_uas := None, cl_rtp_port := None,
                                          cl_listener := False\<rparr>) st
              in case cl_leg k of
                   None \<Rightarrow> release_slot env reason (cl_session k) c st1
                 | Some leg \<Rightarrow> handle_leg_ended env reason c leg st1)"

definition hangup_with_reason :: "sip_env \<Rightarrow> string \<Rightarrow> nat \<Rightarrow> sip_state \<Rightarrow> unit result option \<times> sip_state" where
  "hangup_with_reason env reason c st =
     (let k = ss_calls st ! c;
          dialog = (cl_dialog k \<noteq> None \<or> cl_dialog_uas k \<noteq> None);
          err = (if dialog then se_bye env c else Inr ());
          st1 = (if dialog then emit (Bye_Sent c reason) st else st)
      in go_on (close_call env reason c st1) (\<lambda>_ st2. (Some err, st2)))"

text \<open>\<open>Session.closeSIP\<close> and \<open>Manager.CloseSession\<close>; \<open>CloseAll\<close> closes every session of a list of SIMs.\<close>

definition close_sip :: "sip_env \<Rightarrow> string \<Rightarrow> nat \<Rightarrow> sip_state \<Rightarrow> unit option \<times> sip_state" where
  "close_sip env reason s st =
     (if sn_locked (ss_sessions st ! s) then (None, st)
      else let st1 = upd_session s (\<lambda>n. n\<lparr>sn_sip_call := None\<rparr>) st
           in case sn_sip_call (ss_sessions st ! s) of None \<Rightarrow> (Some (), st1) | Some c \<Rightarrow> close_call env reason c st1)"

definition close_session :: "sip_env \<Rightarrow> string \<Rightarrow> sip_state \<Rightarrow> unit result option \<times> sip_state" where
  "close_session env iccid st =
     (let st1 = st\<lparr>ss_by_iccid := (ss_by_iccid st)(iccid := None)\<rparr>
      in case ss_by_iccid st iccid of
           None \<Rightarrow> (Some (Inr ()), st1)
         | Some s \<Rightarrow>
             go_on (close_sip env ''session_closed'' s st1)
               (\<lambda>_ st2. (Some (if is_ok (se_close_peer env) \<and> sn_bridge (ss_sessions st2 ! s) then se_close_bridge env
                              else se_close_peer env), st2)))"

subsection \<open>Gateways\<close>

definition gateway_close :: "sip_env \<Rightarrow> nat \<Rightarrow> sip_state \<Rightarrow> unit option \<times> sip_state" where
  "gateway_close env g st =
     (let st1 = upd_gateway g (\<lambda>w. w\<lparr>gw_registering := False, gw_active := None\<rparr>) st;
          closed = upd_gateway g (\<lambda>w. w\<lparr>gw_listener := False, gw_open := False\<rparr>)
      in case gw_active (ss_gateways st ! g) of
           None \<Rightarrow> (Some (), closed st1)
         | Some c \<Rightarrow> go_on (close_call env ''sip_gateway_closed'' c st1) (\<lambda>_ st2. (Some (), closed st2)))"

definition non_empty_or :: "string \<Rightarrow> string \<Rightarrow> string" where
  "non_empty_or x d = (if x = [] then d else x)"

definition sip_route_of :: "sip_env \<Rightarrow> sip_cfg \<Rightarrow> sip_route result" where
  "sip_route_of env cfg =
     (let transport = normalize_sip_transport (sc_transport cfg)
      in case parse_proxy_host_port (sc_proxy cfg) (sc_port cfg) transport of
           Inl e \<Rightarrow> Inl e
         | Inr (proxy_host, proxy_port) \<Rightarrow>
             let host = non_empty_or (non_empty_or (trim_space (sc_local_host cfg)) (se_local_ip env proxy_host)) ''127.0.0.1'';
                 m0 = trim_space (sc_rtp_bind_ip cfg);
                 m1 = (if m0 = [] \<or> m0 = ''0.0.0.0'' then host else m0)
             in Inr \<lparr>ro_transport = transport, ro_proxy = (proxy_host, proxy_port),
                      ro_domain = non_empty_or (trim_space (sc_domain cfg)) proxy_host,
                      ro_signal_host = host,
                      ro_signal_port = (if sc_local_port cfg \<le> 0 then 5062 else sc_local_port cfg),
                      ro_media_ip = (if se_parse_ip env m1 \<noteq> None then m1 else ''127.0.0.1'')\<rparr>)"

text \<open>\<open>startServerListener\<close>; the other transports cannot occur after normalisation.\<close>

definition start_listener :: "sip_env \<Rightarrow> string \<Rightarrow> int \<Rightarrow> unit result" where
  "start_listener env transport port =
     (if transport = ''udp'' \<or> transport = ''tcp'' \<or> transport = ''tls'' then se_listen env transport port
      else Inl (''unsupported sip transport: '' @ transport))"

definition set_register_status :: "sip_env \<Rightarrow> string \<Rightarrow> string \<Rightarrow> nat \<Rightarrow> sip_state \<Rightarrow> sip_state" where
  "set_register_status env state reason g st =
     upd_gateway g (\<lambda>w. w\<lparr>gw_register_state := trim_space state, gw_register_reason := trim_space reason,
                          gw_register_at := se_now env\<rparr>) st"

text \<open>
  The end of \<open>register\<close>: the outcome of the request and, after a challenge, of the one with credentials
  (status and reason), and one round of the loop that registers. The wait before the next round.
\<close>

definition register_outcome :: "(int \<times> string) result \<Rightarrow> (int \<times> string) result \<Rightarrow> unit result" where
  "register_outcome first second =
     (let check = (\<lambda>(status, reason). if status \<ge> 300
            then Inl (''register failed: '' @ go_itoa status @ '' '' @ trim_space reason) else Inr ())
      in case first of
           Inl e \<Rightarrow> Inl e
         | Inr (status, reason) \<Rightarrow>
             if status = 401 \<or> status = 407 then and_then second check else check (status, reason))"

definition register_round :: "sip_env \<Rightarrow> (int \<times> string) result \<Rightarrow> (int \<times> string) result \<Rightarrow> nat \<Rightarrow> sip_state \<Rightarrow> sip_state" where
  "register_round env first second g st =
     (case register_outcome first second of
        Inl e \<Rightarrow> set_register_status env ''error'' e g st
      | Inr _ \<Rightarrow> set_register_status env ''registered'' ''ok'' g st)"

definition register_wait :: "sip_cfg \<Rightarrow> int" where
  "register_wait cfg = (let w = sc_register_expires cfg - 30 in if w < 30 then 30 else w)"

definition register_expires :: "sip_cfg \<Rightarrow> int" where
  "register_expires cfg = (if sc_register_expires cfg \<le> 0 then 300 else sc_register_expires cfg)"

definition err_hooks_incomplete :: string where "err_hooks_incomplete = ''sip inbound hooks are incomplete''"

definition new_sip_inbound_gateway ::
    "sip_env \<Rightarrow> string \<Rightarrow> sip_cfg \<Rightarrow> sip_hooks \<Rightarrow> sip_state \<Rightarrow> nat result option \<times> sip_state" where
  "new_sip_inbound_gateway env line_id cfg hooks st =
     (if \<not> hk_required hooks then (Some (Inl err_hooks_incomplete), st)
      else case sip_route_of env cfg of
             Inl e \<Rightarrow> (Some (Inl e), st)
           | Inr r \<Rightarrow>
               (case se_sip_stack env (ro_signal_host r) (ro_signal_port r) of
                  Inl e \<Rightarrow> (Some (Inl e), st)
                | Inr _ \<Rightarrow>
                    let g = length (ss_gateways st);
                        w = \<lparr>gw_line_id = line_id, gw_line_iccid = trim_space (hk_iccid hooks), gw_cfg = cfg, gw_hooks = hooks,
                             gw_transport = ro_transport r, gw_proxy = ro_proxy r, gw_domain = ro_domain r,
                             gw_signal_host = ro_signal_host r, gw_signal_port = ro_signal_port r,
                             gw_media_ip = ro_media_ip r, gw_open = True, gw_listener = False, gw_registering = False,
                             gw_register_state = ''idle'', gw_register_reason = ''init'', gw_register_at = se_now env,
                             gw_active = None\<rparr>;
                        st1 = st\<lparr>ss_gateways := ss_gateways st @ [w]\<rparr>
                    in (case start_listener env (ro_transport r) (ro_signal_port r) of
                          Inl e \<Rightarrow>
                            go_on (gateway_close env g st1)
                              (\<lambda>_ st2. (Some (Inl (''start sip inbound listener ['' @ line_id @ ''] failed: '' @ e)), st2))
                        | Inr _ \<Rightarrow>
                            let st2 = upd_gateway g (\<lambda>w. w\<lparr>gw_listener := True\<rparr>) st1
                            in (Some (Inr g),
                                if sc_register cfg
                                then set_register_status env ''connecting'' ''registering'' g
                                       (upd_gateway g (\<lambda>w. w\<lparr>gw_registering := True\<rparr>) st2)
                                else st2))))"

definition active_by_request :: "sip_request \<Rightarrow> nat \<Rightarrow> sip_state \<Rightarrow> nat option" where
  "active_by_request req g st =
     (case gw_active (ss_gateways st ! g) of
        None \<Rightarrow> None
      | Some c \<Rightarrow>
          (case cl_leg (ss_calls st ! c) of
             None \<Rightarrow> None
           | Some leg \<Rightarrow>
               let by_leg = (\<lambda>id. if id = Some (lg_dialog_id leg) then Some c else None)
               in (case lg_direction leg of
                     Sip_To_Modem \<Rightarrow> by_leg (rq_dialog_id_uas req)
                   | Modem_To_Sip \<Rightarrow>
                       if rq_dialog_id_uac req \<noteq> None \<and> cl_dialog (ss_calls st ! c) = rq_dialog_id_uac req
                          \<and> cl_dialog (ss_calls st ! c) \<noteq> Some []
                       then Some c else by_leg (rq_dialog_id_uac req))))"

end
