(* ===== verification/Sip_Calls.thy ===== *)
theory Sip_Calls
  imports Sip_Gateway
begin

text \<open>
  The calls of \<open>sip_client.go\<close> in the three ways they arise: an INVITE from a peer that the modem dials
  (\<open>onInvite\<close>), a call that rings at the modem and is offered to a peer (\<open>startModemIncomingInvite\<close>), and a
  call a user makes to a peer (\<open>DialSIP\<close>); what ends them and the tones in between.
\<close>

subsection \<open>An INVITE from a peer\<close>

definition respond :: "int \<Rightarrow> string \<Rightarrow> sip_state \<Rightarrow> sip_state" where
  "respond code reason = emit (Responded code reason)"

definition new_call :: "nat \<Rightarrow> sip_cfg \<Rightarrow> sip_leg option \<Rightarrow> sip_call" where
  "new_call s cfg leg =
     \<lparr>cl_session = s, cl_cfg = cfg, cl_leg = leg, cl_modem_controlled = (leg \<noteq> None), cl_dialog = None, cl_dialog_uas = None,
      cl_rtp_port = None, cl_remote = None, cl_route = None, cl_listener = False, cl_closed = False\<rparr>"

definition new_leg :: "nat \<Rightarrow> string \<Rightarrow> leg_direction \<Rightarrow> string \<Rightarrow> sip_leg" where
  "new_leg g iccid dir number =
     \<lparr>lg_gateway = g, lg_dialog_id = [], lg_iccid = iccid, lg_direction = dir, lg_number = number,
      lg_ended_by_modem = False, lg_invite_cancel = False\<rparr>"

definition refuse_call :: "sip_env \<Rightarrow> int \<Rightarrow> string \<Rightarrow> string \<Rightarrow> nat \<Rightarrow> sip_state \<Rightarrow> nat option option \<times> sip_state" where
  "refuse_call env code phrase reason c st =
     go_on (close_call env reason c (respond code phrase st)) (\<lambda>_ st1. (Some None, st1))"

text \<open>
  The call gets its place in the session and in the gateway, when both are free, and the modem is asked to
  dial; the result is the call that now waits for the modem.
\<close>

definition claim_call :: "sip_env \<Rightarrow> nat \<Rightarrow> nat \<Rightarrow> nat \<Rightarrow> sip_leg \<Rightarrow> string \<Rightarrow> sip_state \<Rightarrow> nat option option \<times> sip_state" where
  "claim_call env g s c leg dialog st =
     (if sn_locked (ss_sessions st ! s) then (None, st)
      else if sn_sip_call (ss_sessions st ! s) \<noteq> None then refuse_call env 486 ''Call in progress'' ''busy'' c st
      else let st1 = upd_session s (\<lambda>n. n\<lparr>sn_sip_call := Some c\<rparr>) st
           in if gw_active (ss_gateways st1 ! g) \<noteq> None then refuse_call env 486 ''Call in progress'' ''busy'' c st1
              else (Some (Some c),
                    emit (Dial_Modem (lg_iccid leg) (lg_number leg)) (respond 180 ''Ringing'' (respond 100 ''Trying''
                      (session_call_state env ''dialing'' ''sip_inbound_invite'' s
                        (upd_gateway g (\<lambda>w. w\<lparr>gw_active := Some c\<rparr>)
                          (upd_call c (\<lambda>k. k\<lparr>cl_leg := Some (leg\<lparr>lg_dialog_id := dialog\<rparr>)\<rparr>) st1)))))))"

definition inbound_call ::
    "sip_env \<Rightarrow> nat \<Rightarrow> nat \<Rightarrow> string \<Rightarrow> string \<Rightarrow> ((string \<times> int) \<times> int \<times> string) \<Rightarrow> string \<Rightarrow> sip_state \<Rightarrow> nat option option \<times> sip_state" where
  "inbound_call env g s iccid number remote dialog st =
     (let c = length (ss_calls st);
          w = ss_gateways st ! g;
          leg = new_leg g iccid Sip_To_Modem number;
          k = (new_call s (gw_cfg w) (Some leg))\<lparr>cl_dialog_uas := Some dialog\<rparr>;
          st1 = st\<lparr>ss_calls := ss_calls st @ [k]\<rparr>
      in case open_rtp_listener (se_bind_rtp env) (gw_cfg w) None of
           Inl e \<Rightarrow> refuse_call env 503 ''RTP unavailable'' ''rtp_error'' c st1
         | Inr port \<Rightarrow>
             let st2 = upd_call c (\<lambda>k. k\<lparr>cl_rtp_port := Some port, cl_remote := Some remote\<rparr>) st1
             in (case build_local_sdp (Some port) (se_now env) (gw_media_ip w) of
                   Inl e \<Rightarrow> refuse_call env 500 ''Local SDP failed'' ''sdp_error'' c st2
                 | Inr _ \<Rightarrow> claim_call env g s c leg dialog st2))"

text \<open>
  \<open>onInvite\<close> until it waits for the modem. \<open>resolve\<close> is the answer of \<open>ResolveModem\<close>, \<open>dialog\<close> that of
  \<open>ReadInvite\<close>. Looking a session up and \<open>EnsureSession\<close> both set the target of one that exists.
\<close>

definition on_invite ::
    "sip_env \<Rightarrow> sip_request \<Rightarrow> (string \<times> modem_target) result \<Rightarrow> string result \<Rightarrow> nat \<Rightarrow> sip_state \<Rightarrow> nat option option \<times> sip_state" where
  "on_invite env req resolve dialog g st =
     (let number = trim_space (extract_invite_number (Some req));
          stop = (\<lambda>code reason st. (Some None, respond code reason st))
      in if \<not> dialable number then stop 400 ''Invalid dial number'' st
         else case resolve of
           Inl _ \<Rightarrow> stop 503 ''No modem route'' st
         | Inr (iccid, target) \<Rightarrow>
           (let st1 = (if gw_line_iccid (ss_gateways st ! g) = [] then upd_gateway g (\<lambda>w. w\<lparr>gw_line_iccid := iccid\<rparr>) st else st)
            in case ensure_session env iccid target st1 of
              (Inl _, st2) \<Rightarrow> stop 500 ''Session init failed'' st2
            | (Inr s, st2) \<Rightarrow>
              (case ensure_audio env iccid st2 of
                 (Inl _, st3) \<Rightarrow> stop 503 ''Audio init failed'' st3
               | (Inr _, st3) \<Rightarrow>
                 (case parse_remote_sdp (se_parse_ip env) (se_lookup_ip env) (rq_body req) of
                    Inl _ \<Rightarrow> stop 488 ''Unsupported SDP'' st3
                  | Inr remote \<Rightarrow>
                    (case dialog of
                       Inl _ \<Rightarrow> stop 481 ''Dialog failed'' st3
                     | Inr d \<Rightarrow> inbound_call env g s iccid number remote d st3)))))"

text \<open>The rest of \<open>onInvite\<close>, with the results of \<open>DialModem\<close> and of the answer to the peer.\<close>

definition invite_dialled :: "sip_env \<Rightarrow> unit result \<Rightarrow> unit result \<Rightarrow> nat \<Rightarrow> sip_state \<Rightarrow> unit option \<times> sip_state" where
  "invite_dialled env dialled answered c st =
     (case dialled of
        Inl _ \<Rightarrow> close_call env ''dial_error'' c (respond 503 ''Dial failed'' st)
      | Inr _ \<Rightarrow>
          (case answered of
             Inl _ \<Rightarrow> close_call env ''answer_error'' c st
           | Inr _ \<Rightarrow> (Some (), session_call_state env ''in_call'' ''sip_inbound_connected'' (cl_session (ss_calls st ! c)) st)))"

definition on_ack :: "unit result \<Rightarrow> sip_state \<Rightarrow> sip_state" where
  "on_ack read_ack st = (case read_ack of Inl e \<Rightarrow> respond 400 e st | Inr _ \<Rightarrow> st)"

definition on_bye :: "sip_env \<Rightarrow> sip_request \<Rightarrow> unit result \<Rightarrow> nat \<Rightarrow> sip_state \<Rightarrow> unit option \<times> sip_state" where
  "on_bye env req read_bye g st =
     (case active_by_request req g st of
        None \<Rightarrow> (Some (), respond 481 ''No call'' st)
      | Some c \<Rightarrow>
          (case read_bye of
             Inl _ \<Rightarrow> (Some (), respond 481 ''No call'' st)
           | Inr _ \<Rightarrow> close_call env ''remote_bye'' c st))"

definition on_info :: "sip_request \<Rightarrow> nat \<Rightarrow> sip_state \<Rightarrow> sip_state" where
  "on_info req g st0 =
     (let st = respond 200 ''OK'' st0; tone = parse_dtmf_relay_tone (rq_body req)
      in if \<not> hk_dtmf (gw_hooks (ss_gateways st ! g)) \<or> tone = [] then st
         else case active_by_request req g st of
                None \<Rightarrow> st
              | Some c \<Rightarrow>
                  (case cl_leg (ss_calls st ! c) of
                     None \<Rightarrow> st
                   | Some leg \<Rightarrow> if lg_iccid leg = [] then st else emit (Dtmf_To_Modem (lg_iccid leg) tone) st))"

subsection \<open>A call that rings at the modem\<close>

record modem_incoming =
  mi_state :: string
  mi_reason :: string
  mi_number :: string
  mi_direction :: int
  mi_mode :: int
  mi_ringing :: bool

definition gateway_iccid :: "sip_gateway \<Rightarrow> string" where
  "gateway_iccid w = non_empty_or (trim_space (gw_line_iccid w)) (trim_space (hk_iccid (gw_hooks w)))"

text \<open>\<open>endLegFromModem\<close> on the active leg: an INVITE in progress is cancelled, an established call ended.\<close>

definition end_leg_from_modem :: "sip_env \<Rightarrow> string \<Rightarrow> nat \<Rightarrow> nat \<Rightarrow> sip_state \<Rightarrow> bool option \<times> sip_state" where
  "end_leg_from_modem env reason g c st =
     (if gw_active (ss_gateways st ! g) \<noteq> Some c then (Some False, st)
      else case cl_leg (ss_calls st ! c) of
             None \<Rightarrow> (Some False, st)
           | Some leg \<Rightarrow>
               let st1 = upd_call c (\<lambda>k. k\<lparr>cl_leg := Some (leg\<lparr>lg_ended_by_modem := True\<rparr>)\<rparr>) st
               in if lg_invite_cancel leg then (Some True, st1)
                  else go_on (hangup_with_reason env reason c st1) (\<lambda>_ st2. (Some True, st2)))"

definition end_session_call_from_modem :: "sip_env \<Rightarrow> string \<Rightarrow> nat \<Rightarrow> sip_state \<Rightarrow> unit option \<times> sip_state" where
  "end_session_call_from_modem env reason g st =
     (let iccid = gateway_iccid (ss_gateways st ! g)
      in if iccid = [] then (Some (), st)
         else case ss_by_iccid st iccid of
                None \<Rightarrow> (Some (), st)
              | Some s \<Rightarrow>
                  if sn_locked (ss_sessions st ! s) then (None, st)
                  else (case sn_sip_call (ss_sessions st ! s) of
                          None \<Rightarrow> (Some (), st)
                        | Some c \<Rightarrow>
                            if \<not> cl_modem_controlled (ss_calls st ! c) then (Some (), st)
                            else go_on (hangup_with_reason env reason c st) (\<lambda>_ st1. (Some (), st1))))"

definition err_sip_invalid_number :: string where "err_sip_invalid_number = ''invalid dial number''"
definition err_sip_audio_not_ready :: string where "err_sip_audio_not_ready = ''audio bridge not initialized''"
definition err_sip_call_in_progress :: string where "err_sip_call_in_progress = ''call already in progress''"
definition err_sip_no_active_call :: string where "err_sip_no_active_call = ''no active sip call''"

text \<open>The call takes its places, as for an INVITE; without them it is closed and nothing else happens.\<close>

definition claim_incoming :: "sip_env \<Rightarrow> nat \<Rightarrow> nat \<Rightarrow> nat \<Rightarrow> sip_leg \<Rightarrow> sip_state \<Rightarrow> unit result option \<times> sip_state" where
  "claim_incoming env g s c leg st =
     (let busy = (\<lambda>st. go_on (close_call env ''busy'' c st) (\<lambda>_ st1. (Some (Inr ()), st1)))
      in if sn_locked (ss_sessions st ! s) then (None, st)
         else if sn_sip_call (ss_sessions st ! s) \<noteq> None then busy st
         else if gw_active (ss_gateways st ! g) \<noteq> None
         then busy (upd_call c (\<lambda>k. k\<lparr>cl_leg := Some (leg\<lparr>lg_invite_cancel := True\<rparr>)\<rparr>) st)
         else (Some (Inr ()),
               session_call_state env ''dialing'' ''modem_incoming_invite'' s
                 (upd_gateway g (\<lambda>w. w\<lparr>gw_active := Some c\<rparr>)
                   (upd_session s (\<lambda>n. n\<lparr>sn_sip_call := Some c\<rparr>)
                     (upd_call c (\<lambda>k. k\<lparr>cl_leg := Some (leg\<lparr>lg_invite_cancel := True\<rparr>)\<rparr>) st)))))"

definition start_modem_incoming_invite ::
    "sip_env \<Rightarrow> modem_target \<Rightarrow> string \<Rightarrow> nat \<Rightarrow> sip_state \<Rightarrow> unit result option \<times> sip_state" where
  "start_modem_incoming_invite env target caller0 g st =
     (let caller = trim_space caller0; w = ss_gateways st ! g; iccid = gateway_iccid w
      in if \<not> dialable caller then (Some (Inl err_sip_invalid_number), st)
         else if iccid = [] then (Some (Inl ''sip inbound gateway iccid is empty''), st)
         else case ensure_session env iccid target st of
           (Inl e, st1) \<Rightarrow> (Some (Inl e), st1)
         | (Inr s, st1) \<Rightarrow>
           (case ensure_audio env iccid st1 of
              (Inl e, st2) \<Rightarrow> (Some (Inl e), st2)
            | (Inr _, st2) \<Rightarrow>
              let c = length (ss_calls st2); leg = new_leg g iccid Modem_To_Sip caller;
                  k = (new_call s ((gw_cfg w)\<lparr>sc_register := False\<rparr>) (Some leg))
                        \<lparr>cl_route := Some \<lparr>ro_transport = gw_transport w, ro_proxy = gw_proxy w, ro_domain = gw_domain w,
                           ro_signal_host = gw_signal_host w, ro_signal_port = gw_signal_port w, ro_media_ip = gw_media_ip w\<rparr>\<rparr>
              in if \<not> sn_bridge (ss_sessions st2 ! s) then (Some (Inl err_sip_audio_not_ready), st2)
                 else claim_incoming env g s c leg (st2\<lparr>ss_calls := ss_calls st2 @ [k]\<rparr>)))"

definition sync_modem_state ::
    "sip_env \<Rightarrow> modem_target \<Rightarrow> modem_incoming \<Rightarrow> nat \<Rightarrow> sip_state \<Rightarrow> unit result option \<times> sip_state" where
  "sync_modem_state env target ms g st =
     (let w = ss_gateways st ! g; reason = modem_end_reason (mi_reason ms)
      in if mi_state ms = ''idle''
         then go_on (case gw_active w of None \<Rightarrow> (Some False, st) | Some c \<Rightarrow> end_leg_from_modem env reason g c st)
                (\<lambda>ended st1. if ended then (Some (Inr ()), st1)
                   else go_on (end_session_call_from_modem env reason g st1) (\<lambda>_ st2. (Some (Inr ()), st2)))
         else if gw_active w \<noteq> None \<or> \<not> sc_accept_incoming (gw_cfg w) \<or> trim_space (sc_invite_target (gw_cfg w)) = [] \<or>
            \<not> mi_ringing ms \<or> trim_space (mi_number ms) = [] \<or> mi_direction ms \<noteq> 1 \<or> mi_mode ms \<noteq> 0
         then (Some (Inr ()), st)
         else start_modem_incoming_invite env target (trim_space (mi_number ms)) g st)"

subsection \<open>Dialling a peer (\<open>dialTarget\<close>)\<close>

text \<open>
  Up to the point where the answer is awaited: \<open>reg_res\<close> is the outcome of registering first,
  \<open>invited\<close> that of sending the INVITE, with the id of the dialog.
\<close>

definition dial_target_begin ::
    "sip_env \<Rightarrow> unit result \<Rightarrow> string result \<Rightarrow> nat \<Rightarrow> sip_state \<Rightarrow> unit result \<times> sip_state" where
  "dial_target_begin env reg_res invited c st =
     (let k = ss_calls st ! c
      in case open_rtp_listener (se_bind_rtp env) (cl_cfg k) (cl_rtp_port k) of
           Inl e \<Rightarrow> (Inl e, st)
         | Inr port \<Rightarrow>
             let st1 = upd_call c (\<lambda>k. k\<lparr>cl_rtp_port := Some port\<rparr>) st
             in if sc_register (cl_cfg k) \<and> \<not> is_ok reg_res then (reg_res, st1)
                else case build_local_sdp (Some port) (se_now env) (case cl_route k of None \<Rightarrow> [] | Some r \<Rightarrow> ro_media_ip r) of
                  Inl e \<Rightarrow> (Inl e, st1)
                | Inr _ \<Rightarrow>
                    (case invited of
                       Inl e \<Rightarrow> (Inl e, st1)
                     | Inr d \<Rightarrow> (Inr (), upd_call c (\<lambda>k. k\<lparr>cl_dialog := Some d\<rparr>) st1)))"

text \<open>
  When the answer is there: \<open>reply_res\<close> (with the body of the response), \<open>acked\<close>, and \<open>accepted\<close>, the result
  of \<open>AnswerModem\<close> for a call that rings at the modem. \<open>onEstablished\<close> is the first update of the leg.
\<close>

definition established :: "nat \<Rightarrow> sip_state \<Rightarrow> sip_state" where
  "established c st =
     (case cl_leg (ss_calls st ! c) of
        None \<Rightarrow> st
      | Some leg \<Rightarrow>
          if gw_active (ss_gateways st ! lg_gateway leg) \<noteq> Some c then st
          else upd_call c (\<lambda>k. k\<lparr>cl_leg := Some (leg\<lparr>lg_invite_cancel := False,
                 lg_dialog_id := (case cl_dialog k of None \<Rightarrow> lg_dialog_id leg | Some d \<Rightarrow> d)\<rparr>)\<rparr>) st)"

definition dial_target_answered ::
    "sip_env \<Rightarrow> (invite_error, string) sum \<Rightarrow> unit result \<Rightarrow> unit result \<Rightarrow> nat \<Rightarrow> sip_state \<Rightarrow>
     (invite_error, unit) sum option \<times> sip_state" where
  "dial_target_answered env reply_res acked accepted c st =
     (case reply_res of
        Inl e \<Rightarrow> (Some (Inl e), st)
      | Inr body \<Rightarrow>
        (case acked of
           Inl e \<Rightarrow> (Some (Inl (Invite_Other e)), st)
         | Inr _ \<Rightarrow>
           (case parse_remote_sdp (se_parse_ip env) (se_lookup_ip env) body of
              Inl e \<Rightarrow> go_on (hangup_with_reason env ''remote_sdp_error'' c st) (\<lambda>_ st1. (Some (Inl (Invite_Other e)), st1))
            | Inr remote \<Rightarrow>
              let st1 = upd_call c (\<lambda>k. k\<lparr>cl_remote := Some remote\<rparr>) st
              in (case cl_leg (ss_calls st1 ! c) of
                    None \<Rightarrow> (Some (Inr ()), st1)
                  | Some leg \<Rightarrow>
                      let st2 = emit (Answer_Modem (lg_iccid leg)) (established c st1)
                      in (case accepted of
                            Inl e \<Rightarrow> go_on (hangup_with_reason env ''accept_error'' c st2) (\<lambda>_ st3. (Some (Inl (Invite_Other e)), st3))
                          | Inr _ \<Rightarrow> (Some (Inr ()), st2))))))"

text \<open>The background part of \<open>startModemIncomingInvite\<close>, in the two parts around the wait for the answer.\<close>

definition incoming_failed :: "sip_env \<Rightarrow> invite_error \<Rightarrow> nat \<Rightarrow> sip_state \<Rightarrow> unit option \<times> sip_state" where
  "incoming_failed env e c st = close_call env (classify_invite_failure (Some e)) c st"

definition incoming_invite_begin ::
    "sip_env \<Rightarrow> (string \<Rightarrow> sip_uri result) \<Rightarrow> unit result \<Rightarrow> string result \<Rightarrow> nat \<Rightarrow> sip_state \<Rightarrow> unit option \<times> sip_state" where
  "incoming_invite_begin env parse_uri reg_res invited c st =
     (let k = ss_calls st ! c
      in case (cl_leg k, cl_route k) of
           (Some leg, Some r) \<Rightarrow>
             if \<not> dialable (trim_space (lg_number leg)) then incoming_failed env (Invite_Other err_sip_invalid_number) c st
             else (case build_invite_target_uri parse_uri (sc_invite_target (cl_cfg k)) (ro_domain r) (ro_transport r) of
                     Inl e \<Rightarrow> incoming_failed env (Invite_Other e) c st
                   | Inr _ \<Rightarrow>
                       if trim_space (sc_username (cl_cfg k)) = []
                       then incoming_failed env (Invite_Other ''sip username is required for incoming call identity'') c st
                       else (case dial_target_begin env reg_res invited c st of
                               (Inl e, st1) \<Rightarrow> incoming_failed env (Invite_Other e) c st1
                             | (Inr _, st1) \<Rightarrow> (Some (), st1)))
         | _ \<Rightarrow> (Some (), st))"

definition incoming_invite_answered ::
    "sip_env \<Rightarrow> (invite_error, string) sum \<Rightarrow> unit result \<Rightarrow> unit result \<Rightarrow> nat \<Rightarrow> sip_state \<Rightarrow> unit option \<times> sip_state" where
  "incoming_invite_answered env reply_res acked accepted c st =
     go_on (dial_target_answered env reply_res acked accepted c st)
       (\<lambda>r st1. case r of
          Inl e \<Rightarrow> incoming_failed env e c st1
        | Inr _ \<Rightarrow>
            (case cl_leg (ss_calls st1 ! c) of
               None \<Rightarrow> (Some (), st1)
             | Some leg \<Rightarrow>
                 (Some (), if gw_active (ss_gateways st1 ! lg_gateway leg) = Some c
                           then session_call_state env ''in_call'' ''modem_incoming_connected'' (cl_session (ss_calls st1 ! c)) st1
                           else st1)))"

subsection \<open>A call made by a user\<close>

definition gateway_by_iccid :: "string \<Rightarrow> sip_state \<Rightarrow> nat option" where
  "gateway_by_iccid iccid st =
     map_option snd (find (\<lambda>(_, g). gw_line_iccid (ss_gateways st ! g) = iccid) (ss_lines st))"

definition sip_config_for_iccid :: "string \<Rightarrow> sip_state \<Rightarrow> sip_cfg option" where
  "sip_config_for_iccid iccid st = map_option (\<lambda>g. gw_cfg (ss_gateways st ! g)) (gateway_by_iccid iccid st)"

definition lock_session :: "nat \<Rightarrow> sip_state \<Rightarrow> unit option \<times> sip_state" where
  "lock_session s st =
     (if sn_locked (ss_sessions st ! s) then (None, st) else (Some (), upd_session s (\<lambda>n. n\<lparr>sn_locked := True\<rparr>) st))"

definition unlock_session :: "nat \<Rightarrow> sip_state \<Rightarrow> sip_state" where
  "unlock_session s = upd_session s (\<lambda>n. n\<lparr>sn_locked := False\<rparr>)"

text \<open>
  \<open>newSIPClientCall\<close>. When the listener of the call cannot be opened, \<open>Close\<close> tells the owner of the call,
  who takes the lock of the session.
\<close>

definition new_sip_client_call :: "sip_env \<Rightarrow> sip_cfg \<Rightarrow> nat \<Rightarrow> sip_state \<Rightarrow> nat result option \<times> sip_state" where
  "new_sip_client_call env cfg s st =
     (if \<not> sn_bridge (ss_sessions st ! s) then (Some (Inl err_sip_audio_not_ready), st)
      else case sip_route_of env cfg of
        Inl e \<Rightarrow> (Some (Inl e), st)
      | Inr r \<Rightarrow>
        (case se_sip_stack env (ro_signal_host r) (ro_signal_port r) of
           Inl e \<Rightarrow> (Some (Inl e), st)
         | Inr _ \<Rightarrow>
           let c = length (ss_calls st);
               st1 = st\<lparr>ss_calls := ss_calls st @ [(new_call s cfg None)\<lparr>cl_route := Some r\<rparr>]\<rparr>
           in (case start_listener env (ro_transport r) (ro_signal_port r) of
                 Inl e \<Rightarrow> go_on (close_call env ''sip_listener_error'' c st1) (\<lambda>_ st2. (Some (Inl e), st2))
               | Inr _ \<Rightarrow> (Some (Inr c), upd_call c (\<lambda>k. k\<lparr>cl_listener := True\<rparr>) st1))))"

text \<open>
  \<open>DialSIP\<close> until the peer answers. The lock of the session is held from the check for a call in progress
  to the end of the construction; the return for a modem without a line leaves it locked.
\<close>

definition dial_sip_locked :: "sip_env \<Rightarrow> string \<Rightarrow> nat \<Rightarrow> sip_state \<Rightarrow> nat result option \<times> sip_state" where
  "dial_sip_locked env iccid s st =
     (if sn_sip_call (ss_sessions st ! s) \<noteq> None then (Some (Inl err_sip_call_in_progress), unlock_session s st)
      else case sip_config_for_iccid iccid st of
        None \<Rightarrow> (Some (Inl ''sip client not configured for modem''), st)
      | Some cfg0 \<Rightarrow>
        (let n = int (length (ss_lines st));
             cfg = (if n > 0 \<and> sc_local_port cfg0 > 0 then cfg0\<lparr>sc_local_port := sc_local_port cfg0 + n + 1\<rparr> else cfg0)
         in go_on (new_sip_client_call env cfg s st)
              (\<lambda>r st1. case r of
                 Inl e \<Rightarrow> (Some (Inl e), unlock_session s st1)
               | Inr c \<Rightarrow> (Some (Inr c), unlock_session s (upd_session s (\<lambda>n. n\<lparr>sn_sip_call := Some c\<rparr>) st1)))))"

definition dial_sip ::
    "sip_env \<Rightarrow> unit result \<Rightarrow> string result \<Rightarrow> string \<Rightarrow> string \<Rightarrow> sip_state \<Rightarrow> nat result option \<times> sip_state" where
  "dial_sip env reg_res invited iccid number0 st =
     (case ss_by_iccid st iccid of
        None \<Rightarrow> (Some (Inl ''calling session not initialized''), st)
      | Some s \<Rightarrow>
        (case ensure_audio env iccid st of
           (Inl e, st1) \<Rightarrow> (Some (Inl (''audio init failed: '' @ e)), st1)
         | (Inr _, st1) \<Rightarrow>
           let number = trim_space number0
           in if \<not> dialable number then (Some (Inl err_sip_invalid_number), st1)
              else go_on (lock_session s st1) (\<lambda>_ st2. go_on (dial_sip_locked env iccid s st2)
                (\<lambda>r st3. case r of
                   Inl e \<Rightarrow> (Some (Inl e), st3)
                 | Inr c \<Rightarrow>
                   (case dial_target_begin env reg_res invited c (session_call_state env ''dialing'' ''sip_invite'' s st3) of
                      (Inl e, st4) \<Rightarrow> go_on (close_call env ''dial_error'' c st4) (\<lambda>_ st5. (Some (Inl e), st5))
                    | (Inr _, st4) \<Rightarrow> (Some (Inr c), st4))))))"

definition invite_error_text :: "sip_env \<Rightarrow> invite_error \<Rightarrow> string" where
  "invite_error_text env e =
     (case e of Invite_Cancelled \<Rightarrow> ''context canceled'' | Invite_Response code \<Rightarrow> se_dialog_error env code | Invite_Other m \<Rightarrow> m)"

definition dial_sip_answered ::
    "sip_env \<Rightarrow> (invite_error, string) sum \<Rightarrow> unit result \<Rightarrow> nat \<Rightarrow> sip_state \<Rightarrow> unit result option \<times> sip_state" where
  "dial_sip_answered env reply_res acked c st =
     go_on (dial_target_answered env reply_res acked (Inr ()) c st)
       (\<lambda>r st1. case r of
          Inl e \<Rightarrow> go_on (close_call env ''dial_error'' c st1) (\<lambda>_ st2. (Some (Inl (invite_error_text env e)), st2))
        | Inr _ \<Rightarrow> (Some (Inr ()), session_call_state env ''in_call'' ''sip_connected'' (cl_session (ss_calls st1 ! c)) st1))"

text \<open>The requests of the peer that reach the listener of such a call.\<close>

definition call_on_bye :: "sip_env \<Rightarrow> unit result \<Rightarrow> nat \<Rightarrow> sip_state \<Rightarrow> unit option \<times> sip_state" where
  "call_on_bye env read_bye c st =
     (case read_bye of Inl _ \<Rightarrow> (Some (), respond 481 ''No call'' st) | Inr _ \<Rightarrow> close_call env ''remote_bye'' c st)"

definition call_on_info :: "sip_state \<Rightarrow> sip_state" where
  "call_on_info st = respond 200 ''OK'' st"

text \<open>The call a session holds, for the operations on it.\<close>

definition session_call :: "string \<Rightarrow> sip_state \<Rightarrow> nat option option" where
  "session_call iccid st =
     (case ss_by_iccid st iccid of
        None \<Rightarrow> Some None
      | Some s \<Rightarrow> if sn_locked (ss_sessions st ! s) then None else Some (sn_sip_call (ss_sessions st ! s)))"

definition has_active_sip_call :: "string \<Rightarrow> sip_state \<Rightarrow> bool option" where
  "has_active_sip_call iccid st = map_option (\<lambda>c. c \<noteq> None) (session_call iccid st)"

definition hangup_sip :: "sip_env \<Rightarrow> string \<Rightarrow> sip_state \<Rightarrow> unit result option \<times> sip_state" where
  "hangup_sip env iccid st =
     (case session_call iccid st of
        None \<Rightarrow> (None, st)
      | Some None \<Rightarrow> (Some (Inl err_sip_no_active_call), st)
      | Some (Some c) \<Rightarrow> hangup_with_reason env ''hangup'' c st)"

definition send_sip_dtmf :: "(int \<times> string) result \<Rightarrow> string \<Rightarrow> string \<Rightarrow> sip_state \<Rightarrow> unit result option" where
  "send_sip_dtmf reply_res iccid tone st =
     (case session_call iccid st of
        None \<Rightarrow> None
      | Some None \<Rightarrow> Some (Inl err_sip_no_active_call)
      | Some (Some c) \<Rightarrow>
          (let k = ss_calls st ! c
           in case send_dtmf_body (cl_cfg k) (cl_dialog k \<noteq> None \<or> cl_dialog_uas k \<noteq> None) (trim_space tone) of
                Inl e \<Rightarrow> Some (Inl e)
              | Inr _ \<Rightarrow>
                  (case reply_res of
                     Inl e \<Rightarrow> Some (Inl e)
                   | Inr (status, reason) \<Rightarrow>
                       Some (if status \<ge> 300 then Inl (''dtmf rejected: '' @ go_itoa status @ '' '' @ trim_space reason) else Inr ()))))"

definition sip_call_state :: "string \<Rightarrow> sip_state \<Rightarrow> (string \<times> string \<times> int) option" where
  "sip_call_state iccid st =
     map_option (\<lambda>s. let n = ss_sessions st ! s in (sn_call_state n, sn_call_reason n, sn_updated_at n)) (ss_by_iccid st iccid)"

end
