(* ===== verification/Sip_Lines.thy ===== *)
theory Sip_Lines
  imports Sip_Calls
begin

text \<open>
  The SIP lines of the manager: \<open>sipGateways\<close>, the map from the id of a line to its gateway, and the
  operations that keep it. The list has the entries in the order in which a walk over the map meets them.
\<close>

subsection \<open>Operations\<close>

definition line_gateway :: "string \<Rightarrow> sip_state \<Rightarrow> nat option" where
  "line_gateway line_id st = map_of (ss_lines st) line_id"

definition without_line :: "string \<Rightarrow> (string \<times> nat) list \<Rightarrow> (string \<times> nat) list" where
  "without_line line_id = filter (\<lambda>(l, _). l \<noteq> line_id)"

definition set_line :: "string \<Rightarrow> nat \<Rightarrow> sip_state \<Rightarrow> sip_state" where
  "set_line line_id g st = st\<lparr>ss_lines := (line_id, g) # without_line line_id (ss_lines st)\<rparr>"

definition err_line_id_required :: string where "err_line_id_required = ''sip inbound line id is required''"

definition start_sip_inbound :: "sip_env \<Rightarrow> sip_cfg \<Rightarrow> string \<Rightarrow> int \<Rightarrow> sip_hooks \<Rightarrow> sip_state \<Rightarrow> unit result option \<times> sip_state" where
  "start_sip_inbound env cfg line_id0 local_port hooks st =
     (let line_id = trim_space line_id0
      in if line_id = [] then (Some (Inl err_line_id_required), st)
         else if \<not> hk_required hooks then (Some (Inl err_hooks_incomplete), st)
         else if line_gateway line_id st \<noteq> None then (Some (Inr ()), st)
         else go_on (new_sip_inbound_gateway env line_id (if local_port > 0 then cfg\<lparr>sc_local_port := local_port\<rparr> else cfg) hooks st)
                (\<lambda>r st1. case r of Inl e \<Rightarrow> (Some (Inl e), st1) | Inr g \<Rightarrow> (Some (Inr ()), set_line line_id g st1)))"

definition gateway_matches :: "sip_gateway \<Rightarrow> sip_cfg \<Rightarrow> sip_hooks \<Rightarrow> bool" where
  "gateway_matches w cfg hooks \<longleftrightarrow>
     gw_line_iccid w = trim_space (hk_iccid hooks) \<and> sip_config_signature (gw_cfg w) = sip_config_signature cfg"

text \<open>A line whose configuration changed is closed before its successor is made.\<close>

definition sync_sip_inbound :: "sip_env \<Rightarrow> string \<Rightarrow> sip_cfg \<Rightarrow> sip_hooks \<Rightarrow> sip_state \<Rightarrow> unit result option \<times> sip_state" where
  "sync_sip_inbound env line_id0 cfg hooks st =
     (let line_id = trim_space line_id0;
          replace = (\<lambda>st. go_on (new_sip_inbound_gateway env line_id cfg hooks st)
            (\<lambda>r st1. case r of Inl e \<Rightarrow> (Some (Inl e), st1) | Inr g \<Rightarrow> (Some (Inr ()), set_line line_id g st1)))
      in if line_id = [] then (Some (Inl err_line_id_required), st)
         else case line_gateway line_id st of
                None \<Rightarrow> replace st
              | Some g \<Rightarrow>
                  if gateway_matches (ss_gateways st ! g) cfg hooks then (Some (Inr ()), st)
                  else go_on (gateway_close env g (st\<lparr>ss_lines := without_line line_id (ss_lines st)\<rparr>)) (\<lambda>_ st1. replace st1))"

definition stop_sip_inbound_line :: "sip_env \<Rightarrow> string \<Rightarrow> sip_state \<Rightarrow> unit option \<times> sip_state" where
  "stop_sip_inbound_line env line_id0 st =
     (let line_id = trim_space line_id0
      in if line_id = [] then (Some (), st)
         else let st1 = st\<lparr>ss_lines := without_line line_id (ss_lines st)\<rparr>
              in case line_gateway line_id st of None \<Rightarrow> (Some (), st1) | Some g \<Rightarrow> gateway_close env g st1)"

fun close_gateways :: "sip_env \<Rightarrow> nat list \<Rightarrow> sip_state \<Rightarrow> unit option \<times> sip_state" where
  "close_gateways env [] st = (Some (), st)"
| "close_gateways env (g # gs) st = go_on (gateway_close env g st) (\<lambda>_ st1. close_gateways env gs st1)"

definition prune_sip_inbound_lines :: "sip_env \<Rightarrow> string list \<Rightarrow> sip_state \<Rightarrow> unit option \<times> sip_state" where
  "prune_sip_inbound_lines env active st =
     close_gateways env (map snd (filter (\<lambda>(l, _). l \<notin> set active) (ss_lines st)))
       (st\<lparr>ss_lines := filter (\<lambda>(l, _). l \<in> set active) (ss_lines st)\<rparr>)"

definition stop_sip_inbound :: "sip_env \<Rightarrow> sip_state \<Rightarrow> unit option \<times> sip_state" where
  "stop_sip_inbound env st = close_gateways env (map snd (ss_lines st)) (st\<lparr>ss_lines := []\<rparr>)"

fun close_sessions :: "sip_env \<Rightarrow> string list \<Rightarrow> sip_state \<Rightarrow> unit result option \<times> sip_state" where
  "close_sessions env [] st = (Some (Inr ()), st)"
| "close_sessions env (i # is) st =
     go_on (close_session env i st) (\<lambda>r st1. go_on (close_sessions env is st1)
       (\<lambda>rs st2. (Some (case r of Inl e \<Rightarrow> Inl e | Inr _ \<Rightarrow> rs), st2)))"

definition close_all :: "sip_env \<Rightarrow> string list \<Rightarrow> sip_state \<Rightarrow> unit result option \<times> sip_state" where
  "close_all env iccids st = go_on (stop_sip_inbound env st) (\<lambda>_ st1. close_sessions env iccids st1)"

record line_info =
  li_line_id :: string
  li_iccid :: string
  li_local_port :: int
  li_transport :: string
  li_active :: bool
  li_register_state :: string
  li_register_reason :: string
  li_updated_at :: int

definition sip_inbound_line_info :: "string \<Rightarrow> sip_state \<Rightarrow> line_info option" where
  "sip_inbound_line_info iccid st =
     map_option (\<lambda>g. let w = ss_gateways st ! g
       in \<lparr>li_line_id = gw_line_id w, li_iccid = gw_line_iccid w, li_local_port = gw_signal_port w, li_transport = gw_transport w,
           li_active = gw_listener w, li_register_state = gw_register_state w, li_register_reason = gw_register_reason w,
           li_updated_at = gw_register_at w\<rparr>)
       (gateway_by_iccid iccid st)"

definition sync_modem_incoming_sip ::
    "sip_env \<Rightarrow> string \<Rightarrow> modem_target \<Rightarrow> modem_incoming \<Rightarrow> sip_state \<Rightarrow> unit result option \<times> sip_state" where
  "sync_modem_incoming_sip env iccid target ms st =
     (case gateway_by_iccid iccid st of None \<Rightarrow> (Some (Inr ()), st) | Some g \<Rightarrow> sync_modem_state env target ms g st)"

end
