(* ===== verification/Sip_Invariants.thy ===== *)
theory Sip_Invariants
  imports Sip_Lines
begin

text \<open>
  What every sequence of SIP operations keeps: which calls are open is exactly what the sessions and the
  gateways say, and the gateways that listen are exactly the lines of the manager.
\<close>

subsection \<open>Calls, sessions and gateways agree\<close>

abbreviation call_leg_gateway :: "sip_call \<Rightarrow> nat option" where
  "call_leg_gateway k \<equiv> map_option lg_gateway (cl_leg k)"

definition refs_ok :: "sip_state \<Rightarrow> bool" where
  "refs_ok st \<longleftrightarrow>
     (\<forall>c < length (ss_calls st). cl_session (ss_calls st ! c) < length (ss_sessions st) \<and>
        (\<forall>g. call_leg_gateway (ss_calls st ! c) = Some g \<longrightarrow> g < length (ss_gateways st))) \<and>
     (\<forall>i s. ss_by_iccid st i = Some s \<longrightarrow> s < length (ss_sessions st))"

definition slots_ok :: "sip_state \<Rightarrow> bool" where
  "slots_ok st \<longleftrightarrow>
     (\<forall>s < length (ss_sessions st). \<forall>c. sn_sip_call (ss_sessions st ! s) = Some c \<longrightarrow>
        c < length (ss_calls st) \<and> cl_session (ss_calls st ! c) = s \<and> \<not> cl_closed (ss_calls st ! c) \<and>
        \<not> sn_locked (ss_sessions st ! s))"

definition actives_ok :: "sip_state \<Rightarrow> bool" where
  "actives_ok st \<longleftrightarrow>
     (\<forall>g < length (ss_gateways st). \<forall>c. gw_active (ss_gateways st ! g) = Some c \<longrightarrow>
        c < length (ss_calls st) \<and> call_leg_gateway (ss_calls st ! c) = Some g \<and> \<not> cl_closed (ss_calls st ! c))"

text \<open>
  The calls of \<open>E\<close> are open and not yet (or no longer) in their places. An INVITE that waits for the lock
  of a session that is never released keeps its call open for ever.
\<close>

definition open_ok :: "nat set \<Rightarrow> sip_state \<Rightarrow> bool" where
  "open_ok E st \<longleftrightarrow>
     (\<forall>c < length (ss_calls st). \<not> cl_closed (ss_calls st ! c) \<longrightarrow> c \<notin> E \<longrightarrow>
        \<not> sn_locked (ss_sessions st ! cl_session (ss_calls st ! c)) \<longrightarrow>
        sn_sip_call (ss_sessions st ! cl_session (ss_calls st ! c)) = Some c \<and>
        (\<forall>g. call_leg_gateway (ss_calls st ! c) = Some g \<longrightarrow> gw_active (ss_gateways st ! g) = Some c)) \<and>
     (\<forall>g < length (ss_gateways st). \<forall>c. gw_active (ss_gateways st ! g) = Some c \<longrightarrow> c \<notin> E \<longrightarrow>
        sn_sip_call (ss_sessions st ! cl_session (ss_calls st ! c)) = Some c)"

lemma open_okI:
  assumes "\<And>c. c < length (ss_calls st) \<Longrightarrow> \<not> cl_closed (ss_calls st ! c) \<Longrightarrow> c \<notin> E \<Longrightarrow>
      \<not> sn_locked (ss_sessions st ! cl_session (ss_calls st ! c)) \<Longrightarrow>
      sn_sip_call (ss_sessions st ! cl_session (ss_calls st ! c)) = Some c"
    and "\<And>c g. c < length (ss_calls st) \<Longrightarrow> \<not> cl_closed (ss_calls st ! c) \<Longrightarrow> c \<notin> E \<Longrightarrow>
      \<not> sn_locked (ss_sessions st ! cl_session (ss_calls st ! c)) \<Longrightarrow> call_leg_gateway (ss_calls st ! c) = Some g \<Longrightarrow>
      gw_active (ss_gateways st ! g) = Some c"
    and "\<And>g c. g < length (ss_gateways st) \<Longrightarrow> gw_active (ss_gateways st ! g) = Some c \<Longrightarrow> c \<notin> E \<Longrightarrow>
      sn_sip_call (ss_sessions st ! cl_session (ss_calls st ! c)) = Some c"
  shows "open_ok E st"
  using assms unfolding open_ok_def by blast

lemma open_okD:
  assumes "open_ok E st" and "c \<notin> E"
  shows "c < length (ss_calls st) \<Longrightarrow> \<not> cl_closed (ss_calls st ! c) \<Longrightarrow>
      \<not> sn_locked (ss_sessions st ! cl_session (ss_calls st ! c)) \<Longrightarrow>
      sn_sip_call (ss_sessions st ! cl_session (ss_calls st ! c)) = Some c"
    and "c < length (ss_calls st) \<Longrightarrow> \<not> cl_closed (ss_calls st ! c) \<Longrightarrow>
      \<not> sn_locked (ss_sessions st ! cl_session (ss_calls st ! c)) \<Longrightarrow> call_leg_gateway (ss_calls st ! c) = Some g \<Longrightarrow>
      gw_active (ss_gateways st ! g) = Some c"
    and "g < length (ss_gateways st) \<Longrightarrow> gw_active (ss_gateways st ! g) = Some c \<Longrightarrow>
      sn_sip_call (ss_sessions st ! cl_session (ss_calls st ! c)) = Some c"
  using assms unfolding open_ok_def by blast+

lemma refs_okD:
  assumes "refs_ok st"
  shows "c < length (ss_calls st) \<Longrightarrow> cl_session (ss_calls st ! c) < length (ss_sessions st)"
    and "c < length (ss_calls st) \<Longrightarrow> call_leg_gateway (ss_calls st ! c) = Some g \<Longrightarrow> g < length (ss_gateways st)"
    and "ss_by_iccid st i = Some s \<Longrightarrow> s < length (ss_sessions st)"
  using assms unfolding refs_ok_def by blast+

lemma slots_okD:
  assumes "slots_ok st" and "s < length (ss_sessions st)" and "sn_sip_call (ss_sessions st ! s) = Some c"
  shows "c < length (ss_calls st)" "cl_session (ss_calls st ! c) = s" "\<not> cl_closed (ss_calls st ! c)"
    "\<not> sn_locked (ss_sessions st ! s)"
  using assms unfolding slots_ok_def by blast+

lemma actives_okD:
  assumes "actives_ok st" and "g < length (ss_gateways st)" and "gw_active (ss_gateways st ! g) = Some c"
  shows "c < length (ss_calls st)" "call_leg_gateway (ss_calls st ! c) = Some g" "\<not> cl_closed (ss_calls st ! c)"
  using assms unfolding actives_ok_def by blast+

definition calls_inv :: "nat set \<Rightarrow> sip_state \<Rightarrow> bool" where
  "calls_inv E st \<longleftrightarrow> refs_ok st \<and> slots_ok st \<and> actives_ok st \<and> open_ok E st"

lemmas calls_inv_defs = calls_inv_def refs_ok_def slots_ok_def actives_ok_def open_ok_def

lemma calls_invI: "refs_ok st \<Longrightarrow> slots_ok st \<Longrightarrow> actives_ok st \<Longrightarrow> open_ok E st \<Longrightarrow> calls_inv E st"
  by (simp add: calls_inv_def)

text \<open>The invariant looks at the state only through this view.\<close>

definition calls_view ::
    "sip_state \<Rightarrow> (nat \<times> nat option \<times> bool) list \<times> (nat option \<times> bool) list \<times> nat option list \<times> (string \<Rightarrow> nat option)" where
  "calls_view st =
     (map (\<lambda>k. (cl_session k, call_leg_gateway k, cl_closed k)) (ss_calls st),
      map (\<lambda>n. (sn_sip_call n, sn_locked n)) (ss_sessions st), map gw_active (ss_gateways st), ss_by_iccid st)"

lemma view_same:
  assumes "calls_view st = calls_view st'"
  shows "length (ss_calls st') = length (ss_calls st)" "length (ss_sessions st') = length (ss_sessions st)"
    "length (ss_gateways st') = length (ss_gateways st)" "ss_by_iccid st' = ss_by_iccid st"
    "c < length (ss_calls st) \<Longrightarrow> cl_session (ss_calls st' ! c) = cl_session (ss_calls st ! c) \<and>
       call_leg_gateway (ss_calls st' ! c) = call_leg_gateway (ss_calls st ! c) \<and>
       cl_closed (ss_calls st' ! c) = cl_closed (ss_calls st ! c)"
    "s < length (ss_sessions st) \<Longrightarrow> sn_sip_call (ss_sessions st' ! s) = sn_sip_call (ss_sessions st ! s) \<and>
       sn_locked (ss_sessions st' ! s) = sn_locked (ss_sessions st ! s)"
    "g < length (ss_gateways st) \<Longrightarrow> gw_active (ss_gateways st' ! g) = gw_active (ss_gateways st ! g)"
proof -
  from assms have m:
    "map (\<lambda>k. (cl_session k, call_leg_gateway k, cl_closed k)) (ss_calls st) = map (\<lambda>k. (cl_session k, call_leg_gateway k, cl_closed k)) (ss_calls st')"
    "map (\<lambda>n. (sn_sip_call n, sn_locked n)) (ss_sessions st) = map (\<lambda>n. (sn_sip_call n, sn_locked n)) (ss_sessions st')"
    "map gw_active (ss_gateways st) = map gw_active (ss_gateways st')" "ss_by_iccid st = ss_by_iccid st'"
    by (simp_all add: calls_view_def)
  note l = m(1-3) [THEN arg_cong, of length, simplified]
  note l [simp]
  show "length (ss_calls st') = length (ss_calls st)" "length (ss_sessions st') = length (ss_sessions st)"
    "length (ss_gateways st') = length (ss_gateways st)" "ss_by_iccid st' = ss_by_iccid st" using m(4) by simp_all
  show "c < length (ss_calls st) \<Longrightarrow> cl_session (ss_calls st' ! c) = cl_session (ss_calls st ! c) \<and>
       call_leg_gateway (ss_calls st' ! c) = call_leg_gateway (ss_calls st ! c) \<and>
       cl_closed (ss_calls st' ! c) = cl_closed (ss_calls st ! c)"
    using arg_cong [OF m(1), of "\<lambda>xs. xs ! c"] by simp
  show "s < length (ss_sessions st) \<Longrightarrow> sn_sip_call (ss_sessions st' ! s) = sn_sip_call (ss_sessions st ! s) \<and>
       sn_locked (ss_sessions st' ! s) = sn_locked (ss_sessions st ! s)"
    using arg_cong [OF m(2), of "\<lambda>xs. xs ! s"] by simp
  show "g < length (ss_gateways st) \<Longrightarrow> gw_active (ss_gateways st' ! g) = gw_active (ss_gateways st ! g)"
    using arg_cong [OF m(3), of "\<lambda>xs. xs ! g"] by simp
qed

lemma calls_inv_view:
  assumes "calls_view st = calls_view st'" and "calls_inv E st"
  shows "calls_inv E st'"
proof (rule calls_invI)
  note v = view_same [OF assms(1)]
  from assms(2) have i: "refs_ok st" "slots_ok st" "actives_ok st" "open_ok E st" by (simp_all add: calls_inv_def)
  show "refs_ok st'" using i(1) v(5) unfolding refs_ok_def v(1-4) by metis
  show "slots_ok st'" using i(2) v(5,6) unfolding slots_ok_def v(1-4) by metis
  show "actives_ok st'" using i(3) v(5,7) unfolding actives_ok_def v(1-4) by metis
  have b: "cl_session (ss_calls st ! c) < length (ss_sessions st)"
      "\<And>g. call_leg_gateway (ss_calls st ! c) = Some g \<Longrightarrow> g < length (ss_gateways st)"
    if "c < length (ss_calls st)" for c using i(1) that by (auto simp: refs_ok_def)
  have "c < length (ss_calls st)" if "g < length (ss_gateways st)" "gw_active (ss_gateways st ! g) = Some c" for g c
    using i(3) that by (simp add: actives_ok_def)
  then show "open_ok E st'" unfolding open_ok_def v(1-4)
    using i(4) [unfolded open_ok_def] b v(5-7) by (intro conjI allI impI; metis)
qed

lemma map_update_same: "g (f (xs ! i)) = g (xs ! i) \<Longrightarrow> map g (xs[i := f (xs ! i)]) = map g xs"
  by (metis list_update_id map_update)

lemma view_upd_session [simp]:
  "(\<And>n. sn_sip_call (f n) = sn_sip_call n \<and> sn_locked (f n) = sn_locked n) \<Longrightarrow> calls_view (upd_session s f st) = calls_view st"
  by (simp add: calls_view_def upd_session_def map_update_same)

lemma view_upd_call [simp]:
  "(\<And>k. cl_session (f k) = cl_session k \<and> call_leg_gateway (f k) = call_leg_gateway k \<and> cl_closed (f k) = cl_closed k) \<Longrightarrow>
   calls_view (upd_call c f st) = calls_view st"
  by (simp add: calls_view_def upd_call_def map_update_same)

lemma view_upd_gateway [simp]:
  "(\<And>w. gw_active (f w) = gw_active w) \<Longrightarrow> calls_view (upd_gateway g f st) = calls_view st"
  by (simp add: calls_view_def upd_gateway_def map_update_same)

lemma view_emit [simp]: "calls_view (emit e st) = calls_view st"
  by (simp add: calls_view_def emit_def)

lemma view_lines [simp]: "calls_view (st\<lparr>ss_lines := ls\<rparr>) = calls_view st"
  by (simp add: calls_view_def)

lemma view_session_call_state [simp]: "calls_view (session_call_state env a b s st) = calls_view st"
  by (simp add: session_call_state_def)

lemma view_respond [simp]: "calls_view (respond code r st) = calls_view st"
  by (simp add: respond_def)

lemma view_set_register_status [simp]: "calls_view (set_register_status env a b g st) = calls_view st"
  by (simp add: set_register_status_def)

lemma view_leg:
  "cl_leg (ss_calls st ! c) = Some leg \<Longrightarrow> lg_gateway leg' = lg_gateway leg \<Longrightarrow>
   calls_view (upd_call c (\<lambda>k. k\<lparr>cl_leg := Some leg'\<rparr>) st) = calls_view st"
  by (simp add: calls_view_def upd_call_def map_update_same)

text \<open>Results that never come are no problem for an invariant of the state.\<close>

lemma go_on_state:
  "P (snd m) \<Longrightarrow> (\<And>x st. m = (Some x, st) \<Longrightarrow> P st \<Longrightarrow> P (snd (f x st))) \<Longrightarrow> P (snd (go_on m f))"
  by (cases m; cases "fst m") (auto simp: go_on_def)

subsection \<open>Closing a call\<close>

definition forget_call :: "nat \<Rightarrow> sip_state \<Rightarrow> sip_state" where
  "forget_call c st =
     st\<lparr>ss_calls := (ss_calls st)[c := (ss_calls st ! c)\<lparr>cl_closed := True\<rparr>],
        ss_sessions := map (\<lambda>n. n\<lparr>sn_sip_call := (if sn_sip_call n = Some c then None else sn_sip_call n)\<rparr>) (ss_sessions st),
        ss_gateways := map (\<lambda>w. w\<lparr>gw_active := (if gw_active w = Some c then None else gw_active w)\<rparr>) (ss_gateways st)\<rparr>"

lemma forget_call_simps [simp]:
  "length (ss_calls (forget_call c st)) = length (ss_calls st)"
  "length (ss_sessions (forget_call c st)) = length (ss_sessions st)"
  "length (ss_gateways (forget_call c st)) = length (ss_gateways st)"
  "ss_by_iccid (forget_call c st) = ss_by_iccid st"
  "cl_session (ss_calls (forget_call c st) ! d) = cl_session (ss_calls st ! d)"
  "cl_leg (ss_calls (forget_call c st) ! d) = cl_leg (ss_calls st ! d)"
  "c < length (ss_calls st) \<Longrightarrow> cl_closed (ss_calls (forget_call c st) ! d) \<longleftrightarrow> d = c \<or> cl_closed (ss_calls st ! d)"
  "s < length (ss_sessions st) \<Longrightarrow> sn_locked (ss_sessions (forget_call c st) ! s) = sn_locked (ss_sessions st ! s)"
  "s < length (ss_sessions st) \<Longrightarrow> sn_sip_call (ss_sessions (forget_call c st) ! s) =
     (if sn_sip_call (ss_sessions st ! s) = Some c then None else sn_sip_call (ss_sessions st ! s))"
  "g < length (ss_gateways st) \<Longrightarrow> gw_active (ss_gateways (forget_call c st) ! g) =
     (if gw_active (ss_gateways st ! g) = Some c then None else gw_active (ss_gateways st ! g))"
  by (cases "c < length (ss_calls st)"; cases "c = d"; simp add: forget_call_def list_update_beyond)+

lemma forget_call_inv:
  assumes "calls_inv E st" and c: "c < length (ss_calls st)"
  shows "calls_inv (E - {c}) (forget_call c st)"
proof (rule calls_invI)
  from assms have i: "refs_ok st" "slots_ok st" "actives_ok st" "open_ok E st" by (simp_all add: calls_inv_def)
  from i(1) have b: "cl_session (ss_calls st ! d) < length (ss_sessions st)"
      "\<And>g. call_leg_gateway (ss_calls st ! d) = Some g \<Longrightarrow> g < length (ss_gateways st)"
    if "d < length (ss_calls st)" for d using that by (auto simp: refs_ok_def)
  from i(3) have a: "d < length (ss_calls st)" "\<not> cl_closed (ss_calls st ! d)"
    if "g < length (ss_gateways st)" "gw_active (ss_gateways st ! g) = Some d" for g d using that by (auto simp: actives_ok_def)
  show "refs_ok (forget_call c st)" using i(1) by (simp add: refs_ok_def)
  show "slots_ok (forget_call c st)" using i(2) c by (auto simp: slots_ok_def)
  show "actives_ok (forget_call c st)" using i(3) c by (auto simp: actives_ok_def)
  show "open_ok (E - {c}) (forget_call c st)" unfolding open_ok_def
  proof (intro conjI allI impI)
    fix d assume d: "d < length (ss_calls (forget_call c st))" "\<not> cl_closed (ss_calls (forget_call c st) ! d)" "d \<notin> E - {c}"
      "\<not> sn_locked (ss_sessions (forget_call c st) ! cl_session (ss_calls (forget_call c st) ! d))"
    with c b have "d \<noteq> c" "d < length (ss_calls st)" "d \<notin> E" "\<not> cl_closed (ss_calls st ! d)"
      "\<not> sn_locked (ss_sessions st ! cl_session (ss_calls st ! d))" by simp_all
    moreover from this i(4) have "sn_sip_call (ss_sessions st ! cl_session (ss_calls st ! d)) = Some d"
      "\<And>g. call_leg_gateway (ss_calls st ! d) = Some g \<Longrightarrow> gw_active (ss_gateways st ! g) = Some d"
      by (simp_all add: open_ok_def)
    ultimately show "sn_sip_call (ss_sessions (forget_call c st) ! cl_session (ss_calls (forget_call c st) ! d)) = Some d"
      "\<And>g. call_leg_gateway (ss_calls (forget_call c st) ! d) = Some g \<Longrightarrow> gw_active (ss_gateways (forget_call c st) ! g) = Some d"
      using b by simp_all
  next
    fix g d assume g: "g < length (ss_gateways (forget_call c st))" "gw_active (ss_gateways (forget_call c st) ! g) = Some d" "d \<notin> E - {c}"
    then have "d \<noteq> c" "gw_active (ss_gateways st ! g) = Some d" "g < length (ss_gateways st)" by (auto split: if_splits)
    with g(3) i(4) a [of g d] b show "sn_sip_call (ss_sessions (forget_call c st) ! cl_session (ss_calls (forget_call c st) ! d)) = Some d"
      by (simp add: open_ok_def)
  qed
qed

lemma map_at: "(\<And>j. j < length xs \<Longrightarrow> j \<noteq> i \<Longrightarrow> f (xs ! j) = xs ! j) \<Longrightarrow> map f xs = xs[i := f (xs ! i)]"
  by (rule nth_equalityI) (simp, metis length_map nth_list_update_eq nth_list_update_neq nth_map)

abbreviation unslot :: "nat \<Rightarrow> sip_session \<Rightarrow> sip_session" where
  "unslot c n \<equiv> n\<lparr>sn_sip_call := (if sn_sip_call n = Some c then None else sn_sip_call n)\<rparr>"

abbreviation unactive :: "nat \<Rightarrow> sip_gateway \<Rightarrow> sip_gateway" where
  "unactive c w \<equiv> w\<lparr>gw_active := (if gw_active w = Some c then None else gw_active w)\<rparr>"

lemma forget_sessions:
  assumes "slots_ok st"
  shows "map (unslot c) (ss_sessions st) =
    (ss_sessions st)[cl_session (ss_calls st ! c) := unslot c (ss_sessions st ! cl_session (ss_calls st ! c))]"
  using assms by (intro map_at) (auto simp: slots_ok_def)

lemma forget_locked:
  assumes "slots_ok st" and "sn_locked (ss_sessions st ! cl_session (ss_calls st ! c))"
  shows "map (unslot c) (ss_sessions st) = ss_sessions st"
  using assms by (intro map_idI) (fastforce simp: slots_ok_def in_set_conv_nth)

lemma forget_gateways:
  assumes "actives_ok st"
  shows "map (unactive c) (ss_gateways st) =
    (case cl_leg (ss_calls st ! c) of None \<Rightarrow> ss_gateways st
      | Some leg \<Rightarrow> (ss_gateways st)[lg_gateway leg := unactive c (ss_gateways st ! lg_gateway leg)])"
proof (cases "cl_leg (ss_calls st ! c)")
  case None
  have "gw_active w \<noteq> Some c" if w: "w \<in> set (ss_gateways st)" for w
  proof
    assume "gw_active w = Some c"
    with assms w have "call_leg_gateway (ss_calls st ! c) \<noteq> None" unfolding actives_ok_def in_set_conv_nth by fastforce
    with None show False by simp
  qed
  then show ?thesis using None by (auto intro!: map_idI)
next
  case (Some leg)
  have "map (unactive c) (ss_gateways st) = (ss_gateways st)[lg_gateway leg := unactive c (ss_gateways st ! lg_gateway leg)]"
    by (rule map_at) (use assms Some in \<open>auto simp: actives_ok_def\<close>)
  then show ?thesis by (simp only: Some option.case)
qed

lemma close_call_view:
  assumes "calls_inv E st" and "c < length (ss_calls st)" and "\<not> cl_closed (ss_calls st ! c)"
  shows "calls_view (snd (close_call env reason c st)) = calls_view (forget_call c st)"
proof -
  let ?k = "ss_calls st ! c"
  let ?s = "cl_session ?k"
  from assms(1) have i: "slots_ok st" "actives_ok st" "?s < length (ss_sessions st)"
    using assms(2) by (simp_all add: calls_inv_def refs_ok_def)
  show ?thesis
  proof (cases "sn_locked (ss_sessions st ! ?s)")
    case True
    show ?thesis
      using assms(2,3) forget_locked [OF i(1) True] forget_gateways [OF i(2), of c] True
      by (cases "cl_leg ?k")
         (simp_all add: close_call_def Let_def release_slot_def handle_leg_ended_def go_on_def forget_call_def calls_view_def
           upd_call_def upd_gateway_def emit_def map_update)
  next
    case False
    show ?thesis
      using assms(2,3) forget_sessions [OF i(1), of c] forget_gateways [OF i(2), of c] False i(3)
      by (cases "cl_leg ?k")
         (simp_all add: close_call_def Let_def release_slot_def handle_leg_ended_def go_on_def forget_call_def calls_view_def
           upd_call_def upd_gateway_def upd_session_def session_call_state_def emit_def map_update)
  qed
qed

lemma close_call_inv:
  assumes "calls_inv E st" and "c < length (ss_calls st)"
  shows "calls_inv (E - {c}) (snd (close_call env reason c st))"
proof (cases "cl_closed (ss_calls st ! c)")
  case True
  with assms(1) have "gw_active (ss_gateways st ! g) \<noteq> Some c" if "g < length (ss_gateways st)" for g
    using that unfolding calls_inv_def actives_ok_def by blast
  with True show ?thesis using assms(1) by (auto simp: close_call_def calls_inv_def open_ok_def)
next
  case False
  show ?thesis
    using calls_inv_view [OF close_call_view [OF assms False, symmetric] forget_call_inv [OF assms]] .
qed

subsection \<open>The operations on calls\<close>

lemma upd_lengths [simp]:
  "length (ss_calls (upd_call c f st)) = length (ss_calls st)" "ss_sessions (upd_call c f st) = ss_sessions st"
  "ss_gateways (upd_call c f st) = ss_gateways st" "ss_by_iccid (upd_call c f st) = ss_by_iccid st"
  "ss_calls (upd_session s h st) = ss_calls st" "length (ss_sessions (upd_session s h st)) = length (ss_sessions st)"
  "ss_gateways (upd_session s h st) = ss_gateways st" "ss_by_iccid (upd_session s h st) = ss_by_iccid st"
  "ss_calls (upd_gateway g k st) = ss_calls st" "ss_sessions (upd_gateway g k st) = ss_sessions st"
  "length (ss_gateways (upd_gateway g k st)) = length (ss_gateways st)" "ss_by_iccid (upd_gateway g k st) = ss_by_iccid st"
  "ss_calls (emit e st) = ss_calls st" "ss_sessions (emit e st) = ss_sessions st" "ss_gateways (emit e st) = ss_gateways st"
  "ss_by_iccid (emit e st) = ss_by_iccid st" "ss_lines (upd_call c f st) = ss_lines st"
  "ss_lines (upd_session s h st) = ss_lines st" "ss_lines (upd_gateway g k st) = ss_lines st" "ss_lines (emit e st) = ss_lines st"
  by (simp_all add: upd_call_def upd_session_def upd_gateway_def emit_def)

lemma close_call_lengths [simp]:
  "length (ss_calls (snd (close_call env r c st))) = length (ss_calls st)"
  "length (ss_sessions (snd (close_call env r c st))) = length (ss_sessions st)"
  "length (ss_gateways (snd (close_call env r c st))) = length (ss_gateways st)"
  "ss_by_iccid (snd (close_call env r c st)) = ss_by_iccid st"
  by (simp_all add: close_call_def Let_def handle_leg_ended_def release_slot_def go_on_def session_call_state_def split: option.splits)

lemma hangup_lengths [simp]:
  "length (ss_calls (snd (hangup_with_reason env r c st))) = length (ss_calls st)"
  "length (ss_sessions (snd (hangup_with_reason env r c st))) = length (ss_sessions st)"
  "length (ss_gateways (snd (hangup_with_reason env r c st))) = length (ss_gateways st)"
proof -
  have "snd (hangup_with_reason env r c st) = snd (close_call env r c
      (if cl_dialog (ss_calls st ! c) \<noteq> None \<or> cl_dialog_uas (ss_calls st ! c) \<noteq> None then emit (Bye_Sent c r) st else st))"
    by (simp add: hangup_with_reason_def Let_def go_on_def split: prod.splits option.splits)
  then show "length (ss_calls (snd (hangup_with_reason env r c st))) = length (ss_calls st)"
    "length (ss_sessions (snd (hangup_with_reason env r c st))) = length (ss_sessions st)"
    "length (ss_gateways (snd (hangup_with_reason env r c st))) = length (ss_gateways st)" by simp_all
qed

lemma calls_inv_eq: "calls_view st = calls_view st' \<Longrightarrow> calls_inv E st \<longleftrightarrow> calls_inv E st'"
  using calls_inv_view by metis

lemma sip_hangup_inv:
  assumes "calls_inv E st" and "c < length (ss_calls st)"
  shows "calls_inv (E - {c}) (snd (hangup_with_reason env reason c st))"
proof -
  have "calls_inv (E - {c}) (snd (close_call env reason c st))" by (rule close_call_inv [OF assms])
  moreover have "calls_inv (E - {c}) (snd (close_call env reason c (emit (Bye_Sent c reason) st)))"
    using close_call_inv [of E "emit (Bye_Sent c reason) st" c env reason] assms calls_inv_eq [of "emit (Bye_Sent c reason) st" st E] by simp
  ultimately show ?thesis
    by (auto simp: hangup_with_reason_def Let_def go_on_def split: prod.splits option.splits)
qed

lemma append_call_inv:
  assumes "calls_inv E st" and "cl_session k < length (ss_sessions st)" and "\<not> cl_closed k"
    and "\<And>g. call_leg_gateway k = Some g \<Longrightarrow> g < length (ss_gateways st)"
  shows "calls_inv (insert (length (ss_calls st)) E) (st\<lparr>ss_calls := ss_calls st @ [k]\<rparr>)"
proof (rule calls_invI)
  from assms(1) have i: "refs_ok st" "slots_ok st" "actives_ok st" "open_ok E st" by (simp_all add: calls_inv_def)
  let ?st = "st\<lparr>ss_calls := ss_calls st @ [k]\<rparr>"
  show "refs_ok ?st" using i(1) assms(2,4) by (auto simp: refs_ok_def nth_append less_Suc_eq)
  show "slots_ok ?st" using i(2) by (auto simp: slots_ok_def nth_append less_Suc_eq)
  show "actives_ok ?st" using i(3) by (auto simp: actives_ok_def nth_append less_Suc_eq)
  show "open_ok (insert (length (ss_calls st)) E) ?st"
  proof (rule open_okI, goal_cases)
    case (1 c)
    then show ?case using open_okD(1) [OF i(4), of c] by (simp add: nth_append less_Suc_eq)
  next
    case (2 c g)
    then show ?case using open_okD(2) [OF i(4), of c g] by (simp add: nth_append less_Suc_eq)
  next
    case (3 g c)
    then have g: "g < length (ss_gateways st)" "gw_active (ss_gateways st ! g) = Some c" by simp_all
    from 3 open_okD(3) [OF i(4) _ g] actives_okD(1) [OF i(3) g] show ?case by (simp add: nth_append)
  qed
qed

lemma append_session_inv:
  assumes "calls_inv E st" and "sn_sip_call n = None"
  shows "calls_inv E (st\<lparr>ss_sessions := ss_sessions st @ [n], ss_by_iccid := (ss_by_iccid st)(i \<mapsto> length (ss_sessions st))\<rparr>)"
proof (rule calls_invI)
  from assms(1) have i: "refs_ok st" "slots_ok st" "actives_ok st" "open_ok E st" by (simp_all add: calls_inv_def)
  let ?st = "st\<lparr>ss_sessions := ss_sessions st @ [n], ss_by_iccid := (ss_by_iccid st)(i \<mapsto> length (ss_sessions st))\<rparr>"
  show "refs_ok ?st" using i(1) by (fastforce simp: refs_ok_def less_Suc_eq)
  show "slots_ok ?st" using i(2) assms(2) by (auto simp: slots_ok_def nth_append less_Suc_eq)
  show "actives_ok ?st" using i(3) by (auto simp: actives_ok_def)
  show "open_ok E ?st"
  proof (rule open_okI, goal_cases)
    case (1 c)
    then have c: "c < length (ss_calls st)" "\<not> cl_closed (ss_calls st ! c)" by simp_all
    from open_okD(1) [OF i(4) 1(3) c] 1(4) refs_okD(1) [OF i(1) c(1)] show ?case by (simp add: nth_append)
  next
    case (2 c g)
    then have c: "c < length (ss_calls st)" "\<not> cl_closed (ss_calls st ! c)" by simp_all
    from open_okD(2) [OF i(4) 2(3) c _, of g] 2(4,5) refs_okD(1) [OF i(1) c(1)] show ?case by (simp add: nth_append)
  next
    case (3 g c)
    then have g: "g < length (ss_gateways st)" "gw_active (ss_gateways st ! g) = Some c" by simp_all
    from open_okD(3) [OF i(4) 3(3) g] refs_okD(1) [OF i(1) actives_okD(1) [OF i(3) g]] show ?case by (simp add: nth_append)
  qed
qed

lemma append_gateway_inv:
  assumes "calls_inv E st" and "gw_active w = None"
  shows "calls_inv E (st\<lparr>ss_gateways := ss_gateways st @ [w]\<rparr>)"
proof (rule calls_invI)
  from assms(1) have i: "refs_ok st" "slots_ok st" "actives_ok st" "open_ok E st" by (simp_all add: calls_inv_def)
  let ?st = "st\<lparr>ss_gateways := ss_gateways st @ [w]\<rparr>"
  show "refs_ok ?st" using i(1) by (fastforce simp: refs_ok_def)
  show "slots_ok ?st" using i(2) by (auto simp: slots_ok_def)
  show "actives_ok ?st" using i(3) assms(2) by (auto simp: actives_ok_def nth_append less_Suc_eq)
  show "open_ok E ?st"
  proof (rule open_okI, goal_cases)
    case (1 c)
    then show ?case using open_okD(1) [OF i(4) 1(3)] by simp
  next
    case (2 c g)
    then have c: "c < length (ss_calls st)" "call_leg_gateway (ss_calls st ! c) = Some g" by simp_all
    from 2 open_okD(2) [OF i(4) 2(3) c(1) _ _ c(2)] refs_okD(2) [OF i(1) c] show ?case by (simp add: nth_append)
  next
    case (3 g c)
    then have g: "g < length (ss_gateways st)" "gw_active (ss_gateways st ! g) = Some c"
      using assms(2) by (auto simp: nth_append less_Suc_eq)
    from open_okD(3) [OF i(4) 3(3) g] show ?case by simp
  qed
qed

text \<open>A call takes its places.\<close>

lemma claim_inv:
  assumes "calls_inv (insert c E) st" and c: "c < length (ss_calls st)" "\<not> cl_closed (ss_calls st ! c)" "s = cl_session (ss_calls st ! c)"
    and s: "sn_sip_call (ss_sessions st ! s) = None" "\<not> sn_locked (ss_sessions st ! s)"
  shows "cl_leg (ss_calls st ! c) = None \<Longrightarrow> calls_inv E (upd_session s (\<lambda>n. n\<lparr>sn_sip_call := Some c\<rparr>) st)"
    and "call_leg_gateway (ss_calls st ! c) = Some g \<Longrightarrow> gw_active (ss_gateways st ! g) = None \<Longrightarrow>
      calls_inv E (upd_gateway g (\<lambda>w. w\<lparr>gw_active := Some c\<rparr>) (upd_session s (\<lambda>n. n\<lparr>sn_sip_call := Some c\<rparr>) st))"
    and "calls_inv (insert c E) (upd_session s (\<lambda>n. n\<lparr>sn_sip_call := Some c\<rparr>) st)"
proof -
  from assms(1) have i: "refs_ok st" "slots_ok st" "actives_ok st" "open_ok (insert c E) st" by (simp_all add: calls_inv_def)
  have b: "s < length (ss_sessions st)" "\<And>g. call_leg_gateway (ss_calls st ! c) = Some g \<Longrightarrow> g < length (ss_gateways st)"
    using i(1) c by (auto simp: refs_ok_def)
  let ?st = "upd_session s (\<lambda>n. n\<lparr>sn_sip_call := Some c\<rparr>) st"
  have n: "ss_sessions ?st ! j = (if j = s then (ss_sessions st ! s)\<lparr>sn_sip_call := Some c\<rparr> else ss_sessions st ! j)" for j
    using b by (simp add: upd_session_def)
  have o: "refs_ok ?st" "slots_ok ?st" "actives_ok ?st"
    subgoal using i(1) by (simp add: refs_ok_def)
    subgoal unfolding slots_ok_def
    proof (intro allI impI)
      fix j d assume j: "j < length (ss_sessions ?st)" "sn_sip_call (ss_sessions ?st ! j) = Some d"
      show "d < length (ss_calls ?st) \<and> cl_session (ss_calls ?st ! d) = j \<and> \<not> cl_closed (ss_calls ?st ! d) \<and>
          \<not> sn_locked (ss_sessions ?st ! j)"
      proof (cases "j = s")
        case True
        with j(2) have "d = c" by (simp add: n)
        have "\<not> sn_locked (ss_sessions ?st ! j)" using True s(2) by (simp add: n)
        with True \<open>d = c\<close> c show ?thesis by simp
      next
        case False
        with j have "j < length (ss_sessions st)" "sn_sip_call (ss_sessions st ! j) = Some d" by (simp_all add: n)
        from slots_okD [OF i(2) this] False show ?thesis by (simp add: n)
      qed
    qed
    subgoal using i(3) by (simp add: actives_ok_def)
    done
  have op: "open_ok (insert c E) ?st"
  proof (rule open_okI, goal_cases)
    case (1 d)
    then have d: "d \<notin> insert c E" "d < length (ss_calls st)" "\<not> cl_closed (ss_calls st ! d)" by simp_all
    from 1(4) s(2) have "\<not> sn_locked (ss_sessions st ! cl_session (ss_calls st ! d))" by (auto simp: n split: if_splits)
    from open_okD(1) [OF i(4) d this] s(1) show ?case by (auto simp: n)
  next
    case (2 d j)
    then have d: "d \<notin> insert c E" "d < length (ss_calls st)" "\<not> cl_closed (ss_calls st ! d)"
      "call_leg_gateway (ss_calls st ! d) = Some j" by simp_all
    from 2(4) s(2) have "\<not> sn_locked (ss_sessions st ! cl_session (ss_calls st ! d))" by (auto simp: n split: if_splits)
    from open_okD(2) [OF i(4) d(1-3) this d(4)] show ?case by simp
  next
    case (3 j d)
    then have d: "d \<notin> insert c E" "j < length (ss_gateways st)" "gw_active (ss_gateways st ! j) = Some d" by simp_all
    from open_okD(3) [OF i(4) d] s(1) show ?case by (auto simp: n)
  qed
  with o show "calls_inv (insert c E) ?st" by (simp add: calls_inv_def)
  have slot: "sn_sip_call (ss_sessions ?st ! cl_session (ss_calls ?st ! c)) = Some c"
    unfolding upd_lengths c(3) [symmetric] n by simp
  show "calls_inv E ?st" if l: "cl_leg (ss_calls st ! c) = None"
  proof -
    have "open_ok E ?st"
    proof (rule open_okI, goal_cases)
      case (1 d)
      then show ?case using slot open_okD(1) [OF op, of d] by (cases "d = c") auto
    next
      case (2 d j)
      then show ?case using l open_okD(2) [OF op, of d j] by (cases "d = c") auto
    next
      case (3 j d)
      then show ?case using slot open_okD(3) [OF op, of d j] by (cases "d = c") auto
    qed
    with o show ?thesis by (simp add: calls_inv_def)
  qed
  let ?su = "upd_gateway g (\<lambda>w. w\<lparr>gw_active := Some c\<rparr>) ?st"
  assume g: "call_leg_gateway (ss_calls st ! c) = Some g" "gw_active (ss_gateways st ! g) = None"
  have m: "ss_gateways ?su ! j = (if j = g then (ss_gateways st ! g)\<lparr>gw_active := Some c\<rparr> else ss_gateways st ! j)" for j
    using b(2) [OF g(1)] by (simp add: upd_gateway_def)
  have r: "refs_ok ?su" using o(1) by (simp add: refs_ok_def)
  have l: "slots_ok ?su" using o(2) by (simp add: slots_ok_def)
  have a: "actives_ok ?su" unfolding actives_ok_def
  proof (intro allI impI)
    fix j d assume j: "j < length (ss_gateways ?su)" "gw_active (ss_gateways ?su ! j) = Some d"
    show "d < length (ss_calls ?su) \<and> call_leg_gateway (ss_calls ?su ! d) = Some j \<and> \<not> cl_closed (ss_calls ?su ! d)"
    proof (cases "j = g")
      case True
      with j(2) have "d = c" by (simp add: m)
      with True c g show ?thesis by simp
    next
      case False
      with j have "j < length (ss_gateways st)" "gw_active (ss_gateways st ! j) = Some d" by (simp_all add: m)
      from actives_okD [OF i(3) this] show ?thesis by simp
    qed
  qed
  have "open_ok E ?su"
  proof (rule open_okI, goal_cases)
    case (1 d)
    then show ?case using slot open_okD(1) [OF op, of d] by (cases "d = c") auto
  next
    case (2 d j)
    show ?case
    proof (cases "d = c")
      case True
      with 2(5) g(1) have "j = g" by auto
      with True show ?thesis unfolding m by simp
    next
      case False
      with 2 open_okD(2) [OF op, of d j] have "gw_active (ss_gateways st ! j) = Some d" by simp
      with g(2) show ?thesis unfolding m by auto
    qed
  next
    case (3 j d)
    then show ?case using slot open_okD(3) [OF op, of d j] by (cases "d = c") (auto simp: m split: if_splits)
  qed
  with r l a show "calls_inv E ?su" by (rule calls_invI)
qed

lemma ensure_session_inv:
  assumes "calls_inv {} st" and "ensure_session env iccid target st = (r, st')"
  shows "calls_inv {} st'" "ss_gateways st' = ss_gateways st" "ss_lines st' = ss_lines st"
    "r = Inr s \<Longrightarrow> s < length (ss_sessions st') \<and> ss_by_iccid st' iccid = Some s"
proof -
  have r: "refs_ok st" using assms(1) by (simp add: calls_inv_def)
  show "calls_inv {} st'"
    using assms append_session_inv [OF assms(1)] calls_inv_eq [of "upd_session s (\<lambda>n. n\<lparr>sn_target := target\<rparr>) st" st for s]
    by (auto simp: ensure_session_def Let_def split: option.splits sum.splits)
  show "ss_gateways st' = ss_gateways st" "ss_lines st' = ss_lines st"
    using assms(2) by (auto simp: ensure_session_def Let_def upd_session_def split: option.splits sum.splits)
  show "r = Inr s \<Longrightarrow> s < length (ss_sessions st') \<and> ss_by_iccid st' iccid = Some s"
    using assms(2) refs_okD(3) [OF r] by (auto simp: ensure_session_def Let_def split: option.splits sum.splits)
qed

lemma ensure_audio_view:
  assumes "ensure_audio env iccid st = (r, st')"
  shows "calls_view st' = calls_view st" "ss_gateways st' = ss_gateways st" "ss_lines st' = ss_lines st"
  using assms by (auto simp: ensure_audio_def upd_session_def split: option.splits sum.splits if_splits
      simp flip: upd_session_def)

lemma respond_inv [simp]: "calls_inv E (respond code r st) \<longleftrightarrow> calls_inv E st"
  by (rule calls_inv_eq) simp

lemma emit_inv [simp]: "calls_inv E (emit e st) \<longleftrightarrow> calls_inv E st"
  by (rule calls_inv_eq) simp

lemma session_call_state_inv [simp]: "calls_inv E (session_call_state env a b s st) \<longleftrightarrow> calls_inv E st"
  by (rule calls_inv_eq) simp

lemma lines_update_inv [simp]: "calls_inv E (st\<lparr>ss_lines := ls\<rparr>) \<longleftrightarrow> calls_inv E st"
  by (rule calls_inv_eq) simp

lemma snd_go_on_keep [simp]: "snd (go_on m (\<lambda>x st. (f x st, st))) = snd m"
  by (cases m; cases "fst m") (auto simp: go_on_def)

lemma refuse_call_inv:
  assumes "calls_inv E st" and "c < length (ss_calls st)"
  shows "calls_inv (E - {c}) (snd (refuse_call env code phrase reason c st))"
  unfolding refuse_call_def snd_go_on_keep by (rule close_call_inv) (use assms in \<open>simp_all add: respond_def\<close>)

lemma upd_call_nth: "c < length (ss_calls st) \<Longrightarrow> ss_calls (upd_call c f st) ! c = f (ss_calls st ! c)"
  by (simp add: upd_call_def)

lemma claim_call_inv:
  assumes "calls_inv {c} st" and "c < length (ss_calls st)" "\<not> cl_closed (ss_calls st ! c)" "cl_session (ss_calls st ! c) = s"
    and leg: "cl_leg (ss_calls st ! c) = Some leg" "lg_gateway leg = g"
  shows "calls_inv {} (snd (claim_call env g s c leg dialog st)) \<or> sn_locked (ss_sessions st ! s) \<and> snd (claim_call env g s c leg dialog st) = st"
proof -
  have e: "{c} - {c} = {}" by simp
  let ?st1 = "upd_session s (\<lambda>n. n\<lparr>sn_sip_call := Some c\<rparr>) st"
  consider "sn_locked (ss_sessions st ! s)" | "sn_sip_call (ss_sessions st ! s) \<noteq> None" "\<not> sn_locked (ss_sessions st ! s)"
    | "sn_sip_call (ss_sessions st ! s) = None" "\<not> sn_locked (ss_sessions st ! s)" by blast
  then show ?thesis
  proof cases
    case 1
    then show ?thesis by (simp add: claim_call_def)
  next
    case 2
    then show ?thesis using refuse_call_inv [OF assms(1,2)] by (simp add: claim_call_def)
  next
    case 3
    note c = claim_inv [OF assms(1-3) assms(4) [symmetric] 3]
    show ?thesis
    proof (cases "gw_active (ss_gateways st ! g) = None")
      case True
      let ?h = "\<lambda>st. upd_call c (\<lambda>k. k\<lparr>cl_leg := Some (leg\<lparr>lg_dialog_id := dialog\<rparr>)\<rparr>) st"
      let ?k = "upd_gateway g (\<lambda>w. w\<lparr>gw_active := Some c\<rparr>)"
      have "call_leg_gateway (ss_calls st ! c) = Some g" unfolding leg(1) by (simp add: leg(2))
      then have i: "calls_inv {} (?k ?st1)" using True by (rule c(2))
      have h: "?k (?h ?st1) = ?h (?k ?st1)" by (simp add: upd_gateway_def upd_call_def)
      have l: "cl_leg (ss_calls (?k ?st1) ! c) = Some leg" unfolding upd_lengths by (rule leg(1))
      have v: "calls_view (?h (?k ?st1)) = calls_view (?k ?st1)" by (rule view_leg [OF l]) simp
      have "calls_inv {} (?k (?h ?st1))" unfolding h calls_inv_eq [OF v] by (rule i)
      then show ?thesis using 3 True by (simp add: claim_call_def Let_def)
    next
      case False
      have "c < length (ss_calls ?st1)" using assms(2) by simp
      from refuse_call_inv [OF c(3) this] False 3 show ?thesis by (simp add: claim_call_def Let_def)
    qed
  qed
qed

text \<open>A state in which only calls of a locked session are out of place keeps the invariant.\<close>

lemma locked_exempt:
  assumes "calls_inv {c} st" and "c < length (ss_calls st)" and "sn_locked (ss_sessions st ! cl_session (ss_calls st ! c))"
    and "\<And>g. g < length (ss_gateways st) \<Longrightarrow> gw_active (ss_gateways st ! g) \<noteq> Some c"
  shows "calls_inv {} st"
proof -
  from assms(1) have i: "refs_ok st" "slots_ok st" "actives_ok st" "open_ok {c} st" by (simp_all add: calls_inv_def)
  have "open_ok {} st"
  proof (rule open_okI, goal_cases)
    case (1 d) then show ?case using assms(3) open_okD(1) [OF i(4), of d] by (cases "d = c") auto
  next
    case (2 d g) then show ?case using assms(3) open_okD(2) [OF i(4), of d g] by (cases "d = c") auto
  next
    case (3 g d) then show ?case using assms(4) [of g] open_okD(3) [OF i(4), of d g] by (cases "d = c") auto
  qed
  with i show ?thesis by (simp add: calls_inv_def)
qed

lemma fresh_not_active:
  assumes "calls_inv E st" and "g < length (ss_gateways st)"
  shows "gw_active (ss_gateways st ! g) \<noteq> Some (length (ss_calls st))"
  using assms actives_okD(1) [of st g] by (auto simp: calls_inv_def)

lemma inbound_call_inv:
  assumes i: "calls_inv {} st" and "s < length (ss_sessions st)" and g: "g < length (ss_gateways st)"
  shows "calls_inv {} (snd (inbound_call env g s iccid number remote dialog st))"
proof -
  define c where "c = length (ss_calls st)"
  define leg where "leg = new_leg g iccid Sip_To_Modem number"
  define k where "k = (new_call s (gw_cfg (ss_gateways st ! g)) (Some leg))\<lparr>cl_dialog_uas := Some dialog\<rparr>"
  define st1 where "st1 = st\<lparr>ss_calls := ss_calls st @ [k]\<rparr>"
  have leg: "lg_gateway leg = g" by (simp add: leg_def new_leg_def)
  have k: "cl_session k = s" "\<not> cl_closed k" "cl_leg k = Some leg" by (simp_all add: k_def new_call_def)
  have i1: "calls_inv {c} st1"
    unfolding st1_def c_def by (rule append_call_inv [OF i]) (use k leg assms in auto)
  have c1: "c < length (ss_calls st1)" "ss_calls st1 ! c = k" "ss_sessions st1 = ss_sessions st" "ss_gateways st1 = ss_gateways st"
    by (simp_all add: c_def st1_def)
  have refused: "calls_inv {} (snd (refuse_call env code phrase reason c st'))" if "calls_inv {c} st'" "length (ss_calls st') = length (ss_calls st1)"
    for code phrase reason st' using refuse_call_inv [OF that(1), of c] that(2) c1(1) by simp
  show ?thesis
  proof (cases "open_rtp_listener (se_bind_rtp env) (gw_cfg (ss_gateways st ! g)) None")
    case (Inl e)
    then show ?thesis using refused [OF i1 refl]
      by (simp add: inbound_call_def Let_def flip: c_def leg_def k_def st1_def)
  next
    case (Inr port)
    define st2 where "st2 = upd_call c (\<lambda>k. k\<lparr>cl_rtp_port := Some port, cl_remote := Some remote\<rparr>) st1"
    have i2: "calls_inv {c} st2" using i1 calls_inv_eq [of st2 st1] by (simp add: st2_def)
    have k2: "ss_calls st2 ! c = k\<lparr>cl_rtp_port := Some port, cl_remote := Some remote\<rparr>"
      using c1 by (simp add: st2_def upd_call_nth)
    have l2: "length (ss_calls st2) = length (ss_calls st1)" "ss_sessions st2 = ss_sessions st" "ss_gateways st2 = ss_gateways st"
      using c1 by (simp_all add: st2_def)
    have "calls_inv {} (snd (claim_call env g s c leg dialog st2))"
    proof -
      have "calls_inv {} st2" if "sn_locked (ss_sessions st2 ! s)"
        by (rule locked_exempt [OF i2]) (use that k2 k c1 l2 fresh_not_active [OF i] in \<open>auto simp: c_def\<close>)
      with claim_call_inv [OF i2, of s leg g env dialog] show ?thesis using k2 k leg c1 l2 by auto
    qed
    then show ?thesis using Inr refused [OF i2 l2(1)]
      by (simp add: inbound_call_def Let_def split: sum.split flip: c_def leg_def k_def st1_def st2_def)
  qed
qed

end
