(* ===== verification/Sip_Frame.thy ===== *)
theory Sip_Frame
  imports Sip_Lines
begin

text \<open>
  What the operations on calls leave alone. The locale \<open>call_frame\<close> has a part of the state that the basic
  updates of calls and sessions do not touch; then no operation on a call touches it.
\<close>

locale call_frame =
  fixes part :: "sip_state \<Rightarrow> 'v"
  assumes part_call: "part (upd_call c f st) = part st"
    and part_session: "part (upd_session s h st) = part st"
    and part_emit: "part (emit e st) = part st"
    and part_active: "part (upd_gateway g (\<lambda>w. w\<lparr>gw_active := a w\<rparr>) st) = part st"
    and part_iccid: "part (upd_gateway g (\<lambda>w. w\<lparr>gw_line_iccid := i\<rparr>) st) = part st"
    and part_calls: "part (st\<lparr>ss_calls := cs\<rparr>) = part st"
    and part_sessions: "part (st\<lparr>ss_sessions := ns\<rparr>) = part st"
    and part_by_iccid: "part (st\<lparr>ss_by_iccid := m\<rparr>) = part st"
begin

lemmas part_updates = part_call part_session part_emit part_active part_iccid part_calls part_sessions part_by_iccid

lemma part_go_on:
  "part (snd m) = v \<Longrightarrow> (\<And>x st. m = (Some x, st) \<Longrightarrow> part st = v \<Longrightarrow> part (snd (f x st)) = v) \<Longrightarrow> part (snd (go_on m f)) = v"
  by (cases m; cases "fst m") (auto simp: go_on_def)

lemma part_pair:
  "part (snd m) = v \<Longrightarrow> (\<And>x st. part st = v \<Longrightarrow> part (snd (f x st)) = v) \<Longrightarrow> part (snd (case m of (x, st) \<Rightarrow> f x st)) = v"
  by (cases m) auto

lemma part_state: "part (session_call_state env a b s st) = part st"
  by (simp add: session_call_state_def part_updates)

lemma part_release: "part (snd (release_slot env reason s c st)) = part st"
  by (simp add: release_slot_def part_state part_updates)

lemma part_leg_ended: "part (snd (handle_leg_ended env reason c leg st)) = part st"
  unfolding handle_leg_ended_def Let_def
  by (rule part_go_on) (simp_all add: part_release part_updates)

lemma part_close: "part (snd (close_call env reason c st)) = part st"
  by (simp add: close_call_def Let_def part_release part_leg_ended part_updates split: option.split)

lemma part_hangup: "part (snd (hangup_with_reason env reason c st)) = part st"
  unfolding hangup_with_reason_def Let_def by (rule part_go_on) (simp_all add: part_close part_updates)

lemmas part_basic = part_updates part_state part_release part_close part_hangup

lemma part_close_session: "part (snd (close_session env iccid st)) = part st"
  by (auto simp: close_session_def close_sip_def Let_def part_basic split: option.split intro!: part_go_on)

lemma part_ensure: "part (snd (ensure_session env iccid target st)) = part st" "part (snd (ensure_audio env iccid st)) = part st"
  by (simp_all add: ensure_session_def ensure_audio_def Let_def part_basic split: option.split sum.split)

lemma part_respond: "part (respond code reason st) = part st"
  by (simp add: respond_def part_basic)

lemma part_refuse: "part (snd (refuse_call env code phrase reason c st)) = part st"
  unfolding refuse_call_def by (rule part_go_on) (simp_all add: part_basic part_respond)

lemma part_claim: "part (snd (claim_call env g s c leg dialog st)) = part st"
  by (simp add: claim_call_def Let_def part_refuse part_basic part_respond)

lemma part_inbound: "part (snd (inbound_call env g s iccid number remote dialog st)) = part st"
  by (simp add: inbound_call_def Let_def part_refuse part_claim part_basic split: sum.split)

lemma part_on_invite: "part (snd (on_invite env req resolve dialog g st)) = part st"
  unfolding on_invite_def Let_def
  by (auto simp: part_inbound part_respond part_basic part_ensure split: sum.split intro!: part_pair)

lemma part_invite_dialled: "part (snd (invite_dialled env dialled answered c st)) = part st"
  by (simp add: invite_dialled_def part_respond part_basic split: sum.split)

lemma part_on_bye: "part (snd (on_bye env req read_bye g st)) = part st"
  by (simp add: on_bye_def part_respond part_basic split: sum.split option.split)

lemma part_on_info: "part (on_info req g st) = part st"
  by (simp add: on_info_def Let_def part_respond part_basic split: option.split)

lemma part_end_leg: "part (snd (end_leg_from_modem env reason g c st)) = part st"
  by (auto simp: end_leg_from_modem_def Let_def part_basic split: option.split intro!: part_go_on)

lemma part_end_session: "part (snd (end_session_call_from_modem env reason g st)) = part st"
  by (auto simp: end_session_call_from_modem_def Let_def part_basic split: option.split intro!: part_go_on)

lemma part_claim_incoming: "part (snd (claim_incoming env g s c leg st)) = part st"
  by (auto simp: claim_incoming_def Let_def part_basic intro!: part_go_on)

lemma part_start_incoming: "part (snd (start_modem_incoming_invite env target caller g st)) = part st"
  unfolding start_modem_incoming_invite_def Let_def
  by (auto simp: part_claim_incoming part_basic part_ensure split: sum.split intro!: part_pair)

lemma part_sync_modem: "part (snd (sync_modem_state env target ms g st)) = part st"
  by (auto simp: sync_modem_state_def Let_def part_start_incoming part_end_leg part_end_session
      split: option.split intro!: part_go_on)

lemma part_begin: "part (snd (dial_target_begin env reg_res invited c st)) = part st"
  by (simp add: dial_target_begin_def Let_def part_basic split: sum.split)

lemma part_established: "part (established c st) = part st"
  by (simp add: established_def part_basic split: option.split)

lemma part_answered: "part (snd (dial_target_answered env reply_res acked accepted c st)) = part st"
  by (auto simp: dial_target_answered_def Let_def part_established part_basic split: sum.split option.split intro!: part_go_on)

lemma part_incoming_begin: "part (snd (incoming_invite_begin env parse_uri reg_res invited c st)) = part st"
  unfolding incoming_invite_begin_def incoming_failed_def Let_def
  by (auto simp: part_basic part_begin split: sum.split option.split intro!: part_pair)

lemma part_incoming_answered: "part (snd (incoming_invite_answered env reply_res acked accepted c st)) = part st"
  unfolding incoming_invite_answered_def
  by (rule part_go_on) (auto simp: part_answered incoming_failed_def part_basic split: sum.split option.split)

lemma part_dial_answered: "part (snd (dial_sip_answered env reply_res acked c st)) = part st"
  unfolding dial_sip_answered_def
  by (rule part_go_on) (auto simp: part_answered part_basic split: sum.split intro!: part_go_on)

lemma part_new_call: "part (snd (new_sip_client_call env cfg s st)) = part st"
  by (auto simp: new_sip_client_call_def Let_def part_basic split: sum.split intro!: part_go_on)

lemma part_dial_locked: "part (snd (dial_sip_locked env iccid s st)) = part st"
  by (auto simp: dial_sip_locked_def Let_def unlock_session_def part_new_call part_basic
      split: option.split sum.split intro!: part_go_on)

lemma part_dial: "part (snd (dial_sip env reg_res invited iccid number st)) = part st"
  unfolding dial_sip_def lock_session_def Let_def
  by (auto simp: part_dial_locked part_basic part_begin part_ensure split: option.split sum.split intro!: part_go_on part_pair)

lemma part_call_requests: "part (snd (call_on_bye env read_bye c st)) = part st" "part (call_on_info st) = part st"
  by (auto simp: call_on_bye_def call_on_info_def part_close part_respond split: sum.split)

lemma part_hangup_sip: "part (snd (hangup_sip env iccid st)) = part st"
  by (simp add: hangup_sip_def part_basic split: option.split)

end

end
