(* ===== verification/Sip_Reachable.thy ===== *)
theory Sip_Reachable
  imports Sip_Invariants Sip_Frame
begin

text \<open>
  Every operation keeps the invariant of \<open>Sip_Invariants\<close>, whatever the network, the peers and the modem
  answer, and so does every sequence of operations.
\<close>

subsection \<open>What the operations keep\<close>

lemma inv_refs: "calls_inv E st \<Longrightarrow> refs_ok st"
  by (simp add: calls_inv_def)

lemma close_call_keeps:
  assumes "calls_inv {} st" and "c < length (ss_calls st)"
  shows "calls_inv {} (snd (close_call env reason c st))"
  using close_call_inv [OF assms] by simp

lemma hangup_keeps:
  assumes "calls_inv {} st" and "c < length (ss_calls st)"
  shows "calls_inv {} (snd (hangup_with_reason env reason c st))"
  using sip_hangup_inv [OF assms] by simp

lemma on_invite_keeps:
  assumes i: "calls_inv {} st" and g: "g < length (ss_gateways st)"
  shows "calls_inv {} (snd (on_invite env req resolve dialog g st))"
proof -
  define number where "number = trim_space (extract_invite_number (Some req))"
  show ?thesis
  proof (cases "dialable number \<and> is_ok resolve")
    case False
    then show ?thesis using i
      by (auto simp: on_invite_def Let_def is_ok_def split: sum.splits simp flip: number_def)
  next
    case True
    then obtain iccid target where r: "resolve = Inr (iccid, target)" by (cases resolve) auto
    define st1 where "st1 = (if gw_line_iccid (ss_gateways st ! g) = [] then upd_gateway g (\<lambda>w. w\<lparr>gw_line_iccid := iccid\<rparr>) st else st)"
    have i1: "calls_inv {} st1" "length (ss_gateways st1) = length (ss_gateways st)"
      using i calls_inv_eq [of "upd_gateway g (\<lambda>w. w\<lparr>gw_line_iccid := iccid\<rparr>) st" st] by (simp_all add: st1_def)
    obtain rs st2 where e: "ensure_session env iccid target st1 = (rs, st2)" by fastforce
    note i2 = ensure_session_inv [OF i1(1) e]
    obtain ra st3 where a: "ensure_audio env iccid st2 = (ra, st3)" by fastforce
    note v = ensure_audio_view [OF a]
    have i3: "calls_inv {} st3" "length (ss_sessions st3) = length (ss_sessions st2)" "length (ss_gateways st3) = length (ss_gateways st)"
      using i2(1,2) i1(2) calls_inv_eq [OF v(1)] view_same(2,3) [OF v(1)] by simp_all
    have "calls_inv {} (snd (inbound_call env g s iccid number remote d st3))" if "rs = Inr s" for s remote d
      by (rule inbound_call_inv) (use i3 i2(4) that g in auto)
    then show ?thesis using True i2(1) i3(1)
      by (auto simp: on_invite_def Let_def r e a split: sum.splits simp flip: number_def st1_def)
  qed
qed

lemma invite_dialled_keeps:
  "calls_inv {} st \<Longrightarrow> c < length (ss_calls st) \<Longrightarrow> calls_inv {} (snd (invite_dialled env dialled answered c st))"
  by (auto simp: invite_dialled_def respond_def intro: close_call_keeps split: sum.splits)

lemma active_by_request_bound:
  assumes "calls_inv {} st" and "g < length (ss_gateways st)" and "active_by_request req g st = Some c"
  shows "gw_active (ss_gateways st ! g) = Some c" "c < length (ss_calls st)"
proof -
  show a: "gw_active (ss_gateways st ! g) = Some c"
    using assms(3) by (auto simp: active_by_request_def Let_def split: option.splits leg_direction.splits if_splits)
  show "c < length (ss_calls st)"
    by (rule actives_okD(1) [OF _ assms(2) a]) (use assms(1) in \<open>simp add: calls_inv_def\<close>)
qed

lemma on_bye_keeps:
  assumes "calls_inv {} st" and "g < length (ss_gateways st)"
  shows "calls_inv {} (snd (on_bye env req read_bye g st))"
  using assms(1) close_call_keeps [OF assms(1) active_by_request_bound(2) [OF assms]]
  by (auto simp: on_bye_def split: option.splits sum.splits)

lemma on_info_keeps: "calls_inv {} st \<Longrightarrow> calls_inv {} (on_info req g st)"
  by (auto simp: on_info_def Let_def split: option.splits)

lemma end_leg_keeps:
  assumes i: "calls_inv {} st" and g: "g < length (ss_gateways st)" and a: "gw_active (ss_gateways st ! g) = Some c"
  shows "calls_inv {} (snd (end_leg_from_modem env reason g c st))"
proof (cases "cl_leg (ss_calls st ! c)")
  case None
  then show ?thesis using i by (simp add: end_leg_from_modem_def)
next
  case (Some leg)
  have c: "c < length (ss_calls st)" by (rule actives_okD(1) [OF _ g a]) (use i in \<open>simp add: calls_inv_def\<close>)
  let ?st = "upd_call c (\<lambda>k. k\<lparr>cl_leg := Some (leg\<lparr>lg_ended_by_modem := True\<rparr>)\<rparr>) st"
  have v: "calls_view ?st = calls_view st" by (rule view_leg [OF Some]) simp
  have "calls_inv {} ?st" unfolding calls_inv_eq [OF v] by (rule i)
  then show ?thesis using hangup_keeps [of ?st c env reason] c Some a by (simp add: end_leg_from_modem_def Let_def)
qed

lemma slot_bound:
  assumes "calls_inv {} st" and "ss_by_iccid st i = Some s" and "sn_sip_call (ss_sessions st ! s) = Some c"
  shows "c < length (ss_calls st)"
  using assms slots_okD(1) refs_okD(3) unfolding calls_inv_def by metis

lemma end_session_call_keeps:
  assumes "calls_inv {} st"
  shows "calls_inv {} (snd (end_session_call_from_modem env reason g st))"
  using assms hangup_keeps [OF assms slot_bound [OF assms]]
  by (auto simp: end_session_call_from_modem_def Let_def split: option.splits)

lemma claim_incoming_keeps:
  assumes i: "calls_inv {c} st" and c: "c < length (ss_calls st)" "\<not> cl_closed (ss_calls st ! c)" "cl_session (ss_calls st ! c) = s"
    and leg: "cl_leg (ss_calls st ! c) = Some leg" "lg_gateway leg = g"
    and fresh: "\<And>g. g < length (ss_gateways st) \<Longrightarrow> gw_active (ss_gateways st ! g) \<noteq> Some c"
  shows "calls_inv {} (snd (claim_incoming env g s c leg st))"
proof -
  have e: "{c} - {c} = {}" by simp
  let ?h = "\<lambda>st. upd_call c (\<lambda>k. k\<lparr>cl_leg := Some (leg\<lparr>lg_invite_cancel := True\<rparr>)\<rparr>) st"
  let ?st1 = "upd_session s (\<lambda>n. n\<lparr>sn_sip_call := Some c\<rparr>) st"
  let ?k = "upd_gateway g (\<lambda>w. w\<lparr>gw_active := Some c\<rparr>)"
  have v: "calls_view (?h st) = calls_view st" by (rule view_leg [OF leg(1)]) simp
  consider (locked) "sn_locked (ss_sessions st ! s)" | (busy) "sn_sip_call (ss_sessions st ! s) \<noteq> None" "\<not> sn_locked (ss_sessions st ! s)"
    | (taken) "sn_sip_call (ss_sessions st ! s) = None" "\<not> sn_locked (ss_sessions st ! s)" "gw_active (ss_gateways st ! g) \<noteq> None"
    | (free) "sn_sip_call (ss_sessions st ! s) = None" "\<not> sn_locked (ss_sessions st ! s)" "gw_active (ss_gateways st ! g) = None"
    by blast
  then show ?thesis
  proof cases
    case locked
    then have "calls_inv {} st" by (intro locked_exempt [OF i c(1)]) (use c fresh in auto)
    with locked show ?thesis by (simp add: claim_incoming_def Let_def)
  next
    case busy
    then show ?thesis using close_call_inv [OF i c(1)] by (simp add: claim_incoming_def Let_def)
  next
    case taken
    have "calls_inv {c} (?h st)" unfolding calls_inv_eq [OF v] by (rule i)
    from close_call_inv [OF this, of c] taken c show ?thesis by (simp add: claim_incoming_def Let_def)
  next
    case free
    have "call_leg_gateway (ss_calls st ! c) = Some g" unfolding leg(1) by (simp add: leg(2))
    from claim_inv(2) [OF i c(1,2) c(3) [symmetric] free(1,2) this free(3)] have j: "calls_inv {} (?k ?st1)" .
    have h: "?k (upd_session s (\<lambda>n. n\<lparr>sn_sip_call := Some c\<rparr>) (?h st)) = ?h (?k ?st1)"
      by (simp add: upd_gateway_def upd_call_def upd_session_def)
    have l: "cl_leg (ss_calls (?k ?st1) ! c) = Some leg" unfolding upd_lengths by (rule leg(1))
    have w: "calls_view (?h (?k ?st1)) = calls_view (?k ?st1)" by (rule view_leg [OF l]) simp
    have "calls_inv {} (?k (upd_session s (\<lambda>n. n\<lparr>sn_sip_call := Some c\<rparr>) (?h st)))" unfolding h calls_inv_eq [OF w] by (rule j)
    then show ?thesis using free by (simp add: claim_incoming_def Let_def)
  qed
qed

lemma start_modem_incoming_invite_keeps:
  assumes i: "calls_inv {} st" and g: "g < length (ss_gateways st)"
  shows "calls_inv {} (snd (start_modem_incoming_invite env target caller g st))"
proof -
  define iccid where "iccid = gateway_iccid (ss_gateways st ! g)"
  obtain rs st1 where e: "ensure_session env iccid target st = (rs, st1)" by fastforce
  note i1 = ensure_session_inv [OF i e]
  obtain ra st2 where a: "ensure_audio env iccid st1 = (ra, st2)" by fastforce
  note v = ensure_audio_view [OF a]
  have i2: "calls_inv {} st2" "length (ss_sessions st2) = length (ss_sessions st1)" "length (ss_gateways st2) = length (ss_gateways st)"
    using i1(1,2) calls_inv_eq [OF v(1)] view_same(2,3) [OF v(1)] by simp_all
  define leg where "leg = new_leg g iccid Modem_To_Sip (trim_space caller)"
  have leg: "lg_gateway leg = g" by (simp add: leg_def new_leg_def)
  have "calls_inv {} (snd (claim_incoming env g s (length (ss_calls st2)) leg (st2\<lparr>ss_calls := ss_calls st2 @ [k]\<rparr>)))"
    if s: "rs = Inr s" and k: "cl_session k = s" "\<not> cl_closed k" "cl_leg k = Some leg" for s k
  proof (rule claim_incoming_keeps)
    show "calls_inv {length (ss_calls st2)} (st2\<lparr>ss_calls := ss_calls st2 @ [k]\<rparr>)"
      by (rule append_call_inv [OF i2(1)]) (use s k leg i1(4) i2 g in auto)
    show "gw_active (ss_gateways (st2\<lparr>ss_calls := ss_calls st2 @ [k]\<rparr>) ! j) \<noteq> Some (length (ss_calls st2))"
      if "j < length (ss_gateways (st2\<lparr>ss_calls := ss_calls st2 @ [k]\<rparr>))" for j
      using fresh_not_active [OF i2(1), of j] that by simp
  qed (use k leg in simp_all)
  then show ?thesis using i i1(1) i2(1)
    by (auto simp: start_modem_incoming_invite_def Let_def e a new_call_def split: sum.splits simp flip: iccid_def leg_def)
qed

lemma sync_modem_state_keeps:
  assumes i: "calls_inv {} st" and g: "g < length (ss_gateways st)"
  shows "calls_inv {} (snd (sync_modem_state env target ms g st))"
proof -
  define m where "m = (case gw_active (ss_gateways st ! g) of None \<Rightarrow> (Some False, st)
    | Some c \<Rightarrow> end_leg_from_modem env (modem_end_reason (mi_reason ms)) g c st)"
  have "calls_inv {} (snd m)" using i end_leg_keeps [OF i g] by (simp add: m_def split: option.split)
  then have "calls_inv {} (snd (go_on m (\<lambda>ended st1. if ended then (Some (Inr ()), st1)
      else go_on (end_session_call_from_modem env (modem_end_reason (mi_reason ms)) g st1) (\<lambda>_ st2. (Some (Inr ()), st2)))))"
    by (rule go_on_state) (auto intro: end_session_call_keeps)
  then show ?thesis
    using i start_modem_incoming_invite_keeps [OF i g] by (auto simp: sync_modem_state_def Let_def simp flip: m_def)
qed

subsection \<open>Calls to a peer\<close>

lemma dial_target_begin_view:
  "calls_view (snd (dial_target_begin env reg_res invited c st)) = calls_view st"
  by (auto simp: dial_target_begin_def Let_def split: sum.splits)

lemma established_view: "calls_view (established c st) = calls_view st"
proof (cases "cl_leg (ss_calls st ! c)")
  case (Some leg)
  have "calls_view (upd_call c (\<lambda>k. k\<lparr>cl_leg := Some (leg\<lparr>lg_invite_cancel := False,
      lg_dialog_id := (case cl_dialog k of None \<Rightarrow> lg_dialog_id leg | Some d \<Rightarrow> d)\<rparr>)\<rparr>) st) = calls_view st"
    by (simp add: calls_view_def upd_call_def map_update_same Some)
  then show ?thesis by (simp add: established_def Some)
qed (simp add: established_def)

lemma go_on_inv:
  "calls_inv E (snd m) \<Longrightarrow> (\<And>x st. m = (Some x, st) \<Longrightarrow> calls_inv E st \<Longrightarrow> calls_inv E (snd (f x st))) \<Longrightarrow>
   calls_inv E (snd (go_on m f))"
  by (rule go_on_state)

lemma view_keeps: "calls_view st' = calls_view st \<Longrightarrow> calls_inv E st \<Longrightarrow> calls_inv E st'"
  using calls_inv_view [of st st'] by simp

lemma dial_target_answered_keeps:
  assumes i: "calls_inv {} st" and c: "c < length (ss_calls st)"
  shows "calls_inv {} (snd (dial_target_answered env reply_res acked accepted c st))"
    and "length (ss_calls (snd (dial_target_answered env reply_res acked accepted c st))) = length (ss_calls st)"
proof -
  have l: "length (ss_calls (established c st')) = length (ss_calls st')" for st'
    by (auto simp: established_def split: option.splits)
  have s: "calls_inv {} (upd_call c (\<lambda>k. k\<lparr>cl_remote := r\<rparr>) st)" for r by (rule view_keeps [OF _ i]) simp
  then have "calls_inv {} (emit e (established c (upd_call c (\<lambda>k. k\<lparr>cl_remote := r\<rparr>) st)))" for e r
    by (intro view_keeps [OF _ s]) (simp add: established_view)
  then show "calls_inv {} (snd (dial_target_answered env reply_res acked accepted c st))"
    using i s hangup_keeps [OF i c] hangup_keeps c l by (auto simp: dial_target_answered_def Let_def split: sum.splits option.splits)
  show "length (ss_calls (snd (dial_target_answered env reply_res acked accepted c st))) = length (ss_calls st)"
    using l by (auto simp: dial_target_answered_def Let_def split: sum.splits option.splits)
qed

lemma incoming_invite_begin_keeps:
  assumes "calls_inv {} st" and "c < length (ss_calls st)"
  shows "calls_inv {} (snd (incoming_invite_begin env parse_uri reg_res invited c st))"
proof -
  obtain r st1 where d: "dial_target_begin env reg_res invited c st = (r, st1)" by fastforce
  have v: "calls_view st1 = calls_view st" using dial_target_begin_view [of env reg_res invited c st] by (simp add: d)
  then have "calls_inv {} st1" "length (ss_calls st1) = length (ss_calls st)"
    using assms(1) view_keeps [OF v] view_same(1) [OF v] by simp_all
  then show ?thesis
    using assms close_call_keeps
    by (auto simp: incoming_invite_begin_def incoming_failed_def Let_def d split: option.splits sum.splits)
qed

lemma incoming_invite_answered_keeps:
  assumes "calls_inv {} st" and "c < length (ss_calls st)"
  shows "calls_inv {} (snd (incoming_invite_answered env reply_res acked accepted c st))"
  unfolding incoming_invite_answered_def
proof (rule go_on_inv [OF dial_target_answered_keeps(1) [OF assms]])
  fix x st1 assume d: "dial_target_answered env reply_res acked accepted c st = (Some x, st1)" and i: "calls_inv {} st1"
  have "c < length (ss_calls st1)" using dial_target_answered_keeps(2) [OF assms, of env reply_res acked accepted] d assms(2) by simp
  then show "calls_inv {} (snd (case x of Inl e \<Rightarrow> incoming_failed env e c st1
      | Inr _ \<Rightarrow> (case cl_leg (ss_calls st1 ! c) of None \<Rightarrow> (Some (), st1)
         | Some leg \<Rightarrow> (Some (), if gw_active (ss_gateways st1 ! lg_gateway leg) = Some c
             then session_call_state env ''in_call'' ''modem_incoming_connected'' (cl_session (ss_calls st1 ! c)) st1 else st1))))"
    using i close_call_keeps [OF i] by (auto simp: incoming_failed_def split: sum.splits option.splits)
qed

lemma dial_sip_answered_keeps:
  assumes "calls_inv {} st" and "c < length (ss_calls st)"
  shows "calls_inv {} (snd (dial_sip_answered env reply_res acked c st))"
  unfolding dial_sip_answered_def
proof (rule go_on_inv [OF dial_target_answered_keeps(1) [OF assms]])
  fix x st1 assume d: "dial_target_answered env reply_res acked (Inr ()) c st = (Some x, st1)" and i: "calls_inv {} st1"
  have "c < length (ss_calls st1)" using dial_target_answered_keeps(2) [OF assms, of env reply_res acked "Inr ()"] d assms(2) by simp
  then show "calls_inv {} (snd (case x of
      Inl e \<Rightarrow> go_on (close_call env ''dial_error'' c st1) (\<lambda>_ st2. (Some (Inl (invite_error_text env e)), st2))
    | Inr _ \<Rightarrow> (Some (Inr ()), session_call_state env ''in_call'' ''sip_connected'' (cl_session (ss_calls st1 ! c)) st1)))"
    using i close_call_keeps [OF i] by (auto split: sum.splits)
qed

text \<open>Locking a session that holds no call, and unlocking one that holds none and has none open.\<close>

lemma lock_keeps:
  assumes "calls_inv E st" and "sn_sip_call (ss_sessions st ! s) = None"
  shows "calls_inv E (upd_session s (\<lambda>n. n\<lparr>sn_locked := True\<rparr>) st)"
proof (cases "s < length (ss_sessions st)")
  case False
  then show ?thesis using assms(1) by (simp add: upd_session_def list_update_beyond)
next
  case True
  from assms(1) have i: "refs_ok st" "slots_ok st" "actives_ok st" "open_ok E st" by (simp_all add: calls_inv_def)
  let ?st = "upd_session s (\<lambda>n. n\<lparr>sn_locked := True\<rparr>) st"
  have n: "sn_sip_call (ss_sessions ?st ! j) = sn_sip_call (ss_sessions st ! j)"
    "sn_locked (ss_sessions ?st ! j) \<longleftrightarrow> j = s \<or> sn_locked (ss_sessions st ! j)" for j
    using True by (cases "j = s"; simp add: upd_session_def)+
  have "refs_ok ?st" using i(1) by (simp add: refs_ok_def)
  moreover have "slots_ok ?st" unfolding slots_ok_def
    using slots_okD [OF i(2)] assms(2) by (auto simp: n)
  moreover have "actives_ok ?st" using i(3) by (simp add: actives_ok_def)
  moreover have "open_ok E ?st"
  proof (rule open_okI, goal_cases)
    case (1 c) then show ?case using open_okD(1) [OF i(4), of c] by (simp add: n)
  next
    case (2 c g) then show ?case using open_okD(2) [OF i(4), of c g] by (simp add: n)
  next
    case (3 g c) then show ?case using open_okD(3) [OF i(4), of c g] by (simp add: n)
  qed
  ultimately show ?thesis by (rule calls_invI)
qed

lemma lock_unlock:
  assumes "\<not> sn_locked (ss_sessions st ! s)"
  shows "unlock_session s (upd_session s (\<lambda>n. n\<lparr>sn_locked := True\<rparr>) st) = st"
proof (cases "s < length (ss_sessions st)")
  case True
  then have "(ss_sessions st)[s := (ss_sessions st ! s)\<lparr>sn_locked := False\<rparr>] = ss_sessions st"
    using assms by (simp add: list_update_same_conv)
  with True show ?thesis by (simp add: unlock_session_def upd_session_def)
qed (simp add: unlock_session_def upd_session_def list_update_beyond)

lemma dial_sip_locked_keeps:
  assumes i: "calls_inv {} st" and s: "s < length (ss_sessions st)" and u: "\<not> sn_locked (ss_sessions st ! s)"
  defines "lk \<equiv> upd_session s (\<lambda>n. n\<lparr>sn_locked := True\<rparr>) st"
  assumes d: "dial_sip_locked env iccid s lk = (r, st')"
  shows "calls_inv {} st' \<and> (\<forall>c. r = Some (Inr c) \<longrightarrow> c < length (ss_calls st'))"
proof (cases "sn_sip_call (ss_sessions st ! s)")
  case (Some c)
  have "ss_sessions lk ! s = (ss_sessions st ! s)\<lparr>sn_locked := True\<rparr>" using s by (simp add: lk_def upd_session_def)
  then show ?thesis using d Some i lock_unlock [OF u] by (auto simp: dial_sip_locked_def simp flip: lk_def)
next
  case None
  have ls: "ss_sessions lk ! s = (ss_sessions st ! s)\<lparr>sn_locked := True\<rparr>" "length (ss_sessions lk) = length (ss_sessions st)"
    using s by (simp_all add: lk_def upd_session_def)
  have il: "calls_inv {} lk" unfolding lk_def by (rule lock_keeps [OF i None])
  have ul: "unlock_session s lk = st" unfolding lk_def by (rule lock_unlock [OF u])
  define c where "c = length (ss_calls lk)"
  have opened: "calls_inv {} (unlock_session s (upd_session s (\<lambda>n. n\<lparr>sn_sip_call := Some c\<rparr>)
      (upd_call c (\<lambda>k. k\<lparr>cl_listener := True\<rparr>) (lk\<lparr>ss_calls := ss_calls lk @ [k]\<rparr>))))"
    if k: "cl_session k = s" "\<not> cl_closed k" "cl_leg k = None" for k
  proof -
    let ?st = "st\<lparr>ss_calls := ss_calls st @ [k]\<rparr>" and ?f = "upd_call c (\<lambda>k. k\<lparr>cl_listener := True\<rparr>)"
    have c: "c = length (ss_calls st)" by (simp add: c_def lk_def)
    have "calls_inv {c} ?st" using append_call_inv [OF i, of k] k s c by simp
    from claim_inv(1) [OF this, of s] have j: "calls_inv {} (upd_session s (\<lambda>n. n\<lparr>sn_sip_call := Some c\<rparr>) ?st)"
      using k c None u by simp
    have "unlock_session s (upd_session s (\<lambda>n. n\<lparr>sn_sip_call := Some c\<rparr>) (?f (lk\<lparr>ss_calls := ss_calls lk @ [k]\<rparr>))) =
        ?f (upd_session s (\<lambda>n. n\<lparr>sn_sip_call := Some c\<rparr>) ?st)"
    proof -
      have "(ss_sessions st ! s)\<lparr>sn_sip_call := Some c, sn_locked := False\<rparr> = (ss_sessions st ! s)\<lparr>sn_sip_call := Some c\<rparr>"
        using u by (cases "ss_sessions st ! s") simp
      with s show ?thesis by (simp add: unlock_session_def upd_session_def upd_call_def lk_def)
    qed
    then show ?thesis using view_keeps [OF _ j, of "?f (upd_session s (\<lambda>n. n\<lparr>sn_sip_call := Some c\<rparr>) ?st)"] by simp
  qed
  have failed: "calls_inv {} (snd (close_call env reason c (lk\<lparr>ss_calls := ss_calls lk @ [k]\<rparr>)))"
    "fst (close_call env reason c (lk\<lparr>ss_calls := ss_calls lk @ [k]\<rparr>)) = None"
    if k: "cl_session k = s" "\<not> cl_closed k" "cl_leg k = None" for k reason
  proof -
    have "calls_inv {c} (lk\<lparr>ss_calls := ss_calls lk @ [k]\<rparr>)"
      using append_call_inv [OF il, of k] k s ls by (simp add: c_def)
    from close_call_inv [OF this, of c] show "calls_inv {} (snd (close_call env reason c (lk\<lparr>ss_calls := ss_calls lk @ [k]\<rparr>)))"
      by (simp add: c_def)
    show "fst (close_call env reason c (lk\<lparr>ss_calls := ss_calls lk @ [k]\<rparr>)) = None"
      using k ls by (simp add: close_call_def Let_def c_def release_slot_def)
  qed
  show ?thesis
  proof (cases "sip_config_for_iccid iccid lk")
    case None
    then show ?thesis using d il ls \<open>sn_sip_call (ss_sessions st ! s) = None\<close> by (auto simp: dial_sip_locked_def)
  next
    case (Some cfg0)
    define cfg where "cfg = (if int (length (ss_lines lk)) > 0 \<and> sc_local_port cfg0 > 0
      then cfg0\<lparr>sc_local_port := sc_local_port cfg0 + int (length (ss_lines lk)) + 1\<rparr> else cfg0)"
    have d2: "(r, st') = go_on (new_sip_client_call env cfg s lk)
        (\<lambda>r st1. case r of Inl e \<Rightarrow> (Some (Inl e), unlock_session s st1)
           | Inr c \<Rightarrow> (Some (Inr c), unlock_session s (upd_session s (\<lambda>n. n\<lparr>sn_sip_call := Some c\<rparr>) st1)))"
      using d ls None Some by (simp add: dial_sip_locked_def Let_def cfg_def)
    show ?thesis
    proof (cases "sn_bridge (ss_sessions st ! s) \<and> is_ok (sip_route_of env cfg) \<and>
        is_ok (se_sip_stack env (ro_signal_host (projr (sip_route_of env cfg))) (ro_signal_port (projr (sip_route_of env cfg))))")
      case False
      then have "\<exists>e. new_sip_client_call env cfg s lk = (Some (Inl e), lk)"
        using ls by (auto simp: new_sip_client_call_def is_ok_def split: sum.splits)
      then obtain e where "new_sip_client_call env cfg s lk = (Some (Inl e), lk)" ..
      with d2 ul i show ?thesis by (simp add: go_on_def)
    next
      case True
      then obtain ro where ro: "sip_route_of env cfg = Inr ro" "se_sip_stack env (ro_signal_host ro) (ro_signal_port ro) = Inr ()"
        by (auto simp: is_ok_def split: sum.splits)
      define k where "k = (new_call s cfg None)\<lparr>cl_route := Some ro\<rparr>"
      have k: "cl_session k = s" "\<not> cl_closed k" "cl_leg k = None" by (simp_all add: k_def new_call_def)
      show ?thesis
      proof (cases "start_listener env (ro_transport ro) (ro_signal_port ro)")
        case (Inl e)
        let ?cl = "close_call env ''sip_listener_error'' c (lk\<lparr>ss_calls := ss_calls lk @ [k]\<rparr>)"
        have "new_sip_client_call env cfg s lk = go_on ?cl (\<lambda>_ st2. (Some (Inl e), st2))"
          using True ro Inl ls by (simp add: new_sip_client_call_def Let_def c_def k_def)
        also have "\<dots> = (None, snd ?cl)" using failed(2) [OF k, of "''sip_listener_error''"] by (cases ?cl) (simp add: go_on_def)
        finally show ?thesis using d2 failed(1) [OF k, of "''sip_listener_error''"] by (simp add: go_on_def)
      next
        case (Inr x)
        then have "new_sip_client_call env cfg s lk =
            (Some (Inr c), upd_call c (\<lambda>k. k\<lparr>cl_listener := True\<rparr>) (lk\<lparr>ss_calls := ss_calls lk @ [k]\<rparr>))"
          using True ro ls by (simp add: new_sip_client_call_def Let_def c_def k_def)
        with d2 opened [OF k] show ?thesis by (simp add: go_on_def c_def unlock_session_def)
      qed
    qed
  qed
qed

lemma dial_sip_keeps:
  assumes i: "calls_inv {} st"
  shows "calls_inv {} (snd (dial_sip env reg_res invited iccid number st))"
proof (cases "ss_by_iccid st iccid")
  case None
  then show ?thesis using i by (simp add: dial_sip_def)
next
  case (Some s)
  obtain ra st1 where a: "ensure_audio env iccid st = (ra, st1)" by fastforce
  note v = ensure_audio_view [OF a]
  have i1: "calls_inv {} st1" by (rule view_keeps [OF v(1) i])
  have s: "s < length (ss_sessions st1)" using refs_okD(3) [OF inv_refs [OF i] Some] view_same(2) [OF v(1)] by simp
  show ?thesis
  proof (cases "is_ok ra \<and> dialable (trim_space number) \<and> \<not> sn_locked (ss_sessions st1 ! s)")
    case False
    then show ?thesis using i1 Some
      by (auto simp: dial_sip_def a is_ok_def lock_session_def go_on_def Let_def split: sum.splits)
  next
    case True
    define lk where "lk = upd_session s (\<lambda>n. n\<lparr>sn_locked := True\<rparr>) st1"
    obtain r st3 where d: "dial_sip_locked env iccid s lk = (r, st3)" by fastforce
    have k: "calls_inv {} st3 \<and> (\<forall>c. r = Some (Inr c) \<longrightarrow> c < length (ss_calls st3))"
      by (rule dial_sip_locked_keeps [OF i1 s]) (use True d in \<open>simp_all add: lk_def\<close>)
    have rest: "calls_inv {} (snd (case dial_target_begin env reg_res invited c (session_call_state env ''dialing'' ''sip_invite'' s st3) of
        (Inl e, st4) \<Rightarrow> go_on (close_call env ''dial_error'' c st4) (\<lambda>_ st5. (Some (Inl e), st5))
      | (Inr _, st4) \<Rightarrow> (Some (Inr c), st4)))" if "r = Some (Inr c)" for c
    proof -
      obtain rb st4 where b: "dial_target_begin env reg_res invited c (session_call_state env ''dialing'' ''sip_invite'' s st3) = (rb, st4)"
        by fastforce
      have v: "calls_view st4 = calls_view st3"
        using dial_target_begin_view [of env reg_res invited c "session_call_state env ''dialing'' ''sip_invite'' s st3"] by (simp add: b)
      have "calls_inv {} st4" "c < length (ss_calls st4)" using view_keeps [OF v] view_same(1) [OF v] k that by simp_all
      then show ?thesis using close_call_keeps by (cases rb) (simp_all add: b)
    qed
    show ?thesis
      using True Some k rest
      by (cases ra; cases r) (auto simp: dial_sip_def a lock_session_def go_on_def Let_def d simp flip: lk_def split: sum.splits)
  qed
qed

lemma call_on_bye_keeps:
  "calls_inv {} st \<Longrightarrow> c < length (ss_calls st) \<Longrightarrow> calls_inv {} (snd (call_on_bye env read_bye c st))"
  using close_call_keeps by (auto simp: call_on_bye_def split: sum.split)

lemma hangup_sip_keeps:
  assumes "calls_inv {} st"
  shows "calls_inv {} (snd (hangup_sip env iccid st))"
  using assms hangup_keeps [OF assms slot_bound [OF assms]]
  by (auto simp: hangup_sip_def session_call_def split: option.splits if_splits)

subsection \<open>Sessions and lines\<close>

lemma calls_inv_mono:
  assumes "calls_inv {} st"
  shows "calls_inv E st"
proof -
  have "open_ok E st" if "open_ok {} st"
    by (rule open_okI) (use open_okD [OF that] in \<open>blast+\<close>)
  with assms show ?thesis by (simp add: calls_inv_def)
qed

lemma view_upd_at:
  "sn_sip_call (f (ss_sessions st ! s)) = sn_sip_call (ss_sessions st ! s) \<Longrightarrow>
   sn_locked (f (ss_sessions st ! s)) = sn_locked (ss_sessions st ! s) \<Longrightarrow> calls_view (upd_session s f st) = calls_view st"
  "gw_active (k (ss_gateways st ! g)) = gw_active (ss_gateways st ! g) \<Longrightarrow> calls_view (upd_gateway g k st) = calls_view st"
  by (simp_all add: calls_view_def upd_session_def upd_gateway_def map_update_same)

lemma vacate_session:
  assumes i: "calls_inv {} st" and c: "sn_sip_call (ss_sessions st ! s) = Some c"
  shows "calls_inv {c} (upd_session s (\<lambda>n. n\<lparr>sn_sip_call := None\<rparr>) st)"
proof (cases "s < length (ss_sessions st)")
  case True
  from i have p: "refs_ok st" "slots_ok st" "actives_ok st" "open_ok {} st" by (simp_all add: calls_inv_def)
  let ?st = "upd_session s (\<lambda>n. n\<lparr>sn_sip_call := None\<rparr>) st"
  have n: "sn_sip_call (ss_sessions ?st ! j) = (if j = s then None else sn_sip_call (ss_sessions st ! j))"
    "sn_locked (ss_sessions ?st ! j) = sn_locked (ss_sessions st ! j)" for j
    using True by (cases "j = s"; simp add: upd_session_def)+
  have "refs_ok ?st" using p(1) by (simp add: refs_ok_def)
  moreover have "slots_ok ?st" unfolding slots_ok_def using slots_okD [OF p(2)] by (auto simp: n)
  moreover have "actives_ok ?st" using p(3) by (simp add: actives_ok_def)
  moreover have "open_ok {c} ?st"
  proof (rule open_okI, goal_cases)
    case (1 d) then show ?case using open_okD(1) [OF p(4), of d] c by (auto simp: n)
  next
    case (2 d g) then show ?case using open_okD(2) [OF p(4), of d g] by (simp add: n)
  next
    case (3 g d) then show ?case using open_okD(3) [OF p(4), of d g] c by (auto simp: n)
  qed
  ultimately show ?thesis by (rule calls_invI)
next
  case False
  then have "upd_session s (\<lambda>n. n\<lparr>sn_sip_call := None\<rparr>) st = st" by (simp add: upd_session_def list_update_beyond)
  then show ?thesis using calls_inv_mono [OF i] by simp
qed

lemma vacate_gateway:
  assumes i: "calls_inv {} st" and g: "g < length (ss_gateways st)" and c: "gw_active (ss_gateways st ! g) = Some c"
  shows "calls_inv {c} (upd_gateway g (\<lambda>w. w\<lparr>gw_registering := False, gw_active := None\<rparr>) st)"
proof -
  from i have p: "refs_ok st" "slots_ok st" "actives_ok st" "open_ok {} st" by (simp_all add: calls_inv_def)
  let ?st = "upd_gateway g (\<lambda>w. w\<lparr>gw_registering := False, gw_active := None\<rparr>) st"
  have n: "gw_active (ss_gateways ?st ! j) = (if j = g then None else gw_active (ss_gateways st ! j))" for j
    using g by (simp add: upd_gateway_def)
  have "refs_ok ?st" using p(1) by (simp add: refs_ok_def)
  moreover have "slots_ok ?st" using p(2) by (simp add: slots_ok_def)
  moreover have "actives_ok ?st" unfolding actives_ok_def using actives_okD [OF p(3)] by (auto simp: n)
  moreover have "open_ok {c} ?st"
  proof (rule open_okI, goal_cases)
    case (1 d) then show ?case using open_okD(1) [OF p(4), of d] by simp
  next
    case (2 d j) then show ?case using open_okD(2) [OF p(4), of d j] c by (auto simp: n)
  next
    case (3 j d) then show ?case using open_okD(3) [OF p(4), of d j] by (auto simp: n split: if_splits)
  qed
  ultimately show ?thesis by (rule calls_invI)
qed

lemma by_iccid_none_inv: "calls_inv E st \<Longrightarrow> calls_inv E (st\<lparr>ss_by_iccid := (ss_by_iccid st)(i := None)\<rparr>)"
proof -
  let ?st = "st\<lparr>ss_by_iccid := (ss_by_iccid st)(i := None)\<rparr>"
  have "slots_ok ?st = slots_ok st" by (simp add: slots_ok_def)
  moreover have "actives_ok ?st = actives_ok st" by (simp add: actives_ok_def)
  moreover have "open_ok E ?st = open_ok E st" by (simp add: open_ok_def)
  moreover have "refs_ok ?st" if "refs_ok st" using refs_okD [OF that] by (simp add: refs_ok_def)
  ultimately show "calls_inv E st \<Longrightarrow> calls_inv E ?st" by (simp add: calls_inv_def)
qed

lemma close_session_keeps:
  assumes i: "calls_inv {} st"
  shows "calls_inv {} (snd (close_session env iccid st))"
proof -
  let ?st = "st\<lparr>ss_by_iccid := (ss_by_iccid st)(iccid := None)\<rparr>"
  have i1: "calls_inv {} ?st" by (rule by_iccid_none_inv [OF i])
  have "calls_inv {} (snd (close_sip env ''session_closed'' s ?st))" if s: "ss_by_iccid st iccid = Some s" for s
  proof (cases "sn_sip_call (ss_sessions st ! s)")
    case None
    have "calls_view (upd_session s (\<lambda>n. n\<lparr>sn_sip_call := None\<rparr>) ?st) = calls_view ?st"
      by (rule view_upd_at) (simp_all add: None)
    from view_keeps [OF this i1] show ?thesis using i1 None by (simp add: close_sip_def)
  next
    case (Some c)
    have "c < length (ss_calls st)" by (rule slot_bound [OF i s Some])
    with close_call_inv [OF vacate_session [OF i1, of s c], of c env "''session_closed''"] Some i1
    show ?thesis by (simp add: close_sip_def)
  qed
  then show ?thesis using i1 by (simp add: close_session_def Let_def split: option.split)
qed

lemma gateway_fields_inv:
  "(\<And>w. gw_active (f w) = gw_active w) \<Longrightarrow> calls_inv E st \<Longrightarrow> calls_inv E (upd_gateway g f st)"
  by (rule view_keeps [rotated]) simp_all

lemma gateway_close_keeps:
  assumes i: "calls_inv {} st" and g: "g < length (ss_gateways st)"
  shows "calls_inv {} (snd (gateway_close env g st))"
proof (cases "gw_active (ss_gateways st ! g)")
  case None
  have "calls_view (upd_gateway g (\<lambda>w. w\<lparr>gw_registering := False, gw_active := None\<rparr>) st) = calls_view st"
    by (rule view_upd_at) (simp add: None)
  from view_keeps [OF this i] show ?thesis using None by (simp add: gateway_close_def gateway_fields_inv)
next
  case (Some c)
  have c: "c < length (ss_calls st)" by (rule actives_okD(1) [OF _ g Some]) (use i in \<open>simp add: calls_inv_def\<close>)
  show ?thesis unfolding gateway_close_def Let_def
    using close_call_inv [OF vacate_gateway [OF i g Some], of c env "''sip_gateway_closed''"] c Some
    by (auto intro!: go_on_inv gateway_fields_inv)
qed

text \<open>Closing a line returns: its active call is in its session, whose lock is therefore free.\<close>

lemma gateway_close_returns:
  assumes i: "calls_inv {} st" and g: "g < length (ss_gateways st)"
  shows "fst (gateway_close env g st) = Some ()"
proof (cases "gw_active (ss_gateways st ! g)")
  case None
  then show ?thesis by (simp add: gateway_close_def)
next
  case (Some c)
  from i have p: "refs_ok st" "slots_ok st" "actives_ok st" "open_ok {} st" by (simp_all add: calls_inv_def)
  note a = actives_okD [OF p(3) g Some]
  let ?s = "cl_session (ss_calls st ! c)"
  have "\<not> sn_locked (ss_sessions st ! ?s)"
    using slots_okD(4) [OF p(2) refs_okD(1) [OF p(1) a(1)] open_okD(3) [OF p(4) _ g Some]] by simp
  then show ?thesis
    using Some a(1) by (cases "cl_leg (ss_calls st ! c)")
      (simp_all add: gateway_close_def go_on_def close_call_def Let_def release_slot_def handle_leg_ended_def upd_call_nth)
qed

lemma new_gateway_keeps:
  assumes i: "calls_inv {} st"
  shows "calls_inv {} (snd (new_sip_inbound_gateway env line_id cfg hooks st))"
proof -
  have a: "calls_inv {} (st\<lparr>ss_gateways := ss_gateways st @ [w]\<rparr>)" if "gw_active w = None" for w
    by (rule append_gateway_inv [OF i that])
  have c: "calls_inv {} (snd (gateway_close env (length (ss_gateways st)) (st\<lparr>ss_gateways := ss_gateways st @ [w]\<rparr>)))"
    if "gw_active w = None" for w
    by (rule gateway_close_keeps [OF a [OF that]]) simp
  have f: "calls_inv {} (set_register_status env x y g st')" if "calls_inv {} st'" for x y g st'
    by (rule view_keeps [OF _ that]) simp
  show ?thesis
    by (auto simp: new_sip_inbound_gateway_def Let_def i split: sum.split intro!: gateway_fields_inv f a c)
qed

subsection \<open>The lines are the gateways that listen\<close>

type_synonym lines_part = "(string \<times> nat) list \<times> (bool \<times> bool \<times> string) list"

definition lines_of :: "sip_state \<Rightarrow> lines_part" where
  "lines_of st = (ss_lines st, map (\<lambda>w. (gw_open w, gw_listener w, gw_line_id w)) (ss_gateways st))"

lemma lines_of_gateway:
  "(\<And>w. gw_open (f w) = gw_open w \<and> gw_listener (f w) = gw_listener w \<and> gw_line_id (f w) = gw_line_id w) \<Longrightarrow>
   lines_of (upd_gateway g f st) = lines_of st"
  by (simp add: lines_of_def upd_gateway_def map_update_same)

interpretation lines_frame: call_frame lines_of
proof
  show "lines_of (upd_call c f st) = lines_of st" "lines_of (upd_session s h st) = lines_of st" "lines_of (emit e st) = lines_of st"
    "lines_of (st\<lparr>ss_calls := cs\<rparr>) = lines_of st" "lines_of (st\<lparr>ss_sessions := ns\<rparr>) = lines_of st"
    "lines_of (st\<lparr>ss_by_iccid := m\<rparr>) = lines_of st" for c f st s h e cs ns m
    by (simp_all add: lines_of_def)
qed (rule lines_of_gateway, simp)+

text \<open>\<open>F\<close>: gateways that are open and (still or already) outside the map.\<close>

fun lines_inv :: "nat set \<Rightarrow> lines_part \<Rightarrow> bool" where
  "lines_inv F (ls, ws) \<longleftrightarrow>
     distinct (map fst ls) \<and> (\<forall>(l, g) \<in> set ls. g < length ws \<and> g \<notin> F \<and> fst (ws ! g) \<and> snd (snd (ws ! g)) = l) \<and>
     (\<forall>g < length ws. g \<notin> F \<longrightarrow> fst (ws ! g) \<longrightarrow> g \<in> snd ` set ls) \<and> (\<forall>g < length ws. fst (snd (ws ! g)) \<longrightarrow> fst (ws ! g))"

lemma lines_inv_close:
  "lines_inv F (ls, ws) \<Longrightarrow> g \<in> F \<Longrightarrow> lines_inv (F - {g}) (ls, ws[g := (False, False, l)])"
  by (cases "g < length ws") (auto simp: nth_list_update list_update_beyond)

lemma lines_inv_append:
  assumes "lines_inv {} (ls, ws)"
  shows "lines_inv {length ws} (ls, ws @ [(True, b, l)])" and "lines_inv {} (ls, ws @ [(False, False, l)])"
  using assms by (auto simp: nth_append less_Suc_eq split: if_splits)

lemma lines_inv_set:
  assumes "lines_inv {g} (ls, ws)" and "g < length ws" and "fst (ws ! g)" and "snd (snd (ws ! g)) = l" and "l \<notin> fst ` set ls"
  shows "lines_inv {} ((l, g) # ls, ws)"
  using assms by auto

lemma lines_inv_drop:
  assumes "lines_inv {} (ls, ws)"
  shows "lines_inv (snd ` {x \<in> set ls. \<not> P x}) (filter P ls, ws)"
proof -
  have "g \<notin> snd ` {x \<in> set ls. \<not> P x}" if "(l, g) \<in> set ls" "P (l, g)" for l g
  proof
    assume "g \<in> snd ` {x \<in> set ls. \<not> P x}"
    then obtain l' where "(l', g) \<in> set ls" "\<not> P (l', g)" by auto
    moreover have "snd (snd (ws ! g)) = k" if "(k, g) \<in> set ls" for k using assms that by auto
    then have "l' = l" using \<open>(l', g) \<in> set ls\<close> \<open>(l, g) \<in> set ls\<close> by metis
    ultimately show False using that by simp
  qed
  then have k: "\<forall>(l, g) \<in> set (filter P ls). g < length ws \<and> g \<notin> snd ` {x \<in> set ls. \<not> P x} \<and> fst (ws ! g) \<and> snd (snd (ws ! g)) = l"
    using assms by auto
  have "g \<in> snd ` set (filter P ls)" if "g < length ws" "g \<notin> snd ` {x \<in> set ls. \<not> P x}" "fst (ws ! g)" for g
  proof -
    from assms that(1,3) obtain x where "x \<in> set ls" "snd x = g" by auto
    moreover from this that(2) have "P x" by auto
    ultimately show ?thesis by auto
  qed
  moreover have "distinct (map fst (filter P ls))" using assms by (simp add: distinct_map_filter)
  moreover have "\<forall>g < length ws. fst (snd (ws ! g)) \<longrightarrow> fst (ws ! g)" using assms by simp
  ultimately show ?thesis using k unfolding lines_inv.simps by blast
qed

definition sip_ok :: "nat set \<Rightarrow> sip_state \<Rightarrow> bool" where
  "sip_ok F st \<longleftrightarrow> calls_inv {} st \<and> lines_inv F (lines_of st)"

lemma gateway_close_lines:
  assumes i: "calls_inv {} st" and g: "g < length (ss_gateways st)"
  shows "lines_of (snd (gateway_close env g st)) =
    (ss_lines st, (snd (lines_of st))[g := (False, False, gw_line_id (ss_gateways st ! g))])"
proof -
  let ?f = "\<lambda>w. w\<lparr>gw_registering := False, gw_active := None\<rparr>" and ?c = "\<lambda>w. w\<lparr>gw_listener := False, gw_open := False\<rparr>"
  have l: "lines_of (upd_gateway g ?f st) = lines_of st" by (rule lines_of_gateway) simp
  have c: "lines_of (upd_gateway g ?c st') = (ss_lines st, (snd (lines_of st))[g := (False, False, gw_line_id (ss_gateways st ! g))])"
    if "lines_of st' = lines_of st" for st'
  proof -
    from that have n: "length (ss_gateways st') = length (ss_gateways st)" "ss_lines st' = ss_lines st"
      "map (\<lambda>w. (gw_open w, gw_listener w, gw_line_id w)) (ss_gateways st') = map (\<lambda>w. (gw_open w, gw_listener w, gw_line_id w)) (ss_gateways st)"
      unfolding lines_of_def by (auto dest: map_eq_imp_length_eq)
    from arg_cong [OF n(3), of "\<lambda>xs. snd (snd (xs ! g))"] g n(1) have "gw_line_id (ss_gateways st' ! g) = gw_line_id (ss_gateways st ! g)" by simp
    then show ?thesis using n by (simp add: lines_of_def upd_gateway_def map_update)
  qed
  show ?thesis
  proof (cases "gw_active (ss_gateways st ! g)")
    case None
    then show ?thesis using c [OF l] by (simp add: gateway_close_def)
  next
    case (Some k)
    obtain r st2 where k: "close_call env ''sip_gateway_closed'' k (upd_gateway g ?f st) = (r, st2)" by fastforce
    then have "lines_of st2 = lines_of st" using lines_frame.part_close [of env "''sip_gateway_closed''" k "upd_gateway g ?f st"] l by simp
    moreover have "r \<noteq> None" using gateway_close_returns [OF i g, of env] Some k by (auto simp: gateway_close_def go_on_def split: option.splits)
    ultimately show ?thesis using c Some k by (auto simp: gateway_close_def go_on_def split: option.splits)
  qed
qed

lemma gateway_close_ok:
  assumes "sip_ok F st" and "g < length (ss_gateways st)" and "g \<in> F"
  shows "sip_ok (F - {g}) (snd (gateway_close env g st))"
    and "length (ss_gateways (snd (gateway_close env g st))) = length (ss_gateways st)"
proof -
  note l = gateway_close_lines [OF _ assms(2), of env]
  show "sip_ok (F - {g}) (snd (gateway_close env g st))"
    using assms gateway_close_keeps [OF _ assms(2)] l lines_inv_close [of F "ss_lines st" "snd (lines_of st)" g]
    by (simp add: sip_ok_def lines_of_def)
  show "length (ss_gateways (snd (gateway_close env g st))) = length (ss_gateways st)"
    using assms(1) arg_cong [OF l, of "\<lambda>p. length (snd p)"] by (simp add: sip_ok_def lines_of_def)
qed

lemma lines_of_simp: "lines_of st = (ss_lines st, snd (lines_of st))" "length (snd (lines_of st)) = length (ss_gateways st)"
  by (simp_all add: lines_of_def)

lemma new_gateway_ok:
  assumes ok: "sip_ok {} st" and n: "new_sip_inbound_gateway env line_id cfg hooks st = (r, st')"
  shows "r = Some (Inr g) \<Longrightarrow> sip_ok {g} st' \<and> g < length (ss_gateways st') \<and> gw_open (ss_gateways st' ! g) \<and>
      gw_line_id (ss_gateways st' ! g) = line_id \<and> gw_cfg (ss_gateways st' ! g) = cfg \<and> gw_hooks (ss_gateways st' ! g) = hooks \<and>
      gw_listener (ss_gateways st' ! g) \<and> ss_lines st' = ss_lines st"
    and "r = Some (Inl e) \<Longrightarrow> sip_ok {} st' \<and> ss_lines st' = ss_lines st"
    and "r \<noteq> None"
proof -
  have i: "calls_inv {} st" "lines_inv {} (ss_lines st, snd (lines_of st))" using ok lines_of_simp(1) [of st] by (simp_all add: sip_ok_def)
  have k: "calls_inv {} st'" using new_gateway_keeps [OF i(1), of env line_id cfg hooks] n by simp
  consider (none) e where "r = Some (Inl e)" "st' = st"
    | (fail) e w where "r = Some (Inl e)" "gw_active w = None" "gw_line_id w = line_id"
        "st' = snd (gateway_close env (length (ss_gateways st)) (st\<lparr>ss_gateways := ss_gateways st @ [w]\<rparr>))"
        "gw_open w" "\<not> gw_listener w"
    | (made) w where "r = Some (Inr (length (ss_gateways st)))" "gw_line_id w = line_id" "gw_open w" "gw_listener w"
        "gw_cfg w = cfg" "gw_hooks w = hooks" "ss_gateways st' = ss_gateways st @ [w]" "ss_lines st' = ss_lines st"
  proof -
    have c: "fst (gateway_close env (length (ss_gateways st)) (st\<lparr>ss_gateways := ss_gateways st @ [w]\<rparr>)) = Some ()"
      if "gw_active w = None" for w
      by (rule gateway_close_returns [OF append_gateway_inv [OF i(1) that]]) simp
    show thesis
    proof (cases "hk_required hooks \<and> is_ok (sip_route_of env cfg) \<and>
        is_ok (se_sip_stack env (ro_signal_host (projr (sip_route_of env cfg))) (ro_signal_port (projr (sip_route_of env cfg))))")
      case False
      then show thesis using n none by (auto simp: new_sip_inbound_gateway_def is_ok_def split: if_splits sum.splits)
    next
      case True
      then obtain ro where ro: "hk_required hooks" "sip_route_of env cfg = Inr ro" "se_sip_stack env (ro_signal_host ro) (ro_signal_port ro) = Inr ()"
        by (auto simp: is_ok_def split: sum.splits)
      define w where "w = \<lparr>gw_line_id = line_id, gw_line_iccid = trim_space (hk_iccid hooks), gw_cfg = cfg, gw_hooks = hooks,
         gw_transport = ro_transport ro, gw_proxy = ro_proxy ro, gw_domain = ro_domain ro, gw_signal_host = ro_signal_host ro,
         gw_signal_port = ro_signal_port ro, gw_media_ip = ro_media_ip ro, gw_open = True, gw_listener = False, gw_registering = False,
         gw_register_state = ''idle'', gw_register_reason = ''init'', gw_register_at = se_now env, gw_active = None\<rparr>"
      define st1 where "st1 = st\<lparr>ss_gateways := ss_gateways st @ [w]\<rparr>"
      define g where "g = length (ss_gateways st)"
      have w: "gw_active w = None" "gw_line_id w = line_id" "gw_open w" "\<not> gw_listener w" "gw_cfg w = cfg" "gw_hooks w = hooks"
        by (simp_all add: w_def)
      have n1: "(r, st') = (case start_listener env (ro_transport ro) (ro_signal_port ro) of
            Inl e \<Rightarrow> go_on (gateway_close env g st1)
                (\<lambda>_ st2. (Some (Inl (''start sip inbound listener ['' @ line_id @ ''] failed: '' @ e)), st2))
          | Inr _ \<Rightarrow> (Some (Inr g), if sc_register cfg
              then set_register_status env ''connecting'' ''registering'' g
                (upd_gateway g (\<lambda>w. w\<lparr>gw_registering := True\<rparr>) (upd_gateway g (\<lambda>w. w\<lparr>gw_listener := True\<rparr>) st1))
              else upd_gateway g (\<lambda>w. w\<lparr>gw_listener := True\<rparr>) st1))"
        unfolding n [symmetric] new_sip_inbound_gateway_def Let_def st1_def w_def g_def ro(2) by (simp add: ro)
      show thesis
      proof (cases "start_listener env (ro_transport ro) (ro_signal_port ro)")
        case (Inl e)
        with n1 c [OF w(1)] show thesis
          by (intro fail [OF _ w(1,2) _ w(3,4)]) (cases "gateway_close env g st1"; simp add: go_on_def st1_def g_def)+
      next
        case (Inr x)
        let ?w = "(if sc_register cfg then w\<lparr>gw_listener := True, gw_registering := True, gw_register_state := trim_space ''connecting'',
          gw_register_reason := trim_space ''registering'', gw_register_at := se_now env\<rparr> else w\<lparr>gw_listener := True\<rparr>)"
        from Inr n1 have "ss_gateways st' = ss_gateways st @ [?w]" "ss_lines st' = ss_lines st" "r = Some (Inr g)"
          by (simp_all add: set_register_status_def upd_gateway_def st1_def g_def)
        then show thesis by (intro made [of ?w]) (simp_all add: w g_def)
      qed
    qed
  qed
  note cases = this
  show "r = Some (Inr g) \<Longrightarrow> sip_ok {g} st' \<and> g < length (ss_gateways st') \<and> gw_open (ss_gateways st' ! g) \<and>
      gw_line_id (ss_gateways st' ! g) = line_id \<and> gw_cfg (ss_gateways st' ! g) = cfg \<and> gw_hooks (ss_gateways st' ! g) = hooks \<and>
      gw_listener (ss_gateways st' ! g) \<and> ss_lines st' = ss_lines st"
    using cases k lines_inv_append(1) [OF i(2)] by cases (auto simp: sip_ok_def lines_of_def nth_append)
  show "r \<noteq> None" using cases by cases auto
  assume "r = Some (Inl e)"
  with cases show "sip_ok {} st' \<and> ss_lines st' = ss_lines st"
  proof cases
    case (fail e' w)
    let ?st = "st\<lparr>ss_gateways := ss_gateways st @ [w]\<rparr>"
    have g: "length (ss_gateways st) < length (ss_gateways ?st)" by simp
    have "lines_of st' = (ss_lines st, snd (lines_of st) @ [(False, False, line_id)])"
      unfolding fail(4) gateway_close_lines [OF append_gateway_inv [OF i(1) fail(2)] g]
      using fail(3) by (simp add: lines_of_def list_update_append)
    with k lines_inv_append(2) [OF i(2)] show ?thesis by (simp add: sip_ok_def) (simp add: lines_of_def)
  qed (use ok in simp_all)
qed

lemma set_line_ok:
  assumes "sip_ok {g} st" and "g < length (ss_gateways st)" and "gw_open (ss_gateways st ! g)"
    and "gw_line_id (ss_gateways st ! g) = l" and "l \<notin> fst ` set (ss_lines st)"
  shows "sip_ok {} (set_line l g st)"
proof -
  have w: "without_line l (ss_lines st) = ss_lines st"
    using assms(5) by (force simp: without_line_def intro!: filter_True)
  have n: "snd (lines_of st) ! g = (gw_open (ss_gateways st ! g), gw_listener (ss_gateways st ! g), gw_line_id (ss_gateways st ! g))"
    using assms(2) by (simp add: lines_of_def)
  have "lines_inv {g} (ss_lines st, snd (lines_of st))"
    using assms(1) lines_of_simp(1) [of st] by (simp add: sip_ok_def del: lines_inv.simps)
  then have "lines_inv {} ((l, g) # ss_lines st, snd (lines_of st))"
    by (rule lines_inv_set) (use assms n lines_of_simp(2) [of st] in simp_all)
  moreover have "lines_of (set_line l g st) = ((l, g) # ss_lines st, snd (lines_of st))"
    using w by (simp add: set_line_def lines_of_def)
  ultimately show ?thesis using assms(1) by (simp add: sip_ok_def set_line_def del: lines_inv.simps)
qed

lemma added_line_ok:
  assumes ok: "sip_ok {} st" and l: "line_id \<notin> fst ` set (ss_lines st)"
  shows "sip_ok {} (snd (go_on (new_sip_inbound_gateway env line_id cfg hooks st)
      (\<lambda>r st1. case r of Inl e \<Rightarrow> (Some (Inl e), st1) | Inr g \<Rightarrow> (Some (Inr ()), set_line line_id g st1))))"
proof -
  obtain r st' where n: "new_sip_inbound_gateway env line_id cfg hooks st = (r, st')" by fastforce
  note k = new_gateway_ok [OF ok n]
  show ?thesis
  proof (cases r)
    case None with k(3) show ?thesis by blast
  next
    case (Some x)
    then show ?thesis
      using k(1,2) l by (cases x) (auto simp: n go_on_def intro!: set_line_ok)
  qed
qed

lemma start_sip_inbound_ok:
  assumes "sip_ok {} st"
  shows "sip_ok {} (snd (start_sip_inbound env cfg line_id port hooks st))"
proof -
  have "trim_space line_id \<notin> fst ` set (ss_lines st)" if "line_gateway (trim_space line_id) st = None"
    using that by (simp add: line_gateway_def map_of_eq_None_iff)
  then show ?thesis
    using assms added_line_ok [OF assms] by (simp add: start_sip_inbound_def Let_def)
qed

lemma removed_line:
  assumes ok: "sip_ok {} st" and l: "line_gateway l st = Some g"
  shows "sip_ok {g} (st\<lparr>ss_lines := without_line l (ss_lines st)\<rparr>)" "g < length (ss_gateways st)"
proof -
  have d: "(l, g) \<in> set (ss_lines st)" using l by (auto simp: line_gateway_def dest: map_of_SomeD)
  have i: "lines_inv {} (ss_lines st, snd (lines_of st))" using ok lines_of_simp(1) [of st] by (simp add: sip_ok_def)
  have u: "g' = g" if "(l, g') \<in> set (ss_lines st)" for g'
    by (rule eq_key_imp_eq_value [OF _ that d]) (use i in simp)
  have "{x \<in> set (ss_lines st). \<not> (case x of (k, _) \<Rightarrow> k \<noteq> l)} = {(l, g)}"
  proof (intro equalityI subsetI)
    fix x assume x: "x \<in> {x \<in> set (ss_lines st). \<not> (case x of (k, _) \<Rightarrow> k \<noteq> l)}"
    obtain k g' where p: "x = (k, g')" by fastforce
    with x have "k = l" "(l, g') \<in> set (ss_lines st)" by auto
    with u [of g'] p show "x \<in> {(l, g)}" by simp
  next
    fix x assume "x \<in> {(l, g)}"
    with d show "x \<in> {x \<in> set (ss_lines st). \<not> (case x of (k, _) \<Rightarrow> k \<noteq> l)}" by simp
  qed
  then have "snd ` {x \<in> set (ss_lines st). \<not> (case x of (k, _) \<Rightarrow> k \<noteq> l)} = {g}" by simp
  then have "lines_inv {g} (without_line l (ss_lines st), snd (lines_of st))"
    using lines_inv_drop [OF i, of "\<lambda>(k, _). k \<noteq> l"] by (simp add: without_line_def)
  then show "sip_ok {g} (st\<lparr>ss_lines := without_line l (ss_lines st)\<rparr>)"
    using ok by (simp add: sip_ok_def) (simp add: lines_of_def)
  show "g < length (ss_gateways st)" using i d lines_of_simp(2) [of st] by auto
qed

lemma sync_sip_inbound_ok:
  assumes ok: "sip_ok {} st"
  shows "sip_ok {} (snd (sync_sip_inbound env line_id cfg hooks st))"
proof (cases "line_gateway (trim_space line_id) st")
  case None
  then have "trim_space line_id \<notin> fst ` set (ss_lines st)" by (simp add: line_gateway_def map_of_eq_None_iff)
  with None show ?thesis using ok added_line_ok [OF ok] by (simp add: sync_sip_inbound_def Let_def)
next
  case (Some g)
  let ?l = "trim_space line_id"
  let ?st = "st\<lparr>ss_lines := without_line ?l (ss_lines st)\<rparr>"
  note r = removed_line [OF ok Some]
  have g: "g < length (ss_gateways ?st)" using r(2) by simp
  have ok1: "sip_ok {} (snd (gateway_close env g ?st))" using gateway_close_ok(1) [OF r(1) g, of env] by simp
  have "ss_lines (snd (gateway_close env g ?st)) = without_line ?l (ss_lines st)"
    using gateway_close_lines [OF _ g, of env] r(1) by (simp add: sip_ok_def lines_of_def)
  then have "?l \<notin> fst ` set (ss_lines (snd (gateway_close env g ?st)))" by (auto simp: without_line_def)
  note a = added_line_ok [OF ok1 this]
  show ?thesis
    using ok Some a gateway_close_returns [OF _ g, of env] r(1)
    by (cases "gateway_close env g ?st") (simp add: sync_sip_inbound_def Let_def go_on_def sip_ok_def)
qed

lemma stop_line_ok:
  assumes ok: "sip_ok {} st"
  shows "sip_ok {} (snd (stop_sip_inbound_line env line_id st))"
proof (cases "line_gateway (trim_space line_id) st")
  case None
  then have "without_line (trim_space line_id) (ss_lines st) = ss_lines st"
    by (force simp: line_gateway_def map_of_eq_None_iff without_line_def intro!: filter_True)
  with None ok show ?thesis by (simp add: stop_sip_inbound_line_def Let_def)
next
  case (Some g)
  note r = removed_line [OF ok Some]
  show ?thesis using gateway_close_ok(1) [OF r(1), of g env] r(2) Some ok by (simp add: stop_sip_inbound_line_def Let_def)
qed

lemma close_gateways_ok:
  assumes "sip_ok F st" and "F \<subseteq> set gs" and "\<forall>g \<in> set gs. g < length (ss_gateways st)" and "\<forall>g \<in> set gs. g \<in> F" and "distinct gs"
  shows "sip_ok {} (snd (close_gateways env gs st)) \<and> fst (close_gateways env gs st) = Some ()"
  using assms
proof (induction gs arbitrary: F st)
  case (Cons g gs)
  note k = gateway_close_ok [OF Cons.prems(1), of g env]
  have r: "fst (gateway_close env g st) = Some ()"
    by (rule gateway_close_returns) (use Cons.prems in \<open>simp_all add: sip_ok_def\<close>)
  have "sip_ok {} (snd (close_gateways env gs (snd (gateway_close env g st)))) \<and>
      fst (close_gateways env gs (snd (gateway_close env g st))) = Some ()"
    by (rule Cons.IH [of "F - {g}"]) (use k Cons.prems in auto)
  with r show ?case by (cases "gateway_close env g st") (simp add: go_on_def)
qed simp

lemma dropped_lines_ok:
  assumes ok: "sip_ok {} st"
  shows "sip_ok {} (snd (close_gateways env (map snd (filter (\<lambda>x. \<not> P x) (ss_lines st))) (st\<lparr>ss_lines := filter P (ss_lines st)\<rparr>))) \<and>
    fst (close_gateways env (map snd (filter (\<lambda>x. \<not> P x) (ss_lines st))) (st\<lparr>ss_lines := filter P (ss_lines st)\<rparr>)) = Some ()"
proof (rule close_gateways_ok)
  have i: "lines_inv {} (ss_lines st, snd (lines_of st))" using ok lines_of_simp(1) [of st] by (simp add: sip_ok_def)
  have "lines_inv (snd ` {x \<in> set (ss_lines st). \<not> P x}) (filter P (ss_lines st), snd (lines_of st))" by (rule lines_inv_drop [OF i])
  moreover have "lines_of (st\<lparr>ss_lines := filter P (ss_lines st)\<rparr>) = (filter P (ss_lines st), snd (lines_of st))"
    by (simp add: lines_of_def)
  ultimately show "sip_ok (snd ` {x \<in> set (ss_lines st). \<not> P x}) (st\<lparr>ss_lines := filter P (ss_lines st)\<rparr>)"
    using ok by (simp add: sip_ok_def del: lines_inv.simps)
  show "\<forall>g \<in> set (map snd (filter (\<lambda>x. \<not> P x) (ss_lines st))). g < length (ss_gateways (st\<lparr>ss_lines := filter P (ss_lines st)\<rparr>))"
    using i lines_of_simp(2) [of st] by auto
  have "inj_on snd (set (ss_lines st))"
  proof (rule inj_onI)
    fix x y assume "x \<in> set (ss_lines st)" "y \<in> set (ss_lines st)" "snd x = snd y"
    moreover have "snd (snd (snd (lines_of st) ! g)) = l" if "(l, g) \<in> set (ss_lines st)" for l g using i that by auto
    ultimately show "x = y" by (metis prod.collapse)
  qed
  moreover have "distinct (ss_lines st)" using i by (auto simp: distinct_map)
  ultimately show "distinct (map snd (filter (\<lambda>x. \<not> P x) (ss_lines st)))"
    by (auto simp: distinct_map inj_on_def)
qed auto

lemma prune_ok: "sip_ok {} st \<Longrightarrow> sip_ok {} (snd (prune_sip_inbound_lines env active st))"
  using dropped_lines_ok [of st env "\<lambda>(l, _). l \<in> set active"]
  by (simp add: prune_sip_inbound_lines_def case_prod_unfold)

lemma stop_ok: "sip_ok {} st \<Longrightarrow> sip_ok {} (snd (stop_sip_inbound env st))"
  using dropped_lines_ok [of st env "\<lambda>_. False"] by (simp add: stop_sip_inbound_def)

subsection \<open>Every sequence of operations\<close>

text \<open>
  One step is one operation with any environment, on any session, call or gateway there is. The second
  halves of the operations that wait may happen at any time (and to any call, which is more than can
  happen).
\<close>

inductive sip_step :: "sip_state \<Rightarrow> sip_state \<Rightarrow> bool" where
  invite: "g < length (ss_gateways st) \<Longrightarrow> sip_step st (snd (on_invite env req resolve dialog g st))"
| dialled: "c < length (ss_calls st) \<Longrightarrow> sip_step st (snd (invite_dialled env res ans c st))"
| bye: "g < length (ss_gateways st) \<Longrightarrow> sip_step st (snd (on_bye env req read_bye g st))"
| info: "sip_step st (on_info req g st)"
| modem: "g < length (ss_gateways st) \<Longrightarrow> sip_step st (snd (sync_modem_state env target ms g st))"
| offer: "c < length (ss_calls st) \<Longrightarrow> sip_step st (snd (incoming_invite_begin env parse_uri reg_res invited c st))"
| offer_answered: "c < length (ss_calls st) \<Longrightarrow> sip_step st (snd (incoming_invite_answered env ans acked accepted c st))"
| user_dial: "sip_step st (snd (dial_sip env reg_res invited iccid number st))"
| user_answered: "c < length (ss_calls st) \<Longrightarrow> sip_step st (snd (dial_sip_answered env ans acked c st))"
| user_bye: "c < length (ss_calls st) \<Longrightarrow> sip_step st (snd (call_on_bye env read_bye c st))"
| user_info: "sip_step st (call_on_info st)"
| user_hangup: "sip_step st (snd (hangup_sip env iccid st))"
| session: "sip_step st (snd (ensure_session env iccid target st))"
| audio: "sip_step st (snd (ensure_audio env iccid st))"
| session_end: "sip_step st (snd (close_session env iccid st))"
| register: "sip_step st (register_round env first second g st)"
| line_start: "sip_step st (snd (start_sip_inbound env cfg line_id port hooks st))"
| line_sync: "sip_step st (snd (sync_sip_inbound env line_id cfg hooks st))"
| line_stop: "sip_step st (snd (stop_sip_inbound_line env line_id st))"
| lines_prune: "sip_step st (snd (prune_sip_inbound_lines env active st))"
| lines_stop: "sip_step st (snd (stop_sip_inbound env st))"

inductive_cases sip_stepE: "sip_step st st'"

definition sip_reachable :: "sip_state \<Rightarrow> bool" where
  "sip_reachable st \<longleftrightarrow> sip_step\<^sup>*\<^sup>* empty_sip_state st"

lemma frame_ok:
  "lines_of st' = lines_of st \<Longrightarrow> calls_inv {} st' \<Longrightarrow> sip_ok {} st \<Longrightarrow> sip_ok {} st'"
  by (simp add: sip_ok_def)

lemma register_round_ok: "sip_ok {} st \<Longrightarrow> sip_ok {} (register_round env first second g st)"
proof -
  have "lines_of (set_register_status env a b g st) = lines_of st" for a b
    by (simp add: set_register_status_def lines_of_gateway)
  moreover have "calls_inv {} st \<Longrightarrow> calls_inv {} (set_register_status env a b g st)" for a b
    by (rule view_keeps [rotated]) simp_all
  ultimately show "sip_ok {} st \<Longrightarrow> sip_ok {} (register_round env first second g st)"
    by (auto simp: register_round_def sip_ok_def split: sum.splits)
qed

lemma sip_step_ok:
  assumes "sip_step st st'" and "sip_ok {} st"
  shows "sip_ok {} st'"
  using assms
proof (cases rule: sip_step.cases)
  case invite
  then show ?thesis using assms(2) by (auto intro: frame_ok on_invite_keeps simp: lines_frame.part_on_invite sip_ok_def)
next
  case dialled
  then show ?thesis using assms(2) by (auto intro: invite_dialled_keeps simp: lines_frame.part_invite_dialled sip_ok_def)
next
  case bye
  then show ?thesis using assms(2) by (auto intro: on_bye_keeps simp: lines_frame.part_on_bye sip_ok_def)
next
  case info
  then show ?thesis using assms(2) by (auto intro: on_info_keeps simp: lines_frame.part_on_info sip_ok_def)
next
  case modem
  then show ?thesis using assms(2) by (auto intro: sync_modem_state_keeps simp: lines_frame.part_sync_modem sip_ok_def)
next
  case offer
  then show ?thesis using assms(2) by (auto intro: incoming_invite_begin_keeps simp: lines_frame.part_incoming_begin sip_ok_def)
next
  case offer_answered
  then show ?thesis using assms(2) by (auto intro: incoming_invite_answered_keeps simp: lines_frame.part_incoming_answered sip_ok_def)
next
  case user_dial
  then show ?thesis using assms(2) by (auto intro: dial_sip_keeps simp: lines_frame.part_dial sip_ok_def)
next
  case user_answered
  then show ?thesis using assms(2) by (auto intro: dial_sip_answered_keeps simp: lines_frame.part_dial_answered sip_ok_def)
next
  case user_bye
  then show ?thesis using assms(2) by (auto intro: call_on_bye_keeps simp: lines_frame.part_call_requests sip_ok_def)
next
  case user_info
  then show ?thesis using assms(2) by (auto simp: call_on_info_def lines_frame.part_respond sip_ok_def)
next
  case user_hangup
  then show ?thesis using assms(2) by (auto intro: hangup_sip_keeps simp: lines_frame.part_hangup_sip sip_ok_def)
next
  case (session env iccid target)
  obtain r st1 where e: "ensure_session env iccid target st = (r, st1)" by fastforce
  with session assms(2) ensure_session_inv(1) [OF _ e] lines_frame.part_ensure(1) [of env iccid target st]
  show ?thesis by (simp add: sip_ok_def)
next
  case (audio env iccid)
  obtain r st1 where e: "ensure_audio env iccid st = (r, st1)" by fastforce
  with audio assms(2) view_keeps [OF ensure_audio_view(1) [OF e]] lines_frame.part_ensure(2) [of env iccid st]
  show ?thesis by (simp add: sip_ok_def)
next
  case session_end
  then show ?thesis using assms(2) by (auto intro: close_session_keeps simp: lines_frame.part_close_session sip_ok_def)
next
  case register
  then show ?thesis using assms(2) by (simp add: register_round_ok)
qed (use start_sip_inbound_ok sync_sip_inbound_ok stop_line_ok prune_ok stop_ok in simp_all)

lemma sip_reachable_ok:
  assumes "sip_reachable st"
  shows "sip_ok {} st"
  using assms unfolding sip_reachable_def
proof (induction rule: rtranclp_induct)
  case base
  show ?case by (simp add: sip_ok_def calls_inv_defs empty_sip_state_def open_ok_def lines_of_def)
qed (rule sip_step_ok)

end
