(* ===== verification/Sip_Properties.thy ===== *)
theory Sip_Properties
  imports Sip_Reachable
begin

text \<open>
  What holds of the SIP calls in every state the operations lead to, and what the modem's report that it is
  idle does to the call of its line. The invariants are stated here with predicates that compute.
\<close>

subsection \<open>Every open call is in its places\<close>

definition call_accounted :: "sip_state \<Rightarrow> nat \<Rightarrow> bool" where
  "call_accounted st c \<longleftrightarrow>
     (let k = ss_calls st ! c; n = ss_sessions st ! cl_session k
      in cl_closed k \<or> sn_locked n \<or>
         sn_sip_call n = Some c \<and> (case cl_leg k of None \<Rightarrow> True | Some leg \<Rightarrow> gw_active (ss_gateways st ! lg_gateway leg) = Some c))"

definition slot_accounted :: "sip_state \<Rightarrow> nat \<Rightarrow> bool" where
  "slot_accounted st s \<longleftrightarrow>
     (case sn_sip_call (ss_sessions st ! s) of
        None \<Rightarrow> True
      | Some c \<Rightarrow> c < length (ss_calls st) \<and> cl_session (ss_calls st ! c) = s \<and> \<not> cl_closed (ss_calls st ! c))"

definition active_accounted :: "sip_state \<Rightarrow> nat \<Rightarrow> bool" where
  "active_accounted st g \<longleftrightarrow>
     (case gw_active (ss_gateways st ! g) of
        None \<Rightarrow> True
      | Some c \<Rightarrow> c < length (ss_calls st) \<and> call_leg_gateway (ss_calls st ! c) = Some g \<and> \<not> cl_closed (ss_calls st ! c) \<and>
                  sn_sip_call (ss_sessions st ! cl_session (ss_calls st ! c)) = Some c)"

definition lines_accounted :: "sip_state \<Rightarrow> bool" where
  "lines_accounted st \<longleftrightarrow>
     distinct (map fst (ss_lines st)) \<and>
     list_all (\<lambda>(l, g). g < length (ss_gateways st) \<and> gw_open (ss_gateways st ! g) \<and> gw_line_id (ss_gateways st ! g) = l) (ss_lines st) \<and>
     list_all (\<lambda>g. (gw_open (ss_gateways st ! g) \<longrightarrow> g \<in> snd ` set (ss_lines st)) \<and>
                   (gw_listener (ss_gateways st ! g) \<longrightarrow> gw_open (ss_gateways st ! g))) [0..<length (ss_gateways st)]"

definition sip_accounted :: "sip_state \<Rightarrow> bool" where
  "sip_accounted st \<longleftrightarrow>
     list_all (call_accounted st) [0..<length (ss_calls st)] \<and>
     list_all (slot_accounted st) [0..<length (ss_sessions st)] \<and>
     list_all (active_accounted st) [0..<length (ss_gateways st)] \<and>
     lines_accounted st"

lemma calls_inv_parts:
  assumes "calls_inv {} st"
  shows "refs_ok st" "slots_ok st" "actives_ok st" "open_ok {} st"
  using assms by (simp_all add: calls_inv_def)

lemma calls_inv_accounted:
  assumes "calls_inv {} st"
  shows "c < length (ss_calls st) \<Longrightarrow> call_accounted st c"
    and "s < length (ss_sessions st) \<Longrightarrow> slot_accounted st s"
    and "g < length (ss_gateways st) \<Longrightarrow> active_accounted st g"
proof -
  note i = calls_inv_parts [OF assms]
  show "c < length (ss_calls st) \<Longrightarrow> call_accounted st c"
    using open_okD(1,2) [OF i(4), of c] by (auto simp: call_accounted_def Let_def split: option.split)
  show "s < length (ss_sessions st) \<Longrightarrow> slot_accounted st s"
    using slots_okD [OF i(2), of s] by (auto simp: slot_accounted_def split: option.split)
  show "g < length (ss_gateways st) \<Longrightarrow> active_accounted st g"
    using actives_okD [OF i(3), of g] open_okD(3) [OF i(4), of _ g] by (auto simp: active_accounted_def split: option.split)
qed

lemma lines_inv_accounted:
  assumes "lines_inv {} (lines_of st)"
  shows "lines_accounted st"
  using assms by (auto simp: lines_of_def lines_accounted_def list_all_iff)

subsection \<open>The report that the modem is idle\<close>

definition no_lock :: "sip_state \<Rightarrow> bool" where
  "no_lock st \<longleftrightarrow> list_all (\<lambda>n. \<not> sn_locked n) (ss_sessions st)"

definition calls_of_line :: "nat \<Rightarrow> sip_state \<Rightarrow> sip_call list" where
  "calls_of_line g st = filter (\<lambda>k. \<not> cl_closed k \<and> call_leg_gateway k = Some g) (ss_calls st)"

definition line_free :: "nat \<Rightarrow> sip_state \<Rightarrow> bool" where
  "line_free g st \<longleftrightarrow> gw_active (ss_gateways st ! g) = None \<and> calls_of_line g st = []"

lemma no_lock_nth: "no_lock st \<Longrightarrow> s < length (ss_sessions st) \<Longrightarrow> \<not> sn_locked (ss_sessions st ! s)"
  by (simp add: no_lock_def list_all_length)

lemma line_free_if_inactive:
  assumes "calls_inv {} st" and "no_lock st" and "gw_active (ss_gateways st ! g) = None"
  shows "line_free g st"
proof -
  note i = calls_inv_parts [OF assms(1)]
  have "cl_closed k \<or> call_leg_gateway k \<noteq> Some g" if k: "k \<in> set (ss_calls st)" for k
  proof -
    from k obtain c where c: "c < length (ss_calls st)" "k = ss_calls st ! c" by (auto simp: in_set_conv_nth)
    show ?thesis
      using open_okD(2) [OF i(4), of c g] no_lock_nth [OF assms(2) refs_okD(1) [OF i(1) c(1)]] assms(3) c by auto
  qed
  then show ?thesis using assms(3) by (auto simp: line_free_def calls_of_line_def filter_empty_conv)
qed

lemma locks_session [simp]:
  "(\<And>n. sn_locked (f n) = sn_locked n) \<Longrightarrow> map sn_locked (ss_sessions (upd_session s f st)) = map sn_locked (ss_sessions st)"
  by (simp add: upd_session_def map_update_same)

lemma locks_call_state [simp]: "map sn_locked (ss_sessions (session_call_state env a b s st)) = map sn_locked (ss_sessions st)"
  by (simp add: session_call_state_def)

lemma locks_close_call: "map sn_locked (ss_sessions (snd (close_call env r c st))) = map sn_locked (ss_sessions st)"
  by (simp add: close_call_def Let_def handle_leg_ended_def release_slot_def go_on_def split: option.split)

lemma hangup_state:
  "snd (hangup_with_reason env r c st) =
   snd (close_call env r c (if cl_dialog (ss_calls st ! c) \<noteq> None \<or> cl_dialog_uas (ss_calls st ! c) \<noteq> None
                            then emit (Bye_Sent c r) st else st))"
  by (simp add: hangup_with_reason_def Let_def go_on_def split: prod.splits option.splits)

lemma locks_hangup: "map sn_locked (ss_sessions (snd (hangup_with_reason env r c st))) = map sn_locked (ss_sessions st)"
  by (simp add: hangup_state locks_close_call)

lemma no_lock_locks: "map sn_locked (ss_sessions st') = map sn_locked (ss_sessions st) \<Longrightarrow> no_lock st' = no_lock st"
proof -
  have "no_lock s = list_all Not (map sn_locked (ss_sessions s))" for s by (simp add: no_lock_def list_all_iff)
  then show "map sn_locked (ss_sessions st') = map sn_locked (ss_sessions st) \<Longrightarrow> no_lock st' = no_lock st" by metis
qed

lemma view_active:
  assumes "calls_view st' = calls_view st"
  shows "g < length (ss_gateways st) \<Longrightarrow> gw_active (ss_gateways st' ! g) = gw_active (ss_gateways st ! g)"
  using view_same [OF assms] by metis

lemma close_call_leaves_line:
  assumes i: "calls_inv {} st" and l: "no_lock st" and c: "c < length (ss_calls st)" "\<not> cl_closed (ss_calls st ! c)"
    and g: "g < length (ss_gateways st)" "gw_active (ss_gateways st ! g) \<in> {None, Some c}"
  shows "fst (close_call env r c st) = Some ()" "gw_active (ss_gateways (snd (close_call env r c st)) ! g) = None"
proof -
  have n: "\<not> sn_locked (ss_sessions st ! cl_session (ss_calls st ! c))"
    by (rule no_lock_nth [OF l refs_okD(1) [OF calls_inv_parts(1) [OF i] c(1)]])
  show "fst (close_call env r c st) = Some ()"
    using n c(2) by (simp add: close_call_def Let_def release_slot_def handle_leg_ended_def go_on_def upd_call_nth c(1) split: option.split)
  show "gw_active (ss_gateways (snd (close_call env r c st)) ! g) = None"
    using view_active [OF close_call_view [OF i c, of env r], of g] g by auto
qed

lemma hangup_leaves_line:
  assumes i: "calls_inv {} st" and l: "no_lock st" and c: "c < length (ss_calls st)" "\<not> cl_closed (ss_calls st ! c)"
    and g: "g < length (ss_gateways st)" "gw_active (ss_gateways st ! g) \<in> {None, Some c}"
  obtains e st' where "hangup_with_reason env r c st = (Some e, st')" "calls_inv {} st'" "no_lock st'"
    "gw_active (ss_gateways st' ! g) = None" "g < length (ss_gateways st')"
proof -
  define b where "b = (if cl_dialog (ss_calls st ! c) \<noteq> None \<or> cl_dialog_uas (ss_calls st ! c) \<noteq> None
                       then emit (Bye_Sent c r) st else st)"
  have b: "calls_inv {} b" "no_lock b" "ss_calls b = ss_calls st" "ss_gateways b = ss_gateways st"
    using i l by (simp_all add: b_def no_lock_def)
  define st' where "st' = snd (close_call env r c b)"
  have f: "fst (close_call env r c b) = Some ()" and a: "gw_active (ss_gateways st' ! g) = None"
    using close_call_leaves_line [OF b(1,2), of c g env r] c g unfolding st'_def b(3,4) by simp_all
  have "close_call env r c b = (Some (), st')" using f by (simp add: st'_def prod_eq_iff)
  then have "\<exists>e. hangup_with_reason env r c st = (Some e, st')"
    unfolding hangup_with_reason_def Let_def b_def by (simp add: go_on_def split: if_splits)
  moreover have "calls_inv {} st'" using sip_hangup_inv [OF i c(1), of env r] unfolding hangup_state st'_def b_def by simp
  moreover have "no_lock st'"
    using no_lock_locks [OF locks_close_call, of env r c b] b(2) by (simp add: st'_def)
  moreover have "g < length (ss_gateways st')" using g(1) by (simp add: st'_def b_def)
  ultimately show thesis using that a by blast
qed

lemma end_session_call_leaves_line:
  assumes i: "calls_inv {} st" and l: "no_lock st" and g: "g < length (ss_gateways st)" "gw_active (ss_gateways st ! g) = None"
  obtains st' where "end_session_call_from_modem env r g st = (Some (), st')" "line_free g st'"
proof -
  note stay = that [OF _ line_free_if_inactive [OF i l g(2)]]
  define iccid where "iccid = gateway_iccid (ss_gateways st ! g)"
  show thesis
  proof (cases "iccid = [] \<or> ss_by_iccid st iccid = None")
    case True
    then show thesis using stay by (auto simp: end_session_call_from_modem_def Let_def simp flip: iccid_def)
  next
    case False
    then obtain s where s: "iccid \<noteq> []" "ss_by_iccid st iccid = Some s" by auto
    note b = refs_okD(3) [OF calls_inv_parts(1) [OF i] s(2)]
    note u = no_lock_nth [OF l b]
    show thesis
    proof (cases "sn_sip_call (ss_sessions st ! s)")
      case None
      then show thesis using stay s u by (simp add: end_session_call_from_modem_def Let_def flip: iccid_def)
    next
      case (Some c)
      note o = slots_okD [OF calls_inv_parts(2) [OF i] b Some]
      obtain e st' where h: "hangup_with_reason env r c st = (Some e, st')" "calls_inv {} st'" "no_lock st'"
        "gw_active (ss_gateways st' ! g) = None"
        by (rule hangup_leaves_line [OF i l o(1,3) g(1)]) (use g(2) in auto)
      show thesis
        using stay that [of st'] line_free_if_inactive [OF h(2-4)] s u Some h(1)
        by (cases "cl_modem_controlled (ss_calls st ! c)")
           (simp_all add: end_session_call_from_modem_def Let_def go_on_def flip: iccid_def)
    qed
  qed
qed

text \<open>
  An INVITE to the peer that is not answered yet cannot be ended with a BYE: it is cancelled, and the call
  ends when the cancelled INVITE comes back. \<open>idle_settled\<close> is the state after the report and, where one was
  pending, that return.
\<close>

definition invite_pending :: "nat \<Rightarrow> sip_state \<Rightarrow> bool" where
  "invite_pending g st \<longleftrightarrow>
     (case gw_active (ss_gateways st ! g) of
        None \<Rightarrow> False
      | Some c \<Rightarrow> (case cl_leg (ss_calls st ! c) of None \<Rightarrow> False | Some leg \<Rightarrow> lg_invite_cancel leg))"

definition idle_settled :: "sip_env \<Rightarrow> nat \<Rightarrow> sip_state \<Rightarrow> sip_state \<Rightarrow> sip_state" where
  "idle_settled env g st st' =
     (case gw_active (ss_gateways st ! g) of
        None \<Rightarrow> st'
      | Some c \<Rightarrow> if invite_pending g st
                  then snd (incoming_invite_answered env (Inl Invite_Cancelled) (Inr ()) (Inr ()) c st') else st')"

lemma idle_report_ends_call:
  assumes i: "calls_inv {} st" and l: "no_lock st" and g: "g < length (ss_gateways st)" and idle: "mi_state ms = ''idle''"
  obtains st' where "sync_modem_state env target ms g st = (Some (Inr ()), st')" "line_free g (idle_settled env g st st')"
proof -
  define r where "r = modem_end_reason (mi_reason ms)"
  show thesis
  proof (cases "gw_active (ss_gateways st ! g)")
    case None
    obtain st' where "end_session_call_from_modem env r g st = (Some (), st')" "line_free g st'"
      by (rule end_session_call_leaves_line [OF i l g None])
    then show thesis
      using that [of st'] idle None by (simp add: sync_modem_state_def Let_def go_on_def idle_settled_def flip: r_def)
  next
    case (Some c)
    note a = actives_okD [OF calls_inv_parts(3) [OF i] g Some]
    then obtain leg where leg: "cl_leg (ss_calls st ! c) = Some leg" "lg_gateway leg = g" by auto
    define st1 where "st1 = upd_call c (\<lambda>k. k\<lparr>cl_leg := Some (leg\<lparr>lg_ended_by_modem := True\<rparr>)\<rparr>) st"
    have v: "calls_view st1 = calls_view st" unfolding st1_def by (rule view_leg [OF leg(1)]) simp
    have 1: "calls_inv {} st1" "no_lock st1" "c < length (ss_calls st1)" "\<not> cl_closed (ss_calls st1 ! c)"
      "g < length (ss_gateways st1)" "gw_active (ss_gateways st1 ! g) = Some c"
      using i l a g Some unfolding calls_inv_eq [OF v] by (simp_all add: st1_def no_lock_def upd_call_nth)
    show thesis
    proof (cases "lg_invite_cancel leg")
      case True
      then have s: "sync_modem_state env target ms g st = (Some (Inr ()), st1)"
        using idle Some leg by (simp add: sync_modem_state_def Let_def go_on_def end_leg_from_modem_def st1_def)
      define st2 where "st2 = snd (close_call env (classify_invite_failure (Some Invite_Cancelled)) c st1)"
      have "calls_inv {} st2" using close_call_inv [OF 1(1,3), of env] by (simp add: st2_def)
      moreover have "no_lock st2" using 1(2) no_lock_locks [OF locks_close_call] by (simp add: st2_def)
      moreover have "gw_active (ss_gateways st2 ! g) = None"
        using close_call_leaves_line(2) [OF 1(1-5), of env] 1(6) by (simp add: st2_def)
      moreover have "idle_settled env g st st1 = st2"
        using Some leg True
        by (simp add: idle_settled_def invite_pending_def incoming_invite_answered_def dial_target_answered_def go_on_def
          incoming_failed_def st2_def)
      ultimately show thesis using that [OF s] line_free_if_inactive by metis
    next
      case False
      obtain e st' where h: "hangup_with_reason env r c st1 = (Some e, st')" "calls_inv {} st'" "no_lock st'"
        "gw_active (ss_gateways st' ! g) = None"
        by (rule hangup_leaves_line [OF 1(1-5)]) (use 1(6) in auto)
      then have "sync_modem_state env target ms g st = (Some (Inr ()), st')"
        using idle Some leg False
        by (simp add: sync_modem_state_def Let_def end_leg_from_modem_def go_on_def flip: r_def st1_def)
      moreover have "idle_settled env g st st' = st'" using Some leg False by (simp add: idle_settled_def invite_pending_def)
      ultimately show thesis using that line_free_if_inactive [OF h(2-4)] by metis
    qed
  qed
qed

subsection \<open>A run\<close>

definition demo_cfg :: sip_cfg where
  "demo_cfg = empty_sip_cfg\<lparr>sc_enabled := True, sc_username := ''u'', sc_proxy := ''p'', sc_domain := ''d'', sc_local_host := ''h'',
     sc_port := 1, sc_local_port := 2, sc_rtp_port_min := 4, sc_rtp_port_max := 6\<rparr>"

definition demo_hooks :: sip_hooks where
  "demo_hooks = \<lparr>hk_iccid = ''8'', hk_required = True, hk_hangup = True, hk_dtmf = True\<rparr>"

definition demo_env :: sip_env where
  "demo_env = \<lparr>se_now = 1, se_new_peer = Inr (), se_audio = (\<lambda>_. Inr ()), se_parse_ip = (\<lambda>s. if s = [] then None else Some s),
     se_lookup_ip = (\<lambda>_. []), se_local_ip = (\<lambda>_. ''h''), se_sip_stack = (\<lambda>_ _. Inr ()), se_listen = (\<lambda>_ _. Inr ()),
     se_bind_rtp = (\<lambda>_. True), se_bye = (\<lambda>_. Inr ()), se_dialog_error = (\<lambda>_. []), se_close_peer = Inr (), se_close_bridge = Inr ()\<rparr>"

definition demo_target :: modem_target where
  "demo_target = \<lparr>mt_port_name = ''p'', mt_vid = [], mt_pid = [], mt_serial = []\<rparr>"

definition demo_req :: sip_request where
  "demo_req = \<lparr>rq_recipient_user = ''5'', rq_to_user = None, rq_body = ''c=IN IP4 a'' @ [CHR 0x0A] @ ''m=audio 1 R 0'',
     rq_dialog_id_uas = Some ''D'', rq_dialog_id_uac = None\<rparr>"

definition demo_line :: sip_state where
  "demo_line = snd (sync_sip_inbound demo_env ''L'' demo_cfg demo_hooks empty_sip_state)"

definition demo_busy :: sip_state where
  "demo_busy = snd (on_invite demo_env demo_req (Inr (''8'', demo_target)) (Inr ''D'') 0 demo_line)"

lemma demo_line_gateways: "length (ss_gateways demo_line) = 1"
  by code_simp

lemma demo_busy_call:
  "map sn_sip_call (ss_sessions demo_busy) = [Some 0]" "map gw_active (ss_gateways demo_busy) = [Some 0]"
  "ss_lines demo_busy = [(''L'', 0)]" "no_lock demo_busy"
  by code_simp+

lemma demo_busy_reachable: "sip_reachable demo_busy"
proof -
  have "sip_step empty_sip_state demo_line" unfolding demo_line_def by (rule line_sync)
  moreover have "sip_step demo_line demo_busy" unfolding demo_busy_def by (rule invite) (simp add: demo_line_gateways)
  ultimately show ?thesis by (simp add: sip_reachable_def)
qed

subsection \<open>The properties\<close>




definition idle_report :: modem_incoming where
  "idle_report = \<lparr>mi_state = ''idle'', mi_reason = ''x'', mi_number = [], mi_direction = 0, mi_mode = 0, mi_ringing = False\<rparr>"


subsection \<open>What the operations do that they should not\<close>

text \<open>
  A second INVITE on a line in use is refused as busy, but closing the refused call hangs the modem up and
  sets the state of the session to idle, under the call that is going on.
\<close>

definition demo_second :: sip_state where
  "demo_second = snd (on_invite demo_env (demo_req\<lparr>rq_recipient_user := ''6''\<rparr>) (Inr (''8'', demo_target)) (Inr ''E'') 0
     (snd (invite_dialled demo_env (Inr ()) (Inr ()) 0 demo_busy)))"

lemma second_invite_hangs_up:
  "map sn_sip_call (ss_sessions demo_second) = [Some 0] \<and> map cl_closed (ss_calls demo_second) = [False, True] \<and>
   map sn_call_state (ss_sessions demo_second) = [''idle''] \<and>
   drop 3 (ss_events demo_second) = [Responded 486 ''Call in progress'', Hangup_Modem ''8'']"
  by code_simp

text \<open>
  A user dials through a modem that has no line: the error is reported and the session stays locked, so that
  every later operation on its call waits for ever. When the listener of the new call cannot be opened,
  \<open>DialSIP\<close> itself never returns.
\<close>

definition demo_session :: sip_state where
  "demo_session = snd (ensure_session demo_env ''8'' demo_target empty_sip_state)"

lemma dial_without_line_locks:
  "fst (dial_sip demo_env (Inr ()) (Inr ''D'') ''8'' ''5'' demo_session) = Some (Inl ''sip client not configured for modem'') \<and>
   has_active_sip_call ''8'' (snd (dial_sip demo_env (Inr ()) (Inr ''D'') ''8'' ''5'' demo_session)) = None"
  by code_simp

lemma dial_deadlock:
  "fst (dial_sip (demo_env\<lparr>se_listen := \<lambda>_ _. Inl ''in use''\<rparr>) (Inr ()) (Inr ''D'') ''8'' ''5''
     (snd (ensure_session demo_env ''8'' demo_target demo_line))) = None"
  by code_simp

text \<open>A peer's BYE while the modem is still dialling: the call is closed and the session idle, and then in a call.\<close>

lemma answered_after_bye:
  "(let st = snd (on_bye demo_env demo_req (Inr ()) 0 demo_busy); st' = snd (invite_dialled demo_env (Inr ()) (Inr ()) 0 st)
    in map cl_closed (ss_calls st') = [True] \<and> map sn_call_state (ss_sessions st) = [''idle''] \<and>
       map sn_call_state (ss_sessions st') = [''in_call''])"
  by code_simp

end
