(* ===== verification/Sip_Sync.thy ===== *)
theory Sip_Sync
  imports Sip_Properties Modem_Api
begin

text \<open>
  The part of \<open>main.go\<close> that ties the modems to the SIP lines: the configuration of a line from the modem's
  settings, the port it listens at, the periodic synchronisation of the lines, the calls of a line into the
  modem, and the listener that tells the lines what a modem's call does. \<open>wk\<close> is the worker that the manager
  finds for an ICCID. The network's answers during one synchronisation are those of \<open>env iccid\<close> and
  \<open>probe iccid\<close>.
\<close>

subsection \<open>The configuration of a line\<close>

definition build_modem_sip_config :: "modem \<Rightarrow> sip_cfg \<Rightarrow> sip_cfg option" where
  "build_modem_sip_config m base =
     (let username = trim_space (m_sip_username m);
          proxy = trim_space (m_sip_proxy m);
          t = to_lower (trim_space (m_sip_transport m));
          transport = (if t = [] then ''udp'' else t);
          port = (if m_sip_port m \<le> 0 then if transport = ''tls'' then 5061 else 5060 else m_sip_port m)
      in if username = [] \<or> proxy = [] then None
         else Some (base\<lparr>sc_enabled := True, sc_username := username, sc_password := m_sip_password m, sc_proxy := proxy,
                sc_port := port, sc_domain := trim_space (m_sip_domain m), sc_transport := transport,
                sc_tls_skip_verify := m_sip_tls_skip_verify m, sc_register := m_sip_register m,
                sc_accept_incoming := m_sip_accept_incoming m, sc_invite_target := trim_space (m_sip_invite_target m)\<rparr>))"

definition sip_line_id :: "string \<Rightarrow> string" where
  "sip_line_id iccid = ''sip-line-'' @ trim_space iccid"

subsection \<open>The port a line listens at\<close>

text \<open>Go's \<open>strings.ToLower\<close> of the operating system's message is taken on its ASCII letters.\<close>

definition is_sip_listen_port_available :: "(string \<Rightarrow> int \<Rightarrow> unit result) \<Rightarrow> string \<Rightarrow> int \<Rightarrow> bool result" where
  "is_sip_listen_port_available probe transport port =
     (case probe (if to_lower (trim_space transport) = ''udp'' then ''udp'' else ''tcp'') port of
        Inr _ \<Rightarrow> Inr True
      | Inl e \<Rightarrow>
          if contains (to_lower e) ''only one usage'' \<or> contains (to_lower e) ''address already in use'' then Inr False else Inl e)"

type_synonym reserved_ports = "int \<rightharpoonup> string"

definition reserved_for_other :: "reserved_ports \<Rightarrow> string \<Rightarrow> int \<Rightarrow> bool" where
  "reserved_for_other res iccid port = (case res port of None \<Rightarrow> False | Some other \<Rightarrow> other \<noteq> iccid)"

function scan_ports :: "(string \<Rightarrow> int \<Rightarrow> unit result) \<Rightarrow> string \<Rightarrow> string \<Rightarrow> reserved_ports \<Rightarrow> int \<Rightarrow> int option result" where
  "scan_ports probe transport iccid res port =
     (if port > 65535 then Inr None
      else if reserved_for_other res iccid port then scan_ports probe transport iccid res (port + 1)
      else case is_sip_listen_port_available probe transport port of
             Inl e \<Rightarrow> Inl e
           | Inr False \<Rightarrow> scan_ports probe transport iccid res (port + 1)
           | Inr True \<Rightarrow> Inr (Some port))"
  by pat_completeness auto
termination by (relation "measure (\<lambda>(_, _, _, _, port). nat (65536 - port))") auto

declare scan_ports.simps [simp del]

definition find_or_create_modem :: "faults \<Rightarrow> string \<Rightarrow> database \<Rightarrow> modem result \<times> database" where
  "find_or_create_modem faults iccid db =
     (case db_call faults ''port.find'' (find_modem db iccid) of
        Inl e \<Rightarrow> (Inl e, db)
      | Inr (Some m) \<Rightarrow> (Inr m, db)
      | Inr None \<Rightarrow>
          (case db_call faults ''port.create'' (db\<lparr>t_modems := t_modems db @ [new_modem iccid]\<rparr>) of
             Inl e \<Rightarrow> (Inl e, db)
           | Inr db' \<Rightarrow> (Inr (new_modem iccid), db')))"

definition ensure_sip_listener_port ::
    "faults \<Rightarrow> (string \<Rightarrow> int \<Rightarrow> unit result) \<Rightarrow> string \<Rightarrow> int \<Rightarrow> string \<Rightarrow> reserved_ports \<Rightarrow> database \<Rightarrow>
     (int \<times> reserved_ports) result \<times> database" where
  "ensure_sip_listener_port faults probe iccid base0 transport res db =
     (let base = (if base0 \<le> 0 then 5060 else base0)
      in case find_or_create_modem faults iccid db of
           (Inl e, db1) \<Rightarrow> (Inl e, db1)
         | (Inr m, db1) \<Rightarrow>
             let p = m_sip_listen_port m
             in if p > 0
                then if reserved_for_other res iccid p
                     then (Inl (''fixed sip listen port '' @ go_itoa p @ '' already reserved by '' @ the (res p)), db1)
                     else (Inr (p, res(p \<mapsto> iccid)), db1)
                else (case scan_ports probe transport iccid res base of
                        Inl e \<Rightarrow> (Inl e, db1)
                      | Inr None \<Rightarrow> (Inl (''no free sip listen port available from '' @ go_itoa base), db1)
                      | Inr (Some port) \<Rightarrow>
                          (case db_call faults ''port.update'' (update_modem_row iccid (\<lambda>m. m\<lparr>m_sip_listen_port := port\<rparr>) db1) of
                             Inl e \<Rightarrow> (Inl e, db1)
                           | Inr db2 \<Rightarrow> (Inr (port, res(port \<mapsto> iccid)), db2))))"

subsection \<open>The synchronisation\<close>

definition line_hooks :: "string \<Rightarrow> sip_hooks" where
  "line_hooks iccid = \<lparr>hk_iccid = iccid, hk_required = True, hk_hangup = True, hk_dtmf = True\<rparr>"

definition line_wanted :: "(string \<Rightarrow> worker option) \<Rightarrow> sip_cfg \<Rightarrow> modem \<Rightarrow> sip_cfg option" where
  "line_wanted wk base m =
     (case wk (m_iccid m) of
        None \<Rightarrow> None
      | Some w \<Rightarrow> if \<not> wk_uac_ready w \<or> \<not> m_sip_enabled m then None else build_modem_sip_config m base)"

fun sync_each ::
    "(string \<Rightarrow> sip_env) \<Rightarrow> (string \<Rightarrow> faults) \<Rightarrow> (string \<Rightarrow> string \<Rightarrow> int \<Rightarrow> unit result) \<Rightarrow> (string \<Rightarrow> worker option) \<Rightarrow> sip_cfg \<Rightarrow>
     modem list \<Rightarrow> reserved_ports \<Rightarrow> string list \<Rightarrow> database \<times> sip_state \<Rightarrow> string list result option \<times> (database \<times> sip_state)" where
  "sync_each env faults probe wk base [] res active ds = (Some (Inr active), ds)"
| "sync_each env faults probe wk base (m # ms) res active (db, st) =
     (case line_wanted wk base m of
        None \<Rightarrow> sync_each env faults probe wk base ms res active (db, st)
      | Some cfg \<Rightarrow>
          (let iccid = m_iccid m; line_id = sip_line_id iccid
           in case ensure_sip_listener_port (faults iccid) (probe iccid) iccid (sc_local_port cfg) (sc_transport cfg) res db of
                (Inl e, db1) \<Rightarrow> (Some (Inl (''assign listener port for '' @ iccid @ '': '' @ e)), (db1, st))
              | (Inr (port, res1), db1) \<Rightarrow>
                  (case sync_sip_inbound (env iccid) line_id (cfg\<lparr>sc_local_port := port\<rparr>) (line_hooks iccid) st of
                     (None, st1) \<Rightarrow> (None, (db1, st1))
                   | (Some (Inl e), st1) \<Rightarrow> (Some (Inl (''sync line '' @ line_id @ '': '' @ e)), (db1, st1))
                   | (Some (Inr _), st1) \<Rightarrow>
                       sync_each env faults probe wk base ms res1 (line_id # active) (db1, st1))))"

definition sync_sip_inbound_lines ::
    "(string \<Rightarrow> sip_env) \<Rightarrow> (string \<Rightarrow> faults) \<Rightarrow> (string \<Rightarrow> string \<Rightarrow> int \<Rightarrow> unit result) \<Rightarrow> (string \<Rightarrow> worker option) \<Rightarrow> sip_cfg \<Rightarrow>
     database \<times> sip_state \<Rightarrow> unit result option \<times> (database \<times> sip_state)" where
  "sync_sip_inbound_lines env faults probe wk base ds =
     (case db_call (faults []) ''sync.modems'' (t_modems (fst ds)) of
        Inl e \<Rightarrow> (Some (Inl e), ds)
      | Inr ms \<Rightarrow>
          (case sync_each env faults probe wk base ms Map.empty [] ds of
             (None, ds1) \<Rightarrow> (None, ds1)
           | (Some (Inl e), ds1) \<Rightarrow> (Some (Inl e), ds1)
           | (Some (Inr active), (db1, st1)) \<Rightarrow>
               (case prune_sip_inbound_lines (env []) active st1 of
                  (None, st2) \<Rightarrow> (None, (db1, st2))
                | (Some _, st2) \<Rightarrow> (Some (Inr ()), (db1, st2)))))"

subsection \<open>The calls of a line into the modem\<close>

definition resolve_modem :: "(string \<Rightarrow> worker option) \<Rightarrow> string \<Rightarrow> (string \<times> modem_target) result" where
  "resolve_modem wk iccid =
     (case wk iccid of
        None \<Rightarrow> Inl (''modem '' @ iccid @ '' not active'')
      | Some w \<Rightarrow>
          if \<not> wk_uac_ready w then Inl (''modem '' @ iccid @ '' uac not ready'')
          else Inr (iccid, \<lparr>mt_port_name = wk_port w, mt_vid = fst (wk_uac_id w), mt_pid = snd (wk_uac_id w), mt_serial = []\<rparr>))"

definition on_modem :: "string \<Rightarrow> (wstate \<Rightarrow> wstate \<times> 'a result) \<Rightarrow> wstate option \<Rightarrow> wstate option \<times> 'a result" where
  "on_modem iccid f w =
     (case w of
        None \<Rightarrow> (None, Inl (''modem '' @ iccid @ '' not active''))
      | Some s \<Rightarrow> (case f s of (s', r) \<Rightarrow> (Some s', r)))"

definition hook_dial_modem :: "worker_env \<Rightarrow> string \<Rightarrow> string \<Rightarrow> wstate option \<Rightarrow> wstate option \<times> unit result" where
  "hook_dial_modem env iccid number = on_modem iccid (dial env number)"

definition hook_answer_modem :: "worker_env \<Rightarrow> string \<Rightarrow> wstate option \<Rightarrow> wstate option \<times> unit result" where
  "hook_answer_modem env iccid = on_modem iccid (answer env)"

definition hook_hangup_modem :: "worker_env \<Rightarrow> wstate option \<Rightarrow> wstate option \<times> unit result" where
  "hook_hangup_modem env w = (case w of None \<Rightarrow> (None, Inr ()) | Some s \<Rightarrow> (case hangup env s of (s', r) \<Rightarrow> (Some s', r)))"

definition hook_send_dtmf :: "worker_env \<Rightarrow> string \<Rightarrow> string \<Rightarrow> wstate option \<Rightarrow> wstate option \<times> unit result" where
  "hook_send_dtmf env iccid tone =
     on_modem iccid (\<lambda>s. case execute_at env (''AT+VTS='' @ quoted tone) s of (s', r) \<Rightarrow> (s', map_sum id (\<lambda>_. ()) r))"

subsection \<open>What a modem's call means to the lines\<close>

definition incoming_of_call :: "worker \<Rightarrow> call_snapshot \<Rightarrow> modem_incoming" where
  "incoming_of_call w cs =
     (let ms = \<lparr>mi_state = cs_state cs, mi_reason = cs_reason cs, mi_number = cs_number cs, mi_direction = cs_direction cs,
                mi_mode = cs_mode cs, mi_ringing = cs_ringing cs\<rparr>
      in if wk_uac_ready w then ms
         else ms\<lparr>mi_state := ''idle'', mi_reason := (if trim_space (cs_reason cs) = [] then ''modem_unavailable'' else cs_reason cs)\<rparr>)"

definition call_target :: "worker \<Rightarrow> modem_target" where
  "call_target w =
     (if wk_uac_ready w
      then \<lparr>mt_port_name = wk_port w, mt_vid = fst (wk_uac_id w), mt_pid = snd (wk_uac_id w), mt_serial = []\<rparr>
      else \<lparr>mt_port_name = [], mt_vid = [], mt_pid = [], mt_serial = []\<rparr>)"

definition sip_call_state_listener :: "sip_env \<Rightarrow> worker \<Rightarrow> call_snapshot \<Rightarrow> sip_state \<Rightarrow> unit result option \<times> sip_state" where
  "sip_call_state_listener env w cs st =
     (case worker_runtime w of
        None \<Rightarrow> (Some (Inr ()), st)
      | Some rt \<Rightarrow>
          if trim_space (rt_iccid rt) = [] then (Some (Inr ()), st)
          else sync_modem_incoming_sip env (rt_iccid rt) (call_target w) (incoming_of_call w cs) st)"

subsection \<open>One line\<close>

definition gw_info :: "sip_state \<Rightarrow> (string \<times> sip_cfg) list" where
  "gw_info st = map (\<lambda>w. (gw_line_iccid w, gw_cfg w)) (ss_gateways st)"

lemma info_gateway:
  "(\<And>w. gw_line_iccid (f w) = gw_line_iccid w \<and> gw_cfg (f w) = gw_cfg w) \<Longrightarrow> gw_info (upd_gateway g f st) = gw_info st"
  by (simp add: gw_info_def upd_gateway_def map_update_same)

lemma info_same [simp]:
  "gw_info (upd_call c k st) = gw_info st" "gw_info (upd_session s n st) = gw_info st" "gw_info (emit e st) = gw_info st"
  "gw_info (session_call_state env a b s st) = gw_info st" "gw_info (st\<lparr>ss_lines := ls\<rparr>) = gw_info st"
  by (simp_all add: gw_info_def session_call_state_def)

lemma info_close_call [simp]: "gw_info (snd (close_call env r c st)) = gw_info st"
  by (simp add: close_call_def Let_def handle_leg_ended_def release_slot_def go_on_def info_gateway split: option.split)

lemma info_gateway_close [simp]: "gw_info (snd (gateway_close env g st)) = gw_info st"
proof -
  have "gw_info (snd (go_on (close_call env r c st1) (\<lambda>_ st2. (Some (), upd_gateway g (\<lambda>w. w\<lparr>gw_listener := False, gw_open := False\<rparr>) st2)))) =
        gw_info st1" for r c st1
    using info_close_call [of env r c st1] by (cases "close_call env r c st1") (auto simp: go_on_def info_gateway split: option.split)
  then show ?thesis by (simp add: gateway_close_def Let_def info_gateway split: option.split)
qed

lemma lines_gateway_close [simp]: "ss_lines (snd (gateway_close env g st)) = ss_lines st"
proof -
  have "ss_lines (snd (close_call env r c st1)) = ss_lines st1" for r c st1
    using lines_frame.part_close [of env r c st1] by (simp add: lines_of_def)
  then show ?thesis by (auto simp: gateway_close_def Let_def go_on_def split: prod.split option.split) (metis snd_conv upd_lengths)+
qed

lemma close_gateways_same [simp]:
  "ss_lines (snd (close_gateways env gs st)) = ss_lines st" "gw_info (snd (close_gateways env gs st)) = gw_info st"
  by (induction gs arbitrary: st; auto simp: go_on_def split: prod.split option.split; metis lines_gateway_close info_gateway_close snd_conv)+

text \<open>The line has a gateway with this configuration and these hooks, as far as the program compares them.\<close>

definition line_matches :: "sip_state \<Rightarrow> string \<Rightarrow> sip_cfg \<Rightarrow> sip_hooks \<Rightarrow> bool" where
  "line_matches st line_id cfg hooks \<longleftrightarrow>
     (case line_gateway line_id st of
        None \<Rightarrow> False
      | Some g \<Rightarrow> g < length (ss_gateways st) \<and> gateway_matches (ss_gateways st ! g) cfg hooks)"

lemma line_matches_keep:
  assumes "line_matches st l cfg hooks" and "line_gateway l st' = line_gateway l st" and "gw_info st' = gw_info st @ ys"
  shows "line_matches st' l cfg hooks"
proof -
  from assms(1) obtain g where g: "line_gateway l st = Some g" "g < length (ss_gateways st)" "gateway_matches (ss_gateways st ! g) cfg hooks"
    by (auto simp: line_matches_def split: option.splits)
  have len: "length (gw_info st) = length (ss_gateways st)" "length (gw_info st') = length (ss_gateways st')" by (simp_all add: gw_info_def)
  then have "g < length (ss_gateways st')" using g(2) assms(3) by (metis length_append trans_less_add1)
  moreover have "gw_info st' ! g = gw_info st ! g" using assms(3) g(2) len by (simp add: nth_append)
  ultimately have "gw_line_iccid (ss_gateways st' ! g) = gw_line_iccid (ss_gateways st ! g)"
    "gw_cfg (ss_gateways st' ! g) = gw_cfg (ss_gateways st ! g)" using g(2) by (simp_all add: gw_info_def)
  then show ?thesis using g assms(2) \<open>g < length (ss_gateways st')\<close> by (simp add: line_matches_def gateway_matches_def)
qed

lemma new_gateway_info:
  assumes "new_sip_inbound_gateway env l cfg hooks st = (Some (Inr g), st')"
  shows "g = length (ss_gateways st)" "gw_info st' = gw_info st @ [(trim_space (hk_iccid hooks), cfg)]" "ss_lines st' = ss_lines st"
  using assms
  by (auto simp: new_sip_inbound_gateway_def Let_def set_register_status_def go_on_def info_gateway gw_info_def upd_gateway_def
      nth_append split: if_splits sum.splits prod.splits option.splits)

lemma map_of_without_line: "l' \<noteq> l \<Longrightarrow> map_of (without_line l ls) l' = map_of ls l'"
  by (induction ls) (auto simp: without_line_def)

lemma set_without_line: "fst ` set (without_line l ls) = fst ` set ls - {l}"
  by (force simp: without_line_def)

lemma set_line_gateway:
  "line_gateway l (set_line l g st) = Some g" "l' \<noteq> l \<Longrightarrow> line_gateway l' (set_line l g st) = line_gateway l' st"
  "fst ` set (ss_lines (set_line l g st)) = insert l (fst ` set (ss_lines st))" "gw_info (set_line l g st) = gw_info st"
  by (auto simp: line_gateway_def set_line_def map_of_without_line set_without_line)

lemma trim_line_id [simp]: "trim_space (sip_line_id iccid) = sip_line_id iccid" "sip_line_id iccid \<noteq> []"
proof -
  have "\<not> is_space (last (trim_space iccid))" if "trim_space iccid \<noteq> []"
    using that trim_right_last [of is_space "dropWhile is_space iccid"] by (simp add: trim_space_def trim_by_def)
  then show "trim_space (sip_line_id iccid) = sip_line_id iccid"
    by (intro trim_space_id) (auto simp: sip_line_id_def is_space_def go_spaces_def)
qed (simp add: sip_line_id_def)

text \<open>A line that was synchronised has a gateway with its configuration; the other lines stay as they are.\<close>

lemma sync_line_effect:
  assumes ok: "sip_ok {} st" and id: "trim_space l = l" "l \<noteq> []"
    and r: "sync_sip_inbound env l cfg hooks st = (Some (Inr ()), st')"
  shows "sip_ok {} st'" and "line_matches st' l cfg hooks"
    and "l' \<noteq> l \<Longrightarrow> line_gateway l' st' = line_gateway l' st"
    and "fst ` set (ss_lines st') = insert l (fst ` set (ss_lines st))"
    and "\<exists>ys. gw_info st' = gw_info st @ ys"
proof -
  show "sip_ok {} st'" using sync_sip_inbound_ok [OF ok, of env l cfg hooks] r by simp
  have all: "line_matches st2 l cfg hooks \<and> (\<forall>l'. l' \<noteq> l \<longrightarrow> line_gateway l' st2 = line_gateway l' st1) \<and>
      fst ` set (ss_lines st2) = insert l (fst ` set (ss_lines st1)) \<and> (\<exists>ys. gw_info st2 = gw_info st1 @ ys)"
    if n: "new_sip_inbound_gateway env l cfg hooks st1 = (Some (Inr g), st0)" and e: "st2 = set_line l g st0" for st1 st2 st0 g
  proof -
    note i = new_gateway_info [OF n]
    have "gw_info st0 ! g = (trim_space (hk_iccid hooks), cfg)" "g < length (gw_info st0)"
      using i by (simp_all add: nth_append gw_info_def)
    then have "gateway_matches (ss_gateways st0 ! g) cfg hooks" "g < length (ss_gateways st0)"
      by (simp_all add: gw_info_def gateway_matches_def)
    then show ?thesis using i set_line_gateway [where l = l and g = g and st = st0]
      by (simp add: e line_matches_def) (simp add: line_gateway_def set_line_def)
  qed
  have "line_matches st' l cfg hooks \<and> (\<forall>l'. l' \<noteq> l \<longrightarrow> line_gateway l' st' = line_gateway l' st) \<and>
      fst ` set (ss_lines st') = insert l (fst ` set (ss_lines st)) \<and> (\<exists>ys. gw_info st' = gw_info st @ ys)"
  proof (cases "line_gateway l st")
    case None
    then obtain g st0 where "new_sip_inbound_gateway env l cfg hooks st = (Some (Inr g), st0)" "st' = set_line l g st0"
      using r id by (auto simp: sync_sip_inbound_def Let_def go_on_def split: prod.splits option.splits sum.splits)
    then show ?thesis by (rule all)
  next
    case (Some g)
    note b = removed_line(2) [OF ok Some]
    show ?thesis
    proof (cases "gateway_matches (ss_gateways st ! g) cfg hooks")
      case True
      then have "st' = st" using r id Some by (simp add: sync_sip_inbound_def Let_def)
      moreover have "l \<in> fst ` set (ss_lines st)" using map_of_SomeD [of "ss_lines st" l g] Some by (force simp: line_gateway_def)
      ultimately show ?thesis using True Some b by (auto simp: line_matches_def)
    next
      case False
      obtain x st1 where c: "gateway_close env g (st\<lparr>ss_lines := without_line l (ss_lines st)\<rparr>) = (x, st1)" by fastforce
      then have s1: "ss_lines st1 = without_line l (ss_lines st)" "gw_info st1 = gw_info st"
        using lines_gateway_close [of env g "st\<lparr>ss_lines := without_line l (ss_lines st)\<rparr>"]
          info_gateway_close [of env g "st\<lparr>ss_lines := without_line l (ss_lines st)\<rparr>"] by simp_all
      obtain g' st0 where "new_sip_inbound_gateway env l cfg hooks st1 = (Some (Inr g'), st0)" "st' = set_line l g' st0"
        using r id Some False c by (auto simp: sync_sip_inbound_def Let_def go_on_def split: prod.splits option.splits sum.splits)
      from all [OF this] s1 show ?thesis by (simp add: line_gateway_def map_of_without_line set_without_line)
    qed
  qed
  then show "line_matches st' l cfg hooks" "l' \<noteq> l \<Longrightarrow> line_gateway l' st' = line_gateway l' st"
    "fst ` set (ss_lines st') = insert l (fst ` set (ss_lines st))" "\<exists>ys. gw_info st' = gw_info st @ ys" by simp_all
qed

subsection \<open>One port\<close>

lemma scan_ports_spec:
  assumes "scan_ports probe transport iccid res base = Inr (Some port)"
  shows "base \<le> port \<and> port \<le> 65535 \<and> \<not> reserved_for_other res iccid port \<and>
         is_sip_listen_port_available probe transport port = Inr True \<and>
         (\<forall>p \<in> {base ..< port}. reserved_for_other res iccid p \<or> is_sip_listen_port_available probe transport p = Inr False)"
  using assms
proof (induction probe transport iccid res base rule: scan_ports.induct)
  case (1 probe transport iccid res base)
  note un = "1.prems" [unfolded scan_ports.simps [of probe transport iccid res base]]
  have step: ?case if "scan_ports probe transport iccid res (base + 1) = Inr (Some port)"
      and "base + 1 \<le> port \<and> port \<le> 65535 \<and> \<not> reserved_for_other res iccid port \<and>
         is_sip_listen_port_available probe transport port = Inr True \<and>
         (\<forall>p \<in> {base + 1 ..< port}. reserved_for_other res iccid p \<or> is_sip_listen_port_available probe transport p = Inr False)"
      and "reserved_for_other res iccid base \<or> is_sip_listen_port_available probe transport base = Inr False"
  proof -
    have "{base ..< port} = insert base {base + 1 ..< port}" using that(2) by auto
    then show ?thesis using that by auto
  qed
  have le: "\<not> base > 65535" using un by (auto split: if_splits)
  show ?case
  proof (cases "reserved_for_other res iccid base")
    case True
    then have s: "scan_ports probe transport iccid res (base + 1) = Inr (Some port)" using un le by simp
    show ?thesis by (rule step [OF s "1.IH"(1) [OF le True s]]) (simp add: True)
  next
    case False
    then obtain b where a: "is_sip_listen_port_available probe transport base = Inr b" using un le by (auto split: sum.splits)
    show ?thesis
    proof (cases b)
      case True
      then show ?thesis using un le False a by auto
    next
      case b: False
      then have s: "scan_ports probe transport iccid res (base + 1) = Inr (Some port)" using un le False a by simp
      show ?thesis by (rule step [OF s "1.IH"(2) [OF le False a _ s]]) (simp_all add: a b)
    qed
  qed
qed

definition listen_port_of :: "database \<Rightarrow> string \<Rightarrow> int" where
  "listen_port_of db iccid = (case find_modem db iccid of None \<Rightarrow> 0 | Some m \<Rightarrow> m_sip_listen_port m)"

lemma find_update_row:
  assumes "\<And>m. m_iccid (f m) = m_iccid m"
  shows "find_modem (update_modem_row iccid f db) c = (if c = iccid then map_option f (find_modem db c) else find_modem db c)"
proof -
  have "find (\<lambda>m. m_iccid m = c) (update_where (\<lambda>m. m_iccid m = iccid) f ms) =
      (if c = iccid then map_option f (find (\<lambda>m. m_iccid m = c) ms) else find (\<lambda>m. m_iccid m = c) ms)" for ms
    by (induction ms) (auto simp: update_where_def assms)
  then show ?thesis by (simp add: find_modem_def update_modem_row_def)
qed

lemma ensure_port_effect:
  assumes m: "find_modem db iccid = Some m" and r: "ensure_sip_listener_port faults probe iccid base transport res db = (Inr (port, res'), db')"
  shows "0 < port" "listen_port_of db' iccid = port" "\<not> reserved_for_other res iccid port" "res' = res(port \<mapsto> iccid)"
    "c \<noteq> iccid \<Longrightarrow> find_modem db' c = find_modem db c"
    "if 0 < m_sip_listen_port m then db' = db
     else scan_ports probe transport iccid res (if base \<le> 0 then 5060 else base) = Inr (Some port)"
proof -
  have f: "find_or_create_modem faults iccid db = (Inr m, db)"
    using m r by (auto simp: find_or_create_modem_def ensure_sip_listener_port_def db_call_def Let_def split: option.splits)
  have d: "0 < m_sip_listen_port m \<and> port = m_sip_listen_port m \<and> \<not> reserved_for_other res iccid port \<and> res' = res(port \<mapsto> iccid) \<and> db' = db \<or>
      \<not> 0 < m_sip_listen_port m \<and> scan_ports probe transport iccid res (if base \<le> 0 then 5060 else base) = Inr (Some port) \<and>
        res' = res(port \<mapsto> iccid) \<and> db' = update_modem_row iccid (\<lambda>m. m\<lparr>m_sip_listen_port := port\<rparr>) db"
    using r unfolding ensure_sip_listener_port_def f
    by (auto simp: Let_def db_call_def split: if_splits sum.splits option.splits)
  show "0 < port" using d scan_ports_spec [of probe transport iccid res _ port] by (force split: if_splits)
  show "\<not> reserved_for_other res iccid port" using d scan_ports_spec [of probe transport iccid res _ port] by blast
  show "listen_port_of db' iccid = port" using d by (auto simp: listen_port_of_def m find_update_row)
  show "res' = res(port \<mapsto> iccid)" using d by blast
  show "c \<noteq> iccid \<Longrightarrow> find_modem db' c = find_modem db c" using d by (auto simp: find_update_row)
  show "if 0 < m_sip_listen_port m then db' = db
    else scan_ports probe transport iccid res (if base \<le> 0 then 5060 else base) = Inr (Some port)" using d by auto
qed

subsection \<open>All lines\<close>

definition line_wants :: "(string \<Rightarrow> worker option) \<Rightarrow> sip_cfg \<Rightarrow> modem \<Rightarrow> bool" where
  "line_wants wk base m \<longleftrightarrow> line_wanted wk base m \<noteq> None"

text \<open>The line of a modem has a gateway with the modem's configuration, at the port stored for the modem.\<close>

definition line_serves :: "(string \<Rightarrow> worker option) \<Rightarrow> sip_cfg \<Rightarrow> database \<Rightarrow> sip_state \<Rightarrow> modem \<Rightarrow> bool" where
  "line_serves wk base db st m \<longleftrightarrow>
     (case line_wanted wk base m of
        None \<Rightarrow> False
      | Some cfg \<Rightarrow> line_matches st (sip_line_id (m_iccid m)) (cfg\<lparr>sc_local_port := listen_port_of db (m_iccid m)\<rparr>) (line_hooks (m_iccid m)))"

definition synced :: "(string \<Rightarrow> worker option) \<Rightarrow> sip_cfg \<Rightarrow> modem list \<Rightarrow> reserved_ports \<Rightarrow> database \<times> sip_state \<Rightarrow> database \<times> sip_state \<Rightarrow> bool" where
  "synced wk base ms res ds ds' \<longleftrightarrow>
     sip_ok {} (snd ds') \<and>
     (\<forall>m \<in> set ms. line_wants wk base m \<longrightarrow> line_serves wk base (fst ds') (snd ds') m) \<and>
     (\<forall>l. l \<notin> (sip_line_id \<circ> m_iccid) ` set ms \<longrightarrow> line_gateway l (snd ds') = line_gateway l (snd ds)) \<and>
     (\<exists>ys. gw_info (snd ds') = gw_info (snd ds) @ ys) \<and>
     (\<forall>c. c \<notin> m_iccid ` set ms \<longrightarrow> find_modem (fst ds') c = find_modem (fst ds) c) \<and>
     (\<exists>res'. res \<subseteq>\<^sub>m res' \<and> (\<forall>m \<in> set ms. line_wants wk base m \<longrightarrow> res' (listen_port_of (fst ds') (m_iccid m)) = Some (m_iccid m)))"

lemma synced_skip:
  assumes "synced wk base ms res ds ds'" and "\<not> line_wants wk base m"
  shows "synced wk base (m # ms) res ds ds'"
  using assms by (auto simp: synced_def)

lemma synced_step:
  assumes s: "synced wk base ms (res(port \<mapsto> m_iccid m)) (db1, st1) ds'" and p: "\<not> reserved_for_other res (m_iccid m) port"
    and db1: "listen_port_of db1 (m_iccid m) = port" "\<And>c. c \<noteq> m_iccid m \<Longrightarrow> find_modem db1 c = find_modem db c"
    and w: "line_wanted wk base m = Some cfg"
    and st1: "line_matches st1 (sip_line_id (m_iccid m)) (cfg\<lparr>sc_local_port := port\<rparr>) (line_hooks (m_iccid m))"
      "\<And>l. l \<noteq> sip_line_id (m_iccid m) \<Longrightarrow> line_gateway l st1 = line_gateway l st" "\<exists>ys. gw_info st1 = gw_info st @ ys"
    and new: "sip_line_id (m_iccid m) \<notin> (sip_line_id \<circ> m_iccid) ` set ms"
  shows "synced wk base (m # ms) res (db, st) ds'"
proof -
  obtain db' st' where ds': "ds' = (db', st')" by fastforce
  have new': "m_iccid m \<notin> m_iccid ` set ms" using new by auto
  from s new' have row: "find_modem db' (m_iccid m) = find_modem db1 (m_iccid m)" unfolding synced_def ds' by simp
  from s new have lg: "line_gateway (sip_line_id (m_iccid m)) st' = line_gateway (sip_line_id (m_iccid m)) st1" unfolding synced_def ds' by simp
  from s obtain ys where ys: "gw_info st' = gw_info st1 @ ys" unfolding synced_def ds' by auto
  have port: "listen_port_of db' (m_iccid m) = port" using row db1(1) by (simp add: listen_port_of_def)
  have serves: "line_serves wk base db' st' m"
    using line_matches_keep [OF st1(1) lg ys] by (simp add: line_serves_def w port)
  from s obtain res' where res': "res(port \<mapsto> m_iccid m) \<subseteq>\<^sub>m res'"
    "\<forall>n \<in> set ms. line_wants wk base n \<longrightarrow> res' (listen_port_of db' (m_iccid n)) = Some (m_iccid n)" unfolding synced_def ds' by auto
  have "res port = None \<or> res port = Some (m_iccid m)" using p by (auto simp: reserved_for_other_def split: option.splits)
  then have "res \<subseteq>\<^sub>m res(port \<mapsto> m_iccid m)" by (auto simp: map_le_def)
  then have le: "res \<subseteq>\<^sub>m res'" using res'(1) map_le_trans by blast
  have at: "res' port = Some (m_iccid m)" using res'(1) by (auto simp: map_le_def dest: bspec [where x = port])
  obtain zs where zs: "gw_info st1 = gw_info st @ zs" using st1(3) by blast
  show ?thesis unfolding synced_def ds' fst_conv snd_conv
  proof (intro conjI)
    show "sip_ok {} st'" using s by (simp add: synced_def ds')
    show "\<forall>n \<in> set (m # ms). line_wants wk base n \<longrightarrow> line_serves wk base db' st' n" using s serves by (simp add: synced_def ds')
    show "\<forall>l. l \<notin> (sip_line_id \<circ> m_iccid) ` set (m # ms) \<longrightarrow> line_gateway l st' = line_gateway l st"
      using s st1(2) by (simp add: synced_def ds')
    show "\<exists>ys. gw_info st' = gw_info st @ ys" using ys zs by simp
    show "\<forall>c. c \<notin> m_iccid ` set (m # ms) \<longrightarrow> find_modem db' c = find_modem db c" using s db1(2) by (simp add: synced_def ds')
    show "\<exists>res'. res \<subseteq>\<^sub>m res' \<and> (\<forall>n \<in> set (m # ms). line_wants wk base n \<longrightarrow> res' (listen_port_of db' (m_iccid n)) = Some (m_iccid n))"
      using le at port res'(2) by (intro exI [of _ res']) simp
  qed
qed

lemma sync_each_effect:
  assumes "sync_each env faults probe wk base ms res active (db, st) = (Some (Inr active'), ds')"
    and "sip_ok {} st" and "distinct (map (sip_line_id \<circ> m_iccid) ms)" and "\<forall>m \<in> set ms. find_modem db (m_iccid m) = Some m"
  shows "synced wk base ms res (db, st) ds' \<and>
    set active' = set active \<union> (sip_line_id \<circ> m_iccid) ` set (filter (line_wants wk base) ms)"
  using assms
proof (induction ms arbitrary: res active db st)
  case Nil
  then show ?case by (auto simp: synced_def intro: map_le_refl)
next
  case (Cons m ms)
  note d = Cons.prems(3)
  show ?case
  proof (cases "line_wanted wk base m")
    case None
    then have w: "\<not> line_wants wk base m" by (simp add: line_wants_def)
    have "synced wk base ms res (db, st) ds' \<and>
        set active' = set active \<union> (sip_line_id \<circ> m_iccid) ` set (filter (line_wants wk base) ms)"
      by (rule Cons.IH) (use Cons.prems None in simp_all)
    with w show ?thesis using synced_skip by simp
  next
    case (Some cfg)
    let ?i = "m_iccid m"
    obtain port res1 db1 where e: "ensure_sip_listener_port (faults ?i) (probe ?i) ?i (sc_local_port cfg) (sc_transport cfg) res db =
        (Inr (port, res1), db1)"
      using Cons.prems(1) Some by (auto simp: Let_def split: prod.splits sum.splits)
    obtain st1 where y: "sync_sip_inbound (env ?i) (sip_line_id ?i) (cfg\<lparr>sc_local_port := port\<rparr>) (line_hooks ?i) st = (Some (Inr ()), st1)"
      and rest: "sync_each env faults probe wk base ms res1 (sip_line_id ?i # active) (db1, st1) = (Some (Inr active'), ds')"
      using Cons.prems(1) Some e by (auto simp: Let_def split: prod.splits sum.splits option.splits)
    have m: "find_modem db ?i = Some m" using Cons.prems(4) by simp
    note pe = ensure_port_effect [OF m e]
    note le = sync_line_effect [OF Cons.prems(2) trim_line_id y]
    have ms: "\<forall>n \<in> set ms. find_modem db1 (m_iccid n) = Some n"
    proof
      fix n assume n: "n \<in> set ms"
      with d have "m_iccid n \<noteq> ?i" by (auto simp: comp_def image_iff)
      with pe(5) Cons.prems(4) n show "find_modem db1 (m_iccid n) = Some n" by simp
    qed
    have IH: "synced wk base ms res1 (db1, st1) ds' \<and>
        set active' = set (sip_line_id ?i # active) \<union> (sip_line_id \<circ> m_iccid) ` set (filter (line_wants wk base) ms)"
      by (rule Cons.IH [OF rest le(1) _ ms]) (use d in simp)
    have w: "line_wants wk base m" using Some by (simp add: line_wants_def)
    have "synced wk base (m # ms) res (db, st) ds'"
    proof (rule synced_step [OF _ pe(3) pe(2) pe(5) Some le(2) le(3) le(5)])
      show "synced wk base ms (res(port \<mapsto> ?i)) (db1, st1) ds'" using IH pe(4) by simp
      show "sip_line_id ?i \<notin> (sip_line_id \<circ> m_iccid) ` set ms" using d by simp
    qed simp_all
    then show ?thesis using IH w by simp
  qed
qed

lemma find_own_row: "distinct (map f xs) \<Longrightarrow> x \<in> set xs \<Longrightarrow> find (\<lambda>y. f y = f x) xs = Some x"
  by (induction xs) (auto simp: image_iff)

lemma prune_effect:
  assumes "prune_sip_inbound_lines env active st = (r, st')"
  shows "l \<in> set active \<Longrightarrow> line_gateway l st' = line_gateway l st" "fst ` set (ss_lines st') = fst ` set (ss_lines st) \<inter> set active"
    "gw_info st' = gw_info st"
proof -
  let ?ls = "filter (\<lambda>(l, _). l \<in> set active) (ss_lines st)"
  have e: "ss_lines st' = ?ls" "gw_info st' = gw_info st"
    using assms close_gateways_same [of env "map snd (filter (\<lambda>(l, _). l \<notin> set active) (ss_lines st))" "st\<lparr>ss_lines := ?ls\<rparr>"]
    by (simp_all add: prune_sip_inbound_lines_def)
  have "l \<in> set active \<Longrightarrow> map_of (filter (\<lambda>(l, _). l \<in> set active) ls) l = map_of ls l" for ls :: "(string \<times> nat) list"
    by (induction ls) auto
  then show "l \<in> set active \<Longrightarrow> line_gateway l st' = line_gateway l st" by (simp add: line_gateway_def e)
  show "fst ` set (ss_lines st') = fst ` set (ss_lines st) \<inter> set active" by (auto simp: e)
qed (use assms in \<open>auto simp: prune_sip_inbound_lines_def dest: arg_cong [where f = "\<lambda>x. gw_info (snd x)"]\<close>)

lemma sync_parts:
  assumes "sync_sip_inbound_lines env faults probe wk base (db, st) = (Some (Inr ()), (db', st'))"
  obtains active st1 r where
    "sync_each env faults probe wk base (t_modems db) Map.empty [] (db, st) = (Some (Inr active), (db', st1))"
    "prune_sip_inbound_lines (env []) active st1 = (r, st')"
proof -
  have f: "db_call (faults []) ''sync.modems'' (t_modems db) = Inr (t_modems db)"
    using assms by (simp add: sync_sip_inbound_lines_def db_call_def split: option.splits)
  obtain x db1 st1 where x: "sync_each env faults probe wk base (t_modems db) Map.empty [] (db, st) = (x, (db1, st1))" using prod_cases3 by blast
  obtain active where a0: "x = Some (Inr active)"
    using assms by (cases x; cases "the x") (simp_all add: sync_sip_inbound_lines_def f x)
  obtain r st2 where p2: "prune_sip_inbound_lines (env []) active st1 = (r, st2)" by fastforce
  have "db1 = db'" "st2 = st'" using assms by (cases r; simp add: sync_sip_inbound_lines_def f x a0 p2)+
  with that x a0 p2 show thesis by simp
qed

lemma synced_ports_distinct:
  assumes "synced wk base ms res p (db', st1)" "distinct (map m_iccid ms)"
  shows "distinct (map (listen_port_of db' \<circ> m_iccid) (filter (line_wants wk base) ms))"
proof -
  from assms(1) obtain res' where res': "\<forall>m \<in> set ms. line_wants wk base m \<longrightarrow> res' (listen_port_of db' (m_iccid m)) = Some (m_iccid m)"
    by (auto simp: synced_def)
  have "inj_on (listen_port_of db' \<circ> m_iccid) (set (filter (line_wants wk base) ms))"
  proof (rule inj_onI)
    fix m n assume mn: "m \<in> set (filter (line_wants wk base) ms)" "n \<in> set (filter (line_wants wk base) ms)"
      "(listen_port_of db' \<circ> m_iccid) m = (listen_port_of db' \<circ> m_iccid) n"
    have "res' (listen_port_of db' (m_iccid m)) = Some (m_iccid m)" "res' (listen_port_of db' (m_iccid n)) = Some (m_iccid n)"
      using res' mn(1,2) by simp_all
    then have "m_iccid m = m_iccid n" using mn(3) by (metis comp_apply option.inject)
    then show "m = n" using mn assms(2) by (auto simp: distinct_map inj_on_def)
  qed
  then show ?thesis using assms(2) by (simp add: distinct_map)
qed


definition demo_modem :: modem where
  "demo_modem = (new_modem ''8'')\<lparr>m_sip_enabled := True, m_sip_username := ''u'', m_sip_proxy := ''p'', m_sip_port := 1\<rparr>"

definition demo_workers :: "string \<Rightarrow> worker option" where
  "demo_workers iccid =
     (if iccid = ''8'' then Some ((new_modem_worker ''tty8'' 0)\<lparr>wk_modem := Some (new_modem ''8''), wk_uac_ready := True\<rparr>)
      else if iccid = ''9'' then Some ((new_modem_worker ''tty9'' 0)\<lparr>wk_modem := Some (new_modem ''9''), wk_uac_ready := True\<rparr>)
      else None)"

definition demo_base :: sip_cfg where
  "demo_base = empty_sip_cfg\<lparr>sc_local_host := ''h'', sc_local_port := 2, sc_rtp_port_min := 4, sc_rtp_port_max := 6\<rparr>"

definition demo_sync :: "modem list \<Rightarrow> sip_state \<Rightarrow> unit result option \<times> (database \<times> sip_state)" where
  "demo_sync ms st =
     sync_sip_inbound_lines (\<lambda>_. demo_env) (\<lambda>_. no_faults) (\<lambda>_ _ _. Inr ()) demo_workers demo_base (empty_db\<lparr>t_modems := ms\<rparr>, st)"


subsection \<open>Ports given out and ports fixed\<close>

text \<open>
  A modem without a port takes the first one nobody holds so far, which may be the fixed port of a modem
  further down the table: that modem's synchronisation then fails, with it all that follow, and no line is
  taken away any more; and the port taken is stored, so the next synchronisation fails in the same way.
\<close>

definition clash_modems :: "modem list" where
  "clash_modems = [demo_modem, demo_modem\<lparr>m_iccid := ''9'', m_sip_listen_port := 2\<rparr>]"

lemma port_clash:
  "fst (demo_sync clash_modems demo_busy) =
     Some (Inl ''assign listener port for 9: fixed sip listen port 2 already reserved by 8'') \<and>
   fst (demo_sync (t_modems (fst (snd (demo_sync clash_modems demo_busy)))) demo_line) =
     Some (Inl ''assign listener port for 9: fixed sip listen port 2 already reserved by 8'') \<and>
   map fst (ss_lines (snd (snd (demo_sync clash_modems demo_busy)))) = [''sip-line-8'', ''L'']"
  by code_simp

subsection \<open>The modem's events\<close>

text \<open>
  An event of a modem whose audio device is gone frees the modem's line, whatever state of its call the
  event reports.
\<close>

theorem unavailable_modem_frees_line:
  assumes "sip_reachable st" and "no_lock st" and "\<not> wk_uac_ready w"
    and "worker_runtime w = Some rt" and "trim_space (rt_iccid rt) \<noteq> []" and "gateway_by_iccid (rt_iccid rt) st = Some g"
  shows "fst (sip_call_state_listener env w cs st) = Some (Inr ()) \<and>
         line_free g (idle_settled env g st (snd (sip_call_state_listener env w cs st)))"
proof -
  have ok: "calls_inv {} st" "lines_inv {} (lines_of st)" using sip_reachable_ok [OF assms(1)] by (simp_all add: sip_ok_def)
  obtain l where "(l, g) \<in> set (ss_lines st)"
    using assms(6) by (auto simp: gateway_by_iccid_def find_Some_iff in_set_conv_nth) (metis nth_mem)
  then have g: "g < length (ss_gateways st)" using ok(2) by (auto simp: lines_of_def)
  have e: "sip_call_state_listener env w cs st = sync_modem_state env (call_target w) (incoming_of_call w cs) g st"
    using assms by (simp add: sip_call_state_listener_def sync_modem_incoming_sip_def)
  have idle: "mi_state (incoming_of_call w cs) = ''idle''" using assms(3) by (simp add: incoming_of_call_def Let_def)
  obtain st' where "sync_modem_state env (call_target w) (incoming_of_call w cs) g st = (Some (Inr ()), st')"
    "line_free g (idle_settled env g st st')"
    by (rule idle_report_ends_call [OF ok(1) assms(2) g idle])
  then show ?thesis by (simp add: e)
qed

theorem unavailable_modem_frees_line_witness:
  "\<not> line_free 0 demo_busy \<and>
   line_free 0 (idle_settled demo_env 0 demo_busy
     (snd (sip_call_state_listener demo_env ((new_modem_worker ''tty8'' 0)\<lparr>wk_modem := Some (new_modem ''8'')\<rparr>) (init_call 0) demo_busy)))"
proof -
  let ?w = "(new_modem_worker ''tty8'' 0)\<lparr>wk_modem := Some (new_modem ''8'')\<rparr>"
  have w: "\<not> wk_uac_ready ?w" "map_option (\<lambda>rt. trim_space (rt_iccid rt)) (worker_runtime ?w) = Some ''8''"
    "map_option rt_iccid (worker_runtime ?w) = Some ''8''" "gateway_by_iccid ''8'' demo_busy = Some 0"
    "map gw_active (ss_gateways demo_busy) = [Some 0]"
    by code_simp+
  then obtain rt where rt: "worker_runtime ?w = Some rt" "trim_space (rt_iccid rt) \<noteq> []" "gateway_by_iccid (rt_iccid rt) demo_busy = Some 0"
    by auto
  have "gw_active (ss_gateways demo_busy ! 0) = Some 0" using w(5) by (cases "ss_gateways demo_busy") simp_all
  then show ?thesis
    using unavailable_modem_frees_line [OF demo_busy_reachable demo_busy_call(4) w(1) rt, of demo_env "init_call 0"]
    by (simp add: line_free_def)
qed

end
