(* ===== verification/Call_Api.thy ===== *)
theory Call_Api
  imports Sip_Sync
begin

text \<open>
  The handlers of \<open>modem_handler.go\<close> and \<open>call_ws.go\<close> that use the calling manager: the state of a call,
  dialling, hanging up, tones, the browser's connection, a reboot and a deletion. The state of a handler is
  the worker the manager finds for the SIM with its database, if any, and the SIP calls. A handler that
  waits for a lock that is never released yields \<open>None\<close>. The calling manager is always there: the program
  exits when it cannot be made.
\<close>

type_synonym call_world = "wstate option \<times> sip_state"

datatype call_answer = Sip_State string string int | Modem_State call_snapshot

definition guarded :: "faults \<Rightarrow> database \<Rightarrow> actor option \<Rightarrow> string \<Rightarrow> 's \<Rightarrow> ('s \<Rightarrow> 'a reply option \<times> 's) \<Rightarrow> 'a reply option \<times> 's" where
  "guarded faults db actor iccid s h =
     (case actor_can_access faults db actor iccid perm_make_call of Denied code msg \<Rightarrow> (Some (Refused code msg), s) | Granted \<Rightarrow> h s)"

definition normalize_call_via :: "string \<Rightarrow> string" where
  "normalize_call_via v = (if to_lower (trim_space v) = ''sip'' then ''sip'' else ''modem'')"

definition sip_available_for_iccid :: "string \<Rightarrow> sip_state \<Rightarrow> line_info option" where
  "sip_available_for_iccid iccid st =
     (case sip_inbound_line_info iccid st of None \<Rightarrow> None | Some i \<Rightarrow> if li_active i then Some i else None)"

text \<open>An empty \<open>via\<close> goes where the call is.\<close>

definition route_sip :: "string \<Rightarrow> string \<Rightarrow> sip_state \<Rightarrow> bool option" where
  "route_sip via iccid st = (if via = [] then has_active_sip_call iccid st else Some (normalize_call_via via = ''sip''))"

subsection \<open>Tones\<close>

definition dtmf_tone_ok :: "string \<Rightarrow> bool" where
  "dtmf_tone_ok tone \<longleftrightarrow> length tone = 1 \<and> contains ''0123456789*#'' tone"

definition api_dtmf ::
    "worker_env \<Rightarrow> faults \<Rightarrow> database \<Rightarrow> actor option \<Rightarrow> string \<Rightarrow> (string \<times> string) result \<Rightarrow> (int \<times> string) result \<Rightarrow>
     call_world \<Rightarrow> string reply option \<times> call_world" where
  "api_dtmf wenv faults db actor iccid req reply_res s =
     guarded faults db actor iccid s (\<lambda>(w, st). case req of Inl e \<Rightarrow> (Some (Refused 400 e), (w, st))
       | Inr (tone0, via) \<Rightarrow>
         (let tone = trim_space tone0
          in if \<not> dtmf_tone_ok tone then (Some (Refused 400 ''tone must be one of 0-9,*,#''), (w, st))
             else case route_sip via iccid st of
               None \<Rightarrow> (None, (w, st))
             | Some True \<Rightarrow>
                 if sip_available_for_iccid iccid st = None then (Some (Refused 412 ''sip client not enabled''), (w, st))
                 else (case send_sip_dtmf reply_res iccid tone st of
                         None \<Rightarrow> (None, (w, st))
                       | Some (Inl e) \<Rightarrow>
                           (Some (if e = err_sip_no_active_call then Refused 409 ''no active call'' else Refused 500 (''DTMF failed: '' @ e)), (w, st))
                       | Some (Inr _) \<Rightarrow> (Some (Answered 200 tone), (w, st)))
             | Some False \<Rightarrow>
                 (case w of
                    None \<Rightarrow> (Some (Refused 404 not_active), (None, st))
                  | Some v \<Rightarrow>
                      (case execute_at wenv (''AT+VTS='' @ quoted tone) v of
                         (v', Inl e) \<Rightarrow> (Some (Refused 500 (''DTMF failed: '' @ e)), (Some v', st))
                       | (v', Inr _) \<Rightarrow> (Some (Answered 200 tone), (Some v', st))))))"

subsection \<open>The state of a call\<close>

record call_state_reply =
  cr_state :: string
  cr_reason :: string
  cr_updated_at :: int
  cr_modem :: "call_snapshot option"
  cr_uac_ready :: bool
  cr_uac_id :: "string \<times> string"
  cr_usb_devices :: "string list"
  cr_call_mode :: string
  cr_sip_available :: bool
  cr_sip_transport :: string
  cr_sip_listen_port :: int
  cr_sip_state :: "string \<times> string \<times> int"
  cr_sip_active :: bool
  cr_sip_register :: "string \<times> string \<times> int"

text \<open>\<open>usb\<close> lists the USB devices with an identity, as \<open>EnumerateByVIDPID\<close> does; \<open>now\<close> is the clock.\<close>

definition call_state_shown ::
    "(string \<Rightarrow> string \<Rightarrow> string list result) \<Rightarrow> int \<Rightarrow> string \<Rightarrow> worker option \<Rightarrow> sip_state \<Rightarrow> bool \<Rightarrow> call_state_reply" where
  "call_state_shown usb now iccid w st active =
     (let sip = (case sip_call_state iccid st of Some (s, r, t) \<Rightarrow> if s \<noteq> [] then (s, r, t) else (''idle'', ''init'', now)
                 | None \<Rightarrow> (''idle'', ''init'', now));
          info = sip_inbound_line_info iccid st;
          uac = (case w of None \<Rightarrow> ([], []) | Some v \<Rightarrow> wk_uac_id v);
          snapshot = (case w of None \<Rightarrow> None | Some v \<Rightarrow> Some (wk_call v));
          modem = (case snapshot of Some cs \<Rightarrow> if cs_state cs \<noteq> [] then (cs_state cs, cs_reason cs, cs_updated_at cs) else (''idle'', ''init'', now)
                   | None \<Rightarrow> (''idle'', ''init'', now));
          shown = (if active then sip else modem)
      in \<lparr>cr_state = fst shown, cr_reason = fst (snd shown), cr_updated_at = snd (snd shown), cr_modem = snapshot,
          cr_uac_ready = (case w of None \<Rightarrow> False | Some v \<Rightarrow> wk_uac_ready v), cr_uac_id = uac,
          cr_usb_devices = (if fst uac \<noteq> [] \<and> snd uac \<noteq> [] then case usb (fst uac) (snd uac) of Inl _ \<Rightarrow> [] | Inr ds \<Rightarrow> ds else []),
          cr_call_mode = (if active then ''sip'' else ''modem''),
          cr_sip_available = (case info of None \<Rightarrow> False | Some i \<Rightarrow> li_active i),
          cr_sip_transport = (case info of None \<Rightarrow> [] | Some i \<Rightarrow> to_upper (li_transport i)),
          cr_sip_listen_port = (case info of None \<Rightarrow> 0 | Some i \<Rightarrow> li_local_port i),
          cr_sip_state = sip, cr_sip_active = active,
          cr_sip_register = (case info of None \<Rightarrow> ([], [], 0) | Some i \<Rightarrow> (li_register_state i, li_register_reason i, li_updated_at i))\<rparr>)"

definition api_get_call_state ::
    "faults \<Rightarrow> database \<Rightarrow> (string \<Rightarrow> string \<Rightarrow> string list result) \<Rightarrow> int \<Rightarrow> actor option \<Rightarrow> string \<Rightarrow>
     call_world \<Rightarrow> call_state_reply reply option \<times> call_world" where
  "api_get_call_state faults db usb now actor iccid s =
     guarded faults db actor iccid s (\<lambda>(w, st).
       case has_active_sip_call iccid st of
         None \<Rightarrow> (None, (w, st))
       | Some active \<Rightarrow>
           if w = None \<and> \<not> active then (Some (Refused 404 not_active), (w, st))
           else (Some (Answered 200 (call_state_shown usb now iccid (map_option ws_worker w) st active)), (w, st)))"

subsection \<open>Dialling\<close>

text \<open>A handler that waits for the peer of the call it made, or has answered.\<close>

datatype dial_progress = Replied "call_answer reply" | Awaiting nat

definition sip_answer :: "string \<Rightarrow> sip_state \<Rightarrow> call_answer" where
  "sip_answer iccid st = (case sip_call_state iccid st of None \<Rightarrow> Sip_State [] [] 0 | Some (s, r, t) \<Rightarrow> Sip_State s r t)"

definition sip_dial_error :: "string \<Rightarrow> call_answer reply" where
  "sip_dial_error e =
     (if e = err_sip_invalid_number then Refused 400 ''invalid dial number''
      else if e = err_sip_call_in_progress then Refused 409 ''call already in progress''
      else Refused 500 (''Dial failed: '' @ e))"

definition modem_dial_error :: "string \<Rightarrow> call_answer reply" where
  "modem_dial_error e =
     (if e = err_invalid_dial_number then Refused 400 ''invalid dial number''
      else if e = err_call_in_progress then Refused 409 ''call already in progress''
      else Refused 500 (''Dial failed: '' @ e))"

text \<open>Closing the session of the SIM before the answer, its result ignored.\<close>

definition after_close :: "sip_env \<Rightarrow> string \<Rightarrow> wstate option \<Rightarrow> 'a \<Rightarrow> sip_state \<Rightarrow> 'a option \<times> call_world" where
  "after_close env iccid w x st =
     (case close_session env iccid st of (None, st') \<Rightarrow> (None, (w, st')) | (Some _, st') \<Rightarrow> (Some x, (w, st')))"

definition dial_modem_call :: "worker_env \<Rightarrow> sip_env \<Rightarrow> bool \<Rightarrow> string \<Rightarrow> string \<Rightarrow> wstate \<Rightarrow> sip_state \<Rightarrow> dial_progress option \<times> call_world" where
  "dial_modem_call wenv env linked iccid number v st =
     (if ss_by_iccid st iccid = None \<or> \<not> linked
      then (Some (Replied (Refused 412 ''WebRTC not ready. Please complete signaling first.'')), (Some v, st))
      else case dial wenv number v of
             (v', Inl e) \<Rightarrow> after_close env iccid (Some v') (Replied (modem_dial_error e)) st
           | (v', Inr _) \<Rightarrow> (Some (Replied (Answered 200 (Modem_State (wk_call (ws_worker v'))))), (Some v', st)))"

definition dial_sip_call ::
    "sip_env \<Rightarrow> unit result \<Rightarrow> string result \<Rightarrow> string \<Rightarrow> string \<Rightarrow> wstate \<Rightarrow> sip_state \<Rightarrow> dial_progress option \<times> call_world" where
  "dial_sip_call env reg_res invited iccid number v st =
     (case dial_sip env reg_res invited iccid number st of
        (None, st') \<Rightarrow> (None, (Some v, st'))
      | (Some (Inl e), st') \<Rightarrow> (Some (Replied (sip_dial_error e)), (Some v, st'))
      | (Some (Inr c), st') \<Rightarrow> (Some (Awaiting c), (Some v, st')))"

definition dial_ready ::
    "worker_env \<Rightarrow> sip_env \<Rightarrow> unit result \<Rightarrow> string result \<Rightarrow> bool \<Rightarrow> string \<Rightarrow> string \<Rightarrow> string \<Rightarrow> wstate \<Rightarrow> sip_state \<Rightarrow>
     dial_progress option \<times> call_world" where
  "dial_ready wenv env reg_res invited linked iccid via number v st =
     (let refused = (\<lambda>code msg st. (Some (Replied (Refused code msg)), (Some v, st)))
      in if via = ''sip'' \<and> sip_available_for_iccid iccid st = None then refused 412 ''sip client not enabled'' st
         else case ensure_session env iccid (call_target (ws_worker v)) st of
           (Inl e, st1) \<Rightarrow> refused 412 (''WebRTC session init failed: '' @ e) st1
         | (Inr _, st1) \<Rightarrow>
           (case ensure_audio env iccid st1 of
              (Inl e, st2) \<Rightarrow> after_close env iccid (Some v) (Replied (Refused 412 (''Audio init failed: '' @ e))) st2
            | (Inr _, st2) \<Rightarrow>
                if via = ''sip'' then dial_sip_call env reg_res invited iccid number v st2
                else dial_modem_call wenv env linked iccid number v st2))"

definition api_dial ::
    "worker_env \<Rightarrow> sip_env \<Rightarrow> faults \<Rightarrow> database \<Rightarrow> unit result \<Rightarrow> string result \<Rightarrow> bool \<Rightarrow> actor option \<Rightarrow> string \<Rightarrow>
     (string \<times> string) result \<Rightarrow> call_world \<Rightarrow> dial_progress option \<times> call_world" where
  "api_dial wenv env faults db reg_res invited linked actor iccid req s =
     (case actor_can_access faults db actor iccid perm_make_call of
        Denied code msg \<Rightarrow> (Some (Replied (Refused code msg)), s)
      | Granted \<Rightarrow>
        (case req of
           Inl e \<Rightarrow> (Some (Replied (Refused 400 e)), s)
         | Inr (number, via) \<Rightarrow>
           (case fst s of
              None \<Rightarrow> (Some (Replied (Refused 404 not_active)), s)
            | Some v \<Rightarrow>
                if \<not> wk_uac_ready (ws_worker v)
                then (Some (Replied (Refused 409 ''UAC is not enabled on modem (QCFG USBCFG check failed)'')), s)
                else dial_ready wenv env reg_res invited linked iccid (normalize_call_via via) number v (snd s))))"

text \<open>The rest of the handler, when the peer of the call has answered.\<close>

definition api_dial_answered ::
    "sip_env \<Rightarrow> (invite_error, string) sum \<Rightarrow> unit result \<Rightarrow> string \<Rightarrow> nat \<Rightarrow> call_world \<Rightarrow> call_answer reply option \<times> call_world" where
  "api_dial_answered env reply_res acked iccid c s =
     (case dial_sip_answered env reply_res acked c (snd s) of
        (None, st) \<Rightarrow> (None, (fst s, st))
      | (Some (Inl e), st) \<Rightarrow> (Some (sip_dial_error e), (fst s, st))
      | (Some (Inr _), st) \<Rightarrow> (Some (Answered 200 (sip_answer iccid st)), (fst s, st)))"

subsection \<open>Hanging up\<close>

definition hangup_answer :: "sip_env \<Rightarrow> string \<Rightarrow> sip_state \<Rightarrow> call_answer" where
  "hangup_answer env iccid st =
     (case sip_call_state iccid st of
        None \<Rightarrow> Sip_State ''idle'' ''hangup'' (se_now env)
      | Some (s, r, t) \<Rightarrow> if s = [] then Sip_State ''idle'' ''hangup'' (se_now env) else Sip_State s r t)"

definition api_hangup_sip :: "sip_env \<Rightarrow> string \<Rightarrow> call_world \<Rightarrow> call_answer reply option \<times> call_world" where
  "api_hangup_sip env iccid s =
     (if sip_available_for_iccid iccid (snd s) = None then (Some (Refused 412 ''sip client not enabled''), s)
      else case hangup_sip env iccid (snd s) of
        (None, st) \<Rightarrow> (None, (fst s, st))
      | (Some r, st) \<Rightarrow>
          (Some (case r of
             Inl e \<Rightarrow> if e \<noteq> err_sip_no_active_call then Refused 500 (''Hangup failed: '' @ e) else Answered 200 (hangup_answer env iccid st)
           | Inr _ \<Rightarrow> Answered 200 (hangup_answer env iccid st)), (fst s, st)))"

definition api_hangup_modem :: "worker_env \<Rightarrow> sip_env \<Rightarrow> string \<Rightarrow> call_world \<Rightarrow> call_answer reply option \<times> call_world" where
  "api_hangup_modem wenv env iccid s =
     (case fst s of
        None \<Rightarrow> (Some (Refused 404 not_active), s)
      | Some v \<Rightarrow>
          (case hangup wenv v of
             (v', Inl e) \<Rightarrow> (Some (Refused 500 (''Hangup failed: '' @ e)), (Some v', snd s))
           | (v', Inr _) \<Rightarrow> after_close env iccid (Some v') (Answered 200 (Modem_State (wk_call (ws_worker v')))) (snd s)))"

text \<open>A body that cannot be read counts as empty: \<open>via\<close> is then empty.\<close>

definition api_hangup ::
    "worker_env \<Rightarrow> sip_env \<Rightarrow> faults \<Rightarrow> database \<Rightarrow> actor option \<Rightarrow> string \<Rightarrow> string \<Rightarrow> call_world \<Rightarrow>
     call_answer reply option \<times> call_world" where
  "api_hangup wenv env faults db actor iccid via s =
     guarded faults db actor iccid s (\<lambda>s. case route_sip via iccid (snd s) of
         None \<Rightarrow> (None, s)
       | Some True \<Rightarrow> api_hangup_sip env iccid s
       | Some False \<Rightarrow> api_hangup_modem wenv env iccid s)"

subsection \<open>A reboot and a deletion\<close>

definition api_reboot :: "worker_env \<Rightarrow> sip_env \<Rightarrow> actor option \<Rightarrow> string \<Rightarrow> call_world \<Rightarrow> unit reply option \<times> call_world" where
  "api_reboot wenv env actor iccid s =
     (case actor of
        None \<Rightarrow> (Some (Refused 401 ''Unauthorized''), s)
      | Some a \<Rightarrow>
          if \<not> is_admin (ac_user a) then (Some (Refused 403 ''Admin access required''), s)
          else case fst s of
            None \<Rightarrow> (Some (Refused 404 not_active), s)
          | Some v \<Rightarrow>
              (case close_session env iccid (snd s) of
                 (None, st) \<Rightarrow> (None, (Some v, st))
               | (Some _, st) \<Rightarrow>
                   (case reboot wenv v of
                      (v', Inl e) \<Rightarrow> (Some (Refused 500 (''Reboot failed: '' @ e)), (Some v', st))
                    | (v', Inr _) \<Rightarrow> (Some (Answered 200 ()), (Some v', st)))))"

text \<open>The whole of \<open>DeleteModem\<close>: the session, the line, and then what \<open>delete_modem\<close> deletes.\<close>

definition close_sim :: "sip_env \<Rightarrow> string \<Rightarrow> sip_state \<Rightarrow> unit option \<times> sip_state" where
  "close_sim env iccid st =
     go_on (close_session env iccid st) (\<lambda>_ st1. stop_sip_inbound_line env (''sip-line-'' @ iccid) st1)"

definition api_delete_modem ::
    "sip_env \<Rightarrow> faults \<Rightarrow> actor option \<Rightarrow> string \<Rightarrow> string option \<Rightarrow> (manager \<times> database) \<times> sip_state \<Rightarrow>
     string reply option \<times> ((manager \<times> database) \<times> sip_state)" where
  "api_delete_modem env faults actor iccid port s =
     (if (case actor of None \<Rightarrow> False | Some a \<Rightarrow> is_admin (ac_user a)) \<and> trim_space iccid \<noteq> []
      then case close_sim env (trim_space iccid) (snd s) of
             (None, st) \<Rightarrow> (None, (fst s, st))
           | (Some _, st) \<Rightarrow> (case delete_modem faults actor iccid port (fst s) of (ds, r) \<Rightarrow> (Some r, (ds, st)))
      else (case delete_modem faults actor iccid port (fst s) of (ds, r) \<Rightarrow> (Some r, (ds, snd s))))"

subsection \<open>The browser's connection\<close>

text \<open>
  The session is made when the socket opens and closed when the browser's connection has failed; a message
  of the browser is answered. What the peer connection does with a description or a candidate is a parameter.
\<close>

datatype signal = Offer "string option" | Candidate "string option" | Other_Signal

datatype signal_reply = Signal_Error string | Signal_Ready | Signal_Answer string

record peer_ops =
  po_set_remote :: "string \<Rightarrow> unit result"
  po_create_answer :: "string result"
  po_set_local :: "string \<Rightarrow> unit result"
  po_wait_local :: "string result"
  po_add_candidate :: "string \<Rightarrow> unit result"

definition ws_message :: "peer_ops \<Rightarrow> signal result \<Rightarrow> signal_reply option" where
  "ws_message p msg =
     (case msg of
        Inl e \<Rightarrow> Some (Signal_Error e)
      | Inr (Offer None) \<Rightarrow> Some (Signal_Error ''offer is required'')
      | Inr (Offer (Some d0)) \<Rightarrow>
          Some (case and_then (po_set_remote p d0) (\<lambda>_. and_then (po_create_answer p) (\<lambda>a. and_then (po_set_local p a) (\<lambda>_. po_wait_local p))) of
                  Inl e \<Rightarrow> Signal_Error e | Inr d \<Rightarrow> Signal_Answer d)
      | Inr (Candidate None) \<Rightarrow> None
      | Inr (Candidate (Some c)) \<Rightarrow> (case po_add_candidate p c of Inl e \<Rightarrow> Some (Signal_Error e) | Inr _ \<Rightarrow> None)
      | Inr Other_Signal \<Rightarrow> Some (Signal_Error ''unsupported signal type''))"

definition api_ws ::
    "sip_env \<Rightarrow> faults \<Rightarrow> database \<Rightarrow> actor option \<Rightarrow> string \<Rightarrow> call_world \<Rightarrow> signal_reply reply option \<times> call_world" where
  "api_ws env faults db actor iccid s =
     guarded faults db actor iccid s (\<lambda>(w, st).
       case w of
         None \<Rightarrow> (Some (Refused 404 not_active), (w, st))
       | Some v \<Rightarrow>
           (let k = ws_worker v;
                target = \<lparr>mt_port_name = wk_port k, mt_vid = fst (wk_uac_id k), mt_pid = snd (wk_uac_id k), mt_serial = []\<rparr>
            in case ensure_session env iccid target st of
                 (Inl e, st') \<Rightarrow> (Some (Answered 101 (Signal_Error e)), (w, st'))
               | (Inr _, st') \<Rightarrow> (Some (Answered 101 Signal_Ready), (w, st'))))"

definition ws_peer_state :: "sip_env \<Rightarrow> string \<Rightarrow> string \<Rightarrow> sip_state \<Rightarrow> unit option \<times> sip_state" where
  "ws_peer_state env state iccid st =
     (if state = ''failed'' \<or> state = ''closed'' then go_on (close_session env iccid st) (\<lambda>_ st1. (Some (), st1)) else (Some (), st))"

subsection \<open>The handlers are operations on the calls\<close>

lemma reach_refl: "sip_step\<^sup>*\<^sup>* st st"
  by simp

lemma close_session_steps: "sip_step\<^sup>*\<^sup>* st (snd (close_session env iccid st))"
  by (rule r_into_rtranclp) (rule session_end)

lemma after_close_steps: "sip_step\<^sup>*\<^sup>* st (snd (snd (after_close env iccid w x st)))"
  using close_session_steps [of st env iccid] by (auto simp: after_close_def split: prod.split option.split)

lemma dial_calls_steps:
  "sip_step\<^sup>*\<^sup>* st (snd (snd (dial_sip_call env reg_res invited iccid number v st)))"
  "sip_step\<^sup>*\<^sup>* st (snd (snd (dial_modem_call wenv env linked iccid number v st)))"
proof -
  have "sip_step\<^sup>*\<^sup>* st (snd (dial_sip env reg_res invited iccid number st))" by (rule r_into_rtranclp) (rule user_dial)
  then show "sip_step\<^sup>*\<^sup>* st (snd (snd (dial_sip_call env reg_res invited iccid number v st)))"
    by (auto simp: dial_sip_call_def split: prod.split option.split sum.split)
  show "sip_step\<^sup>*\<^sup>* st (snd (snd (dial_modem_call wenv env linked iccid number v st)))"
    using after_close_steps by (auto simp: dial_modem_call_def split: prod.split sum.split)
qed

lemma dial_ready_steps: "sip_step\<^sup>*\<^sup>* st (snd (snd (dial_ready wenv env reg_res invited linked iccid via number v st)))"
proof (cases "via = ''sip'' \<and> sip_available_for_iccid iccid st = None")
  case True
  then show ?thesis by (simp add: dial_ready_def)
next
  case False
  obtain r1 st1 where s: "ensure_session env iccid (call_target (ws_worker v)) st = (r1, st1)" by fastforce
  obtain r2 st2 where a: "ensure_audio env iccid st1 = (r2, st2)" by fastforce
  have 1: "sip_step\<^sup>*\<^sup>* st st1" using session [of st env iccid "call_target (ws_worker v)"] s by auto
  have 2: "sip_step\<^sup>*\<^sup>* st st2" using 1 audio [of st1 env iccid] a by auto
  show ?thesis
    using 1 False
    by (simp add: dial_ready_def Let_def s a rtranclp_trans [OF 2 after_close_steps] rtranclp_trans [OF 2 dial_calls_steps(1)]
        rtranclp_trans [OF 2 dial_calls_steps(2)] split: sum.split)
qed

lemma api_dial_steps: "sip_step\<^sup>*\<^sup>* (snd s) (snd (snd (api_dial wenv env faults db reg_res invited linked actor iccid req s)))"
  by (cases s) (auto simp: api_dial_def dial_ready_steps split: access.split sum.split option.split)

lemma api_hangup_steps: "sip_step\<^sup>*\<^sup>* (snd s) (snd (snd (api_hangup wenv env faults db actor iccid via s)))"
proof -
  have sip: "sip_step\<^sup>*\<^sup>* (snd s) (snd (snd (api_hangup_sip env iccid s)))"
    using user_hangup [of "snd s" env iccid] by (auto simp: api_hangup_sip_def split: prod.split option.split)
  have "sip_step\<^sup>*\<^sup>* (snd s) (snd (snd (api_hangup_modem wenv env iccid s)))"
    using after_close_steps by (auto simp: api_hangup_modem_def split: prod.split option.split sum.split)
  with sip show ?thesis by (auto simp: api_hangup_def guarded_def split: access.split option.split bool.split)
qed

lemma api_dtmf_calls: "snd (snd (api_dtmf wenv faults db actor iccid req reply_res s)) = snd s"
  by (cases s) (simp add: api_dtmf_def guarded_def Let_def split: access.split sum.split prod.split option.split bool.split)

lemma api_reboot_steps: "sip_step\<^sup>*\<^sup>* (snd s) (snd (snd (api_reboot wenv env actor iccid s)))"
  using close_session_steps [of "snd s" env iccid] by (auto simp: api_reboot_def split: prod.split option.split sum.split)

lemma close_sim_steps: "sip_step\<^sup>*\<^sup>* st (snd (close_sim env iccid st))"
proof -
  obtain r st1 where c: "close_session env iccid st = (r, st1)" by fastforce
  have 1: "sip_step\<^sup>*\<^sup>* st st1" using close_session_steps [of st env iccid] c by simp
  have "sip_step\<^sup>*\<^sup>* st (snd (stop_sip_inbound_line env (''sip-line-'' @ iccid) st1))"
    using rtranclp.rtrancl_into_rtrancl [OF 1 line_stop] .
  with 1 show ?thesis by (simp add: close_sim_def go_on_def c split: option.split)
qed

lemma api_delete_steps: "sip_step\<^sup>*\<^sup>* (snd s) (snd (snd (api_delete_modem env faults actor iccid port s)))"
  using close_sim_steps [of "snd s" env "trim_space iccid"]
  by (auto simp: api_delete_modem_def split: prod.split option.split)

lemma api_ws_steps: "sip_step\<^sup>*\<^sup>* (snd s) (snd (snd (api_ws env faults db actor iccid s)))"
proof -
  have "sip_step\<^sup>*\<^sup>* st st'" if "ensure_session env iccid target st = (r, st')" for st st' r target
    using session [of st env iccid target] that by auto
  then show ?thesis by (cases s) (auto simp: api_ws_def guarded_def Let_def split: access.split prod.split option.split sum.split)
qed

lemma reachable_steps: "sip_reachable st \<Longrightarrow> sip_step\<^sup>*\<^sup>* st st' \<Longrightarrow> sip_reachable st'"
  by (simp add: sip_reachable_def)

subsection \<open>What the handlers promise\<close>

lemma close_call_by_iccid: "ss_by_iccid (snd (hangup_with_reason env r c st)) = ss_by_iccid st"
  by (simp add: hangup_state)

lemma hangup_vacates:
  assumes i: "calls_inv {} st" and s: "s < length (ss_sessions st)" "sn_sip_call (ss_sessions st ! s) = Some c"
  shows "fst (hangup_with_reason env r c st) \<noteq> None"
    and "sn_sip_call (ss_sessions (snd (hangup_with_reason env r c st)) ! s) = None"
    and "\<not> sn_locked (ss_sessions (snd (hangup_with_reason env r c st)) ! s)"
proof -
  note c = slots_okD [OF calls_inv_parts(2) [OF i] s]
  define b where "b = (if cl_dialog (ss_calls st ! c) \<noteq> None \<or> cl_dialog_uas (ss_calls st ! c) \<noteq> None
                       then emit (Bye_Sent c r) st else st)"
  have b: "calls_inv {} b" "ss_calls b = ss_calls st" "ss_sessions b = ss_sessions st" using i by (simp_all add: b_def)
  have h: "snd (hangup_with_reason env r c st) = snd (close_call env r c b)" by (simp add: hangup_state b_def)
  have v: "calls_view (snd (close_call env r c b)) = calls_view (forget_call c b)"
    by (rule close_call_view [OF b(1)]) (use c b in simp_all)
  have "sn_sip_call (ss_sessions (snd (close_call env r c b)) ! s) = sn_sip_call (ss_sessions (forget_call c b) ! s)"
    "sn_locked (ss_sessions (snd (close_call env r c b)) ! s) = sn_locked (ss_sessions (forget_call c b) ! s)"
    using view_same [OF v] s(1) b(3) by simp_all
  then show "sn_sip_call (ss_sessions (snd (hangup_with_reason env r c st)) ! s) = None"
    "\<not> sn_locked (ss_sessions (snd (hangup_with_reason env r c st)) ! s)"
    using s c(4) b(3) unfolding h by simp_all
  have "fst (close_call env r c b) \<noteq> None"
    using c b(2,3) by (simp add: close_call_def Let_def release_slot_def handle_leg_ended_def go_on_def upd_call_nth split: option.split)
  then have "\<exists>x st'. close_call env r c b = (Some x, st')" by (metis fst_conv not_None_eq surj_pair)
  then obtain x st' where "close_call env r c b = (Some x, st')" by blast
  then show "fst (hangup_with_reason env r c st) \<noteq> None"
    unfolding hangup_with_reason_def Let_def b_def by (auto simp: go_on_def split: if_splits)
qed

lemma hangup_sip_ends:
  assumes i: "calls_inv {} st" and r: "hangup_sip env iccid st = (Some r, st')"
  shows "has_active_sip_call iccid st' = Some False"
proof (cases "ss_by_iccid st iccid")
  case None
  then show ?thesis using r by (auto simp: hangup_sip_def session_call_def has_active_sip_call_def)
next
  case (Some s)
  note s = refs_okD(3) [OF calls_inv_parts(1) [OF i] Some]
  show ?thesis
  proof (cases "sn_locked (ss_sessions st ! s) \<or> sn_sip_call (ss_sessions st ! s) = None")
    case True
    then show ?thesis using r Some by (auto simp: hangup_sip_def session_call_def has_active_sip_call_def split: if_splits)
  next
    case False
    then obtain c where c: "sn_sip_call (ss_sessions st ! s) = Some c" by auto
    have "hangup_with_reason env ''hangup'' c st = (Some r, st')" using r Some False c by (simp add: hangup_sip_def session_call_def)
    then show ?thesis
      using hangup_vacates(2,3) [OF i s c, of env "''hangup''"] close_call_by_iccid [of env "''hangup''" c st] Some
      by (simp add: has_active_sip_call_def session_call_def)
  qed
qed

lemma close_session_removes: "ss_by_iccid (snd (close_session env iccid st)) iccid = None"
proof -
  have "ss_by_iccid (snd (close_sip env r s st1)) = ss_by_iccid st1" for r s st1
    by (simp add: close_sip_def Let_def split: option.split)
  then show ?thesis by (simp add: close_session_def Let_def split: option.split)
qed

definition call_root :: actor where
  "call_root = \<lparr>ac_user = \<lparr>u_id = 1, u_username = ''root'', u_password_hash = [], u_role = ''admin'', u_allowed_modems = [],
     u_deleted_at = None\<rparr>, ac_key = None\<rparr>"



text \<open>
  When the handler that hangs up answers that it did, the session of the SIM holds no SIP call and is
  not locked, whichever way the hanging up went.
\<close>

theorem hangup_ends_call:
  assumes "sip_reachable (snd s)" and "api_hangup wenv env faults db actor iccid via s = (Some (Answered code x), s')"
  shows "has_active_sip_call iccid (snd s') = Some False"
proof -
  have i: "calls_inv {} (snd s)" using sip_reachable_ok [OF assms(1)] by (simp add: sip_ok_def)
  from assms(2) consider "api_hangup_sip env iccid s = (Some (Answered code x), s')"
    | "api_hangup_modem wenv env iccid s = (Some (Answered code x), s')"
    by (auto simp: api_hangup_def guarded_def split: access.splits option.splits bool.splits)
  then show ?thesis
  proof cases
    case 1
    then obtain r where "hangup_sip env iccid (snd s) = (Some r, snd s')"
      by (auto simp: api_hangup_sip_def split: if_splits prod.splits option.splits)
    then show ?thesis by (rule hangup_sip_ends [OF i])
  next
    case 2
    then obtain r where "close_session env iccid (snd s) = (Some r, snd s')"
      by (auto simp: api_hangup_modem_def after_close_def split: prod.splits option.splits sum.splits)
    then have "ss_by_iccid (snd s') iccid = None" using close_session_removes [of env iccid "snd s"] by simp
    then show ?thesis by (simp add: has_active_sip_call_def session_call_def)
  qed
qed

theorem hangup_ends_call_witness:
  "has_active_sip_call ''8'' demo_busy = Some True \<and>
   (\<forall>wenv. has_active_sip_call ''8'' (snd (snd (api_hangup wenv demo_env no_faults empty_db (Some call_root) ''8'' ''sip'' (None, demo_busy)))) =
      Some False)"
proof (intro conjI allI)
  show "has_active_sip_call ''8'' demo_busy = Some True" by code_simp
  fix wenv
  have "actor_can_access no_faults empty_db (Some call_root) ''8'' perm_make_call = Granted" "route_sip ''sip'' ''8'' demo_busy = Some True"
    by code_simp+
  moreover have "map_option (\<lambda>r. case r of Answered c _ \<Rightarrow> c | Refused c _ \<Rightarrow> c) (fst (api_hangup_sip demo_env ''8'' (None, demo_busy))) = Some 200"
    "map_option (\<lambda>r. case r of Answered c _ \<Rightarrow> True | _ \<Rightarrow> False) (fst (api_hangup_sip demo_env ''8'' (None, demo_busy))) = Some True"
    by code_simp+
  ultimately obtain c x s' where "api_hangup wenv demo_env no_faults empty_db (Some call_root) ''8'' ''sip'' (None, demo_busy) =
      (Some (Answered c x), s')"
    by (cases "api_hangup_sip demo_env ''8'' (None, demo_busy)") (auto simp: api_hangup_def guarded_def split: reply.splits)
  with hangup_ends_call [OF _ this] demo_busy_reachable
  show "has_active_sip_call ''8'' (snd (snd (api_hangup wenv demo_env no_faults empty_db (Some call_root) ''8'' ''sip'' (None, demo_busy)))) =
      Some False" by simp
qed

text \<open>
  A call that a user made outlives the line it was made with (only the line's own calls end with it), and
  without the line the handler refuses to hang it up.
\<close>

definition demo_user_call :: sip_state where
  "demo_user_call = snd (stop_sip_inbound_line demo_env ''L''
     (snd (dial_sip demo_env (Inr ()) (Inr ''D'') ''8'' ''5'' (snd (ensure_session demo_env ''8'' demo_target demo_line)))))"

lemma call_outlives_line:
  "has_active_sip_call ''8'' demo_user_call = Some True \<and>
   fst (api_hangup_sip demo_env ''8'' (None, demo_user_call)) = Some (Refused 412 ''sip client not enabled'')"
  by code_simp

end
