(* ===== verification/Db_Init.thy ===== *)
theory Db_Init
  imports Bay_Repository
begin

text \<open>
  \<open>initDB\<close> and \<open>autoMigrateSchema\<close> of \<open>main.go\<close>: the renaming of columns an older version of the program
  named, the date every SIM was first seen, the slots taken over from the modems, and the first
  administrator. A table's schema is the list of its columns, \<open>None\<close> without the table; gorm's own migration
  is the parameter \<open>auto\<close>. \<open>None\<close> as a result: the program exits.
\<close>

subsection \<open>The columns\<close>

type_synonym columns = "string list option"

definition rename_column :: "string \<Rightarrow> string \<Rightarrow> string list \<Rightarrow> string list" where
  "rename_column legacy current cols = map (\<lambda>c. if c = legacy then current else c) cols"

text \<open>The loop over the map of names, in any of the orders Go may choose.\<close>

fun rename_columns :: "faults \<Rightarrow> (string \<times> string) list \<Rightarrow> string list \<Rightarrow> string list \<times> unit result" where
  "rename_columns faults [] cols = (cols, Inr ())"
| "rename_columns faults ((legacy, current) # rs) cols =
     (if legacy \<in> set cols \<and> current \<notin> set cols
      then case db_call faults (''rename.'' @ legacy) (rename_column legacy current cols) of
             Inl e \<Rightarrow> (cols, Inl (''rename modems.'' @ legacy @ '' to '' @ current @ '': '' @ e))
           | Inr cols' \<Rightarrow> rename_columns faults rs cols'
      else rename_columns faults rs cols)"

definition legacy_columns :: "(string \<times> string) list" where
  "legacy_columns =
     [(''s_ip_enabled'', ''sip_enabled''), (''s_ip_username'', ''sip_username''), (''s_ip_password'', ''sip_password''),
      (''s_ip_proxy'', ''sip_proxy''), (''s_ip_port'', ''sip_port''), (''s_ip_domain'', ''sip_domain''),
      (''s_ip_transport'', ''sip_transport''), (''s_ip_register'', ''sip_register''),
      (''s_ip_tls_skip_verify'', ''sip_tls_skip_verify''), (''s_ip_listen_port'', ''sip_listen_port'')]"

definition migrate_legacy_modem_sip_columns :: "faults \<Rightarrow> (string \<times> string) list \<Rightarrow> columns \<Rightarrow> columns \<times> unit result" where
  "migrate_legacy_modem_sip_columns faults order table =
     (case table of None \<Rightarrow> (None, Inr ()) | Some cols \<Rightarrow> apfst Some (rename_columns faults order cols))"

definition migrate_legacy_user_modem_permission_columns :: "faults \<Rightarrow> columns \<Rightarrow> columns \<times> unit result" where
  "migrate_legacy_user_modem_permission_columns faults table =
     (case table of
        None \<Rightarrow> (None, Inr ())
      | Some cols \<Rightarrow>
          if ''icc_id'' \<in> set cols \<and> ''iccid'' \<notin> set cols
          then case db_call faults ''rename.icc_id'' (rename_column ''icc_id'' ''iccid'' cols) of
                 Inl e \<Rightarrow> (table, Inl (''rename user_modem_permissions.icc_id to iccid: '' @ e))
               | Inr cols' \<Rightarrow> (Some cols', Inr ())
          else (table, Inr ()))"

definition auto_migrate_schema ::
    "faults \<Rightarrow> (string \<times> string) list \<Rightarrow> (columns \<times> columns \<Rightarrow> (columns \<times> columns) result) \<Rightarrow> columns \<times> columns \<Rightarrow>
     (columns \<times> columns) \<times> unit result" where
  "auto_migrate_schema faults order auto tables =
     (case migrate_legacy_modem_sip_columns faults order (fst tables) of
        (ms, Inl e) \<Rightarrow> ((ms, snd tables), Inl e)
      | (ms, Inr _) \<Rightarrow>
          (case migrate_legacy_user_modem_permission_columns faults (snd tables) of
             (ps, Inl e) \<Rightarrow> ((ms, ps), Inl e)
           | (ps, Inr _) \<Rightarrow> (case auto (ms, ps) of Inl e \<Rightarrow> ((ms, ps), Inl e) | Inr t \<Rightarrow> (t, Inr ()))))"

subsection \<open>The rows\<close>

definition first_sms_time :: "string \<Rightarrow> sms list \<Rightarrow> gtime option" where
  "first_sms_time iccid ms =
     (case map s_timestamp (filter (\<lambda>s. s_iccid s = iccid) ms) of [] \<Rightarrow> None | t # ts \<Rightarrow> Some (fold min ts t))"

definition backfill_first_seen :: "faults \<Rightarrow> gtime \<Rightarrow> database \<Rightarrow> database" where
  "backfill_first_seen faults now db =
     db_or faults ''backfill'' db
       (db\<lparr>t_modems := update_where (\<lambda>m. m_first_seen_at m = None)
             (\<lambda>m. m\<lparr>m_first_seen_at := Some (case first_sms_time (m_iccid m) (t_sms db) of None \<Rightarrow> now | Some t \<Rightarrow> t)\<rparr>) (t_modems db)\<rparr>)"

definition password_chars :: string where
  "password_chars = ''abcdefghijklmnopqrstuvwxyzABCDEFGHIJKLMNOPQRSTUVWXYZ0123456789''"

text \<open>The random numbers (below 62) of the password's twelve characters, or the error of their source.\<close>

definition random_password :: "nat list \<Rightarrow> string" where
  "random_password nums = map (\<lambda>n. password_chars ! n) (take 12 nums)"

definition init_admin ::
    "faults \<Rightarrow> nat list result \<Rightarrow> (string \<Rightarrow> string result) \<Rightarrow> int \<Rightarrow> database \<Rightarrow> (database \<times> string option) option" where
  "init_admin faults nums hash_password fresh db =
     (if db_or faults ''admin.count'' 0 (count_rows (\<lambda>u. u_deleted_at u = None) (t_users db)) \<noteq> 0 then Some (db, None)
      else case nums of
        Inl _ \<Rightarrow> None
      | Inr ns \<Rightarrow>
          (let pw = random_password ns
           in case hash_password pw of
                Inl _ \<Rightarrow> None
              | Inr h \<Rightarrow>
                  let admin = \<lparr>u_id = fresh, u_username = ''admin'', u_password_hash = h, u_role = ''admin'',
                               u_allowed_modems = [], u_deleted_at = None\<rparr>;
                      taken = list_ex (\<lambda>u. u_username u = ''admin'') (t_users db)
                  in Some (if taken then db else db_or faults ''admin.create'' db (db\<lparr>t_users := t_users db @ [admin]\<rparr>), Some pw)))"

definition init_db ::
    "faults \<Rightarrow> (string \<times> string) list \<Rightarrow> (columns \<times> columns \<Rightarrow> (columns \<times> columns) result) \<Rightarrow> gtime \<Rightarrow> nat list result \<Rightarrow>
     (string \<Rightarrow> string result) \<Rightarrow> int \<Rightarrow> columns \<times> columns \<Rightarrow> database \<Rightarrow> ((columns \<times> columns) \<times> database) \<times> string option option" where
  "init_db faults order auto now nums hash_password fresh tables db =
     (case auto_migrate_schema faults order auto tables of
        (tables', Inl _) \<Rightarrow> ((tables', db), None)
      | (tables', Inr _) \<Rightarrow>
          (case migrate_from_modems faults (backfill_first_seen faults now db) of
             (db2, Inl _) \<Rightarrow> ((tables', db2), None)
           | (db2, Inr _) \<Rightarrow>
               (case init_admin faults nums hash_password fresh db2 of
                  None \<Rightarrow> ((tables', db2), None)
                | Some (db3, pw) \<Rightarrow> ((tables', db3), Some pw))))"

subsection \<open>What the migration of the columns does\<close>

definition migrated_name :: "(string \<times> string) list \<Rightarrow> string list \<Rightarrow> string \<Rightarrow> string" where
  "migrated_name order cols c =
     (case map_of order c of None \<Rightarrow> c | Some d \<Rightarrow> if d \<in> set cols then c else d)"

lemma set_rename_column: "legacy \<in> set cols \<Longrightarrow> set (rename_column legacy current cols) = insert current (set cols - {legacy})"
  by (auto simp: rename_column_def)

lemma rename_columns_result:
  assumes "distinct (map fst order)" and "distinct (map snd order)" and "fst ` set order \<inter> snd ` set order = {}"
  shows "rename_columns no_faults order cols = (map (migrated_name order cols) cols, Inr ())"
  using assms
proof (induction order arbitrary: cols)
  case Nil
  show ?case by (simp add: migrated_name_def)
next
  case (Cons r rs)
  obtain l c where r: "r = (l, c)" by fastforce
  have rs: "map_of rs l = None" "map_of rs c = None" "l \<noteq> c"
    using Cons.prems by (simp_all add: r map_of_eq_None_iff image_iff) force+
  have d: "d \<noteq> c \<and> d \<noteq> l" if "map_of rs x = Some d" for x d
  proof -
    from map_of_SomeD [OF that] have "d \<in> snd ` set rs" by force
    then show ?thesis using Cons.prems by (auto simp: r)
  qed
  have IH: "rename_columns no_faults rs cs = (map (migrated_name rs cs) cs, Inr ())" for cs
    using Cons.prems by (intro Cons.IH) auto
  show ?case
  proof (cases "l \<in> set cols \<and> c \<notin> set cols")
    case True
    then have s: "set (rename_column l c cols) = insert c (set cols - {l})" by (simp add: set_rename_column)
    have "migrated_name rs (rename_column l c cols) (if x = l then c else x) = migrated_name (r # rs) cols x" for x
      using True rs d [of x] by (auto simp: migrated_name_def r s split: option.split)
    then show ?thesis using True by (simp add: r IH) (simp add: rename_column_def)
  next
    case False
    have "migrated_name rs cols x = migrated_name (r # rs) cols x" if "x \<in> set cols" for x
      using False rs that by (auto simp: migrated_name_def r)
    then show ?thesis using False by (auto simp: r IH)
  qed
qed

lemma map_of_permutation:
  assumes "mset xs = mset ys" and "distinct (map fst ys)"
  shows "map_of xs = map_of ys"
proof -
  have "mset (map fst xs) = mset (map fst ys)" using assms(1) by simp
  then have "distinct (map fst xs)" using assms(2) mset_eq_imp_distinct_iff by blast
  then show ?thesis using assms mset_eq_setD by (simp add: map_of_inject_set)
qed

lemma legacy_names:
  assumes "mset order = mset legacy_columns"
  shows "distinct (map fst order)" "distinct (map snd order)" "fst ` set order \<inter> snd ` set order = {}"
proof -
  have "mset (map f order) = mset (map f legacy_columns)" for f :: "_ \<Rightarrow> string" using assms by simp
  moreover have "distinct (map fst legacy_columns)" "distinct (map snd legacy_columns)" by code_simp+
  ultimately show "distinct (map fst order)" "distinct (map snd order)" using mset_eq_imp_distinct_iff by blast+
  show "fst ` set order \<inter> snd ` set order = {}"
    using mset_eq_setD [OF assms] by (simp add: legacy_columns_def)
qed

text \<open>
  In whatever order the map of names is walked, the migration gives every column of an older version its
  present name unless a column of that name is there already, changes no other column, and changes nothing
  when it runs again.
\<close>

theorem columns_migrated:
  assumes "mset order = mset legacy_columns" and "mset order' = mset legacy_columns"
  shows "migrate_legacy_modem_sip_columns no_faults order (Some cols) =
           (Some (map (migrated_name legacy_columns cols) cols), Inr ()) \<and>
         migrate_legacy_modem_sip_columns no_faults order' (fst (migrate_legacy_modem_sip_columns no_faults order (Some cols))) =
           migrate_legacy_modem_sip_columns no_faults order (Some cols)"
proof -
  have res: "rename_columns no_faults ord cs = (map (migrated_name legacy_columns cs) cs, Inr ())"
    if "mset ord = mset legacy_columns" for ord cs
    using rename_columns_result [OF legacy_names [OF that]]
      map_of_permutation [OF that legacy_names(1) [OF refl]] by (simp add: migrated_name_def)
  let ?f = "migrated_name legacy_columns cols"
  have "migrated_name legacy_columns (map ?f cols) (?f x) = ?f x" if x: "x \<in> set cols" for x
  proof (cases "map_of legacy_columns x")
    case None
    then show ?thesis by (simp add: migrated_name_def)
  next
    case (Some d)
    have dn: "map_of legacy_columns d = None"
      using imageI [OF map_of_SomeD [OF Some], of snd] legacy_names(3) [OF refl] unfolding map_of_eq_None_iff snd_conv disjoint_iff by blast
    then have fd: "?f d = d" by (simp add: migrated_name_def)
    show ?thesis
    proof (cases "d \<in> set cols")
      case True
      then have i: "d \<in> set (map ?f cols)" using imageI [OF True, of ?f] fd by simp
      have x: "?f x = x" unfolding migrated_name_def using True Some by simp
      show ?thesis unfolding x using i Some by (simp only: migrated_name_def [of _ "map ?f cols"] option.case if_True)
    next
      case False
      then have x: "?f x = d" unfolding migrated_name_def using Some by simp
      show ?thesis unfolding x unfolding migrated_name_def dn by simp
    qed
  qed
  then show ?thesis using res [OF assms(1)] res [OF assms(2)] by (simp add: migrate_legacy_modem_sip_columns_def)
qed

theorem columns_migrated_witness:
  "migrate_legacy_modem_sip_columns no_faults (rev legacy_columns) (Some [''iccid'', ''s_ip_port'', ''s_ip_proxy'', ''sip_proxy'']) =
     (Some [''iccid'', ''sip_port'', ''s_ip_proxy'', ''sip_proxy''], Inr ())"
proof -
  have "map (migrated_name legacy_columns [''iccid'', ''s_ip_port'', ''s_ip_proxy'', ''sip_proxy''])
      [''iccid'', ''s_ip_port'', ''s_ip_proxy'', ''sip_proxy''] = [''iccid'', ''sip_port'', ''s_ip_proxy'', ''sip_proxy'']"
    by code_simp
  then show ?thesis
    using columns_migrated [of "rev legacy_columns" legacy_columns "[''iccid'', ''s_ip_port'', ''s_ip_proxy'', ''sip_proxy'']"]
    by (simp add: mset_rev)
qed

subsection \<open>What the start leaves in the tables\<close>

lemma migrate_loop_rows:
  "t_users (fst (migrate_loop faults ms seen db)) = t_users db \<and> t_modems (fst (migrate_loop faults ms seen db)) = t_modems db"
  by (induction ms arbitrary: seen db) (auto split: sum.split)

lemma migrate_rows:
  "t_users (fst (migrate_from_modems faults db)) = t_users db" "t_modems (fst (migrate_from_modems faults db)) = t_modems db"
  using migrate_loop_rows by (auto simp: migrate_from_modems_def split: sum.split)

text \<open>The start of the program, when it gets as far as serving requests.\<close>

definition dated :: "gtime \<Rightarrow> database \<Rightarrow> modem \<Rightarrow> modem" where
  "dated now db m =
     (if m_first_seen_at m = None
      then m\<lparr>m_first_seen_at := Some (case first_sms_time (m_iccid m) (t_sms db) of None \<Rightarrow> now | Some t \<Rightarrow> t)\<rparr> else m)"

lemma init_admin_users:
  assumes "init_admin no_faults nums hash fresh db = Some (db', pw)"
  shows "t_modems db' = t_modems db"
    and "list_ex (\<lambda>u. u_deleted_at u = None) (t_users db) \<Longrightarrow> db' = db \<and> pw = None"
    and "\<not> list_ex (\<lambda>u. u_deleted_at u = None) (t_users db) \<Longrightarrow> \<not> list_ex (\<lambda>u. u_username u = ''admin'') (t_users db) \<Longrightarrow>
      \<exists>p h. pw = Some p \<and> hash p = Inr h \<and> t_users db' = t_users db @ [\<lparr>u_id = fresh, u_username = ''admin'', u_password_hash = h,
        u_role = ''admin'', u_allowed_modems = [], u_deleted_at = None\<rparr>]"
  using assms
  by (auto simp: init_admin_def Let_def count_rows_def list_ex_iff filter_empty_conv split: if_splits sum.splits)

text \<open>
  When no query fails and the program does start, every SIM has the date it was first seen (the one it
  had, else that of its first message, else now) and nothing else of it has changed; the users stay as they
  are when one of them is active, and otherwise there is an administrator whose stored hash is that of the
  password that is shown, unless a deleted user has that name.
\<close>

theorem start_leaves:
  assumes "init_db no_faults order auto now nums hash fresh tables db = ((tables', db'), Some pw)"
  shows "t_modems db' = map (dated now db) (t_modems db) \<and>
         (if list_ex (\<lambda>u. u_deleted_at u = None) (t_users db) then t_users db' = t_users db \<and> pw = None
          else list_ex (\<lambda>u. u_username u = ''admin'') (t_users db) \<or>
               (\<exists>p h. pw = Some p \<and> hash p = Inr h \<and>
                  t_users db' = t_users db @ [\<lparr>u_id = fresh, u_username = ''admin'', u_password_hash = h, u_role = ''admin'',
                     u_allowed_modems = [], u_deleted_at = None\<rparr>]))"
proof -
  let ?b = "backfill_first_seen no_faults now db"
  from assms obtain db2 where m: "migrate_from_modems no_faults ?b = (db2, Inr ())"
    and a: "init_admin no_faults nums hash fresh db2 = Some (db', pw)"
    by (auto simp: init_db_def split: prod.splits sum.splits option.splits)
  have rows: "t_modems ?b = map (dated now db) (t_modems db)" "t_users ?b = t_users db"
    by (simp_all add: backfill_first_seen_def update_where_def dated_def)
  from m migrate_rows [of no_faults ?b] rows have r: "t_modems db2 = map (dated now db) (t_modems db)" "t_users db2 = t_users db" by simp_all
  show ?thesis using init_admin_users [OF a] r by auto
qed

definition old_modem :: modem where
  "old_modem = (new_modem ''c'')\<lparr>m_imei := ''123456789012345'', m_slot_number := Some 1\<rparr>"

theorem start_leaves_witness:
  "\<exists>db'. snd (fst (init_db no_faults legacy_columns Inr 5 (Inr [0]) Inr 1 (None, None) (empty_db\<lparr>t_modems := [old_modem]\<rparr>))) = db' \<and>
     map m_first_seen_at (t_modems db') = [Some 5] \<and> map u_password_hash (t_users db') = [''a'']"
proof -
  let ?r = "init_db no_faults legacy_columns Inr 5 (Inr [0]) Inr 1 (None, None) (empty_db\<lparr>t_modems := [old_modem]\<rparr>)"
  have "?r = ((fst (fst ?r), snd (fst ?r)), Some (Some ''a''))"
    by (simp add: prod_eq_iff) code_simp
  from start_leaves [OF this] show ?thesis
    by (auto simp: empty_db_def dated_def old_modem_def new_modem_def first_sms_time_def)
qed

end
