(* ===== verification/Backup.thy ===== *)
theory Backup
  imports Audit_Log Webhook_Service Go_Regexp
begin

text \<open>
  \<open>internal/backup/backup.go\<close> and \<open>internal/api/admin_backup.go\<close>: the daily copy of the SQLite database,
  the copies that are kept, and restoring one of them at the next start. The directory of the copies is the
  list of its regular files with content and time of change (a subdirectory has no counterpart: the code
  passes it over, and a directory that does not exist is an empty one); the files beside the database are a
  map from the suffix of their name, the empty suffix being the database itself. SQLite is a parameter: what
  \<open>VACUUM INTO\<close> writes and what \<open>PRAGMA integrity_check\<close> answers. Calls of the operating system fail as
  \<open>be_io\<close> says.
\<close>

type_synonym backup_dir = "(string \<times> string \<times> gtime) list"

text \<open>
  \<open>be_dump\<close> is the result of \<open>VACUUM INTO\<close> on the open database: the error with what it leaves of the file,
  or the file. \<open>be_snapshot\<close> is the same for the database at rest with the files beside it, nothing when it
  cannot be opened, with those files as SQLite leaves them when it closes the database. \<open>be_now\<close> is the
  clock when a file is named and \<open>be_written\<close> when it has been written.
\<close>

record backup_env =
  be_io :: faults
  be_tz :: int
  be_now :: gtime
  be_written :: gtime
  be_check :: "string \<Rightarrow> string list result"
  be_dump :: "database \<Rightarrow> (string \<times> string option) + string"
  be_snapshot :: "(string \<rightharpoonup> string) \<Rightarrow> ((string \<times> string option) + string) option \<times> (string \<rightharpoonup> string)"

record backup_result =
  br_path :: string
  br_name :: string
  br_size :: int
  br_pruned :: "string list"

record backup_info =
  bi_name :: string
  bi_size :: int
  bi_mod_time :: gtime

subsection \<open>Names\<close>

definition format_stamp :: "int \<Rightarrow> gtime \<Rightarrow> string" where
  "format_stamp tz t =
     (let s = nat ((t + tz) mod day_ns div second_ns)
      in format_yyyymmdd tz t @ ''-'' @ pad2 (s div 3600) @ pad2 (s div 60 mod 60) @ pad2 (s mod 60))"

definition r_stamp :: re where
  "r_stamp = r_seq [r_repeat 8 r_digit, r_lit ''-'', r_repeat 6 r_digit, r_lit ''.db'', R_Eol]"

definition name_re :: re where
  "name_re = r_seq [R_Bol, R_Cap 1 (r_alts [r_lit ''smsie'', r_lit ''pre-restore'']), r_lit ''-'', r_stamp]"

definition prune_re :: re where
  "prune_re = r_seq [R_Bol, r_lit ''smsie-'', r_stamp]"

definition sql_magic :: string where
  "sql_magic = ''SQLite format 3'' @ [CHR 0x00]"

text \<open>\<open>filepath.Join\<close> of the directory, whose name is clean, and a name.\<close>

definition join_path :: "string \<Rightarrow> string \<Rightarrow> string" where
  "join_path dir name = (if dir = [] then name else dir @ ''/'' @ name)"

subsection \<open>Calls of the operating system\<close>

definition put_file :: "string \<Rightarrow> string \<Rightarrow> gtime \<Rightarrow> backup_dir \<Rightarrow> backup_dir" where
  "put_file name content t dir = (name, content, t) # filter (\<lambda>f. fst f \<noteq> name) dir"

definition no_such_file :: string where
  "no_such_file = ''no such file or directory''"

definition open_file :: "backup_env \<Rightarrow> string \<Rightarrow> backup_dir \<Rightarrow> string result" where
  "open_file env name dir =
     (case map_of dir name of None \<Rightarrow> Inl no_such_file | Some (c, _) \<Rightarrow> db_call (be_io env) (''open '' @ name) c)"

definition remove_file :: "backup_env \<Rightarrow> string \<Rightarrow> backup_dir \<Rightarrow> backup_dir \<times> bool" where
  "remove_file env name dir =
     (if be_io env (''remove '' @ name) = None \<and> map_of dir name \<noteq> None
      then (filter (\<lambda>f. fst f \<noteq> name) dir, True) else (dir, False))"

definition rename_file :: "backup_env \<Rightarrow> string \<Rightarrow> string \<Rightarrow> backup_dir \<Rightarrow> backup_dir result" where
  "rename_file env from to dir =
     (case map_of dir from of None \<Rightarrow> Inl no_such_file
      | Some (c, t) \<Rightarrow> db_call (be_io env) (''rename '' @ from) (put_file to c t (filter (\<lambda>f. fst f \<noteq> from) dir)))"

text \<open>SQLite refuses to write into a file that exists and is not empty.\<close>

definition vacuum_into :: "backup_env \<Rightarrow> (string \<times> string option) + string \<Rightarrow> string \<Rightarrow> backup_dir \<Rightarrow> backup_dir \<times> unit result" where
  "vacuum_into env out name dir =
     (if (case map_of dir name of None \<Rightarrow> False | Some (c, _) \<Rightarrow> c \<noteq> []) then (dir, Inl ''output file already exists'')
      else case out of
        Inl (e, None) \<Rightarrow> (dir, Inl e)
      | Inl (e, Some part) \<Rightarrow> (put_file name part (be_written env) dir, Inl e)
      | Inr c \<Rightarrow> (put_file name c (be_written env) dir, Inr ()))"

subsection \<open>Checking a file\<close>

definition txt_not_sqlite :: string where
  "txt_not_sqlite = ''kh'' @ [CHR 0xC3, CHR 0xB4] @ ''ng ph'' @ [CHR 0xE1, CHR 0xBA, CHR 0xA3] @ ''i file SQLite''"

text \<open>\<open>Integrity\<close> of a file that could be opened, or not.\<close>

definition integrity :: "backup_env \<Rightarrow> string result \<Rightarrow> unit result" where
  "integrity env f =
     (case f of Inl e \<Rightarrow> Inl e
      | Inr c \<Rightarrow>
          if \<not> has_prefix c sql_magic then Inl txt_not_sqlite
          else case be_check env c of
            Inl e \<Rightarrow> Inl e
          | Inr rows \<Rightarrow> if rows = [''ok''] then Inr () else Inl (''integrity_check: '' @ join_with ''; '' rows))"

subsection \<open>The list of copies\<close>

definition info_of :: "string \<times> string \<times> gtime \<Rightarrow> backup_info" where
  "info_of f = \<lparr> bi_name = fst f, bi_size = int (length (fst (snd f))), bi_mod_time = snd (snd f) \<rparr>"

definition list_backups :: "backup_env \<Rightarrow> backup_dir \<Rightarrow> backup_info list" where
  "list_backups env dir =
     (if be_io env ''readdir'' \<noteq> None then []
      else sort_by (\<lambda>i j. bi_name i > bi_name j)
        (map info_of
          (filter (\<lambda>f. re_search name_re (fst f) \<and> be_io env (''info '' @ fst f) = None) dir)))"

subsection \<open>Making a copy\<close>

fun remove_all_files :: "backup_env \<Rightarrow> string list \<Rightarrow> backup_dir \<Rightarrow> backup_dir \<times> string list" where
  "remove_all_files env [] dir = (dir, [])"
| "remove_all_files env (n # ns) dir =
     (let (dir1, gone) = remove_file env n dir; (dir2, more) = remove_all_files env ns dir1
      in (dir2, if gone then n # more else more))"

definition automatic_backups :: "backup_env \<Rightarrow> backup_dir \<Rightarrow> string list" where
  "automatic_backups env dir = filter (re_search prune_re) (map bi_name (list_backups env dir))"

definition prune_backups :: "backup_env \<Rightarrow> int \<Rightarrow> backup_dir \<Rightarrow> backup_dir \<times> string list" where
  "prune_backups env keep dir =
     (if keep > 0 then remove_all_files env (drop (nat keep) (automatic_backups env dir)) dir else (dir, []))"

definition backup_name :: "backup_env \<Rightarrow> string" where
  "backup_name env = ''smsie-'' @ format_stamp (be_tz env) (be_now env) @ ''.db''"

definition run_backup :: "backup_env \<Rightarrow> string \<Rightarrow> int \<Rightarrow> database \<Rightarrow> backup_dir \<Rightarrow> backup_dir \<times> backup_result result" where
  "run_backup env path keep db dir =
     (case be_io env ''mkdir'' of
        Some e \<Rightarrow> (dir, Inl e)
      | None \<Rightarrow>
          let name = backup_name env; tmp = name @ ''.tmp''
          in case vacuum_into env (be_dump env db) tmp (fst (remove_file env tmp dir)) of
               (dir2, Inl e) \<Rightarrow> (dir2, Inl e)
             | (dir2, Inr _) \<Rightarrow>
                 (case integrity env (open_file env tmp dir2) of
                    Inl e \<Rightarrow> (fst (remove_file env tmp dir2), Inl e)
                  | Inr _ \<Rightarrow>
                      (case rename_file env tmp name dir2 of
                         Inl e \<Rightarrow> (fst (remove_file env tmp dir2), Inl e)
                       | Inr dir3 \<Rightarrow>
                           (case (be_io env (''stat '' @ name), map_of dir3 name) of
                              (Some e, _) \<Rightarrow> (dir3, Inl e)
                            | (None, None) \<Rightarrow> (dir3, Inl no_such_file)
                            | (None, Some (c, _)) \<Rightarrow>
                                let (dir4, gone) = prune_backups env keep dir3
                                in (dir4, Inr \<lparr> br_path = join_path path name, br_name = name,
                                                br_size = int (length c), br_pruned = gone \<rparr>)))))"


subsection \<open>Restoring at the start\<close>

record backup_files =
  bf_near :: "string \<rightharpoonup> string"
  bf_dir :: backup_dir

definition stage_path :: "string \<Rightarrow> string" where
  "stage_path dsn = dsn @ ''.restore-pending''"

definition open_near :: "backup_env \<Rightarrow> string \<Rightarrow> backup_files \<Rightarrow> string result" where
  "open_near env suffix fs =
     (case bf_near fs suffix of None \<Rightarrow> Inl no_such_file | Some c \<Rightarrow> db_call (be_io env) (''open near '' @ suffix) c)"

definition remove_near :: "backup_env \<Rightarrow> string \<Rightarrow> backup_files \<Rightarrow> backup_files" where
  "remove_near env suffix fs =
     (if be_io env (''remove near '' @ suffix) = None then fs\<lparr>bf_near := (bf_near fs)(suffix := None)\<rparr> else fs)"

definition rename_near :: "backup_env \<Rightarrow> string \<Rightarrow> string \<Rightarrow> backup_files \<Rightarrow> backup_files result" where
  "rename_near env from to fs =
     (case bf_near fs from of None \<Rightarrow> Inl no_such_file
      | Some c \<Rightarrow> db_call (be_io env) (''rename near '' @ from) (fs\<lparr>bf_near := (bf_near fs)(from := None, to := Some c)\<rparr>))"

definition stat_near :: "backup_env \<Rightarrow> string \<Rightarrow> backup_files \<Rightarrow> bool" where
  "stat_near env suffix fs \<longleftrightarrow> bf_near fs suffix \<noteq> None \<and> be_io env (''stat near '' @ suffix) = None"

text \<open>A copy that breaks off leaves what \<open>be_io\<close> calls the error and an empty file.\<close>

definition copy_file :: "backup_env \<Rightarrow> string \<Rightarrow> backup_files \<Rightarrow> backup_files \<times> unit result" where
  "copy_file env dst fs =
     (case open_near env [] fs of
        Inl e \<Rightarrow> (fs, Inl e)
      | Inr c \<Rightarrow>
          (case be_io env (''create '' @ dst) of
             Some e \<Rightarrow> (fs, Inl e)
           | None \<Rightarrow>
               (case be_io env (''copy '' @ dst) of
                  Some e \<Rightarrow> (fs\<lparr>bf_dir := put_file dst [] (be_written env) (bf_dir fs)\<rparr>, Inl e)
                | None \<Rightarrow> (fs\<lparr>bf_dir := put_file dst c (be_written env) (bf_dir fs)\<rparr>, Inr ()))))"

definition snapshot :: "backup_env \<Rightarrow> string \<Rightarrow> backup_files \<Rightarrow> backup_files \<times> unit result" where
  "snapshot env dst fs =
     (case be_snapshot env (bf_near fs) of
        (None, near) \<Rightarrow> copy_file env dst (fs\<lparr>bf_near := near\<rparr>)
      | (Some out, near) \<Rightarrow>
          (case vacuum_into env out dst (bf_dir fs) of
             (dir, Inr _) \<Rightarrow> (\<lparr> bf_near = near, bf_dir = dir \<rparr>, Inr ())
           | (dir, Inl _) \<Rightarrow> copy_file env dst \<lparr> bf_near = near, bf_dir = fst (remove_file env dst dir) \<rparr>))"

definition txt_restore_broken :: string where
  "txt_restore_broken = ''file kh'' @ [CHR 0xC3, CHR 0xB4] @ ''i ph'' @ [CHR 0xE1, CHR 0xBB, CHR 0xA5] @ ''c h'' @
     [CHR 0xE1, CHR 0xBB, CHR 0x8F] @ ''ng, '' @ [CHR 0xC4, CHR 0x91, CHR 0xC3, CHR 0xA3] @ '' b'' @
     [CHR 0xE1, CHR 0xBB, CHR 0x8F] @ '': ''"

definition stage_suffix :: string where "stage_suffix = ''.restore-pending''"

definition pre_restore_name :: "backup_env \<Rightarrow> string" where
  "pre_restore_name env = ''pre-restore-'' @ format_stamp (be_tz env) (be_now env) @ ''.db''"

text \<open>The copy of the old database, when there is one.\<close>

definition keep_old :: "backup_env \<Rightarrow> backup_files \<Rightarrow> backup_files \<times> unit result" where
  "keep_old env fs =
     (if \<not> stat_near env [] fs then (fs, Inr ())
      else case be_io env ''mkdir'' of Some e \<Rightarrow> (fs, Inl e) | None \<Rightarrow> snapshot env (pre_restore_name env) fs)"

definition apply_pending :: "backup_env \<Rightarrow> backup_files \<Rightarrow> backup_files \<times> bool result" where
  "apply_pending env fs =
     (if \<not> stat_near env stage_suffix fs then (fs, Inr False)
      else case integrity env (open_near env stage_suffix fs) of
        Inl e \<Rightarrow> (remove_near env stage_suffix fs, Inl (txt_restore_broken @ e))
      | Inr _ \<Rightarrow>
          (case keep_old env fs of
             (fs1, Inl e) \<Rightarrow> (fs1, Inl e)
           | (fs1, Inr _) \<Rightarrow>
               let fs2 = fold (remove_near env) [''-wal'', ''-shm'', ''-journal''] fs1
               in case rename_near env stage_suffix [] fs2 of
                    Inl e \<Rightarrow> (fs2, Inl e) | Inr fs3 \<Rightarrow> (fs3, Inr True)))"

subsection \<open>The scheduler\<close>

definition txt_backup_failed :: string where
  "txt_backup_failed = ''Sao l'' @ [CHR 0xC6, CHR 0xB0] @ ''u t'' @ [CHR 0xE1, CHR 0xBB, CHR 0xB1] @ '' '' @
     [CHR 0xC4, CHR 0x91, CHR 0xE1, CHR 0xBB, CHR 0x99] @ ''ng TH'' @ [CHR 0xE1, CHR 0xBA, CHR 0xA4] @ ''T B'' @
     [CHR 0xE1, CHR 0xBA, CHR 0xA0] @ ''I: ''"

definition system_entry :: "string \<Rightarrow> string \<Rightarrow> string \<Rightarrow> int \<Rightarrow> audit_log" where
  "system_entry action target detail status =
     \<lparr> al_at = 0, al_username = ''system'', al_user_id = None, al_api_key_id = None, al_action = action, al_iccid = [],
       al_target = target, al_detail = detail, al_status = status, al_ip = [] \<rparr>"

text \<open>\<open>audit.Record\<close> with its error thrown away.\<close>

definition audited :: "faults \<Rightarrow> gtime \<Rightarrow> audit_log \<Rightarrow> database \<Rightarrow> database" where
  "audited faults now e db = (case audit_record faults now e db of Inl _ \<Rightarrow> db | Inr db' \<Rightarrow> db')"

definition backup_detail :: "backup_result \<Rightarrow> string" where
  "backup_detail res =
     ''{'' @ [CHR 0x22] @ ''name'' @ [CHR 0x22] @ '':'' @ [CHR 0x22] @ br_name res @ [CHR 0x22] @ '','' @
     [CHR 0x22] @ ''size_bytes'' @ [CHR 0x22] @ '':'' @ go_itoa (br_size res) @ '','' @
     [CHR 0x22] @ ''pruned'' @ [CHR 0x22] @ '':'' @ go_itoa (int (length (br_pruned res))) @ ''}''"

text \<open>\<open>Once\<close>; \<open>notify\<close> is the broadcast to the webhooks, which the handler does without.\<close>

definition backup_once ::
    "backup_env \<Rightarrow> faults \<Rightarrow> (string \<Rightarrow> database \<Rightarrow> http_post list) option \<Rightarrow> backup_config \<Rightarrow> database \<times> backup_dir \<Rightarrow>
     (database \<times> backup_dir) \<times> http_post list \<times> backup_result result" where
  "backup_once env faults notify cfg s =
     (let (db, dir) = s
      in case run_backup env (kc_dir cfg) (kc_keep cfg) db dir of
           (dir', Inl e) \<Rightarrow>
             (let db' = audited faults (be_written env) (system_entry ''backup.failed'' [] e 500) db
              in ((db', dir'), (case notify of None \<Rightarrow> [] | Some f \<Rightarrow> f (txt_backup_failed @ e) db'), Inl e))
         | (dir', Inr res) \<Rightarrow>
             ((audited faults (be_written env) (system_entry ''backup.ok'' (br_name res) (backup_detail res) 200) db, dir'), [], Inr res))"

definition next_backup :: "int \<Rightarrow> gtime \<Rightarrow> int \<Rightarrow> gtime" where
  "next_backup tz now hour = next_at_hour tz now hour"

text \<open>\<open>Run\<close>: what ends the wait of each round, the stop channel or the timer.\<close>

datatype backup_wake = Backup_Stop | Backup_Due backup_env

fun backup_scheduler ::
    "faults \<Rightarrow> (string \<Rightarrow> database \<Rightarrow> http_post list) option \<Rightarrow> backup_config \<Rightarrow> backup_wake list \<Rightarrow> database \<times> backup_dir \<Rightarrow>
     (database \<times> backup_dir) \<times> http_post list" where
  "backup_scheduler faults notify cfg [] s = (s, [])"
| "backup_scheduler faults notify cfg (Backup_Stop # ws) s = (s, [])"
| "backup_scheduler faults notify cfg (Backup_Due env # ws) s =
     (let (s1, posts, _) = backup_once env faults notify cfg s; (s2, more) = backup_scheduler faults notify cfg ws s1
      in (s2, posts @ more))"

subsection \<open>The handlers\<close>

definition backup_driver :: "string \<Rightarrow> string" where
  "backup_driver driver = to_lower (trim_space driver)"

definition sqlite_only :: "string \<Rightarrow> actor option \<Rightarrow> (int \<times> string) option" where
  "sqlite_only driver actor =
     (if (case actor of None \<Rightarrow> True | Some a \<Rightarrow> \<not> is_admin (ac_user a)) then Some (403, ''Admin access required'')
      else if driver \<noteq> [] \<and> driver \<noteq> ''sqlite'' then Some (501, ''Backup currently supports SQLite only'')
      else None)"

text \<open>The temporary file has a name that no file has and is removed when the handler returns.\<close>

definition api_backup_download :: "backup_env \<Rightarrow> string \<Rightarrow> actor option \<Rightarrow> database \<Rightarrow> (string \<times> string) reply" where
  "api_backup_download env driver actor db =
     (case sqlite_only driver actor of
        Some (code, e) \<Rightarrow> Refused code e
      | None \<Rightarrow>
          if be_io env ''tempfile'' \<noteq> None then Refused 500 ''Could not prepare backup''
          else case be_dump env db of
            Inl _ \<Rightarrow> Refused 500 ''Could not create backup''
          | Inr c \<Rightarrow> Answered 200 (''smsie-backup-'' @ format_stamp (be_tz env) (be_written env) @ ''.db'', c))"

definition api_backup_list :: "backup_env \<Rightarrow> string \<Rightarrow> actor option \<Rightarrow> backup_config \<Rightarrow> backup_dir \<Rightarrow> (backup_info list \<times> backup_config) reply" where
  "api_backup_list env driver actor cfg dir =
     (case sqlite_only driver actor of
        Some (code, e) \<Rightarrow> Refused code e | None \<Rightarrow> Answered 200 (list_backups env dir, cfg))"

definition api_backup_run ::
    "backup_env \<Rightarrow> faults \<Rightarrow> string \<Rightarrow> actor option \<Rightarrow> backup_config \<Rightarrow> database \<times> backup_dir \<Rightarrow> (database \<times> backup_dir) \<times> backup_result reply" where
  "api_backup_run env faults driver actor cfg s =
     (case sqlite_only driver actor of
        Some (code, e) \<Rightarrow> (s, Refused code e)
      | None \<Rightarrow>
          (case backup_once env faults None cfg s of
             (s', _, Inl e) \<Rightarrow> (s', Refused 500 e) | (s', _, Inr res) \<Rightarrow> (s', Answered 200 res)))"

definition api_backup_get :: "backup_env \<Rightarrow> string \<Rightarrow> actor option \<Rightarrow> string \<Rightarrow> backup_dir \<Rightarrow> (string \<times> string) reply" where
  "api_backup_get env driver actor name dir =
     (case sqlite_only driver actor of
        Some (code, e) \<Rightarrow> Refused code e
      | None \<Rightarrow>
          if \<not> re_search name_re name then Refused 400 ''invalid backup name''
          else case (map_of dir name, be_io env (''stat '' @ name)) of
            (Some (c, _), None) \<Rightarrow> Answered 200 (name, c)
          | _ \<Rightarrow> Refused 404 ''backup not found'')"

text \<open>
  The body of a restore request: an upload with the size it declares, or the reason why there is none, and
  what reading it gives; or the name of a copy, if the body is such an object.
\<close>

datatype restore_request = Upload "(int \<times> string result) option" | Named "string option"

definition max_restore_bytes :: int where "max_restore_bytes = 512 * 2 ^ 20"

definition upload_suffix :: string where "upload_suffix = ''.restore-pending.upload''"

definition txt_file_required :: string where
  "txt_file_required = ''file is required ('' @ [CHR 0xE2, CHR 0x89, CHR 0xA4] @ '' 512 MB)''"

text \<open>Writing the file to check; a copy that breaks off leaves an empty one.\<close>

definition write_upload :: "backup_env \<Rightarrow> string result \<Rightarrow> backup_files \<Rightarrow> backup_files \<times> unit reply" where
  "write_upload env content fs =
     (if be_io env (''create near '' @ upload_suffix) \<noteq> None then (fs, Refused 500 ''could not stage file'')
      else case content of
        Inl _ \<Rightarrow> (fs\<lparr>bf_near := (bf_near fs)(upload_suffix \<mapsto> [])\<rparr>, Refused 500 ''could not stage file'')
      | Inr c \<Rightarrow> (fs\<lparr>bf_near := (bf_near fs)(upload_suffix \<mapsto> c)\<rparr>, Answered 200 ()))"

definition receive_restore :: "backup_env \<Rightarrow> restore_request \<Rightarrow> backup_files \<Rightarrow> backup_files \<times> unit reply" where
  "receive_restore env req fs =
     (case req of
        Upload None \<Rightarrow> (fs, Refused 400 txt_file_required)
      | Upload (Some (bytes, content)) \<Rightarrow>
          if bytes \<le> 0 \<or> bytes > max_restore_bytes then (fs, Refused 400 ''file must be between 1 byte and 512 MB'')
          else write_upload env content fs
      | Named None \<Rightarrow> (fs, Refused 400 ''name must be an existing backup file name'')
      | Named (Some name) \<Rightarrow>
          if \<not> re_search name_re name then (fs, Refused 400 ''name must be an existing backup file name'')
          else case open_file env name (bf_dir fs) of
            Inl _ \<Rightarrow> (fs, Refused 404 ''backup not found'')
          | Inr c \<Rightarrow> write_upload env (db_call (be_io env) (''copy near '' @ upload_suffix) c) fs)"

text \<open>The check and the staging; answered with whether the program ends in two seconds to be started again.\<close>

definition stage_restore :: "backup_env \<Rightarrow> bool \<Rightarrow> backup_files \<Rightarrow> backup_files \<times> bool reply" where
  "stage_restore env service fs =
     (case integrity env (open_near env upload_suffix fs) of
        Inl e \<Rightarrow> (fs, Refused 400 (''not a valid SQLite database: '' @ e))
      | Inr _ \<Rightarrow>
          (case rename_near env upload_suffix stage_suffix fs of
             Inl _ \<Rightarrow> (fs, Refused 500 ''could not stage file'')
           | Inr fs' \<Rightarrow> (fs', Answered 202 service)))"

definition api_restore ::
    "backup_env \<Rightarrow> string \<Rightarrow> actor option \<Rightarrow> bool \<Rightarrow> restore_request \<Rightarrow> backup_files \<Rightarrow> backup_files \<times> bool reply" where
  "api_restore env driver actor service req fs =
     (case sqlite_only driver actor of
        Some (code, e) \<Rightarrow> (fs, Refused code e)
      | None \<Rightarrow>
          (case receive_restore env req (remove_near env upload_suffix fs) of
             (fs1, Refused code e) \<Rightarrow> (remove_near env upload_suffix fs1, Refused code e)
           | (fs1, Answered _ _) \<Rightarrow>
               (case stage_restore env service fs1 of (fs2, r) \<Rightarrow> (remove_near env upload_suffix fs2, r))))"

end
