(* ===== verification/Date_Text.thy ===== *)
theory Date_Text
  imports Go_Time
begin

text \<open>
  Dates and times as text: numbers written with a fixed number of digits are ordered as their digits are, so
  a date written from the year down sorts as the day does.
\<close>

definition year_of :: "int \<Rightarrow> gtime \<Rightarrow> int" where
  "year_of tz t = month_of tz t div 12"

lemma append_less_iff:
  fixes a b :: "'a::linorder list"
  assumes "length a = length b"
  shows "a @ x < b @ y \<longleftrightarrow> a < b \<or> a = b \<and> x < y"
  using assms by (induction a b rule: list_induct2) auto

lemma digits_val_Cons: "digits_val (c # s) = digit_val c * 10 ^ length s + digits_val s"
proof (induction s rule: rev_induct)
  case (snoc d s)
  then show ?case using digits_val_snoc [of "c # s" d] digits_val_snoc [of s d] by (simp add: algebra_simps)
qed (simp add: digits_val_def)

lemma digit_val_bounds: "is_digit c \<Longrightarrow> 0 \<le> digit_val c \<and> digit_val c \<le> 9"
  by (auto simp: is_digit_def digit_val_def less_eq_char_def)

lemma digits_val_bounds: "list_all is_digit s \<Longrightarrow> 0 \<le> digits_val s \<and> digits_val s < 10 ^ length s"
proof (induction s)
  case (Cons c s)
  then have c: "0 \<le> digit_val c" "digit_val c \<le> 9" using digit_val_bounds [of c] by simp_all
  then have "0 \<le> digit_val c * 10 ^ length s" by simp
  moreover have "digit_val c * 10 ^ length s \<le> 9 * 10 ^ length s" using c(2) by (rule mult_right_mono) simp
  moreover have "0 \<le> digits_val s" "digits_val s < 10 ^ length s" using Cons by simp_all
  moreover have "(10::int) ^ length (c # s) = 10 * 10 ^ length s" by simp
  ultimately show ?case unfolding digits_val_Cons by linarith
qed (simp add: digits_val_def)

text \<open>Numbers of as many digits are ordered as their digits are.\<close>

lemma digits_less_iff:
  "length a = length b \<Longrightarrow> list_all is_digit a \<Longrightarrow> list_all is_digit b \<Longrightarrow> a < b \<longleftrightarrow> digits_val a < digits_val b"
proof (induction a b rule: list_induct2)
  case (Cons c a d b)
  have v: "c < d \<longleftrightarrow> digit_val c < digit_val d" "c = d \<longleftrightarrow> digit_val c = digit_val d"
    by (auto simp: digit_val_def less_char_def)
  have bounds: "digits_val a < 10 ^ length b" "0 \<le> digits_val a" "digits_val b < 10 ^ length b" "0 \<le> digits_val b"
    using Cons digits_val_bounds [of a] digits_val_bounds [of b] by auto
  consider "digit_val c < digit_val d" | "digit_val c = digit_val d" | "digit_val d < digit_val c" by linarith
  then show ?case
  proof cases
    case 1
    then have "(digit_val c + 1) * 10 ^ length b \<le> digit_val d * 10 ^ length b" by (intro mult_right_mono) auto
    with 1 v bounds show ?thesis by (simp add: digits_val_Cons Cons.hyps algebra_simps)
  next
    case 2
    with v Cons show ?thesis by (simp add: digits_val_Cons)
  next
    case 3
    then have "(digit_val d + 1) * 10 ^ length b \<le> digit_val c * 10 ^ length b" by (intro mult_right_mono) auto
    with 3 v bounds show ?thesis by (simp add: digits_val_Cons Cons.hyps algebra_simps)
  qed
qed simp

lemma length_show_nat: "length (show_nat n) = (if n < 10 then 1 else Suc (length (show_nat (n div 10))))"
  by (subst show_nat.simps) simp

lemma length_pad2: "n < 100 \<Longrightarrow> length (pad2 n) = 2"
proof -
  assume "n < 100"
  then have "n div 10 < 10" by linarith
  then show ?thesis using length_show_nat [of n] length_show_nat [of "n div 10"] by (simp add: pad2_def)
qed

lemma length_year: "1000 \<le> n \<Longrightarrow> n \<le> 9999 \<Longrightarrow> length (show_nat n) = 4"
proof -
  assume n: "1000 \<le> n" "n \<le> 9999"
  then have "\<not> n < 10" "\<not> n div 10 < 10" "\<not> n div 10 div 10 < 10" "n div 10 div 10 div 10 < 10" by linarith+
  then show ?thesis
    using length_show_nat [of n] length_show_nat [of "n div 10"] length_show_nat [of "n div 10 div 10"]
      length_show_nat [of "n div 10 div 10 div 10"] by presburger
qed

lemma pad2_digits: "list_all is_digit (pad2 n)" "digits_val (pad2 n) = int n"
proof -
  show "list_all is_digit (pad2 n)" using show_nat_digits [of n] by (simp add: pad2_def) (simp add: is_digit_def)
  show "digits_val (pad2 n) = int n"
    using digits_val_Cons [of "CHR ''0''" "show_nat n"] by (simp add: pad2_def digits_val_show_nat digit_val_def)
qed

lemma pad2_less: "m < 100 \<Longrightarrow> n < 100 \<Longrightarrow> pad2 m < pad2 n \<longleftrightarrow> m < n"
  by (simp add: digits_less_iff length_pad2 pad2_digits)

lemma year_less:
  "1000 \<le> m \<Longrightarrow> m \<le> 9999 \<Longrightarrow> 1000 \<le> n \<Longrightarrow> n \<le> 9999 \<Longrightarrow> show_nat m < show_nat n \<longleftrightarrow> m < n"
  by (simp add: digits_less_iff length_year show_nat_digits digits_val_show_nat)

lemma triple_less:
  fixes a b c :: "'a::linorder list"
  assumes "length a = length a'" and "length b = length b'"
  shows "a @ b @ c < a' @ b' @ c' \<longleftrightarrow> a < a' \<or> a = a' \<and> (b < b' \<or> b = b' \<and> c < c')"
  using assms by (simp add: append_less_iff)

lemma nat_div_mod_less: "a < b \<Longrightarrow> a div m < b div m \<or> a div m = b div m \<and> a mod m < b mod (m :: nat)"
proof -
  assume "a < b"
  then have "a div m \<le> b div m" by (simp add: div_le_mono)
  moreover have "a mod m < b mod m" if e: "a div m = b div m"
    using \<open>a < b\<close> div_mult_mod_eq [of a m] div_mult_mod_eq [of b m] unfolding e by linarith
  ultimately show ?thesis by linarith
qed

lemma int_div_mod_less: "a < b \<Longrightarrow> 0 < m \<Longrightarrow> a div m < b div m \<or> a div m = b div m \<and> a mod m < b mod (m :: int)"
proof -
  assume "a < b" "0 < m"
  then have "a div m \<le> b div m" by (simp add: zdiv_mono1)
  moreover have "a mod m < b mod m" if e: "a div m = b div m"
    using \<open>a < b\<close> div_mult_mod_eq [of a m] div_mult_mod_eq [of b m] unfolding e by linarith
  ultimately show ?thesis by linarith
qed

lemma nat_triple:
  "0 \<le> (y::int) \<Longrightarrow> 0 \<le> (m::int) \<Longrightarrow> 0 \<le> (q::int) \<Longrightarrow> y < y' \<or> y = y' \<and> (m < m' \<or> m = m' \<and> q < q') \<Longrightarrow>
     nat y < nat y' \<or> nat y = nat y' \<and> (nat (m + 1) < nat (m' + 1) \<or> nat (m + 1) = nat (m' + 1) \<and> nat (q + 1) < nat (q' + 1))"
  by auto

text \<open>The time of day of a second of the day.\<close>

definition clock_text :: "nat \<Rightarrow> string" where
  "clock_text r = pad2 (r div 3600) @ pad2 (r div 60 mod 60) @ pad2 (r mod 60)"

lemma clock_text_less: "r < s \<Longrightarrow> s < 86400 \<Longrightarrow> clock_text r < clock_text s"
proof -
  assume rs: "r < s" "s < 86400"
  have b: "r div 3600 < 100" "s div 3600 < 100" "r div 60 mod 60 < 100" "s div 60 mod 60 < 100" "r mod 60 < 100" "s mod 60 < 100"
    using rs pos_mod_bound [of 60] by (simp_all add: less_mult_imp_div_less mod_less_divisor [THEN less_trans])
  have "r div 3600 < s div 3600 \<or> r div 3600 = s div 3600 \<and>
      (r div 60 mod 60 < s div 60 mod 60 \<or> r div 60 mod 60 = s div 60 mod 60 \<and> r mod 60 < s mod 60)"
  proof -
    have e: "x div 60 div 60 = x div 3600" for x :: nat by (simp add: div_mult2_eq [symmetric])
    show ?thesis using nat_div_mod_less [OF rs(1), of 60] nat_div_mod_less [of "r div 60" "s div 60" 60]
      unfolding e [symmetric] by metis
  qed
  with b show ?thesis
    unfolding clock_text_def by (subst triple_less) (auto simp: length_pad2 pad2_less)
qed

lemma length_clock_text: "r < 86400 \<Longrightarrow> length (clock_text r) = 6 \<and> list_all is_digit (clock_text r)"
proof -
  assume "r < 86400"
  then have "r div 3600 < 100" "r div 60 mod 60 < 100" "r mod 60 < 100" by (simp_all add: less_mult_imp_div_less mod_less_divisor [THEN less_trans])
  then show ?thesis by (simp add: clock_text_def length_pad2 pad2_digits)
qed

text \<open>The date of a day.\<close>

definition date_text :: "int \<Rightarrow> string" where
  "date_text d = (let k = month_of_day d in show_nat (nat (k div 12)) @ pad2 (nat (k mod 12 + 1)) @ pad2 (nat (d - month_day0 k + 1)))"

lemma month_of_day_mono: "d \<le> e \<Longrightarrow> month_of_day d \<le> month_of_day e"
proof (rule ccontr)
  assume "d \<le> e" "\<not> month_of_day d \<le> month_of_day e"
  then have "month_day0 (month_of_day e + 1) \<le> month_day0 (month_of_day d)" by (intro month_day0_mono) simp
  with \<open>d \<le> e\<close> month_of_day_bounds [of d] month_of_day_bounds [of e] show False by simp
qed

lemma month_day_small: "nat (d - month_day0 (month_of_day d) + 1) < 100"
  using month_of_day_bounds [of d] month_day0_step(2) [of "month_of_day d"] by linarith

definition four_digits :: "int \<Rightarrow> bool" where
  "four_digits y \<longleftrightarrow> 1000 \<le> y \<and> y \<le> 9999"

lemma month_small: "nat (k mod 12 + 1) < 100" for k :: int
  using pos_mod_bound [of 12 k] by linarith

lemma date_less:
  "y < y' \<or> y = y' \<and> (m < m' \<or> m = m' \<and> q < q') \<Longrightarrow> 1000 \<le> y \<Longrightarrow> y \<le> 9999 \<Longrightarrow> 1000 \<le> y' \<Longrightarrow> y' \<le> 9999 \<Longrightarrow>
   m < 100 \<Longrightarrow> m' < 100 \<Longrightarrow> q < 100 \<Longrightarrow> q' < 100 \<Longrightarrow>
   show_nat y @ pad2 m @ pad2 q < show_nat y' @ pad2 m' @ pad2 q'"
  by (subst triple_less) (auto simp: length_year length_pad2 year_less pad2_less)

lemma date_text_less:
  assumes "d < e" "four_digits (month_of_day d div 12)" "four_digits (month_of_day e div 12)"
  shows "date_text d < date_text e"
proof -
  let ?k = "month_of_day d" and ?l = "month_of_day e"
  have "?k \<le> ?l" using assms(1) month_of_day_mono by simp
  then have "?k = ?l \<or> ?k div 12 < ?l div 12 \<or> ?k div 12 = ?l div 12 \<and> ?k mod 12 < ?l mod 12"
    using int_div_mod_less [of ?k ?l 12] by linarith
  moreover have "?k = ?l \<Longrightarrow> d - month_day0 ?k < e - month_day0 ?l" using assms(1) by simp
  ultimately have "?k div 12 < ?l div 12 \<or> ?k div 12 = ?l div 12 \<and>
      (?k mod 12 < ?l mod 12 \<or> ?k mod 12 = ?l mod 12 \<and> d - month_day0 ?k < e - month_day0 ?l)" by metis
  moreover have "0 \<le> ?k mod 12" "0 \<le> d - month_day0 ?k" using month_of_day_bounds [of d] by simp_all
  moreover have "0 \<le> ?k div 12" using assms(2) unfolding four_digits_def by linarith
  ultimately have "nat (?k div 12) < nat (?l div 12) \<or> nat (?k div 12) = nat (?l div 12) \<and>
      (nat (?k mod 12 + 1) < nat (?l mod 12 + 1) \<or> nat (?k mod 12 + 1) = nat (?l mod 12 + 1) \<and>
       nat (d - month_day0 ?k + 1) < nat (e - month_day0 ?l + 1))" by (intro nat_triple)
  moreover have "1000 \<le> nat (?k div 12)" "nat (?k div 12) \<le> 9999" "1000 \<le> nat (?l div 12)" "nat (?l div 12) \<le> 9999"
    using assms(2,3) unfolding four_digits_def by linarith+
  ultimately show ?thesis
    unfolding date_text_def Let_def
    by (rule date_less) (simp_all only: month_small month_day_small)
qed

lemma length_date_text:
  assumes "four_digits (month_of_day d div 12)"
  shows "length (date_text d) = 8 \<and> list_all is_digit (date_text d)"
proof -
  have "1000 \<le> nat (month_of_day d div 12)" "nat (month_of_day d div 12) \<le> 9999" using assms unfolding four_digits_def by linarith+
  then show ?thesis
    by (simp add: date_text_def Let_def length_year length_pad2 month_small month_day_small pad2_digits show_nat_digits)
qed

end
