(* ===== verification/Backup_Properties.thy ===== *)
theory Backup_Properties
  imports Backup Date_Text
begin

text \<open>
  What the copies of the database promise: their names say when they were made and sort by that time, a run
  touches nothing but its own copy and the automatic ones it removes, the newest copies are kept, and a
  staged restore is put in place at the next start with the old database kept.
\<close>

subsection \<open>The names of the copies\<close>

lemma re_lit: "re_matches (r_lit w) (b, a, cs) = (if has_prefix a w then [(rev w @ b, drop (length w) a, cs)] else [])"
proof (induction w arbitrary: b a)
  case (Cons d w)
  then show ?case by (cases a) (auto simp: has_prefix_def)
qed simp

lemma re_digits:
  "re_matches (r_repeat n r_digit) (b, a, cs) =
     (if n \<le> length a \<and> list_all is_digit (take n a) then [(rev (take n a) @ b, drop n a, cs)] else [])"
proof (induction n arbitrary: b a)
  case (Suc n)
  then show ?case by (cases a) (auto simp: r_digit_def)
qed simp

lemma re_search_bol: "re_search (R_Seq R_Bol p) s \<longleftrightarrow> re_matches p ([], s, []) \<noteq> []"
proof (cases s)
  case (Cons c r)
  then show ?thesis using re_find_bol [of p c "[]" r]
    by (simp add: re_search_def split: list.split)
qed (simp add: re_search_def split: list.split)

lemma re_seq_eps [simp]: "concat (map (re_matches R_Eps) ms) = ms"
  by (induction ms) simp_all

text \<open>What follows the prefix of the name of a copy.\<close>

definition stamped :: "string \<Rightarrow> bool" where
  "stamped a \<longleftrightarrow> (\<exists>d e. length d = 8 \<and> length e = 6 \<and> list_all is_digit (d @ e) \<and> a = d @ ''-'' @ e @ ''.db'')"

lemma stamped_take:
  "stamped a \<longleftrightarrow> length a = 18 \<and> list_all is_digit (take 8 a) \<and> a ! 8 = CHR ''-'' \<and>
     list_all is_digit (take 6 (drop 9 a)) \<and> drop 15 a = ''.db''"
proof
  assume "stamped a"
  then show "length a = 18 \<and> list_all is_digit (take 8 a) \<and> a ! 8 = CHR ''-'' \<and>
     list_all is_digit (take 6 (drop 9 a)) \<and> drop 15 a = ''.db''"
    by (auto simp: stamped_def nth_append)
next
  assume r: "length a = 18 \<and> list_all is_digit (take 8 a) \<and> a ! 8 = CHR ''-'' \<and>
     list_all is_digit (take 6 (drop 9 a)) \<and> drop 15 a = ''.db''"
  have "a = take 8 a @ a ! 8 # take 6 (drop 9 a) @ drop 15 a"
    using r id_take_nth_drop [of 8 a] append_take_drop_id [of 6 "drop 9 a"] by simp
  with r show "stamped a"
    unfolding stamped_def by (intro exI [of _ "take 8 a"] exI [of _ "take 6 (drop 9 a)"]) auto
qed

lemma re_stamp: "re_matches r_stamp (b, a, cs) = [] \<longleftrightarrow> \<not> stamped a"
proof -
  have "stamped a \<longleftrightarrow> 8 \<le> length a \<and> list_all is_digit (take 8 a) \<and> has_prefix (drop 8 a) ''-'' \<and>
      6 \<le> length (drop 9 a) \<and> list_all is_digit (take 6 (drop 9 a)) \<and> has_prefix (drop 15 a) ''.db'' \<and> drop 18 a = []"
    (is "_ \<longleftrightarrow> ?r")
  proof
    assume ?r
    then have len: "length a = 18"
    proof -
      have "drop 15 a = ''.db'' @ drop 18 a"
        using \<open>?r\<close> append_take_drop_id [of 3 "drop 15 a"] by (simp add: has_prefix_def)
      with \<open>?r\<close> have "length (drop 15 a) = 3" by (simp only: append_Nil2) simp
      then show ?thesis by simp
    qed
    moreover have "drop 15 a = ''.db''" using \<open>?r\<close> len by (simp add: has_prefix_def)
    moreover have "a ! 8 = CHR ''-''"
      using \<open>?r\<close> len by (simp add: has_prefix_def take_Suc_conv_app_nth hd_drop_conv_nth)
    ultimately show "stamped a" using \<open>?r\<close> by (simp add: stamped_take)
  next
    assume s: "stamped a"
    then have "drop 8 a = a ! 8 # drop 9 a" by (simp add: stamped_take Cons_nth_drop_Suc [symmetric])
    with s show ?r by (simp add: stamped_take has_prefix_def)
  qed
  then show ?thesis by (auto simp add: r_stamp_def re_lit re_digits simp del: r_lit.simps)
qed

lemma length_prefix: "length ''smsie-'' = 6"
  by simp

lemma prune_re_iff: "re_search prune_re s \<longleftrightarrow> (\<exists>a. s = ''smsie-'' @ a \<and> stamped a)"
proof -
  have "re_search prune_re s \<longleftrightarrow> has_prefix s ''smsie-'' \<and> stamped (drop 6 s)"
    unfolding prune_re_def r_seq.simps re_search_bol by (simp add: re_lit re_stamp numeral_eq_Suc del: r_lit.simps)
  also have "\<dots> \<longleftrightarrow> (\<exists>a. s = ''smsie-'' @ a \<and> stamped a)"
    by (metis append_eq_conv_conj has_prefix_append has_prefix_def length_prefix)
  finally show ?thesis .
qed

lemma name_re_iff:
  "re_search name_re s \<longleftrightarrow> (\<exists>a. (s = ''smsie-'' @ a \<or> s = ''pre-restore-'' @ a) \<and> stamped a)"
proof -
  have dash: "has_prefix s w \<and> has_prefix (drop (length w) s) ''-'' \<and> stamped (drop (Suc (length w)) s) \<longleftrightarrow>
      (\<exists>a. s = w @ ''-'' @ a \<and> stamped a)" for w
  proof
    assume h: "has_prefix s w \<and> has_prefix (drop (length w) s) ''-'' \<and> stamped (drop (Suc (length w)) s)"
    then have "drop (length w) s = ''-'' @ tl (drop (length w) s)"
      by (cases "drop (length w) s") (auto simp: has_prefix_def)
    moreover have "tl (drop (length w) s) = drop (Suc (length w)) s" by (metis drop_Suc tl_drop)
    ultimately have "drop (length w) s = ''-'' @ drop (Suc (length w)) s" by metis
    with h show "\<exists>a. s = w @ ''-'' @ a \<and> stamped a"
      by (metis append_take_drop_id has_prefix_def)
  qed (auto simp: has_prefix_def)
  have "re_search name_re s \<longleftrightarrow>
      (\<exists>w \<in> {''smsie'', ''pre-restore''}. has_prefix s w \<and> has_prefix (drop (length w) s) ''-'' \<and> stamped (drop (Suc (length w)) s))"
    unfolding name_re_def r_seq.simps r_alts.simps re_search_bol
    by (simp add: re_lit re_stamp del: r_lit.simps)
  then show ?thesis unfolding dash by auto
qed

lemma prune_re_named: "re_search prune_re s \<Longrightarrow> re_search name_re s"
  by (auto simp: prune_re_iff name_re_iff)

lemma named_plain: "re_search name_re s \<Longrightarrow> c \<in> set s \<Longrightarrow> is_digit c \<or> c \<in> set ''smsie-pre-restore.db''"
  by (auto simp: name_re_iff stamped_def list_all_iff)

lemma tmp_not_named: "\<not> re_search name_re (s @ ''.tmp'')"
proof
  assume "re_search name_re (s @ ''.tmp'')"
  then obtain a where "s @ ''.tmp'' = a @ ''.db''"
    by (auto simp: name_re_iff stamped_def)
  then have "rev (s @ ''.tmp'') = rev (a @ ''.db'')" by simp
  then show False by simp
qed

subsection \<open>The order of the names\<close>

definition second_of :: "int \<Rightarrow> gtime \<Rightarrow> int" where
  "second_of tz t = (t + tz) div second_ns"

lemma format_stamp_text:
  "format_stamp tz t = date_text (second_of tz t div 86400) @ ''-'' @ clock_text (nat (second_of tz t mod 86400))"
proof -
  have d: "day_ns = second_ns * 86400" by (simp add: go_time)
  have "(t + tz) mod day_ns div second_ns = second_of tz t mod 86400"
    unfolding d second_of_def by (subst zmod_zmult2_eq) (simp_all add: second_ns_def del: div_mult_mod_eq)
  moreover have "day_of tz t = second_of tz t div 86400"
    unfolding day_of_def d second_of_def by (simp add: zdiv_zmult2_eq)
  ultimately show ?thesis
    by (simp add: format_stamp_def format_yyyymmdd_def date_text_def clock_text_def Let_def)
qed

lemma year_of_second: "year_of tz t = month_of_day (second_of tz t div 86400) div 12"
proof -
  have d: "day_ns = second_ns * 86400" by (simp add: go_time)
  show ?thesis unfolding year_of_def month_of_def day_of_def d second_of_def by (simp add: zdiv_zmult2_eq)
qed

lemma stamp_less:
  assumes "second_of tz t < second_of tz u" "four_digits (year_of tz t)" "four_digits (year_of tz u)"
  shows "format_stamp tz t < format_stamp tz u"
proof -
  let ?d = "second_of tz t div 86400" and ?e = "second_of tz u div 86400"
  have y: "four_digits (month_of_day ?d div 12)" "four_digits (month_of_day ?e div 12)"
    using assms(2,3) by (simp_all add: year_of_second)
  have "?d < ?e \<or> ?d = ?e \<and> second_of tz t mod 86400 < second_of tz u mod 86400"
    using int_div_mod_less [OF assms(1), of 86400] by simp
  then show ?thesis
  proof
    assume "?d < ?e"
    from date_text_less [OF this y] y show ?thesis
      by (simp add: format_stamp_text append_less_iff length_date_text)
  next
    assume "?d = ?e \<and> second_of tz t mod 86400 < second_of tz u mod 86400"
    then have same: "?d = ?e" and less: "second_of tz t mod 86400 < second_of tz u mod 86400" by blast+
    moreover have "0 \<le> second_of tz t mod 86400" "second_of tz u mod 86400 < 86400" by simp_all
    ultimately have "nat (second_of tz t mod 86400) < nat (second_of tz u mod 86400)" "nat (second_of tz u mod 86400) < 86400"
      using nat_mono_iff [of "second_of tz t mod 86400" "second_of tz u mod 86400"] by simp_all
    then have "clock_text (nat (second_of tz t mod 86400)) < clock_text (nat (second_of tz u mod 86400))" by (rule clock_text_less)
    then show ?thesis by (simp add: format_stamp_text append_less_iff same)
  qed
qed

lemma stamp_stamped: "four_digits (year_of tz t) \<Longrightarrow> stamped (format_stamp tz t @ ''.db'')"
  unfolding stamped_def format_stamp_text
  by (rule exI [of _ "date_text (second_of tz t div 86400)"], rule exI [of _ "clock_text (nat (second_of tz t mod 86400))"])
    (use length_date_text length_clock_text [of "nat (second_of tz t mod 86400)"] pos_mod_bound [of 86400 "second_of tz t"]
      in \<open>auto simp: year_of_second nat_less_iff\<close>)

subsection \<open>Listing and pruning\<close>

lemma descending_unique:
  fixes xs ys :: "'a::linorder list"
  assumes "sorted_wrt (>) xs" "sorted_wrt (>) ys" "set xs = set ys"
  shows "xs = ys"
proof -
  have "sorted_wrt (<) (rev xs)" "sorted_wrt (<) (rev ys)"
    using assms(1,2) by (simp_all add: sorted_wrt_rev)
  then have "rev xs = rev ys" using assms(3) by (intro strict_sorted_equal) simp_all
  then show ?thesis by simp
qed

lemma no_faults_plain [simp]: "no_faults l = None"
  by (simp add: no_faults_def)

lemma listed_names:
  assumes "be_io env = no_faults"
  shows "set (automatic_backups env dir) = {n \<in> fst ` set dir. re_search prune_re n}"
  using assms prune_re_named by (force simp: automatic_backups_def list_backups_def info_of_def)

lemma mset_sorted_names: "mset (map bi_name (sort_by lt (map info_of rows))) = mset (map fst rows)"
proof -
  have "map bi_name (map info_of rows) = map fst rows" by (simp add: info_of_def)
  then show ?thesis by (metis mset_map mset_sort_by)
qed

lemma descending_distinct: "sorted_wrt (>) xs \<Longrightarrow> distinct (xs :: 'a::linorder list)"
  by (induction xs) auto

lemma strictly_descending: "sorted_wrt (\<ge>) xs \<Longrightarrow> distinct xs \<Longrightarrow> sorted_wrt (>) (xs :: 'a::linorder list)"
  by (induction xs) (auto simp: less_le)

lemma listed_descending:
  assumes "distinct (map fst dir)"
  shows "sorted_wrt (>) (automatic_backups env dir)"
proof -
  let ?rows = "map info_of
      (filter (\<lambda>f. re_search name_re (fst f) \<and> be_io env (''info '' @ fst f) = None) dir)"
  let ?s = "sort_by (\<lambda>i j. bi_name i > bi_name j) ?rows"
  have "sorted_wrt (\<lambda>a b. \<not> bi_name b > bi_name a) ?s" by (rule sorted_sort_by) auto
  then have "sorted_wrt (\<ge>) (map bi_name ?s)" by (simp add: sorted_wrt_map not_less)
  moreover have "distinct (map bi_name ?s)"
  proof -
    have m: "mset (map bi_name ?s) = mset (map fst (filter (\<lambda>f. re_search name_re (fst f) \<and> be_io env (''info '' @ fst f) = None) dir))"
      by (rule mset_sorted_names)
    show ?thesis unfolding mset_eq_imp_distinct_iff [OF m] using assms by (rule distinct_map_filter)
  qed
  ultimately have "sorted_wrt (>) (map bi_name ?s)" by (rule strictly_descending)
  then show ?thesis
    by (simp add: automatic_backups_def list_backups_def sorted_wrt_filter)
qed

lemma map_of_without: "map_of (filter (\<lambda>f. P (fst f)) dir) n = (if P n then map_of dir n else None)"
  by (induction dir) auto

lemma map_of_put [simp]: "map_of (put_file name c t dir) n = (if n = name then Some (c, t) else map_of dir n)"
  using map_of_without [of "\<lambda>m. m \<noteq> name" dir n] by (simp add: put_file_def)

lemma names_put: "fst ` set (put_file name c t dir) = insert name (fst ` set dir)"
  by (auto simp: put_file_def)

lemma distinct_put: "distinct (map fst dir) \<Longrightarrow> distinct (map fst (put_file name c t dir))"
  by (auto simp: put_file_def distinct_map_filter)

lemma remove_file_plain:
  assumes "be_io env = no_faults"
  shows "fst (remove_file env name dir) = filter (\<lambda>f. fst f \<noteq> name) dir"
    and "snd (remove_file env name dir) \<longleftrightarrow> name \<in> fst ` set dir"
proof -
  show "fst (remove_file env name dir) = filter (\<lambda>f. fst f \<noteq> name) dir"
  proof (cases "map_of dir name")
    case None
    then have "filter (\<lambda>f. fst f \<noteq> name) dir = dir" by (intro filter_True) (force simp: map_of_eq_None_iff)
    with None show ?thesis unfolding remove_file_def by (simp only: simp_thms if_False fst_conv)
  qed (simp add: remove_file_def assms)
  show "snd (remove_file env name dir) \<longleftrightarrow> name \<in> fst ` set dir"
    using assms by (simp add: remove_file_def map_of_eq_None_iff)
qed

lemma remove_file_lookup:
  "remove_file env name dir = (dir', gone) \<Longrightarrow> map_of dir' n = (if gone \<and> n = name then None else map_of dir n)"
  using map_of_without [of "\<lambda>m. m \<noteq> name" dir n] by (auto simp: remove_file_def split: if_splits)

lemma remove_all_lookup:
  "remove_all_files env ns dir = (dir', gone) \<Longrightarrow>
     set gone \<subseteq> set ns \<and> map_of dir' n = (if n \<in> set gone then None else map_of dir n)"
proof (induction ns arbitrary: dir dir' gone)
  case (Cons m ns)
  obtain dir1 g where r: "remove_file env m dir = (dir1, g)" by fastforce
  obtain dir2 more where rs: "remove_all_files env ns dir1 = (dir2, more)" by fastforce
  from Cons.IH [OF rs] remove_file_lookup [OF r, of n] Cons.prems r rs show ?case
    by (auto split: if_splits)
qed simp

lemma remove_all_plain:
  assumes "be_io env = no_faults"
  shows "distinct ns \<Longrightarrow> set ns \<subseteq> fst ` set dir \<Longrightarrow> remove_all_files env ns dir = (filter (\<lambda>f. fst f \<notin> set ns) dir, ns)"
proof (induction ns arbitrary: dir)
  case (Cons n ns)
  have r: "remove_file env n dir = (filter (\<lambda>f. fst f \<noteq> n) dir, True)"
    using Cons.prems remove_file_plain [OF assms] by (simp add: prod_eq_iff)
  have "set ns \<subseteq> fst ` set (filter (\<lambda>f. fst f \<noteq> n) dir)" using Cons.prems by force
  then show ?case using Cons by (simp add: r conj_commute)
qed simp

text \<open>Pruning leaves the first of the listed names.\<close>

lemma prune_plain:
  assumes "be_io env = no_faults" "distinct (map fst dir)" "0 < keep"
  shows "prune_backups env keep dir =
      (filter (\<lambda>f. fst f \<notin> set (drop (nat keep) (automatic_backups env dir))) dir, drop (nat keep) (automatic_backups env dir))"
    and "automatic_backups env (fst (prune_backups env keep dir)) = take (nat keep) (automatic_backups env dir)"
proof -
  let ?a = "automatic_backups env dir"
  have sorted: "sorted_wrt (>) ?a" by (rule listed_descending [OF assms(2)])
  then have dist: "distinct ?a" by (rule descending_distinct)
  have sub: "set (drop (nat keep) ?a) \<subseteq> fst ` set dir"
    using listed_names [OF assms(1), of dir] set_drop_subset [of "nat keep" ?a] by blast
  show p: "prune_backups env keep dir = (filter (\<lambda>f. fst f \<notin> set (drop (nat keep) ?a)) dir, drop (nat keep) ?a)"
    using remove_all_plain [OF assms(1) _ sub] dist assms(3) by (simp add: prune_backups_def)
  show "automatic_backups env (fst (prune_backups env keep dir)) = take (nat keep) ?a"
  proof (rule descending_unique)
    have "distinct (map fst (filter P dir))" for P using assms(2) by (simp add: distinct_map_filter)
    then show "sorted_wrt (>) (automatic_backups env (fst (prune_backups env keep dir)))"
      unfolding p fst_conv by (rule listed_descending)
    show "sorted_wrt (>) (take (nat keep) ?a)" by (rule sorted_wrt_take [OF sorted])
    have "set (automatic_backups env (fst (prune_backups env keep dir))) = set ?a - set (drop (nat keep) ?a)"
      unfolding p fst_conv listed_names [OF assms(1)] by force
    also have "\<dots> = set (take (nat keep) ?a)"
      using dist set_take_disj_set_drop_if_distinct [of ?a "nat keep" "nat keep"] set_append [of "take (nat keep) ?a" "drop (nat keep) ?a"]
      by (simp del: set_append) blast
    finally show "set (automatic_backups env (fst (prune_backups env keep dir))) = set (take (nat keep) ?a)" .
  qed
qed

subsection \<open>One run\<close>

lemma vacuum_lookup:
  "vacuum_into env out name dir = (dir', r) \<Longrightarrow> n \<noteq> name \<Longrightarrow> map_of dir' n = map_of dir n"
  "vacuum_into env out name dir = (dir', Inr ()) \<Longrightarrow> \<exists>c. out = Inr c \<and> map_of dir' name = Some (c, be_written env)"
  by (auto simp: vacuum_into_def split: if_splits sum.splits prod.splits option.splits)

lemma prune_lookup:
  assumes "prune_backups env keep dir = (dir', gone)"
  shows "map_of dir' n = (if n \<in> set gone then None else map_of dir n)"
    and "n \<in> set gone \<Longrightarrow> re_search prune_re n \<and> 0 < keep"
proof -
  show "map_of dir' n = (if n \<in> set gone then None else map_of dir n)"
    using assms remove_all_lookup by (fastforce simp: prune_backups_def split: if_splits)
  assume "n \<in> set gone"
  then have "n \<in> set (automatic_backups env dir) \<and> 0 < keep"
    using assms remove_all_lookup in_set_dropD by (fastforce simp: prune_backups_def split: if_splits)
  then show "re_search prune_re n \<and> 0 < keep" by (simp add: automatic_backups_def)
qed

lemma rename_lookup:
  "rename_file env from to dir = Inr dir' \<Longrightarrow> from \<noteq> to \<Longrightarrow>
     map_of dir' n = (if n = to then map_of dir from else if n = from then None else map_of dir n)"
  using map_of_without [of "\<lambda>m. m \<noteq> from" dir n] by (auto simp: rename_file_def db_call_Inr_iff split: option.splits)

lemma checked_content:
  "integrity env (open_file env name dir) = Inr () \<Longrightarrow> map_of dir name = Some (c, t) \<Longrightarrow> integrity env (Inr c) = Inr ()"
proof -
  assume i: "integrity env (open_file env name dir) = Inr ()" and m: "map_of dir name = Some (c, t)"
  obtain c' where "open_file env name dir = Inr c'" using i by (cases "open_file env name dir") (simp_all add: integrity_def)
  moreover from this have "c' = c" using m by (auto simp: open_file_def dest: db_call_InrD)
  ultimately show ?thesis using i by simp
qed

text \<open>
  C29: whatever calls fail, a run changes no file but its own copy, its temporary file and the automatic
  copies it reports as removed, and what it puts under its name is a dump of the database that passed the
  check.
\<close>

theorem backup_run_safe:
  assumes "run_backup env path keep db dir = (dir', r)"
  shows "(\<forall>n. n = backup_name env \<or> n = backup_name env @ ''.tmp'' \<or> map_of dir' n = map_of dir n \<or>
            (\<exists>res. r = Inr res \<and> n \<in> set (br_pruned res) \<and> re_search prune_re n \<and> 0 < keep \<and> map_of dir' n = None)) \<and>
         (map_of dir' (backup_name env) = map_of dir (backup_name env) \<and> \<not> is_ok r \<or>
          (\<exists>c. be_dump env db = Inr c \<and> integrity env (Inr c) = Inr () \<and>
             (map_of dir' (backup_name env) = Some (c, be_written env) \<or>
              (\<exists>res. r = Inr res \<and> backup_name env \<in> set (br_pruned res)))))"
proof -
  let ?name = "backup_name env"
  let ?tmp = "?name @ ''.tmp''"
  obtain d1 g1 where r1: "remove_file env ?tmp dir = (d1, g1)" by fastforce
  obtain d2 v where v: "vacuum_into env (be_dump env db) ?tmp d1 = (d2, v)" by fastforce
  have d2: "n \<noteq> ?tmp \<Longrightarrow> map_of d2 n = map_of dir n" for n
    using vacuum_lookup(1) [OF v] remove_file_lookup [OF r1] by simp
  have away: "n \<noteq> ?tmp \<Longrightarrow> map_of (fst (remove_file env ?tmp d2)) n = map_of dir n" for n
    using remove_file_lookup [of env ?tmp d2 "fst (remove_file env ?tmp d2)" "snd (remove_file env ?tmp d2)" n] d2 by simp
  have nt: "?name \<noteq> ?tmp" by simp
  consider (none) "dir' = dir" "\<not> is_ok r" | (dump) "dir' = d2" "\<not> is_ok r"
    | (bad) "dir' = fst (remove_file env ?tmp d2)" "\<not> is_ok r"
    | (renamed) d3 where "v = Inr ()" "integrity env (open_file env ?tmp d2) = Inr ()" "rename_file env ?tmp ?name d2 = Inr d3"
      "dir' = d3 \<and> \<not> is_ok r \<or> (\<exists>res. r = Inr res \<and> prune_backups env keep d3 = (dir', br_pruned res))"
    using assms r1 v
    by (auto simp: run_backup_def Let_def split: option.splits sum.splits prod.splits)
  then show ?thesis
  proof cases
    case none
    then show ?thesis by simp
  next
    case dump
    then show ?thesis using d2 nt by auto
  next
    case bad
    then show ?thesis using away nt by auto
  next
    case renamed
    obtain c where c: "be_dump env db = Inr c" "map_of d2 ?tmp = Some (c, be_written env)"
      using vacuum_lookup(2) v renamed(1) by blast
    have ok: "integrity env (Inr c) = Inr ()" using checked_content [OF renamed(2) c(2)] .
    have d3: "map_of d3 n = (if n = ?name then Some (c, be_written env) else if n = ?tmp then None else map_of dir n)" for n
      using rename_lookup [OF renamed(3), of n] c(2) d2 [of n] by auto
    from renamed(4) show ?thesis
    proof
      assume "dir' = d3 \<and> \<not> is_ok r"
      then show ?thesis using d3 c(1) ok by simp
    next
      assume "\<exists>res. r = Inr res \<and> prune_backups env keep d3 = (dir', br_pruned res)"
      then obtain res where res: "r = Inr res" "prune_backups env keep d3 = (dir', br_pruned res)" by blast
      show ?thesis using prune_lookup [OF res(2)] d3 c(1) ok res(1) by auto
    qed
  qed
qed

subsection \<open>A sequence of runs\<close>

text \<open>Whether SQLite makes a copy that passes the check.\<close>

definition copy_made :: "backup_env \<Rightarrow> database \<Rightarrow> bool" where
  "copy_made env db \<longleftrightarrow> (\<exists>c. be_dump env db = Inr c \<and> integrity env (Inr c) = Inr ())"

lemma distinct_filter [simp]: "distinct (map fst dir) \<Longrightarrow> distinct (map fst (filter P dir))"
  by (rule distinct_map_filter)

lemma open_plain: "be_io env = no_faults \<Longrightarrow> map_of dir name = Some (c, t) \<Longrightarrow> open_file env name dir = Inr c"
  by (simp add: open_file_def)

lemma vacuum_plain:
  assumes "map_of dir name = None"
  shows "vacuum_into env (Inr c) name dir = (put_file name c (be_written env) dir, Inr ())"
    and "\<exists>dir' e. vacuum_into env (Inl x) name dir = (dir', Inl e) \<and> (distinct (map fst dir) \<longrightarrow> distinct (map fst dir'))"
  using assms by (auto simp: vacuum_into_def distinct_put split: option.split prod.split)

lemma run_failed:
  assumes "be_io env = no_faults" "\<not> copy_made env db" "distinct (map fst dir)"
  shows "\<exists>dir' e. run_backup env path keep db dir = (dir', Inl e) \<and> distinct (map fst dir') \<and>
           (\<forall>n. n \<noteq> backup_name env @ ''.tmp'' \<longrightarrow> map_of dir' n = map_of dir n)"
proof -
  let ?name = "backup_name env"
  let ?tmp = "?name @ ''.tmp''"
  let ?base = "filter (\<lambda>f. fst f \<noteq> ?tmp) dir"
  have free: "map_of ?base ?tmp = None" using map_of_without [of "\<lambda>m. m \<noteq> ?tmp" dir ?tmp] by simp
  have away: "n \<noteq> ?tmp \<Longrightarrow> map_of ?base n = map_of dir n" for n using map_of_without [of "\<lambda>m. m \<noteq> ?tmp" dir n] by simp
  show ?thesis
  proof (cases "be_dump env db")
    case (Inl x)
    obtain d2 e where v: "vacuum_into env (Inl x) ?tmp ?base = (d2, Inl e)" "distinct (map fst d2)"
      using vacuum_plain(2) [OF free] assms(3) by fastforce
    then have "run_backup env path keep db dir = (d2, Inl e)"
      by (simp add: run_backup_def Let_def assms(1) remove_file_plain(1) Inl)
    with v vacuum_lookup(1) [OF v(1)] away show ?thesis by auto
  next
    case (Inr c)
    let ?d2 = "put_file ?tmp c (be_written env) ?base"
    obtain e where "integrity env (Inr c) = Inl e"
      using assms(2) Inr by (cases "integrity env (Inr c)") (auto simp: copy_made_def)
    then have "run_backup env path keep db dir = (filter (\<lambda>f. fst f \<noteq> ?tmp) ?d2, Inl e)"
      by (simp add: run_backup_def Let_def assms(1) remove_file_plain(1) Inr vacuum_plain(1) [OF free] open_plain)
    moreover have "n \<noteq> ?tmp \<Longrightarrow> map_of (filter (\<lambda>f. fst f \<noteq> ?tmp) ?d2) n = map_of dir n" for n
      using map_of_without [of "\<lambda>m. m \<noteq> ?tmp" ?d2 n] away by simp
    ultimately show ?thesis using assms(3) by (simp add: distinct_put)
  qed
qed

lemma run_made:
  assumes "be_io env = no_faults" "copy_made env db" "distinct (map fst dir)"
  shows "\<exists>dir3 res. run_backup env path keep db dir = (fst (prune_backups env keep dir3), Inr res) \<and> distinct (map fst dir3) \<and>
           br_pruned res = snd (prune_backups env keep dir3) \<and>
           fst ` set dir3 = insert (backup_name env) (fst ` set dir - {backup_name env @ ''.tmp''})"
proof -
  let ?name = "backup_name env"
  let ?tmp = "?name @ ''.tmp''"
  let ?base = "filter (\<lambda>f. fst f \<noteq> ?tmp) dir"
  obtain c where c: "be_dump env db = Inr c" "integrity env (Inr c) = Inr ()" using assms(2) by (auto simp: copy_made_def)
  have free: "map_of ?base ?tmp = None" using map_of_without [of "\<lambda>m. m \<noteq> ?tmp" dir ?tmp] by simp
  let ?d3 = "put_file ?name c (be_written env) (filter (\<lambda>f. fst f \<noteq> ?tmp) (put_file ?tmp c (be_written env) ?base))"
  have "\<exists>res. run_backup env path keep db dir = (fst (prune_backups env keep ?d3), Inr res) \<and>
      br_pruned res = snd (prune_backups env keep ?d3)"
    using c by (simp add: run_backup_def assms(1) remove_file_plain(1) vacuum_plain(1) [OF free] open_plain rename_file_def
        split_def Let_def)
  moreover have "distinct (map fst ?d3)" using assms(3) by (intro distinct_put distinct_filter)
  moreover have "fst ` set ?d3 = insert ?name (fst ` set dir - {?tmp})" by (auto simp: put_file_def)
  ultimately show ?thesis by blast
qed

text \<open>The listed names depend on the files that are there only.\<close>

lemma listed_same:
  assumes "be_io a = no_faults" "be_io b = no_faults" "distinct (map fst dir)" "distinct (map fst dir')"
    "\<And>n. re_search prune_re n \<Longrightarrow> n \<in> fst ` set dir \<longleftrightarrow> n \<in> fst ` set dir'"
  shows "automatic_backups a dir = automatic_backups b dir'"
  using assms(5) by (intro descending_unique listed_descending assms(3,4)) (auto simp: listed_names assms(1,2))

lemma tmp_not_automatic: "\<not> re_search prune_re (s @ ''.tmp'')"
  using prune_re_named tmp_not_named by blast

lemma run_plain:
  assumes "be_io env = no_faults" "be_io e0 = no_faults" "distinct (map fst dir)" "0 < keep"
  shows "distinct (map fst (fst (run_backup env path keep db dir)))" (is ?d)
    and "\<not> copy_made env db \<Longrightarrow> automatic_backups e0 (fst (run_backup env path keep db dir)) = automatic_backups e0 dir" (is "_ \<Longrightarrow> ?f")
    and "copy_made env db \<Longrightarrow> re_search prune_re (backup_name env) \<Longrightarrow>
      \<forall>n \<in> set (automatic_backups e0 dir). n < backup_name env \<Longrightarrow>
      automatic_backups e0 (fst (run_backup env path keep db dir)) = take (nat keep) (backup_name env # automatic_backups e0 dir)"
      (is "_ \<Longrightarrow> _ \<Longrightarrow> _ \<Longrightarrow> ?m")
proof -
  have any: "automatic_backups e0 d = automatic_backups env d" for d
    using assms(1,2) by (simp add: automatic_backups_def list_backups_def)
  have failed: "?d \<and> ?f" if nc: "\<not> copy_made env db"
  proof -
    obtain dir' e where r: "run_backup env path keep db dir = (dir', Inl e)" "distinct (map fst dir')"
      "\<forall>n. n \<noteq> backup_name env @ ''.tmp'' \<longrightarrow> map_of dir' n = map_of dir n"
      using run_failed [OF assms(1) nc assms(3)] by blast
    have "n \<in> fst ` set dir' \<longleftrightarrow> n \<in> fst ` set dir" if "re_search prune_re n" for n
    proof -
      have "n \<noteq> backup_name env @ ''.tmp''" using that tmp_not_automatic by blast
      then have "map_of dir' n = map_of dir n" using r(3) by blast
      then show ?thesis by (metis map_of_eq_None_iff)
    qed
    then have "automatic_backups e0 dir' = automatic_backups e0 dir" by (rule listed_same [OF assms(2) assms(2) r(2) assms(3)])
    then show ?thesis unfolding r(1) fst_conv using r(2) by blast
  qed
  have made: "?d \<and> (re_search prune_re (backup_name env) \<longrightarrow> (\<forall>n \<in> set (automatic_backups e0 dir). n < backup_name env) \<longrightarrow> ?m)"
    if c: "copy_made env db"
  proof -
    obtain dir3 res where r: "run_backup env path keep db dir = (fst (prune_backups env keep dir3), Inr res)"
      "distinct (map fst dir3)" "fst ` set dir3 = insert (backup_name env) (fst ` set dir - {backup_name env @ ''.tmp''})"
      using run_made [OF assms(1) c assms(3), of path keep] by (elim exE conjE) (rule that)
    have "distinct (map fst (fst (prune_backups env keep dir3)))"
      unfolding prune_plain(1) [OF assms(1) r(2) assms(4)] fst_conv using r(2) by simp
    moreover have "automatic_backups env dir3 = backup_name env # automatic_backups env dir"
      if "re_search prune_re (backup_name env)" "\<forall>n \<in> set (automatic_backups env dir). n < backup_name env"
    proof (rule descending_unique)
      show "sorted_wrt (>) (automatic_backups env dir3)" by (rule listed_descending [OF r(2)])
      show "sorted_wrt (>) (backup_name env # automatic_backups env dir)"
        using listed_descending [OF assms(3)] that(2) by simp
      show "set (automatic_backups env dir3) = set (backup_name env # automatic_backups env dir)"
        using that(1) tmp_not_automatic by (auto simp: listed_names [OF assms(1)] r(3))
    qed
    ultimately show ?thesis using prune_plain(2) [OF assms(1) r(2) assms(4)] by (simp add: r(1) any)
  qed
  show ?d using failed made by blast
  show "\<not> copy_made env db \<Longrightarrow> ?f" using failed by blast
  show "copy_made env db \<Longrightarrow> re_search prune_re (backup_name env) \<Longrightarrow>
      \<forall>n \<in> set (automatic_backups e0 dir). n < backup_name env \<Longrightarrow> ?m" using made by blast
qed

lemma due_cons:
  "snd (fst (backup_scheduler faults notify cfg (map Backup_Due (env # envs)) (db, dir))) =
     snd (fst (backup_scheduler faults notify cfg (map Backup_Due envs)
       (fst (backup_once env faults notify cfg (db, dir)))))"
  by (simp add: split_def Let_def)

lemma once_dir: "snd (fst (backup_once env faults notify cfg (db, dir))) = fst (run_backup env (kc_dir cfg) (kc_keep cfg) db dir)"
  by (simp add: backup_once_def Let_def split: prod.split sum.split)

lemma stamp_length: "four_digits (year_of tz t) \<Longrightarrow> length (format_stamp tz t) = 15"
  using stamp_stamped [of tz t] by (simp add: stamped_take)

lemma backup_name_named: "four_digits (year_of (be_tz env) (be_now env)) \<Longrightarrow> re_search prune_re (backup_name env)"
  using stamp_stamped by (auto simp: prune_re_iff backup_name_def)

lemma backup_name_less:
  assumes "second_of tz (be_now a) < second_of tz (be_now b)" "be_tz a = tz" "be_tz b = tz"
    "four_digits (year_of tz (be_now a))" "four_digits (year_of tz (be_now b))"
  shows "backup_name a < backup_name b"
  using stamp_less [OF assms(1,4,5)] assms by (simp add: backup_name_def append_less_iff stamp_length)

declare no_faults_plain [simp del]

text \<open>
  C6: The scheduler runs at each of a series of instants, in different seconds. Then the automatic copies that
  are listed are the newest \<open>keep\<close> of those that were made, newest first, followed by those from before for as
  long as there is room; runs that fail remove nothing. That the files of the directory sort by the time
  they were made, which the code relies on, is part of the proof.
\<close>

theorem newest_backups_kept:
  assumes "be_io e0 = no_faults" and "0 < kc_keep cfg"
    and "distinct (map fst dir)"
    and "\<forall>env \<in> set envs. be_io env = no_faults \<and> be_tz env = tz \<and> four_digits (year_of tz (be_now env))"
    and "\<forall>env \<in> set envs. \<forall>db. copy_made env db = made env"
    and "sorted_wrt (\<lambda>a b. second_of tz (be_now a) < second_of tz (be_now b)) envs"
    and "\<forall>env \<in> set envs. \<forall>n \<in> set (automatic_backups e0 dir). n < backup_name env"
  shows "automatic_backups e0 (snd (fst (backup_scheduler faults notify cfg (map Backup_Due envs) (db, dir)))) =
           (if list_ex made envs
            then take (nat (kc_keep cfg)) (map backup_name (rev (filter made envs)) @ automatic_backups e0 dir)
            else automatic_backups e0 dir)"
  using assms(3-7)
proof (induction envs arbitrary: db dir)
  case (Cons env envs)
  let ?k = "nat (kc_keep cfg)"
  obtain db1 dir1 where s1: "fst (backup_once env faults notify cfg (db, dir)) = (db1, dir1)" by fastforce
  have dir1: "dir1 = fst (run_backup env (kc_dir cfg) (kc_keep cfg) db dir)"
    using once_dir [of env faults notify cfg db dir] s1 by simp
  have env: "be_io env = no_faults" "be_tz env = tz" "four_digits (year_of tz (be_now env))" "copy_made env db = made env"
    using Cons.prems(2,3) list.set_intros(1) [of env envs] by blast+
  note plain = run_plain [where path = "kc_dir cfg" and db = db, OF env(1) assms(1) Cons.prems(1) assms(2), folded dir1]
  have named: "re_search prune_re (backup_name env)" using env backup_name_named by simp
  have old: "\<forall>n \<in> set (automatic_backups e0 dir). n < backup_name env" using Cons.prems(5) by simp
  have auto1: "automatic_backups e0 dir1 = (if made env then take ?k (backup_name env # automatic_backups e0 dir) else automatic_backups e0 dir)"
    using plain(2,3) env(4) named old by simp
  have later: "backup_name env < backup_name e" if "e \<in> set envs" for e
    using that Cons.prems(2,4) env by (intro backup_name_less [where tz = tz]) auto
  have sub: "set (take ?k (backup_name env # automatic_backups e0 dir)) \<subseteq> insert (backup_name env) (set (automatic_backups e0 dir))"
    using set_take_subset [of ?k "backup_name env # automatic_backups e0 dir"] by simp
  have "\<forall>e \<in> set envs. \<forall>n \<in> set (automatic_backups e0 dir1). n < backup_name e"
    using Cons.prems(5) later sub unfolding auto1 by (cases "made env") fastforce+
  then have IH: "automatic_backups e0 (snd (fst (backup_scheduler faults notify cfg (map Backup_Due envs) (db1, dir1)))) =
       (if list_ex made envs then take ?k (map backup_name (rev (filter made envs)) @ automatic_backups e0 dir1)
        else automatic_backups e0 dir1)"
    using Cons.prems(2-4) by (intro Cons.IH [OF plain(1)]) simp_all
  show ?case unfolding due_cons s1 IH auto1
    by (cases "made env"; cases "list_ex made envs") (simp_all add: list_ex_iff filter_empty_conv)
qed simp

definition demo_backup :: "gtime \<Rightarrow> backup_env" where
  "demo_backup t = \<lparr> be_io = no_faults, be_tz = 7 * hour_ns, be_now = t, be_written = t, be_check = (\<lambda>_. Inr [''ok'']),
     be_dump = (\<lambda>_. Inr sql_magic), be_snapshot = (\<lambda>near. (Some (Inr sql_magic), near)) \<rparr>"

lemma demo_copy_made: "copy_made (demo_backup t) db"
  by (simp add: copy_made_def demo_backup_def integrity_def has_prefix_def)

definition demo_backup_cfg :: backup_config where
  "demo_backup_cfg = \<lparr> kc_enabled = True, kc_dir = ''backups'', kc_hour = 3, kc_keep = 2 \<rparr>"

definition demo_nights :: "gtime list" where
  "demo_nights = [20544 * day_ns + 20 * hour_ns, 20545 * day_ns + 20 * hour_ns, 20546 * day_ns + 20 * hour_ns]"

lemma demo_night_seconds:
  "map (second_of (7 * hour_ns)) demo_nights = [1775098800, 1775185200, 1775271600]"
  "list_all (\<lambda>t. four_digits (year_of (7 * hour_ns) t)) demo_nights"
  by code_simp+

theorem newest_backups_kept_witness:
  "automatic_backups (demo_backup 0) (snd (fst (backup_scheduler no_faults None demo_backup_cfg
       (map Backup_Due (map demo_backup demo_nights)) (empty_db, [])))) =
     [backup_name (demo_backup (demo_nights ! 2)), backup_name (demo_backup (demo_nights ! 1))]"
proof -
  have io: "be_io (demo_backup t) = no_faults" "be_tz (demo_backup t) = 7 * hour_ns" "be_now (demo_backup t) = t" for t
    by (simp_all add: demo_backup_def)
  have secs: "sorted_wrt (\<lambda>a b. second_of (7 * hour_ns) (be_now a) < second_of (7 * hour_ns) (be_now b)) (map demo_backup demo_nights)"
    using demo_night_seconds(1) by (simp add: demo_nights_def io)
  have none: "automatic_backups (demo_backup 0) [] = []" by (simp add: automatic_backups_def list_backups_def)
  have usable: "\<forall>env \<in> set (map demo_backup demo_nights). be_io env = no_faults \<and> be_tz env = 7 * hour_ns \<and>
      four_digits (year_of (7 * hour_ns) (be_now env))"
    using demo_night_seconds(2) by (auto simp: io list_all_iff)
  have made: "\<forall>env \<in> set (map demo_backup demo_nights). \<forall>db. copy_made env db = True"
    using demo_copy_made by auto
  have keep: "0 < kc_keep demo_backup_cfg" "nat (kc_keep demo_backup_cfg) = Suc (Suc 0)" by (simp_all add: demo_backup_cfg_def)
  have fresh: "\<forall>env \<in> set (map demo_backup demo_nights). \<forall>n \<in> set (automatic_backups (demo_backup 0) []). n < backup_name env"
    by (simp add: none)
  have "distinct (map fst ([] :: backup_dir))" by simp
  from newest_backups_kept [OF io(1) keep(1) this usable made secs fresh, of no_faults None empty_db]
  show ?thesis by (simp only: none keep(2)) (simp add: demo_nights_def del: backup_scheduler.simps)
qed

text \<open>
  C30: The name of an automatic copy made in a year of four digits is one that the listing shows and the
  download and restore requests accept, and no such name, whatever its source, leads out of the directory;
  of two copies the one made in a later second has the greater name.
\<close>

theorem backup_names:
  assumes "four_digits (year_of (be_tz env) (be_now env))"
  shows "re_search name_re (backup_name env) \<and> re_search prune_re (backup_name env) \<and>
         (four_digits (year_of (be_tz env) (be_now env')) \<and> be_tz env' = be_tz env \<and>
          second_of (be_tz env) (be_now env) < second_of (be_tz env) (be_now env') \<longrightarrow> backup_name env < backup_name env') \<and>
         (\<forall>n. re_search name_re n \<longrightarrow> CHR ''/'' \<notin> set n \<and> CHR 0x5C \<notin> set n \<and> n \<noteq> [] \<and> \<not> has_prefix n ''.'')"
proof (intro conjI allI impI)
  show p: "re_search prune_re (backup_name env)" using assms by (rule backup_name_named)
  then show "re_search name_re (backup_name env)" by (rule prune_re_named)
next
  assume "four_digits (year_of (be_tz env) (be_now env')) \<and> be_tz env' = be_tz env \<and>
      second_of (be_tz env) (be_now env) < second_of (be_tz env) (be_now env')"
  then show "backup_name env < backup_name env'" using assms by (intro backup_name_less [where tz = "be_tz env"]) auto
next
  fix n
  assume n: "re_search name_re n"
  show "CHR ''/'' \<notin> set n" using named_plain [OF n, of "CHR ''/''"] by (auto simp: is_digit_def less_eq_char_def)
  show "CHR 0x5C \<notin> set n" using named_plain [OF n, of "CHR 0x5C"] by (auto simp: is_digit_def less_eq_char_def)
  show "n \<noteq> []" "\<not> has_prefix n ''.''" using n by (auto simp: name_re_iff has_prefix_def)
qed

theorem backup_names_witness:
  "re_search prune_re (backup_name (demo_backup (demo_nights ! 0))) \<and>
   backup_name (demo_backup (demo_nights ! 0)) < backup_name (demo_backup (demo_nights ! 1))"
proof -
  have "be_tz (demo_backup t) = 7 * hour_ns" "be_now (demo_backup t) = t" for t by (simp_all add: demo_backup_def)
  then show ?thesis
    using demo_night_seconds backup_names [of "demo_backup (demo_nights ! 0)" "demo_backup (demo_nights ! 1)"]
    by (simp add: demo_nights_def)
qed

text \<open>The run of the first of those nights.\<close>

theorem backup_run_safe_witness:
  "map_of (fst (run_backup (demo_backup 0) [] 2 empty_db [(''smsie-20200101-000000.db'', [], 0)])) ''pre-restore'' = None"
proof -
  let ?r = "run_backup (demo_backup 0) [] 2 empty_db [(''smsie-20200101-000000.db'', [], 0)]"
  have "?r = (fst ?r, snd ?r)" by simp
  from backup_run_safe [OF this] show ?thesis
    by (elim conjE allE [of _ "''pre-restore''"]) (auto simp: backup_name_def)
qed

subsection \<open>Restoring\<close>

lemma near_distinct: "upload_suffix \<noteq> stage_suffix" "[] \<noteq> upload_suffix" "[] \<noteq> stage_suffix"
  "''-wal'' \<noteq> stage_suffix" "''-shm'' \<noteq> stage_suffix" "''-journal'' \<noteq> stage_suffix"
  by (simp_all add: upload_suffix_def stage_suffix_def)

lemma remove_near_effect:
  "bf_dir (remove_near env x fs) = bf_dir fs" "s \<noteq> x \<Longrightarrow> bf_near (remove_near env x fs) s = bf_near fs s"
  by (simp_all add: remove_near_def)

lemma write_upload_effect:
  assumes "write_upload env content fs = (fs', r)"
  shows "bf_dir fs' = bf_dir fs" "s \<noteq> upload_suffix \<Longrightarrow> bf_near fs' s = bf_near fs s"
    and "r = Answered code x \<Longrightarrow> \<exists>c. content = Inr c \<and> bf_near fs' upload_suffix = Some c"
  using assms by (auto simp: write_upload_def split: if_splits sum.splits)

lemma receive_effect:
  assumes "receive_restore env req fs = (fs', r)"
  shows "bf_dir fs' = bf_dir fs \<and> (s \<noteq> upload_suffix \<longrightarrow> bf_near fs' s = bf_near fs s)"
  using assms
  by (auto simp: receive_restore_def split: restore_request.splits option.splits if_splits sum.splits prod.splits
      dest: write_upload_effect(1,2))

lemma stage_effect:
  assumes "stage_restore env service fs = (fs', r)"
  shows "bf_dir fs' = bf_dir fs \<and> (s \<noteq> upload_suffix \<and> s \<noteq> stage_suffix \<longrightarrow> bf_near fs' s = bf_near fs s) \<and>
      (bf_near fs' stage_suffix = bf_near fs stage_suffix \<and> (\<exists>code e. r = Refused code e) \<or>
       (\<exists>c. bf_near fs upload_suffix = Some c \<and> bf_near fs' stage_suffix = Some c \<and> integrity env (Inr c) = Inr () \<and>
            r = Answered 202 service))"
proof (cases "integrity env (open_near env upload_suffix fs)")
  case (Inl e)
  then show ?thesis using assms by (auto simp: stage_restore_def)
next
  case (Inr x)
  then obtain c where c: "open_near env upload_suffix fs = Inr c" by (cases "open_near env upload_suffix fs") (simp_all add: integrity_def)
  then have u: "bf_near fs upload_suffix = Some c" by (auto simp: open_near_def dest: db_call_InrD split: option.splits)
  show ?thesis
    using assms Inr c u near_distinct
    by (auto simp: stage_restore_def rename_near_def db_call_def split: sum.splits option.splits)
qed

text \<open>
  Whatever the request is and whatever calls fail, a restore request leaves the database, the files
  beside it and the copies as they are; what it stages has passed the check, and it is answered with success
  exactly when it stages something.
\<close>

theorem restore_request_safe:
  "(\<forall>s. s = upload_suffix \<or> s = stage_suffix \<or> bf_near (fst (api_restore env driver actor service req fs)) s = bf_near fs s) \<and>
   bf_dir (fst (api_restore env driver actor service req fs)) = bf_dir fs \<and>
   ((\<exists>code e. snd (api_restore env driver actor service req fs) = Refused code e) \<and>
      bf_near (fst (api_restore env driver actor service req fs)) stage_suffix = bf_near fs stage_suffix \<or>
    (\<exists>c a. snd (api_restore env driver actor service req fs) = Answered 202 service \<and>
        bf_near (fst (api_restore env driver actor service req fs)) stage_suffix = Some c \<and> integrity env (Inr c) = Inr () \<and>
        actor = Some a \<and> is_admin (ac_user a)))"
proof (cases "sqlite_only driver actor")
  case (Some r)
  then show ?thesis by (cases r) (simp add: api_restore_def)
next
  case None
  then obtain a where a: "actor = Some a" "is_admin (ac_user a)" by (auto simp: sqlite_only_def split: if_splits option.splits)
  obtain fs1 r1 where r1: "receive_restore env req (remove_near env upload_suffix fs) = (fs1, r1)" by fastforce
  have fs1: "bf_dir fs1 = bf_dir fs" "s \<noteq> upload_suffix \<Longrightarrow> bf_near fs1 s = bf_near fs s" for s
    using receive_effect [OF r1, of s] by (simp_all add: remove_near_effect)
  show ?thesis
  proof (cases r1)
    case (Refused code e)
    then show ?thesis using None fs1 near_distinct by (auto simp: api_restore_def r1 remove_near_effect)
  next
    case (Answered code x)
    obtain fs2 r2 where r2: "stage_restore env service fs1 = (fs2, r2)" by fastforce
    have "api_restore env driver actor service req fs = (remove_near env upload_suffix fs2, r2)"
      using None Answered by (simp add: api_restore_def r1 r2)
    then have dir: "bf_dir (fst (api_restore env driver actor service req fs)) = bf_dir fs2"
      and reply: "snd (api_restore env driver actor service req fs) = r2"
      and near: "\<And>s. s \<noteq> upload_suffix \<Longrightarrow> bf_near (fst (api_restore env driver actor service req fs)) s = bf_near fs2 s"
      by (simp_all add: remove_near_effect)
    have same: "s \<noteq> upload_suffix \<Longrightarrow> s \<noteq> stage_suffix \<Longrightarrow> bf_near fs2 s = bf_near fs s" for s
      using stage_effect [OF r2, of s] fs1(2) by simp
    have "bf_dir fs2 = bf_dir fs" using stage_effect [OF r2] fs1(1) by simp
    moreover have "bf_near fs2 stage_suffix = bf_near fs stage_suffix \<and> (\<exists>code e. r2 = Refused code e) \<or>
       (\<exists>c. bf_near fs2 stage_suffix = Some c \<and> integrity env (Inr c) = Inr () \<and> r2 = Answered 202 service)"
      using stage_effect [OF r2] fs1(2) near_distinct(1) by metis
    ultimately show ?thesis unfolding dir reply using near same near_distinct(1) a by metis
  qed
qed

text \<open>What closing the database does to the files beside it: the database stays, and the staged file is not touched.\<close>

definition sqlite_tidy :: "backup_env \<Rightarrow> (string \<rightharpoonup> string) \<Rightarrow> bool" where
  "sqlite_tidy env near \<longleftrightarrow>
     snd (be_snapshot env near) [] \<noteq> None \<and> snd (be_snapshot env near) stage_suffix = near stage_suffix"

lemma copy_plain:
  assumes "be_io env = no_faults" "bf_near fs [] = Some c"
  shows "copy_file env dst fs = (fs\<lparr>bf_dir := put_file dst c (be_written env) (bf_dir fs)\<rparr>, Inr ())"
  using assms by (simp add: copy_file_def open_near_def no_faults_plain)

lemma keep_old_plain:
  assumes "be_io env = no_faults" "bf_near fs [] \<noteq> None \<longrightarrow> sqlite_tidy env (bf_near fs)"
  shows "\<exists>fs1. keep_old env fs = (fs1, Inr ()) \<and> bf_near fs1 stage_suffix = bf_near fs stage_suffix \<and>
      (\<forall>n. n \<noteq> pre_restore_name env \<longrightarrow> map_of (bf_dir fs1) n = map_of (bf_dir fs) n) \<and>
      (bf_near fs [] \<noteq> None \<longrightarrow> (\<exists>d. map_of (bf_dir fs1) (pre_restore_name env) = Some (d, be_written env) \<and>
         (fst (be_snapshot env (bf_near fs)) = Some (Inr d) \<or> snd (be_snapshot env (bf_near fs)) [] = Some d)))"
proof (cases "bf_near fs []")
  case None
  then show ?thesis by (simp add: keep_old_def stat_near_def)
next
  case (Some old)
  let ?pre = "pre_restore_name env"
  obtain out near where sn: "be_snapshot env (bf_near fs) = (out, near)" by fastforce
  obtain c where near: "near [] = Some c" "near stage_suffix = bf_near fs stage_suffix"
    using assms(2) Some sn by (auto simp: sqlite_tidy_def)
  have k: "keep_old env fs = snapshot env ?pre fs" using assms(1) Some by (simp add: keep_old_def stat_near_def no_faults_plain)
  show ?thesis
  proof (cases out)
    case None
    then have "snapshot env ?pre fs = (fs\<lparr>bf_near := near, bf_dir := put_file ?pre c (be_written env) (bf_dir fs)\<rparr>, Inr ())"
      using copy_plain [OF assms(1), of "fs\<lparr>bf_near := near\<rparr>" c] near by (simp add: snapshot_def sn)
    then show ?thesis using near Some by (simp add: k sn)
  next
    case (Some x)
    obtain dir v where v: "vacuum_into env x ?pre (bf_dir fs) = (dir, v)" by fastforce
    have dir: "n \<noteq> ?pre \<Longrightarrow> map_of dir n = map_of (bf_dir fs) n" for n using vacuum_lookup(1) [OF v] .
    show ?thesis
    proof (cases v)
      case (Inr u)
      then have "snapshot env ?pre fs = (\<lparr> bf_near = near, bf_dir = dir \<rparr>, Inr ())" using Some by (simp add: snapshot_def sn v)
      moreover obtain d where "x = Inr d" "map_of dir ?pre = Some (d, be_written env)"
        using vacuum_lookup(2) v Inr by (cases u) blast
      ultimately show ?thesis using Some dir near by (simp add: k sn)
    next
      case (Inl e)
      let ?fs = "\<lparr> bf_near = near, bf_dir = fst (remove_file env ?pre dir) \<rparr>"
      have "snapshot env ?pre fs = (?fs\<lparr>bf_dir := put_file ?pre c (be_written env) (bf_dir ?fs)\<rparr>, Inr ())"
        using copy_plain [OF assms(1), of ?fs c] near Some Inl by (simp add: snapshot_def sn v)
      moreover have "n \<noteq> ?pre \<Longrightarrow> map_of (fst (remove_file env ?pre dir)) n = map_of (bf_dir fs) n" for n
        using remove_file_lookup [of env ?pre dir "fst (remove_file env ?pre dir)" "snd (remove_file env ?pre dir)" n] dir by simp
      ultimately show ?thesis using near by (simp add: k sn)
    qed
  qed
qed

lemma clear_journals:
  assumes "be_io env = no_faults"
  shows "bf_near (fold (remove_near env) sufs fs) s = (if s \<in> set sufs then None else bf_near fs s)"
    and "bf_dir (fold (remove_near env) sufs fs) = bf_dir fs"
  using assms by (induction sufs arbitrary: fs) (auto simp: remove_near_def no_faults_plain)

lemma apply_plain:
  assumes "be_io env = no_faults" "bf_near fs stage_suffix = Some c" "integrity env (Inr c) = Inr ()"
    "bf_near fs [] \<noteq> None \<longrightarrow> sqlite_tidy env (bf_near fs)"
  shows "\<exists>fs'. apply_pending env fs = (fs', Inr True) \<and> bf_near fs' [] = Some c \<and> bf_near fs' stage_suffix = None \<and>
      (\<forall>s \<in> {''-wal'', ''-shm'', ''-journal''}. bf_near fs' s = None) \<and>
      (\<forall>n. n \<noteq> pre_restore_name env \<longrightarrow> map_of (bf_dir fs') n = map_of (bf_dir fs) n) \<and>
      (bf_near fs [] \<noteq> None \<longrightarrow> (\<exists>d. map_of (bf_dir fs') (pre_restore_name env) = Some (d, be_written env) \<and>
         (fst (be_snapshot env (bf_near fs)) = Some (Inr d) \<or> snd (be_snapshot env (bf_near fs)) [] = Some d)))"
proof -
  obtain fs1 where k: "keep_old env fs = (fs1, Inr ())" "bf_near fs1 stage_suffix = bf_near fs stage_suffix"
    and rest: "\<forall>n. n \<noteq> pre_restore_name env \<longrightarrow> map_of (bf_dir fs1) n = map_of (bf_dir fs) n"
      "bf_near fs [] \<noteq> None \<longrightarrow> (\<exists>d. map_of (bf_dir fs1) (pre_restore_name env) = Some (d, be_written env) \<and>
         (fst (be_snapshot env (bf_near fs)) = Some (Inr d) \<or> snd (be_snapshot env (bf_near fs)) [] = Some d))"
    using keep_old_plain [OF assms(1,4)] by blast
  let ?fs2 = "fold (remove_near env) [''-wal'', ''-shm'', ''-journal''] fs1"
  let ?fs3 = "?fs2\<lparr>bf_near := (bf_near ?fs2)(stage_suffix := None, [] := Some c)\<rparr>"
  have st: "stage_suffix \<notin> set [''-wal'', ''-shm'', ''-journal'']" using near_distinct by auto
  have "bf_near ?fs2 stage_suffix = Some c"
    unfolding clear_journals(1) [OF assms(1)] using st k(2) assms(2) by simp
  then have "rename_near env stage_suffix [] ?fs2 = Inr ?fs3" using assms(1) by (simp add: rename_near_def no_faults_plain)
  moreover have "stat_near env stage_suffix fs" "open_near env stage_suffix fs = Inr c"
    using assms(1,2) by (simp_all add: stat_near_def open_near_def no_faults_plain)
  ultimately have a: "apply_pending env fs = (?fs3, Inr True)"
    using assms(3) k(1) by (simp add: apply_pending_def Let_def)
  have "bf_near ?fs3 s = None" if "s \<in> {''-wal'', ''-shm'', ''-journal''}" for s
    using that clear_journals(1) [OF assms(1), of "[''-wal'', ''-shm'', ''-journal'']" fs1 s] near_distinct by auto
  then show ?thesis
    unfolding a using rest clear_journals(2) [OF assms(1), of "[''-wal'', ''-shm'', ''-journal'']" fs1] near_distinct
    by (intro exI [of _ ?fs3]) simp
qed

text \<open>
  C31: A restore request that names a copy and is answered with success is put in place by the next start:
  the database is then the content of that copy, nothing is staged any more, no journal of the old database
  is left beside it, and the directory of copies has gained the old database, as SQLite dumps it or as it
  is, and lost nothing else.
\<close>

theorem restore_roundtrip:
  assumes "be_io env = no_faults" and "be_io start = no_faults" and "be_check start = be_check env"
    and "api_restore env driver actor service (Named (Some name)) fs = (fs1, Answered code restarts)"
    and "bf_near fs [] \<noteq> None \<longrightarrow> sqlite_tidy start (bf_near fs1)"
  shows "\<exists>c t fs2. map_of (bf_dir fs) name = Some (c, t) \<and> apply_pending start fs1 = (fs2, Inr True) \<and>
      bf_near fs2 [] = Some c \<and> bf_near fs2 stage_suffix = None \<and>
      (\<forall>s \<in> {''-wal'', ''-shm'', ''-journal''}. bf_near fs2 s = None) \<and>
      (\<forall>n. n \<noteq> pre_restore_name start \<longrightarrow> map_of (bf_dir fs2) n = map_of (bf_dir fs) n) \<and>
      (bf_near fs [] \<noteq> None \<longrightarrow> (\<exists>d. map_of (bf_dir fs2) (pre_restore_name start) = Some (d, be_written start) \<and>
         (fst (be_snapshot start (bf_near fs1)) = Some (Inr d) \<or> snd (be_snapshot start (bf_near fs1)) [] = Some d)))"
proof -
  let ?fs0 = "remove_near env upload_suffix fs"
  have ok: "sqlite_only driver actor = None" using assms(4) by (auto simp: api_restore_def split: option.splits)
  obtain fsa r1 where r1: "receive_restore env (Named (Some name)) ?fs0 = (fsa, r1)" by fastforce
  obtain code1 x where x: "r1 = Answered code1 x"
    using assms(4) ok r1 by (cases r1) (auto simp: api_restore_def)
  obtain fsb r2 where r2: "stage_restore env service fsa = (fsb, r2)" by fastforce
  have fs1: "fs1 = remove_near env upload_suffix fsb" "r2 = Answered code restarts"
    using assms(4) ok r1 x r2 by (simp_all add: api_restore_def)
  obtain c where c: "open_file env name (bf_dir ?fs0) = Inr c" and w: "write_upload env (Inr c) ?fs0 = (fsa, r1)"
    using r1 x assms(1) by (auto simp: receive_restore_def no_faults_plain split: if_splits sum.splits)
  then obtain t where t: "map_of (bf_dir fs) name = Some (c, t)"
    by (auto simp: open_file_def remove_near_effect split: option.splits dest: db_call_InrD)
  have up: "bf_near fsa upload_suffix = Some c" using write_upload_effect(3) [OF w x] by simp
  have staged: "bf_near fsb stage_suffix = Some c" "integrity env (Inr c) = Inr ()"
    using stage_effect [OF r2] up fs1(2) by auto
  have same: "bf_dir fs1 = bf_dir fs" "bf_near fs1 [] = bf_near fs []"
    using stage_effect [OF r2, of "[]"] write_upload_effect(1) [OF w] write_upload_effect(2) [OF w, of "[]"] near_distinct by (simp_all add: fs1(1) remove_near_effect)
  have st: "bf_near fs1 stage_suffix = Some c" using staged(1) near_distinct(1) by (simp add: fs1(1) remove_near_effect)
  have i: "integrity start (Inr c) = Inr ()" using staged(2) assms(3) by (simp only: integrity_def)
  from apply_plain [OF assms(2) st i] assms(5) same t show ?thesis by auto
qed

definition demo_files :: backup_files where
  "demo_files = \<lparr> bf_near = [[] \<mapsto> ''old'', ''-wal'' \<mapsto> ''log''],
     bf_dir = [(''smsie-20260402-030000.db'', sql_magic @ ''new'', 5)] \<rparr>"

theorem restore_roundtrip_witness:
  "\<exists>fs2. apply_pending (demo_backup 9) (fst (api_restore (demo_backup 7) [] (Some \<lparr> ac_user = demo_admin, ac_key = None \<rparr>) False
       (Named (Some ''smsie-20260402-030000.db'')) demo_files)) = (fs2, Inr True) \<and>
     bf_near fs2 [] = Some (sql_magic @ ''new'') \<and> bf_near fs2 ''-wal'' = None \<and>
     (\<exists>d. map_of (bf_dir fs2) (pre_restore_name (demo_backup 9)) = Some (d, 9))"
proof -
  let ?actor = "Some \<lparr> ac_user = demo_admin, ac_key = None \<rparr> :: actor option"
  let ?req = "Named (Some ''smsie-20260402-030000.db'')"
  let ?r = "api_restore (demo_backup 7) [] ?actor False ?req demo_files"
  have "snd ?r = Answered 202 False" by code_simp
  then have r: "?r = (fst ?r, Answered 202 False)" by (metis prod.collapse)
  have "be_io (demo_backup t) = no_faults" "be_check (demo_backup t) = be_check (demo_backup u)" for t u
    by (simp_all add: demo_backup_def)
  note env = this
  have "bf_near (fst ?r) [] = Some ''old''" by code_simp
  then have tidy: "bf_near demo_files [] \<noteq> None \<longrightarrow> sqlite_tidy (demo_backup 9) (bf_near (fst ?r))"
    by (simp add: sqlite_tidy_def demo_backup_def)
  have "map_of (bf_dir demo_files) ''smsie-20260402-030000.db'' = Some (sql_magic @ ''new'', 5)" by code_simp
  moreover have "bf_near demo_files [] \<noteq> None" "be_written (demo_backup 9) = 9" by (simp_all add: demo_files_def demo_backup_def)
  ultimately show ?thesis
    using restore_roundtrip [OF env(1) env(1) env(2) r tidy] by (elim exE conjE) auto
qed

end
