(* ===== verification/Service_Api.thy ===== *)
theory Service_Api
  imports Modem_Api Balance_Properties Keepalive_Properties Sim_Health Report Date_Text
begin

text \<open>
  The handlers of the services: \<open>bay_handler.go\<close>, \<open>balance_handler.go\<close>, \<open>keepalive_handler.go\<close>,
  \<open>sim_health_handler.go\<close>, \<open>report_handler.go\<close> and \<open>audit_handler.go\<close> of \<open>internal/api\<close>. A query
  parameter is its text, if it is given; a body is what binding it gives. What a handler starts in the
  background is done when the handler answers.
\<close>

subsection \<open>Query parameters\<close>

text \<open>The value of \<open>strconv.Atoi\<close> whose error is thrown away: 0, or the nearest integer when it is out of range.\<close>

definition atoi_value :: "string \<Rightarrow> int" where
  "atoi_value s =
     (case go_atoi s of
        Some n \<Rightarrow> n
      | None \<Rightarrow>
          (let (neg, body) = (case s of [] \<Rightarrow> (False, [])
                         | c # r \<Rightarrow> if c = CHR ''-'' then (True, r)
                                    else if c = CHR ''+'' then (False, r) else (False, s))
           in case parse_digits body of None \<Rightarrow> 0 | Some _ \<Rightarrow> if neg then min_int64 else max_int64))"

definition default_query :: "string option \<Rightarrow> string \<Rightarrow> string" where
  "default_query q d = (case q of None \<Rightarrow> d | Some s \<Rightarrow> s)"

definition page_param :: "string option \<Rightarrow> int" where
  "page_param q = atoi_value (default_query q ''1'')"

definition page_size_param :: "string option \<Rightarrow> int" where
  "page_size_param q = min 500 (atoi_value (default_query q ''50''))"

text \<open>\<open>time.ParseInLocation\<close> with the layouts \<open>2006-01-02\<close> and \<open>2006-01\<close>.\<close>

definition month_length :: "int \<Rightarrow> int" where
  "month_length k = month_day0 (k + 1) - month_day0 k"

definition parse_month_no :: "string \<Rightarrow> int option" where
  "parse_month_no s =
     (let y = take 4 s; m = digits_val (drop 5 s)
      in if length s = 7 \<and> list_all is_digit y \<and> s ! 4 = CHR ''-'' \<and> list_all is_digit (drop 5 s) \<and> 1 \<le> m \<and> m \<le> 12
         then Some (12 * digits_val y + m - 1) else None)"

definition parse_month :: "int \<Rightarrow> string \<Rightarrow> gtime option" where
  "parse_month tz s = map_option (\<lambda>k. month_day0 k * day_ns - tz) (parse_month_no s)"

definition parse_date :: "int \<Rightarrow> string \<Rightarrow> gtime option" where
  "parse_date tz s =
     (case parse_month_no (take 7 s) of
        None \<Rightarrow> None
      | Some k \<Rightarrow>
          (let d = digits_val (drop 8 s)
           in if length s = 10 \<and> s ! 7 = CHR ''-'' \<and> list_all is_digit (drop 8 s) \<and> 1 \<le> d \<and> d \<le> month_length k
              then Some ((month_day0 k + d - 1) * day_ns - tz) else None))"

text \<open>
  The range of days: both parameters are looked at in the order in which Go walks the map that names them;
  \<open>to_first\<close> is that order. The last day is included.
\<close>

definition day_param :: "int \<Rightarrow> string \<Rightarrow> string option \<Rightarrow> (gtime option) result" where
  "day_param tz name q =
     (case q of None \<Rightarrow> Inr None
      | Some s \<Rightarrow> if s = [] then Inr None
          else (case parse_date tz s of None \<Rightarrow> Inl (name @ '' must be YYYY-MM-DD'') | Some t \<Rightarrow> Inr (Some t)))"

definition day_range :: "int \<Rightarrow> bool \<Rightarrow> string option \<Rightarrow> string option \<Rightarrow> (gtime option \<times> gtime option) result" where
  "day_range tz to_first from to =
     (if to_first
      then and_then (day_param tz ''to'' to) (\<lambda>b. and_then (day_param tz ''from'' from) (\<lambda>a. Inr (a, b)))
      else and_then (day_param tz ''from'' from) (\<lambda>a. and_then (day_param tz ''to'' to) (\<lambda>b. Inr (a, b))))"

record 'a listing =
  ls_data :: "'a list"
  ls_total :: nat
  ls_page :: int
  ls_page_size :: int

definition listed :: "string \<Rightarrow> int \<Rightarrow> int \<Rightarrow> ('a list \<times> nat) result \<Rightarrow> 'a listing reply" where
  "listed failed page n r =
     (case r of Inl _ \<Rightarrow> Refused 500 failed
      | Inr (rows, k) \<Rightarrow> Answered 200 \<lparr> ls_data = rows, ls_total = k, ls_page = page, ls_page_size = n \<rparr>)"

subsection \<open>Who may ask\<close>

text \<open>The check of the handlers for administrators: no actor is refused in the same way.\<close>

definition admin_or_403 :: "string \<Rightarrow> actor option \<Rightarrow> 's \<Rightarrow> ('s \<Rightarrow> 's \<times> 'a reply) \<Rightarrow> 's \<times> 'a reply" where
  "admin_or_403 msg actor s h =
     (case actor of None \<Rightarrow> (s, Refused 403 msg) | Some a \<Rightarrow> if is_admin (ac_user a) then h s else (s, Refused 403 msg))"

definition admin_msg :: string where "admin_msg = ''Admin access required''"

text \<open>The check of the lists that a user sees in part; the handler goes on with the SIMs that are allowed.\<close>

definition viewer ::
    "faults \<Rightarrow> database \<Rightarrow> actor option \<Rightarrow> 's \<Rightarrow> (user \<Rightarrow> string list \<Rightarrow> 's \<times> 'a reply) \<Rightarrow> 's \<times> 'a reply" where
  "viewer faults db actor s h =
     (case actor of None \<Rightarrow> (s, Refused 401 ''Unauthorized'')
      | Some a \<Rightarrow>
          if \<not> permission_flag_from_key (ac_key a) perm_view_sms then (s, Refused 403 ''API key permission denied'')
          else (case allowed_iccids_for_permission faults db (ac_user a) perm_view_sms of
                  Inl _ \<Rightarrow> (s, Refused 500 ''permission check failed'') | Inr allowed \<Rightarrow> h (ac_user a) allowed))"

definition visible :: "user \<Rightarrow> string list \<Rightarrow> ('a \<Rightarrow> string) \<Rightarrow> 'a list \<Rightarrow> 'a list" where
  "visible u allowed iccid items =
     (if \<not> is_admin u \<and> \<not> has_wildcard_iccid allowed then filter (\<lambda>it. iccid it \<in> set allowed) items else items)"

subsection \<open>Bays\<close>

record bay_view =
  bv_bay :: modem_bay
  bv_phone_number :: string
  bv_operator :: string
  bv_balance_vnd :: int
  bv_balance_updated_at :: "gtime option"
  bv_port_name :: string
  bv_signal_strength :: int
  bv_status :: string
  bv_last_event_at :: "gtime option"

definition last_event_at :: "faults \<Rightarrow> database \<Rightarrow> string \<Rightarrow> gtime option" where
  "last_event_at faults db iccid =
     db_or faults ''bays.events'' None
       (map_option e_detected_at (find_last (\<lambda>e. e_event e \<noteq> SlotEventRemoved \<and> e_iccid e = iccid) (t_slot_events db)))"

definition bay_view_of :: "faults \<Rightarrow> (string \<Rightarrow> worker option) \<Rightarrow> database \<Rightarrow> modem_bay \<Rightarrow> bay_view" where
  "bay_view_of faults wk db b =
     (let v = \<lparr> bv_bay = b, bv_phone_number = [], bv_operator = [], bv_balance_vnd = 0, bv_balance_updated_at = None,
                bv_port_name = [], bv_signal_strength = 0, bv_status = ''empty'', bv_last_event_at = None \<rparr>;
          iccid = b_current_iccid b
      in if iccid = [] then v
         else
           let v1 = v\<lparr>bv_status := ''offline''\<rparr>;
               v2 = (case find_last (\<lambda>m. m_iccid m = iccid) (db_or faults ''bays.modems'' [] (t_modems db)) of
                       None \<Rightarrow> v1
                     | Some m \<Rightarrow> v1\<lparr>bv_phone_number := m_phone_number m, bv_balance_vnd := m_balance_vnd m,
                                    bv_balance_updated_at := m_balance_updated_at m\<rparr>);
               v3 = (case and_then (case wk iccid of None \<Rightarrow> Inl () | Some w \<Rightarrow> Inr w)
                              (\<lambda>w. case worker_runtime w of None \<Rightarrow> Inl () | Some rt \<Rightarrow> Inr rt) of
                       Inl _ \<Rightarrow> v2
                     | Inr rt \<Rightarrow> v2\<lparr>bv_status := rt_status rt, bv_operator := rt_operator rt, bv_port_name := rt_port_name rt,
                                     bv_signal_strength := rt_signal_strength rt\<rparr>)
           in v3\<lparr>bv_last_event_at := last_event_at faults db iccid\<rparr>)"

definition api_bays :: "faults \<Rightarrow> (string \<Rightarrow> worker option) \<Rightarrow> actor option \<Rightarrow> database \<Rightarrow> bay_view list reply" where
  "api_bays faults wk actor db =
     snd (viewer faults db actor () (\<lambda>u allowed. ((),
       case db_call faults ''bays.list'' (list_bays db) of
         Inl _ \<Rightarrow> Refused 500 ''Failed to list bays''
       | Inr bays \<Rightarrow>
           Answered 200 (map (bay_view_of faults wk db)
             (filter (\<lambda>b. b_current_iccid b = [] \<or> can_see u allowed (b_current_iccid b)) bays)))))"

text \<open>The body of an assignment is the slot it names, if any.\<close>

definition api_assign_bay ::
    "faults \<Rightarrow> actor option \<Rightarrow> string \<Rightarrow> int option result \<Rightarrow> database \<Rightarrow> database \<times> modem_bay option reply" where
  "api_assign_bay faults actor raw_imei req db =
     admin_or_403 admin_msg actor db (\<lambda>db.
       let imei = trim_space raw_imei
       in case req of
            Inl _ \<Rightarrow> (db, Refused 400 ''Invalid bay data'')
          | Inr slot \<Rightarrow>
              if (case slot of None \<Rightarrow> False | Some n \<Rightarrow> n < 1 \<or> n > 32)
              then (db, Refused 400 ''slot_number must be between 1 and 32'')
              else case assign_slot faults imei slot db of
                Inl e \<Rightarrow>
                  (db, if e = err_slot_taken then Refused 409 ''slot already assigned to another modem''
                       else if e = err_record_not_found then Refused 404 ''Modem bay not found''
                       else Refused 500 ''Failed to assign slot'')
              | Inr db' \<Rightarrow> (db', Answered 200 (db_or faults ''bays.first'' None (find_bay db' imei))))"

record event_request =
  er_iccid :: string
  er_slot :: string
  er_from :: "string option"
  er_to :: "string option"
  er_page :: "string option"
  er_page_size :: "string option"

definition api_slot_events ::
    "faults \<Rightarrow> int \<Rightarrow> bool \<Rightarrow> actor option \<Rightarrow> event_request \<Rightarrow> database \<Rightarrow> sim_slot_event listing reply" where
  "api_slot_events faults tz to_first actor r db =
     (let iccid = trim_space (er_iccid r);
          denied = (if iccid \<noteq> []
                    then (case actor_can_access faults db actor iccid perm_view_sms of
                            Granted \<Rightarrow> None | Denied code e \<Rightarrow> Some (code, e))
                    else (case actor of Some a \<Rightarrow> if is_admin (ac_user a) then None
                                                  else Some (403, ''Admin access required to list all slot events'')
                          | None \<Rightarrow> Some (403, ''Admin access required to list all slot events'')))
      in case denied of
           Some (code, e) \<Rightarrow> Refused code e
         | None \<Rightarrow>
             if er_slot r \<noteq> [] \<and> go_atoi (er_slot r) = None then Refused 400 ''slot must be a number''
             else case day_range tz to_first (er_from r) (er_to r) of
               Inl e \<Rightarrow> Refused 400 e
             | Inr (a, b) \<Rightarrow>
                 let f = \<lparr> f_iccid = iccid, f_slot = (if er_slot r = [] then None else go_atoi (er_slot r)), f_from = a,
                           f_to = map_option (\<lambda>t. time_add t (24 * hour_ns)) b,
                           f_page = page_param (er_page r), f_page_size = page_size_param (er_page_size r) \<rparr>
                 in listed ''Failed to list slot events'' (f_page f) (f_page_size f) (list_events faults f db))"

subsection \<open>Balances\<close>

definition api_balance_status ::
    "faults \<Rightarrow> clock \<Rightarrow> balance_config \<Rightarrow> actor option \<Rightarrow> world \<Rightarrow> world \<times> status_item list reply" where
  "api_balance_status faults clk cfg actor w =
     viewer faults (wd_db w) actor w (\<lambda>u allowed.
       case balance_status faults clk cfg w of
         (w', Inl _) \<Rightarrow> (w', Refused 500 ''Failed to evaluate balance'')
       | (w', Inr items) \<Rightarrow> (w', Answered 200 (visible u allowed it_iccid items)))"

definition api_balance_alerts ::
    "faults \<Rightarrow> actor option \<Rightarrow> string option \<Rightarrow> string option \<Rightarrow> database \<Rightarrow> balance_alert listing reply" where
  "api_balance_alerts faults actor page n db =
     snd (admin_or_403 admin_msg actor () (\<lambda>s. (s,
       listed ''Failed to list balance alerts'' (page_param page) (page_size_param n)
         (list_balance_alerts faults (page_param page) (page_size_param n) db))))"

text \<open>
  The answer is the number of modems that will be asked. The requests go to the modems; what they answer
  later is not part of the state here, so the evaluation is what the background work does to it.
\<close>

definition api_balance_run ::
    "faults \<Rightarrow> clock \<Rightarrow> balance_config \<Rightarrow> runtime_modem option list \<Rightarrow> actor option \<Rightarrow> bool \<Rightarrow> string \<Rightarrow> world \<Rightarrow>
     world \<times> nat reply" where
  "api_balance_run faults clk cfg ws actor body_force query_force w =
     admin_or_403 admin_msg actor w (\<lambda>w.
       let force = (body_force \<or> query_force = ''1'');
           chosen = eligible faults force (world_now clk w) (wd_db w) ws
       in (fst (balance_evaluate faults clk cfg (tick w)), Answered 202 (length chosen)))"

subsection \<open>Keep-alive\<close>

record keepalive_status_reply =
  ks_enabled :: bool
  ks_run_hour :: int
  ks_interval_days :: int
  ks_max_per_month :: int
  ks_items :: "ka_item list"

definition api_keepalive_status ::
    "faults \<Rightarrow> int \<Rightarrow> clock \<Rightarrow> keepalive_config \<Rightarrow> (string \<Rightarrow> runtime_modem option) \<Rightarrow> actor option \<Rightarrow> world \<Rightarrow>
     world \<times> keepalive_status_reply reply" where
  "api_keepalive_status faults tz clk cfg online actor w =
     viewer faults (wd_db w) actor w (\<lambda>u allowed.
       case ka_collect faults tz clk cfg online w of
         (w', Inl _) \<Rightarrow> (w', Refused 500 ''Failed to collect keepalive status'')
       | (w', Inr items) \<Rightarrow>
           (w', Answered 200 \<lparr> ks_enabled = ac_enabled cfg, ks_run_hour = ac_run_hour cfg,
              ks_interval_days = ac_interval_days cfg, ks_max_per_month = ac_max_per_month cfg,
              ks_items = visible u allowed ki_iccid items \<rparr>))"

definition api_keepalive_runs ::
    "faults \<Rightarrow> actor option \<Rightarrow> string \<Rightarrow> string option \<Rightarrow> string option \<Rightarrow> database \<Rightarrow> keepalive_run listing reply" where
  "api_keepalive_runs faults actor iccid page n db =
     snd (admin_or_403 admin_msg actor () (\<lambda>s. (s,
       listed ''Failed to list keepalive runs'' (page_param page) (page_size_param n)
         (list_runs faults iccid (page_param page) (page_size_param n) db))))"

datatype keepalive_answer = Runs_Started | Run_Done "keepalive_run option"

text \<open>A body that cannot be bound names no SIM, and so starts a run over all of them.\<close>

definition api_keepalive_run ::
    "faults \<Rightarrow> int \<Rightarrow> clock \<Rightarrow> renderer \<Rightarrow> sender \<Rightarrow> keepalive_config \<Rightarrow> (string \<Rightarrow> runtime_modem option) \<Rightarrow> actor option \<Rightarrow>
     string \<Rightarrow> world \<Rightarrow> world \<times> keepalive_answer reply" where
  "api_keepalive_run faults tz clk render send cfg online actor iccid w =
     admin_or_403 admin_msg actor w (\<lambda>w.
       if \<not> ac_enabled cfg then (w, Refused 409 err_ka_disabled)
       else if iccid = [] then (fst (run_all faults tz clk render send cfg online (\<lambda>_. False) w), Answered 202 Runs_Started)
       else case run_now faults tz clk render send cfg online iccid True w of
         (w', Inl e) \<Rightarrow> (w', if e = err_record_not_found then Refused 404 ''Modem not found'' else Refused 400 e)
       | (w', Inr r) \<Rightarrow> (w', Answered 200 (Run_Done r)))"

subsection \<open>SIM health\<close>

definition api_health_status ::
    "faults \<Rightarrow> int \<Rightarrow> clock \<Rightarrow> sim_health_config \<Rightarrow> (string \<Rightarrow> runtime_modem option) \<Rightarrow> actor option \<Rightarrow> world \<Rightarrow>
     world \<times> health_item list reply" where
  "api_health_status faults tz clk cfg online actor w =
     viewer faults (wd_db w) actor w (\<lambda>u allowed.
       case health_collect faults tz clk cfg online w of
         (w', Inl _) \<Rightarrow> (w', Refused 500 ''Failed to evaluate SIM health'')
       | (w', Inr items) \<Rightarrow> (w', Answered 200 (visible u allowed th_iccid items)))"

definition api_sim_alerts ::
    "faults \<Rightarrow> actor option \<Rightarrow> string option \<Rightarrow> string option \<Rightarrow> database \<Rightarrow> sim_alert listing reply" where
  "api_sim_alerts faults actor page n db =
     snd (admin_or_403 admin_msg actor () (\<lambda>s. (s,
       listed ''Failed to list SIM alerts'' (page_param page) (page_size_param n)
         (list_sim_alerts faults (page_param page) (page_size_param n) db))))"

subsection \<open>The monthly report\<close>

datatype report_answer = Report_Json report | Report_Csv string string

definition api_report ::
    "faults \<Rightarrow> int \<Rightarrow> gtime \<Rightarrow> actor option \<Rightarrow> string \<Rightarrow> string \<Rightarrow> database \<Rightarrow> report_answer reply" where
  "api_report faults tz now actor month fmt db =
     (case actor of None \<Rightarrow> Refused 401 ''Unauthorized''
      | Some a \<Rightarrow>
          if \<not> permission_flag_from_key (ac_key a) perm_view_sms then Refused 403 ''API key permission denied''
          else case (if month = [] then Some now else parse_month tz month) of
            None \<Rightarrow> Refused 400 ''month must be YYYY-MM''
          | Some t \<Rightarrow>
              snd (viewer faults db actor () (\<lambda>u allowed. ((),
                case monthly faults tz t (if is_admin u \<or> has_wildcard_iccid allowed then None else Some allowed) db of
                  Inl _ \<Rightarrow> Refused 500 ''Failed to build report''
                | Inr rep \<Rightarrow>
                    if fmt \<noteq> ''csv'' then Answered 200 (Report_Json rep)
                    else Answered 200 (Report_Csv (''smsie-bao-cao-'' @ rp_month rep @ ''.csv'') (write_csv rep))))))"

subsection \<open>The audit log\<close>

record audit_list_request =
  al_req_iccid :: string
  al_req_username :: string
  al_req_action :: string
  al_req_from :: "string option"
  al_req_to :: "string option"
  al_req_page :: "string option"
  al_req_page_size :: "string option"

definition api_audit_list ::
    "faults \<Rightarrow> int \<Rightarrow> bool \<Rightarrow> actor option \<Rightarrow> audit_list_request \<Rightarrow> database \<Rightarrow> audit_log listing reply" where
  "api_audit_list faults tz to_first actor r db =
     snd (admin_or_403 admin_msg actor () (\<lambda>s. (s,
       case day_range tz to_first (al_req_from r) (al_req_to r) of
         Inl e \<Rightarrow> Refused 400 e
       | Inr (a, b) \<Rightarrow>
           let q = \<lparr> aq_iccid = al_req_iccid r, aq_username = al_req_username r, aq_action = al_req_action r, aq_from = a, aq_to = b,
                     aq_page = page_param (al_req_page r), aq_page_size = atoi_value (default_query (al_req_page_size r) ''50'') \<rparr>
           in listed ''Failed to list audit logs'' (if aq_page q < 1 then 1 else aq_page q) (audit_page_size (aq_page_size q))
                (list_audit faults q db))))"

subsection \<open>What the lists show\<close>

text \<open>The SIMs whose messages the actor may read, one by one.\<close>

definition may_view :: "database \<Rightarrow> actor \<Rightarrow> string \<Rightarrow> bool" where
  "may_view db a iccid \<longleftrightarrow> actor_can_access no_faults db (Some a) iccid perm_view_sms = Granted"

text \<open>No rule names the ICCID \<open>*\<close>, and a user has at most one rule for a SIM.\<close>

definition rules_plain :: "database \<Rightarrow> bool" where
  "rules_plain db \<longleftrightarrow> rules_unique db \<and> list_all (\<lambda>r. p_iccid r \<noteq> wildcard) (t_permissions db)"

lemma can_see_granted:
  assumes "rules_plain db" "permission_flag_from_key (ac_key a) perm" "iccid \<noteq> wildcard"
    "allowed_iccids_for_permission no_faults db (ac_user a) perm = Inr l"
  shows "can_see (ac_user a) l iccid \<longleftrightarrow> actor_can_access no_faults db (Some a) iccid perm = Granted"
proof (cases "is_admin (ac_user a)")
  case True
  then show ?thesis
    using assms(2) by (simp add: can_see_def actor_can_access_def user_can_access_iccid_def)
next
  case False
  have same: "\<lparr> ac_user = ac_user a, ac_key = ac_key a \<rparr> = a" by simp
  have "\<forall>r \<in> set (rules_of db (ac_user a)). p_iccid r \<noteq> wildcard"
    using assms(1) by (auto simp: rules_plain_def rules_of_def list_all_iff)
  then show ?thesis
    using allowed_list_cases [OF False assms(4,3)] access_cases [OF _ False, of db "ac_key a" iccid perm, unfolded same] assms(1,2)
    by (simp add: rules_plain_def)
qed

lemmas can_see_iff = can_see_granted [where perm = perm_view_sms, folded may_view_def]

lemma viewer_answers:
  assumes "permission_flag_from_key (ac_key a) perm_view_sms"
  obtains l where "allowed_iccids_for_permission no_faults db (ac_user a) perm_view_sms = Inr l"
    "viewer no_faults db (Some a) s h = h (ac_user a) l"
proof -
  have "\<exists>l. allowed_iccids_for_permission no_faults db (ac_user a) perm_view_sms = Inr l"
    by (simp add: allowed_iccids_for_permission_def Let_def)
  then obtain l where "allowed_iccids_for_permission no_faults db (ac_user a) perm_view_sms = Inr l" by blast
  with assms that show ?thesis by (simp add: viewer_def)
qed

lemma visible_may_view:
  assumes "rules_plain db" "permission_flag_from_key (ac_key a) perm_view_sms"
    "allowed_iccids_for_permission no_faults db (ac_user a) perm_view_sms = Inr l" "\<forall>i \<in> set items. iccid i \<noteq> wildcard"
  shows "visible (ac_user a) l iccid items = filter (\<lambda>i. may_view db a (iccid i)) items"
proof -
  have "visible (ac_user a) l iccid items = filter (\<lambda>i. can_see (ac_user a) l (iccid i)) items"
    by (auto simp: visible_def can_see_def)
  also have "\<dots> = filter (\<lambda>i. may_view db a (iccid i)) items"
    using can_see_iff [OF assms(1,2) _ assms(3)] assms(4) by (intro filter_cong) auto
  finally show ?thesis .
qed

lemma each_item_iccids:
  assumes "each_item f xs s = (s', Inr ys)" "\<And>x s y. snd (f x s) = Inr y \<Longrightarrow> key y = key' x"
  shows "map key ys = map key' xs"
  using assms(1)
proof (induction xs arbitrary: s ys)
  case (Cons x xs)
  obtain t r where f: "f x s = (t, r)" by fastforce
  with Cons.prems obtain y zs where y: "r = Inr y" "each_item f xs t = (s', Inr zs)" "ys = y # zs"
    by (auto split: sum.splits prod.splits)
  with Cons.IH [OF y(2)] assms(2) [of x s y] f show ?case by simp
qed simp

text \<open>The SIMs of the items that the services list are those of the table.\<close>

lemma set_modems_by_slot: "set (modems_by_slot ms) = set ms"
  by (auto simp: modems_by_slot_def Let_def)

lemma balance_items:
  assumes "balance_status no_faults clk cfg w = (w', Inr items)"
  shows "it_iccid ` set items = m_iccid ` set (t_modems (wd_db w))"
proof -
  obtain bays where "each_item (collect_one no_faults clk cfg False bays) (modems_by_slot (t_modems (wd_db w))) w = (w', Inr items)"
    using assms by (auto simp: balance_status_def balance_collect_def)
  then have "map it_iccid items = map m_iccid (modems_by_slot (t_modems (wd_db w)))"
    by (rule each_item_iccids) (auto simp: collect_one_def status_of_def Let_def split: sum.splits)
  then show ?thesis by (metis list.set_map set_modems_by_slot)
qed

lemma health_items:
  assumes "health_collect no_faults tz clk cfg online w = (w', Inr items)"
  shows "th_iccid ` set items = m_iccid ` set (t_modems (wd_db w))"
  using assms set_modems_by_slot by (auto simp: health_collect_def health_item_of_def image_image)

lemma keepalive_items:
  assumes "ka_collect no_faults tz clk cfg online w = (w', Inr items)"
  shows "ki_iccid ` set items \<subseteq> m_iccid ` set (t_modems (wd_db w))"
proof
  fix i
  assume "i \<in> ki_iccid ` set items"
  then obtain it where it: "it \<in> set items" "i = ki_iccid it" by blast
  have "collect_items (ka_collect_one no_faults tz cfg online (world_now clk w) (wd_db w)) (modems_by_slot (t_modems (wd_db w))) = Inr items"
    using assms by (simp add: ka_collect_def)
  from collect_items_set [OF this it(1)] obtain m where m: "m \<in> set (t_modems (wd_db w))"
    "ka_collect_one no_faults tz cfg online (world_now clk w) (wd_db w) m = Inr it" by (auto simp: set_modems_by_slot)
  then have "ki_iccid it = m_iccid m" by (auto simp: ka_collect_one_def Let_def and_then_Inr_iff)
  with m it show "i \<in> m_iccid ` set (t_modems (wd_db w))" by blast
qed

lemma granted_bays:
  assumes "rules_plain db" "permission_flag_from_key (ac_key a) perm_view_sms"
    and l: "allowed_iccids_for_permission no_faults db (ac_user a) perm_view_sms = Inr l"
    and "\<forall>b \<in> set (t_bays db). b_current_iccid b \<noteq> wildcard"
  shows "filter (\<lambda>b. b_current_iccid b = [] \<or> can_see (ac_user a) l (b_current_iccid b)) (list_bays db) =
      filter (\<lambda>b. b_current_iccid b = [] \<or> may_view db a (b_current_iccid b)) (list_bays db)"
proof (rule filter_cong [OF refl])
  fix b
  assume "b \<in> set (list_bays db)"
  then have "b_current_iccid b \<noteq> wildcard" using assms(4) by (auto simp: list_bays_def)
  from can_see_iff [OF assms(1,2) this l]
  show "(b_current_iccid b = [] \<or> can_see (ac_user a) l (b_current_iccid b)) \<longleftrightarrow>
      (b_current_iccid b = [] \<or> may_view db a (b_current_iccid b))" by simp
qed

lemma granted_modems:
  assumes "rules_plain db" "permission_flag_from_key (ac_key a) perm_view_sms"
    and l: "allowed_iccids_for_permission no_faults db (ac_user a) perm_view_sms = Inr l"
    and "\<forall>m \<in> set (t_modems db). m_iccid m \<noteq> wildcard"
  shows "filter (\<lambda>m. case if is_admin (ac_user a) \<or> has_wildcard_iccid l then None else Some l of None \<Rightarrow> True | Some x \<Rightarrow> m_iccid m \<in> set x)
        (t_modems db) =
      filter (\<lambda>m. case Some (filter (may_view db a) (map m_iccid (t_modems db))) of None \<Rightarrow> True | Some x \<Rightarrow> m_iccid m \<in> set x) (t_modems db)"
proof (rule filter_cong [OF refl])
  fix m
  assume m: "m \<in> set (t_modems db)"
  then have "can_see (ac_user a) l (m_iccid m) \<longleftrightarrow> may_view db a (m_iccid m)" using assms(4) can_see_iff [OF assms(1,2) _ l] by blast
  with m show "(case if is_admin (ac_user a) \<or> has_wildcard_iccid l then None else Some l of None \<Rightarrow> True | Some x \<Rightarrow> m_iccid m \<in> set x) \<longleftrightarrow>
      (case Some (filter (may_view db a) (map m_iccid (t_modems db))) of None \<Rightarrow> True | Some x \<Rightarrow> m_iccid m \<in> set x)"
    by (auto simp: can_see_def)
qed

text \<open>
  C32: The lists of balances, of keep-alive, of SIM health and of bays show a caller exactly the rows of the
  SIMs whose messages the caller may read when asked SIM by SIM (and the empty bays), and the monthly report
  is that of those SIMs.
\<close>

theorem lists_show_granted:
  assumes "rules_plain (wd_db w)" and "permission_flag_from_key (ac_key a) perm_view_sms"
    and "\<forall>m \<in> set (t_modems (wd_db w)). m_iccid m \<noteq> wildcard"
    and "\<forall>b \<in> set (t_bays (wd_db w)). b_current_iccid b \<noteq> wildcard"
  shows "api_balance_status no_faults clk bcfg (Some a) w =
           (case balance_status no_faults clk bcfg w of
              (w', Inl _) \<Rightarrow> (w', Refused 500 ''Failed to evaluate balance'')
            | (w', Inr items) \<Rightarrow> (w', Answered 200 (filter (\<lambda>i. may_view (wd_db w) a (it_iccid i)) items))) \<and>
         api_health_status no_faults tz clk hcfg online (Some a) w =
           (case health_collect no_faults tz clk hcfg online w of
              (w', Inl _) \<Rightarrow> (w', Refused 500 ''Failed to evaluate SIM health'')
            | (w', Inr items) \<Rightarrow> (w', Answered 200 (filter (\<lambda>i. may_view (wd_db w) a (th_iccid i)) items))) \<and>
         map_option ks_items (case snd (api_keepalive_status no_faults tz clk kcfg online (Some a) w) of Answered _ r \<Rightarrow> Some r | _ \<Rightarrow> None) =
           (case snd (ka_collect no_faults tz clk kcfg online w) of
              Inl _ \<Rightarrow> None | Inr items \<Rightarrow> Some (filter (\<lambda>i. may_view (wd_db w) a (ki_iccid i)) items)) \<and>
         api_bays no_faults wk (Some a) (wd_db w) =
           Answered 200 (map (bay_view_of no_faults wk (wd_db w))
             (filter (\<lambda>b. b_current_iccid b = [] \<or> may_view (wd_db w) a (b_current_iccid b)) (list_bays (wd_db w)))) \<and>
         api_report no_faults tz now (Some a) [] fmt (wd_db w) =
           (case monthly no_faults tz now (Some (filter (may_view (wd_db w) a) (map m_iccid (t_modems (wd_db w))))) (wd_db w) of
              Inl _ \<Rightarrow> Refused 500 ''Failed to build report''
            | Inr rep \<Rightarrow> Answered 200 (if fmt \<noteq> ''csv'' then Report_Json rep
                                      else Report_Csv (''smsie-bao-cao-'' @ rp_month rep @ ''.csv'') (write_csv rep)))"
proof -
  let ?db = "wd_db w"
  have vis: "visible (ac_user a) l key items = filter (\<lambda>i. may_view ?db a (key i)) items"
    if "allowed_iccids_for_permission no_faults ?db (ac_user a) perm_view_sms = Inr l"
      "key ` set items \<subseteq> m_iccid ` set (t_modems ?db)" for l and key :: "'x \<Rightarrow> string" and items
    using that assms(3) by (intro visible_may_view [OF assms(1,2)]) force+
  obtain l where l: "allowed_iccids_for_permission no_faults ?db (ac_user a) perm_view_sms = Inr l"
    using viewer_answers [OF assms(2), where db = ?db] by metis
  have v: "viewer no_faults ?db (Some a) s h = h (ac_user a) l" for s :: 's and h :: "user \<Rightarrow> string list \<Rightarrow> 's \<times> 'b reply"
    using assms(2) l by (simp add: viewer_def)
  show ?thesis
  proof (intro conjI)
    show "api_balance_status no_faults clk bcfg (Some a) w =
           (case balance_status no_faults clk bcfg w of
              (w', Inl _) \<Rightarrow> (w', Refused 500 ''Failed to evaluate balance'')
            | (w', Inr items) \<Rightarrow> (w', Answered 200 (filter (\<lambda>i. may_view ?db a (it_iccid i)) items)))"
      unfolding api_balance_status_def v using vis [OF l equalityD1 [OF balance_items]] by (auto split: prod.splits sum.splits)
    show "api_health_status no_faults tz clk hcfg online (Some a) w =
           (case health_collect no_faults tz clk hcfg online w of
              (w', Inl _) \<Rightarrow> (w', Refused 500 ''Failed to evaluate SIM health'')
            | (w', Inr items) \<Rightarrow> (w', Answered 200 (filter (\<lambda>i. may_view ?db a (th_iccid i)) items)))"
      unfolding api_health_status_def v using vis [OF l equalityD1 [OF health_items]] by (auto split: prod.splits sum.splits)
    show "map_option ks_items (case snd (api_keepalive_status no_faults tz clk kcfg online (Some a) w) of Answered _ r \<Rightarrow> Some r | _ \<Rightarrow> None) =
           (case snd (ka_collect no_faults tz clk kcfg online w) of
              Inl _ \<Rightarrow> None | Inr items \<Rightarrow> Some (filter (\<lambda>i. may_view ?db a (ki_iccid i)) items))"
      unfolding api_keepalive_status_def v using vis [OF l keepalive_items] by (auto split: prod.splits sum.splits)
    show "api_bays no_faults wk (Some a) ?db = Answered 200 (map (bay_view_of no_faults wk ?db)
             (filter (\<lambda>b. b_current_iccid b = [] \<or> may_view ?db a (b_current_iccid b)) (list_bays ?db)))"
      unfolding api_bays_def v by (simp add: granted_bays [OF assms(1,2) l assms(4)])
    show "api_report no_faults tz now (Some a) [] fmt ?db =
           (case monthly no_faults tz now (Some (filter (may_view ?db a) (map m_iccid (t_modems ?db)))) ?db of
              Inl _ \<Rightarrow> Refused 500 ''Failed to build report''
            | Inr rep \<Rightarrow> Answered 200 (if fmt \<noteq> ''csv'' then Report_Json rep
                                      else Report_Csv (''smsie-bao-cao-'' @ rp_month rep @ ''.csv'') (write_csv rep)))"
      unfolding api_report_def v monthly_def granted_modems [OF assms(1,2) l assms(3)] using assms(2) by (simp split: sum.split)
  qed
qed

definition demo_view_actor :: actor where
  "demo_view_actor = \<lparr> ac_user = demo_user ''*'', ac_key = None \<rparr>"

definition demo_view_world :: world where
  "demo_view_world = \<lparr> wd_db = empty_db\<lparr>t_permissions := [demo_rule ''c1'' True, demo_rule ''c2'' False],
     t_modems := [new_modem ''c1'', new_modem ''c2'']\<rparr>, wd_tick = 0, wd_texts = [], wd_sms = [] \<rparr>"

theorem lists_show_granted_witness:
  "\<exists>w'. api_health_status no_faults 0 (\<lambda>_. 0) (c_sim_health viper_defaults) (\<lambda>_. None) (Some demo_view_actor) demo_view_world =
     (w', Answered 200 [health_item_of 0 0 (c_sim_health viper_defaults) (\<lambda>_. None) (wd_db demo_view_world) (new_modem ''c1'')])"
proof -
  have rules: "rules_plain (wd_db demo_view_world)"
    by (simp add: rules_plain_def rules_unique_def demo_view_world_def demo_rule_def empty_db_def wildcard_def)
  have key: "permission_flag_from_key (ac_key demo_view_actor) perm_view_sms"
    by (simp add: demo_view_actor_def permission_flag_from_key_def)
  have sims: "\<forall>m \<in> set (t_modems (wd_db demo_view_world)). m_iccid m \<noteq> wildcard"
    "\<forall>b \<in> set (t_bays (wd_db demo_view_world)). b_current_iccid b \<noteq> wildcard"
    by (simp_all add: demo_view_world_def new_modem_def wildcard_def empty_db_def)
  have may: "may_view (wd_db demo_view_world) demo_view_actor ''c1''" "\<not> may_view (wd_db demo_view_world) demo_view_actor ''c2''"
    by code_simp+
  have "modems_by_slot [new_modem ''c1'', new_modem ''c2''] = [new_modem ''c1'', new_modem ''c2'']"
    by (simp add: modems_by_slot_def new_modem_def)
  then have "\<exists>w'. health_collect no_faults 0 (\<lambda>_. 0) (c_sim_health viper_defaults) (\<lambda>_. None) demo_view_world =
      (w', Inr (map (health_item_of 0 0 (c_sim_health viper_defaults) (\<lambda>_. None) (wd_db demo_view_world)) [new_modem ''c1'', new_modem ''c2'']))"
    by (simp add: health_collect_def world_now_def) (simp add: demo_view_world_def empty_db_def)
  moreover have "th_iccid (health_item_of tz now c online db (new_modem i)) = i" for tz now c online db i
    by (simp add: health_item_of_def new_modem_def)
  ultimately show ?thesis
    using lists_show_granted [where clk = "\<lambda>_. 0" and tz = 0 and hcfg = "c_sim_health viper_defaults" and online = "\<lambda>_. None",
        OF rules key sims, THEN conjunct2, THEN conjunct1] may by auto
qed

subsection \<open>Months and days given as text\<close>

lemma parse_month_shown:
  assumes "four_digits (month_of tz t div 12)"
  shows "parse_month tz (format_yyyy_mm tz t) = Some (month_start tz t)"
proof -
  let ?k = "month_of tz t"
  let ?y = "show_nat (nat (?k div 12))" and ?m = "pad2 (nat (?k mod 12 + 1))"
  have y: "1000 \<le> nat (?k div 12)" "nat (?k div 12) \<le> 9999" "0 \<le> ?k div 12"
    using assms unfolding four_digits_def by linarith+
  have len: "length ?y = 4" "length ?m = 2" using y by (simp_all add: length_year length_pad2 month_small)
  have "take 4 (?y @ ''-'' @ ?m) = ?y" "drop 5 (?y @ ''-'' @ ?m) = ?m" "(?y @ ''-'' @ ?m) ! 4 = CHR ''-''"
    using len by (simp_all add: nth_append)
  moreover have "digits_val ?y = ?k div 12" "digits_val ?m = ?k mod 12 + 1"
    using y(3) pos_mod_sign [of 12 ?k] by (simp_all add: digits_val_show_nat pad2_digits)
  moreover have "?k mod 12 + 1 \<le> 12" using pos_mod_bound [of 12 ?k] by linarith
  moreover have "12 * (?k div 12) + ?k mod 12 = ?k" by simp
  ultimately have "parse_month_no (format_yyyy_mm tz t) = Some ?k"
    using len show_nat_digits [of "nat (?k div 12)"] pos_mod_sign [of 12 ?k]
    by (simp add: parse_month_no_def format_yyyy_mm_def Let_def pad2_digits)
  then show ?thesis by (simp add: parse_month_def month_start_def)
qed

end
