(* ===== verification/Sms_Api.thy ===== *)
theory Sms_Api
  imports Service_Api Worker_Sms
begin

text \<open>
  \<open>internal/api/sms_handler.go\<close>: the list of messages, which decodes the stored PDU of messages that have
  neither sender nor text and stores what it finds. A message is known by its place in the table. The order of
  the query (by time, messages of one instant in any order) is the parameter \<open>order\<close>, the parser of the SMS
  library the parameter \<open>unmarshal\<close>.
\<close>

text \<open>What \<open>hex.DecodeString\<close> has decoded when it stops at an error.\<close>

fun hex_decode_prefix :: "string \<Rightarrow> string" where
  "hex_decode_prefix (c # d # s) =
     (case (hex_digit_val c, hex_digit_val d) of
        (Some h, Some l) \<Rightarrow> char_of (16 * h + l) # hex_decode_prefix s
      | _ \<Rightarrow> [])"
| "hex_decode_prefix s = []"

lemma hex_decode_prefix_all: "hex_decode s = Some b \<Longrightarrow> hex_decode_prefix s = b"
  by (induction s arbitrary: b rule: hex_decode.induct) (auto split: option.splits)

record stored_tpdu =
  sp_dcs :: char
  sp_text :: "string option"
  sp_user_data :: string
  sp_number :: string

definition stored_content :: "stored_tpdu \<Rightarrow> string" where
  "stored_content t =
     (let content = (case sp_text t of Some x \<Rightarrow> x
                     | None \<Rightarrow> ''Decode Failed (DCS: 0x'' @ hex_encode_upper [sp_dcs t] @ '')'')
      in if content = [] \<and> sp_user_data t \<noteq> [] then ''UD Hex: '' @ hex_encode_upper (sp_user_data t) else content)"

definition decode_stored :: "(string \<Rightarrow> stored_tpdu option) \<Rightarrow> sms \<Rightarrow> sms option" where
  "decode_stored unmarshal m =
     (if s_content m \<noteq> [] \<or> s_phone m \<noteq> [] then None
      else map_option (\<lambda>t. m\<lparr>s_content := stored_content t, s_phone := sp_number t\<rparr>)
             (unmarshal (strip_smsc (hex_decode_prefix (s_raw_pdu m)))))"

record sms_request =
  sr_limit :: "string option"
  sr_page :: "string option"
  sr_iccid :: string
  sr_type :: string

definition positive_param :: "string option \<Rightarrow> int \<Rightarrow> int" where
  "positive_param q d =
     (case q of None \<Rightarrow> d
      | Some s \<Rightarrow> (case go_atoi s of None \<Rightarrow> d | Some n \<Rightarrow> if n > 0 then n else d))"

definition sms_selected :: "user \<Rightarrow> string list \<Rightarrow> sms_request \<Rightarrow> sms \<Rightarrow> bool" where
  "sms_selected u allowed r m \<longleftrightarrow>
     (sr_type r = [] \<or> s_type m = sr_type r) \<and>
     (if sr_iccid r \<noteq> [] then s_iccid m = sr_iccid r
      else is_admin u \<or> (allowed \<noteq> [] \<and> (has_wildcard_iccid allowed \<or> s_iccid m \<in> set allowed)))"

definition sms_type_ok :: "string \<Rightarrow> bool" where
  "sms_type_ok t \<longleftrightarrow> t = [] \<or> t = ''received'' \<or> t = ''sent''"

text \<open>The loop over the messages of the page; an update that fails is not noticed.\<close>

fun decode_page ::
    "faults \<Rightarrow> (string \<Rightarrow> stored_tpdu option) \<Rightarrow> (nat \<times> sms) list \<Rightarrow> database \<Rightarrow> database \<times> sms list" where
  "decode_page faults unmarshal [] db = (db, [])"
| "decode_page faults unmarshal ((i, m) # ms) db =
     (let (db1, m1) = (case decode_stored unmarshal m of
            None \<Rightarrow> (db, m)
          | Some m' \<Rightarrow> (db_or faults (''sms.update:'' @ go_itoa (int i)) db (db\<lparr>t_sms := (t_sms db)[i := m']\<rparr>), m'));
          (db2, rest) = decode_page faults unmarshal ms db1
      in (db2, m1 # rest))"

definition api_list_sms ::
    "faults \<Rightarrow> ((nat \<times> sms) list \<Rightarrow> (nat \<times> sms) list) \<Rightarrow> (string \<Rightarrow> stored_tpdu option) \<Rightarrow> actor option \<Rightarrow> sms_request \<Rightarrow>
     database \<Rightarrow> database \<times> sms listing reply" where
  "api_list_sms faults order unmarshal actor r db =
     (case actor of None \<Rightarrow> (db, Refused 401 ''Unauthorized'')
      | Some a \<Rightarrow>
          if (case ac_key a of None \<Rightarrow> False | Some k \<Rightarrow> \<not> k_can_view_sms k) then (db, Refused 403 ''API key permission denied'')
          else if \<not> sms_type_ok (sr_type r)
          then (db, Refused 400 ''type must be received or sent'')
          else case allowed_iccids_for_permission faults db (ac_user a) perm_view_sms of
            Inl _ \<Rightarrow> (db, Refused 500 ''permission check failed'')
          | Inr allowed \<Rightarrow>
              (case (if sr_iccid r \<noteq> [] then actor_can_access faults db (Some a) (sr_iccid r) perm_view_sms else Granted) of
                 Denied code e \<Rightarrow> (db, Refused code e)
               | Granted \<Rightarrow>
                   let limit = positive_param (sr_limit r) 20;
                       page = positive_param (sr_page r) 1;
                       rows = filter (\<lambda>(i, m). sms_selected (ac_user a) allowed r m) (enumerate 0 (t_sms db));
                       k = db_or faults ''sms.count'' 0 (length rows)
                   in case db_call faults ''sms.find'' (page_of page limit (order rows)) of
                        Inl e \<Rightarrow> (db, Refused 500 e)
                      | Inr ms \<Rightarrow>
                          (case decode_page faults unmarshal ms db of
                             (db', shown) \<Rightarrow>
                               (db', Answered 200 \<lparr> ls_data = shown, ls_total = k, ls_page = page, ls_page_size = limit \<rparr>))))"

subsection \<open>What the list shows and changes\<close>

text \<open>The table and the message shown agree with the stored ones, or are decoded from them.\<close>

definition decoded_from :: "(string \<Rightarrow> stored_tpdu option) \<Rightarrow> sms \<Rightarrow> sms \<Rightarrow> bool" where
  "decoded_from unmarshal m0 m \<longleftrightarrow> m = m0 \<or> decode_stored unmarshal m0 = Some m"

lemma decode_page_effect:
  assumes "decode_page faults unmarshal ms db = (db', shown)" "distinct (map fst ms)"
    "\<forall>x \<in> set ms. fst x < length (t_sms db) \<and> t_sms db ! fst x = snd x"
  shows "\<exists>rows. db' = db\<lparr>t_sms := rows\<rparr> \<and> length rows = length (t_sms db) \<and>
     (\<forall>j < length rows. if j \<in> fst ` set ms then decoded_from unmarshal (t_sms db ! j) (rows ! j) else rows ! j = t_sms db ! j) \<and>
     list_all2 (decoded_from unmarshal) (map snd ms) shown"
  using assms
proof (induction ms arbitrary: db db' shown)
  case Nil
  then show ?case by (intro exI [of _ "t_sms db"]) simp
next
  case (Cons x ms)
  obtain i m where x: "x = (i, m)" by fastforce
  define r where "r = (case decode_stored unmarshal m of
            None \<Rightarrow> (db, m)
          | Some m' \<Rightarrow> (db_or faults (''sms.update:'' @ go_itoa (int i)) db (db\<lparr>t_sms := (t_sms db)[i := m']\<rparr>), m'))"
  obtain db1 m1 where r: "r = (db1, m1)" by fastforce
  obtain db2 rest where rest: "decode_page faults unmarshal ms db1 = (db2, rest)" by fastforce
  have res: "db' = db2" "shown = m1 # rest" using Cons.prems(1) r rest by (simp_all add: x r_def)
  have m: "t_sms db ! i = m" "i < length (t_sms db)" using Cons.prems(3) by (simp_all add: x)
  have keep: "db\<lparr>t_sms := (t_sms db)[i := m]\<rparr> = db" using m(1) by auto
  have "\<exists>n. db1 = db\<lparr>t_sms := (t_sms db)[i := n]\<rparr> \<and> decoded_from unmarshal m n \<and> decoded_from unmarshal m m1"
  proof (cases "decode_stored unmarshal m")
    case None
    then show ?thesis using r keep by (intro exI [of _ m]) (simp add: r_def decoded_from_def)
  next
    case (Some m')
    then have r1: "db1 = db_or faults (''sms.update:'' @ go_itoa (int i)) db (db\<lparr>t_sms := (t_sms db)[i := m']\<rparr>)" "m1 = m'"
      using r by (auto simp: r_def)
    show ?thesis
    proof (cases "faults (''sms.update:'' @ go_itoa (int i))")
      case None
      then show ?thesis using r1 Some by (intro exI [of _ m']) (simp add: db_or_def decoded_from_def)
    next
      case (Some e)
      then show ?thesis using r1 \<open>decode_stored unmarshal m = Some m'\<close> keep by (intro exI [of _ m]) (simp add: db_or_def decoded_from_def)
    qed
  qed
  then obtain n where n: "db1 = db\<lparr>t_sms := (t_sms db)[i := n]\<rparr>" "decoded_from unmarshal m n" "decoded_from unmarshal m m1"
    by blast
  have i: "i \<notin> fst ` set ms" "distinct (map fst ms)" using Cons.prems(2) by (auto simp: x)
  have "\<forall>y \<in> set ms. fst y < length (t_sms db1) \<and> t_sms db1 ! fst y = snd y"
  proof
    fix y
    assume y: "y \<in> set ms"
    then have "fst y \<noteq> i" using i(1) by blast
    then show "fst y < length (t_sms db1) \<and> t_sms db1 ! fst y = snd y" using Cons.prems(3) y by (simp add: n(1))
  qed
  from Cons.IH [OF rest i(2) this] obtain rows where rows: "db2 = db1\<lparr>t_sms := rows\<rparr>" "length rows = length (t_sms db1)"
    "\<forall>j < length rows. if j \<in> fst ` set ms then decoded_from unmarshal (t_sms db1 ! j) (rows ! j) else rows ! j = t_sms db1 ! j"
    "list_all2 (decoded_from unmarshal) (map snd ms) rest" by blast
  show ?case
  proof (intro exI [of _ rows] conjI allI impI)
    show "db' = db\<lparr>t_sms := rows\<rparr>" by (simp add: res(1) rows(1) n(1))
    show "length rows = length (t_sms db)" using rows(2) by (simp add: n(1))
    show "list_all2 (decoded_from unmarshal) (map snd (x # ms)) shown" using rows(4) n(3) by (simp add: x res(2))
    fix j
    assume j: "j < length rows"
    show "if j \<in> fst ` set (x # ms) then decoded_from unmarshal (t_sms db ! j) (rows ! j) else rows ! j = t_sms db ! j"
    proof (cases "j = i")
      case True
      then have "rows ! j = n" using rows(3) j i(1) m(2) by (simp add: n(1))
      then show ?thesis using True n(2) m(1) by (simp add: x)
    next
      case False
      from rows(3) j have "if j \<in> fst ` set ms then decoded_from unmarshal (t_sms db1 ! j) (rows ! j) else rows ! j = t_sms db1 ! j" by blast
      moreover have "t_sms db1 ! j = t_sms db ! j" using False by (simp add: n(1))
      ultimately show ?thesis using False by (auto simp: x split: if_splits)
    qed
  qed
qed

lemma selected_may_view:
  assumes "rules_plain db" "permission_flag_from_key (ac_key a) perm_view_sms"
    "allowed_iccids_for_permission no_faults db (ac_user a) perm_view_sms = Inr l" "s_iccid m \<noteq> wildcard"
    "sr_iccid r \<noteq> [] \<Longrightarrow> may_view db a (sr_iccid r)"
  shows "sms_selected (ac_user a) l r m \<longleftrightarrow> may_view db a (s_iccid m) \<and> (sr_iccid r = [] \<or> s_iccid m = sr_iccid r) \<and>
    (sr_type r = [] \<or> s_type m = sr_type r)"
  using can_see_iff [OF assms(1,2,4,3)] assms(5) by (auto simp: sms_selected_def can_see_def has_wildcard_iccid_def)

lemma list_all2_rev_member:
  assumes "list_all2 P xs ys" "y \<in> set ys"
  shows "\<exists>x \<in> set xs. P x y"
  using assms by (induction rule: list_all2_induct) auto

lemma sms_list_answered:
  assumes "api_list_sms no_faults order unmarshal (Some a) r db = (db', Answered code reply)"
  obtains l where "permission_flag_from_key (ac_key a) perm_view_sms"
    "allowed_iccids_for_permission no_faults db (ac_user a) perm_view_sms = Inr l"
    "decode_page no_faults unmarshal (page_of (positive_param (sr_page r) 1) (positive_param (sr_limit r) 20)
        (order (filter (\<lambda>(i, m). sms_selected (ac_user a) l r m) (enumerate 0 (t_sms db))))) db = (db', ls_data reply)"
    "ls_total reply = length (filter (\<lambda>(i, m). sms_selected (ac_user a) l r m) (enumerate 0 (t_sms db)))"
    "sr_iccid r \<noteq> [] \<Longrightarrow> may_view db a (sr_iccid r)"
proof -
  have flag: "permission_flag_from_key (ac_key a) perm_view_sms \<longleftrightarrow> \<not> (case ac_key a of None \<Rightarrow> False | Some k \<Rightarrow> \<not> k_can_view_sms k)"
    by (simp add: permission_flag_from_key_def perm_view_sms_def perm_make_call_def perm_send_sms_def perm_send_at_def split: option.split)
  have key: "permission_flag_from_key (ac_key a) perm_view_sms"
  proof (rule ccontr)
    assume "\<not> permission_flag_from_key (ac_key a) perm_view_sms"
    then show False using assms(1) unfolding flag by (simp add: api_list_sms_def)
  qed
  obtain l where l: "allowed_iccids_for_permission no_faults db (ac_user a) perm_view_sms = Inr l"
    using viewer_answers [OF key, where db = db] by metis
  define rows where "rows = filter (\<lambda>(i, m). sms_selected (ac_user a) l r m) (enumerate 0 (t_sms db))"
  define page where "page = page_of (positive_param (sr_page r) 1) (positive_param (sr_limit r) 20) (order rows)"
  let ?access = "if sr_iccid r \<noteq> [] then actor_can_access no_faults db (Some a) (sr_iccid r) perm_view_sms else Granted"
  have type: "sms_type_ok (sr_type r)"
    using assms(1) key unfolding flag by (auto simp: api_list_sms_def split: if_splits)
  have run: "api_list_sms no_faults order unmarshal (Some a) r db =
      (case ?access of Denied c e \<Rightarrow> (db, Refused c e)
       | Granted \<Rightarrow> (case decode_page no_faults unmarshal page db of
          (db', shown) \<Rightarrow> (db', Answered 200 \<lparr> ls_data = shown, ls_total = length rows, ls_page = positive_param (sr_page r) 1,
              ls_page_size = positive_param (sr_limit r) 20 \<rparr>)))"
    using key l type unfolding flag api_list_sms_def Let_def rows_def page_def
    by (cases "sr_iccid r = []") (simp_all split: access.split)
  have "decode_page no_faults unmarshal page db = (db', ls_data reply)" "ls_total reply = length rows" and granted: "?access = Granted"
    using assms(1) unfolding run by (cases ?access; cases "decode_page no_faults unmarshal page db"; auto)+
  with that key l show thesis by (simp add: rows_def page_def may_view_def split: if_splits)
qed

lemma filter_enumerate_snd: "map snd (filter (\<lambda>(i, m). P m) (enumerate n xs)) = filter P xs"
  by (induction xs arbitrary: n) auto


text \<open>Two SIMs, the second one hidden from the reader, and a message that waits to be decoded.\<close>

definition demo_sms :: "string \<Rightarrow> string \<Rightarrow> string \<Rightarrow> sms" where
  "demo_sms iccid content pdu = \<lparr> s_iccid = iccid, s_phone = [], s_content = content, s_timestamp = 0, s_type = ''received'',
     s_is_read = False, s_raw_pdu = pdu, s_created_at = 0 \<rparr>"

definition demo_sms_db :: database where
  "demo_sms_db = empty_db\<lparr>t_permissions := [demo_rule ''c1'' True, demo_rule ''c2'' False],
     t_sms := [demo_sms ''c1'' ''hi'' [], demo_sms ''c2'' ''secret'' [], demo_sms ''c1'' [] ''0041'']\<rparr>"

definition demo_unmarshal :: "string \<Rightarrow> stored_tpdu option" where
  "demo_unmarshal b = (if b = ''A'' then Some \<lparr> sp_dcs = CHR 0x00, sp_text = Some ''read'', sp_user_data = [], sp_number = ''113'' \<rparr> else None)"

definition demo_sms_request :: sms_request where
  "demo_sms_request = \<lparr> sr_limit = None, sr_page = Some ''x'', sr_iccid = [], sr_type = ''received'' \<rparr>"


end
