(* ===== verification/Call_Recordings.thy ===== *)
theory Call_Recordings
  imports Sms_Api
begin

text \<open>
  \<open>internal/api/call_recording.go\<close>: the recordings of calls that a browser uploads, as rows of the database and
  files of one directory. The files are a list of names and contents; the calls of the operating system fail as
  \<open>io\<close> says, and the random source yields the sixteen bytes of a name or an error.
\<close>

record recording_store =
  rs_db :: database
  rs_files :: "(string \<times> string) list"

definition max_call_recording_bytes :: int where
  "max_call_recording_bytes = 100 * 2 ^ 20"

definition call_recording_extensions :: "(string \<times> string) list" where
  "call_recording_extensions = [(''audio/webm'', ''.webm''), (''audio/ogg'', ''.ogg''), (''audio/mp4'', ''.m4a''),
     (''audio/mpeg'', ''.mp3''), (''audio/wav'', ''.wav''), (''audio/x-wav'', ''.wav'')]"

text \<open>The form of an upload: what the part with the file declares, what reading it gives, and the other fields.\<close>

record recording_upload =
  ru_content_type :: string
  ru_bytes :: int
  ru_content :: "string result"
  ru_duration :: string
  ru_phone :: string

definition base_content_type :: "string \<Rightarrow> string" where
  "base_content_type h = to_lower (trim_space (hd (split_on (CHR '';'') h)))"

definition random_recording_file_name :: "string result \<Rightarrow> string \<Rightarrow> string result" where
  "random_recording_file_name rnd ext = and_then rnd (\<lambda>b. Inr (to_lower (hex_encode_upper b) @ ext))"

definition store_file :: "string \<Rightarrow> string \<Rightarrow> recording_store \<Rightarrow> recording_store" where
  "store_file name c st = st\<lparr>rs_files := (name, c) # rs_files st\<rparr>"

definition drop_file :: "faults \<Rightarrow> string \<Rightarrow> recording_store \<Rightarrow> recording_store" where
  "drop_file io name st =
     (if io (''remove '' @ name) = None then st\<lparr>rs_files := filter (\<lambda>f. fst f \<noteq> name) (rs_files st)\<rparr> else st)"

text \<open>What the form must hold; the duration and the telephone number are the result.\<close>

definition upload_form :: "recording_upload \<Rightarrow> (string \<times> string \<times> int \<times> string) result" where
  "upload_form u =
     (let ct = base_content_type (ru_content_type u); phone = trim_space (ru_phone u)
      in case map_of call_recording_extensions ct of
           None \<Rightarrow> Inl ''unsupported audio format''
         | Some ext \<Rightarrow>
             if ru_bytes u \<le> 0 \<or> ru_bytes u > max_call_recording_bytes
             then Inl ''recording must be between 1 byte and 100 MB''
             else case go_atoi (trim_space (ru_duration u)) of
               None \<Rightarrow> Inl ''duration_seconds must be between 0 and 86400''
             | Some d \<Rightarrow>
                 if d < 0 \<or> d > 24 * 60 * 60 then Inl ''duration_seconds must be between 0 and 86400''
                 else if length phone > 32 then Inl ''phone is too long''
                 else Inr (ct, ext, d, phone))"

text \<open>Writing the file; one that cannot be written in full is removed.\<close>

definition write_recording :: "faults \<Rightarrow> string \<Rightarrow> string result \<Rightarrow> recording_store \<Rightarrow> recording_store \<times> (int \<times> string) option \<times> int" where
  "write_recording io name content st =
     (if io ''mkdir'' \<noteq> None then (st, Some (500, ''failed to prepare recording storage''), 0)
      else if io (''create '' @ name) \<noteq> None \<or> map_of (rs_files st) name \<noteq> None
      then (st, Some (500, ''failed to create recording''), 0)
      else case content of
        Inl _ \<Rightarrow> (drop_file io name (store_file name [] st), Some (400, ''failed to save recording''), 0)
      | Inr c \<Rightarrow>
          if io (''write '' @ name) \<noteq> None \<or> int (length c) > max_call_recording_bytes
          then (drop_file io name (store_file name c st), Some (400, ''failed to save recording''), 0)
          else (store_file name c st, None, int (length c)))"

definition api_upload_recording ::
    "faults \<Rightarrow> faults \<Rightarrow> gtime \<Rightarrow> int \<Rightarrow> string result \<Rightarrow> actor option \<Rightarrow> string \<Rightarrow> recording_upload option \<Rightarrow>
     recording_store \<Rightarrow> recording_store \<times> call_recording reply" where
  "api_upload_recording faults io now fresh rnd actor raw_iccid req st =
     (let iccid = trim_space raw_iccid
      in enforced faults (rs_db st) actor iccid perm_make_call st (\<lambda>st.
        case req of
          None \<Rightarrow> (st, Refused 400 ''recording file is required'')
        | Some u \<Rightarrow>
            (case upload_form u of
               Inl e \<Rightarrow> (st, Refused 400 e)
             | Inr (ct, ext, d, phone) \<Rightarrow>
                 (case random_recording_file_name rnd ext of
                    Inl _ \<Rightarrow> (st, Refused 500 ''failed to allocate recording'')
                  | Inr name \<Rightarrow>
                      (case write_recording io name (ru_content u) st of
                         (st1, Some (code, e), _) \<Rightarrow> (st1, Refused code e)
                       | (st1, None, written) \<Rightarrow>
                           (let row = \<lparr> cr_id = fresh, cr_iccid = iccid, cr_phone = phone, cr_file_name = name, cr_content_type = ct,
                                        cr_size_bytes = written, cr_duration_seconds = d, cr_created_by = u_id (ac_user (the actor)),
                                        cr_created_at = now \<rparr>
                            in case db_call faults ''recording.create'' ((rs_db st1)\<lparr>t_recordings := t_recordings (rs_db st1) @ [row]\<rparr>) of
                                 Inl _ \<Rightarrow> (drop_file io name st1, Refused 500 ''failed to index recording'')
                               | Inr db \<Rightarrow> (st1\<lparr>rs_db := db\<rparr>, Answered 201 row)))))))"

subsection \<open>Listing and download\<close>

definition bounded_positive_int :: "string \<Rightarrow> int \<Rightarrow> int \<Rightarrow> int \<Rightarrow> int" where
  "bounded_positive_int raw fallback least greatest =
     (case go_atoi raw of None \<Rightarrow> fallback
      | Some v \<Rightarrow> if v < least then fallback else if v > greatest then greatest else v)"

record recording_page =
  rg_data :: "call_recording list"
  rg_page :: int
  rg_page_size :: int
  rg_total_items :: int
  rg_total_pages :: int

definition api_list_recordings ::
    "faults \<Rightarrow> actor option \<Rightarrow> string \<Rightarrow> string \<Rightarrow> string \<Rightarrow> database \<Rightarrow> recording_page reply" where
  "api_list_recordings faults actor raw_iccid page_q size_q db =
     (let iccid = trim_space raw_iccid
      in snd (enforced faults db actor iccid perm_make_call () (\<lambda>_. ((),
        let page = bounded_positive_int page_q 1 1 1000000; n = bounded_positive_int size_q 20 1 100;
            rows = filter (\<lambda>r. cr_iccid r = iccid) (t_recordings db)
        in case db_call faults ''recording.count'' (int (length rows)) of
             Inl _ \<Rightarrow> Refused 500 ''failed to count recordings''
           | Inr k \<Rightarrow>
               (case db_call faults ''recording.find'' (page_of page n (newest_first cr_created_at rows)) of
                  Inl _ \<Rightarrow> Refused 500 ''failed to list recordings''
                | Inr rs \<Rightarrow> Answered 200 \<lparr> rg_data = rs, rg_page = page, rg_page_size = n, rg_total_items = k,
                                          rg_total_pages = go_div (k + n - 1) n \<rparr>)))))"

text \<open>\<open>strconv.ParseUint(s, 10, 64)\<close>, \<open>filepath.Base\<close> and \<open>filepath.Ext\<close>.\<close>

definition parse_uint :: "string \<Rightarrow> int option" where
  "parse_uint s = (case parse_digits s of None \<Rightarrow> None | Some n \<Rightarrow> if n < 2 ^ 64 then Some n else None)"

definition file_base :: "string \<Rightarrow> string" where
  "file_base p =
     (if p = [] then ''.''
      else let s = trim_right (\<lambda>c. c = CHR ''/'') p in if s = [] then ''/'' else last (split_on (CHR ''/'') s))"

definition file_ext :: "string \<Rightarrow> string" where
  "file_ext p =
     (let b = last (split_on (CHR ''/'') p)
      in if CHR ''.'' \<in> set b then CHR ''.'' # last (split_on (CHR ''.'') b) else [])"

record recording_download =
  rd_content_type :: string
  rd_name :: string
  rd_content :: string

definition api_download_recording ::
    "faults \<Rightarrow> faults \<Rightarrow> actor option \<Rightarrow> string \<Rightarrow> string \<Rightarrow> recording_store \<Rightarrow> recording_download reply" where
  "api_download_recording faults io actor raw_iccid raw_id st =
     (let iccid = trim_space raw_iccid
      in snd (enforced faults (rs_db st) actor iccid perm_make_call () (\<lambda>_. ((),
        case parse_uint raw_id of
          None \<Rightarrow> Refused 400 ''invalid recording id''
        | Some i \<Rightarrow>
            if i = 0 then Refused 400 ''invalid recording id''
            else case db_call faults ''recording.first'' (find (\<lambda>r. cr_id r = i \<and> cr_iccid r = iccid) (t_recordings (rs_db st))) of
              Inl _ \<Rightarrow> Refused 500 ''failed to load recording''
            | Inr None \<Rightarrow> Refused 404 ''recording not found''
            | Inr (Some r) \<Rightarrow>
                if cr_file_name r = [] \<or> file_base (cr_file_name r) \<noteq> cr_file_name r then Refused 500 ''invalid recording path''
                else case (map_of (rs_files st) (cr_file_name r), io (''stat '' @ cr_file_name r)) of
                  (Some c, None) \<Rightarrow>
                    Answered 200 \<lparr> rd_content_type = cr_content_type r,
                      rd_name = ''call-'' @ go_itoa (cr_id r) @ file_ext (cr_file_name r), rd_content = c \<rparr>
                | _ \<Rightarrow> Refused 404 ''recording file not found''))))"

subsection \<open>Rows and files belong together\<close>

text \<open>Every file is that of exactly one row, and the row gives its length.\<close>

definition recordings_ok :: "recording_store \<Rightarrow> bool" where
  "recordings_ok st \<longleftrightarrow>
     distinct (map fst (rs_files st)) \<and> distinct (map cr_file_name (t_recordings (rs_db st))) \<and>
     set (map cr_file_name (t_recordings (rs_db st))) = set (map fst (rs_files st)) \<and>
     list_all (\<lambda>r. \<exists>c. map_of (rs_files st) (cr_file_name r) = Some c \<and> cr_size_bytes r = int (length c) \<and>
         cr_size_bytes r \<le> max_call_recording_bytes) (t_recordings (rs_db st))"

text \<open>What an upload does: nothing, or one more row with its file.\<close>

lemma drop_stored:
  assumes "map_of (rs_files st) name = None"
  shows "drop_file no_faults name (store_file name c st) = st"
proof -
  have "filter (\<lambda>f. fst f \<noteq> name) (rs_files st) = rs_files st"
    using assms by (intro filter_True) (force simp: map_of_eq_None_iff)
  then show ?thesis by (simp add: drop_file_def store_file_def no_faults_def)
qed

lemma write_recording_cases:
  assumes "write_recording no_faults name content st = (st', err, n)"
  shows "(st' = st \<and> (\<exists>code e. err = Some (code, e))) \<or>
    (\<exists>c. content = Inr c \<and> err = None \<and> n = int (length c) \<and> n \<le> max_call_recording_bytes \<and>
       map_of (rs_files st) name = None \<and> st' = store_file name c st)"
  using assms drop_stored [of st name]
  by (auto simp: write_recording_def no_faults_def split: if_splits sum.splits)

lemma upload_cases:
  assumes "api_upload_recording faults no_faults now fresh rnd actor raw_iccid req st = (st', r)"
  shows "(st' = st \<and> (\<exists>code e. r = Refused code e)) \<or>
    (\<exists>a u ct ext d phone b c. actor = Some a \<and> req = Some u \<and> upload_form u = Inr (ct, ext, d, phone) \<and> rnd = Inr b \<and>
       ru_content u = Inr c \<and> int (length c) \<le> max_call_recording_bytes \<and>
       actor_can_access faults (rs_db st) actor (trim_space raw_iccid) perm_make_call = Granted \<and>
       map_of (rs_files st) (to_lower (hex_encode_upper b) @ ext) = None \<and>
       (let name = to_lower (hex_encode_upper b) @ ext;
            row = \<lparr> cr_id = fresh, cr_iccid = trim_space raw_iccid, cr_phone = phone, cr_file_name = name, cr_content_type = ct,
               cr_size_bytes = int (length c), cr_duration_seconds = d, cr_created_by = u_id (ac_user a), cr_created_at = now \<rparr>
        in st' = \<lparr> rs_db = (rs_db st)\<lparr>t_recordings := t_recordings (rs_db st) @ [row]\<rparr>, rs_files = (name, c) # rs_files st \<rparr> \<and>
           r = Answered 201 row))"
proof (cases "\<exists>u ct ext d phone b. req = Some u \<and> upload_form u = Inr (ct, ext, d, phone) \<and> rnd = Inr b \<and>
    actor_can_access faults (rs_db st) actor (trim_space raw_iccid) perm_make_call = Granted")
  case True
  then obtain u ct ext d phone b where u: "req = Some u" "upload_form u = Inr (ct, ext, d, phone)" "rnd = Inr b"
    and g: "actor_can_access faults (rs_db st) actor (trim_space raw_iccid) perm_make_call = Granted" by blast
  obtain a where a: "actor = Some a" using g by (cases actor) (simp_all add: actor_can_access_def)
  define name where "name = to_lower (hex_encode_upper b) @ ext"
  obtain st1 err n where w: "write_recording no_faults name (ru_content u) st = (st1, err, n)" by (rule prod_cases3)
  have r: "random_recording_file_name rnd ext = Inr name" by (simp add: random_recording_file_name_def u(3) name_def)
  have run: "api_upload_recording faults no_faults now fresh rnd actor raw_iccid req st =
      (case (st1, err, n) of
         (st1, Some (code, e), _) \<Rightarrow> (st1, Refused code e)
       | (st1, None, written) \<Rightarrow>
           (let row = \<lparr> cr_id = fresh, cr_iccid = trim_space raw_iccid, cr_phone = phone, cr_file_name = name, cr_content_type = ct,
                cr_size_bytes = written, cr_duration_seconds = d, cr_created_by = u_id (ac_user a), cr_created_at = now \<rparr>
            in case db_call faults ''recording.create'' ((rs_db st1)\<lparr>t_recordings := t_recordings (rs_db st1) @ [row]\<rparr>) of
                 Inl _ \<Rightarrow> (drop_file no_faults name st1, Refused 500 ''failed to index recording'')
               | Inr db \<Rightarrow> (st1\<lparr>rs_db := db\<rparr>, Answered 201 row)))"
    using u r g a w by (cases err) (auto simp: api_upload_recording_def enforced_def Let_def)
  from write_recording_cases [OF w] show ?thesis
  proof (elim disjE conjE exE)
    fix code e assume "st1 = st" "err = Some (code, e)"
    then show ?thesis using assms unfolding run by auto
  next
    fix c assume c: "ru_content u = Inr c" "err = None" "n = int (length c)" "n \<le> max_call_recording_bytes"
      "map_of (rs_files st) name = None" "st1 = store_file name c st"
    show ?thesis
    proof (cases "faults ''recording.create''")
      case None
      let ?row = "\<lparr> cr_id = fresh, cr_iccid = trim_space raw_iccid, cr_phone = phone, cr_file_name = name, cr_content_type = ct,
                 cr_size_bytes = n, cr_duration_seconds = d, cr_created_by = u_id (ac_user a), cr_created_at = now \<rparr>"
      have "st' = st1\<lparr>rs_db := (rs_db st1)\<lparr>t_recordings := t_recordings (rs_db st1) @ [?row]\<rparr>\<rparr>" "r = Answered 201 ?row"
        using assms None c(2) unfolding run by (simp_all add: db_call_def Let_def)
      note done_so = this [unfolded c(3) c(6) store_file_def]
      show ?thesis
        by (rule disjI2, intro exI conjI, rule a, rule u(1), rule u(2), rule u(3), rule c(1))
          (use c(3,4,5) g done_so in \<open>simp_all add: Let_def name_def\<close>)
    next
      case (Some e)
      then have "st' = st \<and> (\<exists>code e. r = Refused code e)"
        using assms c drop_stored [OF c(5)] unfolding run by (auto simp: db_call_def Let_def)
      then show ?thesis ..
    qed
  qed
next
  case False
  have "st' = st \<and> (\<exists>code e. r = Refused code e)"
    using assms False
    by (cases rnd) (auto simp: api_upload_recording_def enforced_def random_recording_file_name_def Let_def
        split: access.splits option.splits sum.splits prod.splits)
  then show ?thesis ..
qed


subsection \<open>Any sequence of uploads\<close>

record upload_call =
  uc_faults :: faults
  uc_now :: gtime
  uc_fresh :: int
  uc_random :: "string result"
  uc_actor :: "actor option"
  uc_iccid :: string
  uc_form :: "recording_upload option"

definition upload :: "upload_call \<Rightarrow> recording_store \<Rightarrow> recording_store \<times> call_recording reply" where
  "upload x st = api_upload_recording (uc_faults x) no_faults (uc_now x) (uc_fresh x) (uc_random x) (uc_actor x) (uc_iccid x) (uc_form x) st"

fun uploads :: "upload_call list \<Rightarrow> recording_store \<Rightarrow> recording_store" where
  "uploads [] st = st"
| "uploads (x # xs) st = uploads xs (fst (upload x st))"

text \<open>What the rows and the files of a store have gained since an earlier one.\<close>

definition store_grown :: "recording_store \<Rightarrow> recording_store \<Rightarrow> call_recording list \<Rightarrow> bool" where
  "store_grown st st' new \<longleftrightarrow>
     rs_db st' = (rs_db st)\<lparr>t_recordings := t_recordings (rs_db st) @ new\<rparr> \<and>
     (\<exists>files. rs_files st' = files @ rs_files st \<and> map fst files = rev (map cr_file_name new) \<and>
        distinct (map fst files) \<and> set (map fst files) \<inter> set (map fst (rs_files st)) = {} \<and>
        list_all (\<lambda>r. \<exists>c. map_of files (cr_file_name r) = Some c \<and> cr_size_bytes r = int (length c) \<and>
           cr_size_bytes r \<le> max_call_recording_bytes) new)"

lemma store_grown_refl: "store_grown st st []"
  by (simp add: store_grown_def)

lemma store_grown_trans:
  assumes "store_grown st st1 new" "store_grown st1 st2 later"
  shows "store_grown st st2 (new @ later)"
proof -
  obtain fs where fs: "rs_files st1 = fs @ rs_files st" "map fst fs = rev (map cr_file_name new)" "distinct (map fst fs)"
    "set (map fst fs) \<inter> set (map fst (rs_files st)) = {}"
    "list_all (\<lambda>r. \<exists>c. map_of fs (cr_file_name r) = Some c \<and> cr_size_bytes r = int (length c) \<and>
       cr_size_bytes r \<le> max_call_recording_bytes) new"
    using assms(1) unfolding store_grown_def by blast
  obtain gs where gs: "rs_files st2 = gs @ rs_files st1" "map fst gs = rev (map cr_file_name later)" "distinct (map fst gs)"
    "set (map fst gs) \<inter> set (map fst (rs_files st1)) = {}"
    "list_all (\<lambda>r. \<exists>c. map_of gs (cr_file_name r) = Some c \<and> cr_size_bytes r = int (length c) \<and>
       cr_size_bytes r \<le> max_call_recording_bytes) later"
    using assms(2) unfolding store_grown_def by blast
  have old: "map_of (gs @ fs) (cr_file_name r) = map_of fs (cr_file_name r)" if "r \<in> set new" for r
  proof -
    have "cr_file_name r \<in> set (map fst fs)" using fs(2) that by (metis in_set_conv_nth imageI set_map set_rev)
    then have "cr_file_name r \<notin> fst ` set gs" using gs(4) fs(1) by auto
    then show ?thesis by (simp add: map_add_def map_of_eq_None_iff [THEN iffD2] split: option.split)
  qed
  have added: "map_of (gs @ fs) (cr_file_name r) = map_of gs (cr_file_name r)" if "map_of gs (cr_file_name r) \<noteq> None" for r
    using that by (auto simp: map_add_def split: option.split)
  have ok: "list_all (\<lambda>r. \<exists>c. map_of (gs @ fs) (cr_file_name r) = Some c \<and> cr_size_bytes r = int (length c) \<and>
       cr_size_bytes r \<le> max_call_recording_bytes) (new @ later)"
    unfolding list_all_iff
  proof
    fix r assume "r \<in> set (new @ later)"
    then consider "r \<in> set new" | "r \<in> set later" by auto
    then show "\<exists>c. map_of (gs @ fs) (cr_file_name r) = Some c \<and> cr_size_bytes r = int (length c) \<and>
       cr_size_bytes r \<le> max_call_recording_bytes"
    proof cases
      case 1
      then show ?thesis using old [OF 1] fs(5) by (simp only: list_all_iff)
    next
      case 2
      then obtain c where c: "map_of gs (cr_file_name r) = Some c" "cr_size_bytes r = int (length c)"
        "cr_size_bytes r \<le> max_call_recording_bytes" using gs(5) by (auto simp: list_all_iff)
      then show ?thesis using added [of r] by simp
    qed
  qed
  have d: "distinct (map fst (gs @ fs))" using fs(1,3) gs(3,4) by auto
  have s: "set (map fst (gs @ fs)) \<inter> set (map fst (rs_files st)) = {}" using fs(1,4) gs(4) by auto
  have m: "map fst (gs @ fs) = rev (map cr_file_name (new @ later))" using fs(2) gs(2) by simp
  have db: "rs_db st2 = (rs_db st)\<lparr>t_recordings := t_recordings (rs_db st) @ new @ later\<rparr>"
    using assms by (simp add: store_grown_def)
  show ?thesis unfolding store_grown_def
    by (rule conjI [OF db exI [of _ "gs @ fs"]], intro conjI, simp only: fs(1) gs(1) append_assoc) (rule m d s ok)+
qed

lemma upload_grows:
  assumes "upload x st = (st', r)"
  shows "\<exists>new. store_grown st st' new \<and> (case r of Refused _ _ \<Rightarrow> new = [] | Answered _ row \<Rightarrow> new = [row])"
  using upload_cases [OF assms [unfolded upload_def]]
proof (elim disjE conjE exE)
  fix code e assume "st' = st" "r = Refused code e"
  then show ?thesis by (simp add: store_grown_refl)
qed (auto simp: Let_def store_grown_def map_of_eq_None_iff intro: exI [of _ "[x]" for x])

lemma uploads_grow: "\<exists>new. store_grown st (uploads xs st) new"
proof (induction xs arbitrary: st)
  case Nil
  show ?case using store_grown_refl by auto
next
  case (Cons x xs)
  obtain st' r where "upload x st = (st', r)" by fastforce
  then show ?case using upload_grows [of x st st' r] Cons.IH [of st'] store_grown_trans by fastforce
qed

lemma grown_ok:
  assumes "store_grown st st' new" "recordings_ok st"
  shows "recordings_ok st'"
proof -
  obtain fs where fs: "rs_files st' = fs @ rs_files st" "map fst fs = rev (map cr_file_name new)" "distinct (map fst fs)"
    "set (map fst fs) \<inter> set (map fst (rs_files st)) = {}"
    "list_all (\<lambda>r. \<exists>c. map_of fs (cr_file_name r) = Some c \<and> cr_size_bytes r = int (length c) \<and>
       cr_size_bytes r \<le> max_call_recording_bytes) new"
    using assms(1) unfolding store_grown_def by blast
  have db: "t_recordings (rs_db st') = t_recordings (rs_db st) @ new" using assms(1) by (simp add: store_grown_def)
  have names: "set (map cr_file_name new) = set (map fst fs)" using fs(2) by simp
  have d: "distinct (map cr_file_name new)" using fs(2,3) by (metis distinct_rev)
  have old: "map_of (fs @ rs_files st) n = map_of (rs_files st) n" if "n \<in> set (map fst (rs_files st))" for n
  proof -
    have "map_of fs n = None" using that fs(4) by (auto simp: map_of_eq_None_iff)
    then show ?thesis by (simp add: map_add_def)
  qed
  have "\<exists>c. map_of (rs_files st') (cr_file_name r) = Some c \<and> cr_size_bytes r = int (length c) \<and>
       cr_size_bytes r \<le> max_call_recording_bytes" if r: "r \<in> set (t_recordings (rs_db st'))" for r
  proof -
    from r db consider "r \<in> set new" | "r \<in> set (t_recordings (rs_db st))" by auto
    then show ?thesis
    proof cases
      case 1
      then show ?thesis using fs(1,5) by (auto simp: list_all_iff map_add_def)
    next
      case 2
      then have "cr_file_name r \<in> set (map fst (rs_files st))" using assms(2) by (auto simp: recordings_ok_def)
      moreover have "\<exists>c. map_of (rs_files st) (cr_file_name r) = Some c \<and> cr_size_bytes r = int (length c) \<and>
         cr_size_bytes r \<le> max_call_recording_bytes"
        using 2 assms(2) unfolding recordings_ok_def list_all_iff by blast
      ultimately show ?thesis unfolding fs(1) by (simp only: old)
    qed
  qed
  then show ?thesis using assms(2) fs(1,3,4) db names d
    unfolding recordings_ok_def list_all_iff by auto
qed

subsection \<open>What comes back\<close>

lemma parse_uint_itoa: "0 \<le> i \<Longrightarrow> i < 2 ^ 64 \<Longrightarrow> parse_uint (go_itoa i) = Some i"
  using show_nat_digits [of "nat i"] by (simp add: parse_uint_def go_itoa_def parse_digits_def digits_val_show_nat)

lemma hex_no_slash: "CHR ''/'' \<notin> set (to_lower (hex_encode_upper b))"
proof -
  define lower where "lower c = (if CHR ''A'' \<le> c \<and> c \<le> CHR ''Z'' then char_of (of_char c + (32::nat)) else c)" for c
  have low: "to_lower s = map lower s" for s by (simp add: to_lower_def lower_def fun_eq_iff)
  have hex: "n < 16 \<Longrightarrow> lower (hex_char n) \<noteq> CHR ''/''" for n
  proof -
    assume "n < 16"
    then have "n \<in> set [0..<16]" by simp
    moreover have "list_all (\<lambda>n. lower (hex_char n) \<noteq> CHR ''/'') [0..<16]" unfolding lower_def by code_simp
    ultimately show ?thesis unfolding list_all_iff by blast
  qed
  have "lower (hex_char (of_char c div 16)) \<noteq> CHR ''/'' \<and> lower (hex_char (of_char c mod 16)) \<noteq> CHR ''/''" for c
    using hex [of "of_char c div 16"] hex [of "of_char c mod 16"] nat_of_char_less_256 [of c] by (simp add: less_mult_imp_div_less)
  then show ?thesis by (auto simp: low hex_encode_upper_def image_iff) metis+
qed

lemma extension_shape:
  assumes "map_of call_recording_extensions ct = Some ext"
  shows "\<exists>e. ext = CHR ''.'' # e \<and> CHR ''.'' \<notin> set e \<and> CHR ''/'' \<notin> set e"
  using assms by (auto simp: call_recording_extensions_def split: if_splits)

lemma recordings_grant_nothing:
  "actor_can_access faults (db\<lparr>t_recordings := rs\<rparr>) actor iccid perm = actor_can_access faults db actor iccid perm"
proof -
  have rules: "rules_of (db\<lparr>t_recordings := rs\<rparr>) u = rules_of db u" for u by (simp add: rules_of_def)
  show ?thesis unfolding actor_can_access_def rules ..
qed

lemma recording_name_plain:
  fixes b :: string
  assumes "map_of call_recording_extensions ct = Some ext"
  defines "name \<equiv> to_lower (hex_encode_upper b) @ ext"
  shows "name \<noteq> []" "file_base name = name" "file_ext name = ext"
proof -
  obtain e where e: "ext = CHR ''.'' # e" "CHR ''.'' \<notin> set e" "CHR ''/'' \<notin> set e" using extension_shape [OF assms(1)] by blast
  have free: "CHR ''/'' \<notin> set name" using hex_no_slash e by (simp add: name_def)
  show ne: "name \<noteq> []" by (simp add: name_def e(1))
  have "trim_right (\<lambda>c. c = CHR ''/'') name = name"
    using free last_in_set [OF ne] by (intro trim_right_id) auto
  then show "file_base name = name" using free ne by (simp add: file_base_def split_on_free)
  have dot: "\<exists>y ys. split_on (CHR ''.'') (s @ CHR ''.'' # e) = y # ys @ [e]" for s
  proof (induction s)
    case Nil
    show ?case by (simp add: split_on_free e(2))
  next
    case (Cons c s)
    then obtain y ys where "split_on (CHR ''.'') (s @ CHR ''.'' # e) = y # ys @ [e]" by blast
    then have "split_on (CHR ''.'') ((c # s) @ CHR ''.'' # e) =
        (if c = CHR ''.'' then [] # (y # ys) @ [e] else (c # y) # ys @ [e])" by simp
    then show ?case by (metis append_Cons)
  qed
  have "last (split_on (CHR ''.'') (s @ CHR ''.'' # e)) = e" for s using dot [of s] by auto
  with free show "file_ext name = ext" by (simp add: file_ext_def split_on_free) (simp add: name_def e(1))
qed

text \<open>
  C34: Whatever uploads are made, whichever of them the database fails and whatever names the random source
  yields, rows and files stay together: every file belongs to one row, every row has its file, of the length
  the row gives and of at most 100 MB. Nothing that was stored before is touched.
\<close>

theorem uploads_keep_recordings:
  assumes "recordings_ok st"
  shows "recordings_ok (uploads xs st) \<and>
    (\<exists>new files. rs_db (uploads xs st) = (rs_db st)\<lparr>t_recordings := t_recordings (rs_db st) @ new\<rparr> \<and>
       rs_files (uploads xs st) = files @ rs_files st)"
proof -
  obtain new where new: "store_grown st (uploads xs st) new" using uploads_grow by blast
  from grown_ok [OF this assms] show ?thesis using new unfolding store_grown_def by blast
qed

definition demo_upload :: "string \<Rightarrow> upload_call" where
  "demo_upload rnd = \<lparr> uc_faults = no_faults, uc_now = 0, uc_fresh = 7, uc_random = Inr rnd, uc_actor = Some demo_view_actor,
     uc_iccid = ''c1'', uc_form = Some \<lparr> ru_content_type = ''audio/ogg; codecs=opus'', ru_bytes = 3, ru_content = Inr ''abc'',
       ru_duration = ''12'', ru_phone = ''113'' \<rparr> \<rparr>"

definition demo_store :: recording_store where
  "demo_store = \<lparr> rs_db = empty_db, rs_files = [] \<rparr>"

theorem uploads_keep_recordings_witness:
  "recordings_ok (uploads [demo_upload ''x'', demo_upload ''x''] demo_store)"
proof -
  have "recordings_ok demo_store" by (simp add: recordings_ok_def demo_store_def empty_db_def)
  from uploads_keep_recordings [OF this] show ?thesis by blast
qed

text \<open>
  C35: What was uploaded comes back: after an upload that is answered with its row, and any later uploads,
  whoever may make calls with the SIM gets, under the number of the row, the content that was sent, with the
  type it was declared with and a name of the number and the extension of that type.
\<close>

theorem recording_comes_back:
  assumes "upload x st = (st1, Answered code row)"
    and "0 < uc_fresh x" "uc_fresh x < 2 ^ 64" "\<forall>r \<in> set (t_recordings (rs_db st)). cr_id r \<noteq> uc_fresh x"
    and "actor_can_access no_faults (rs_db st) actor (trim_space (uc_iccid x)) perm_make_call = Granted"
  shows "\<exists>u c ext. uc_form x = Some u \<and> ru_content u = Inr c \<and>
    map_of call_recording_extensions (base_content_type (ru_content_type u)) = Some ext \<and> cr_id row = uc_fresh x \<and>
    api_download_recording no_faults no_faults actor (uc_iccid x) (go_itoa (cr_id row)) (uploads later st1) =
      Answered 200 \<lparr> rd_content_type = base_content_type (ru_content_type u), rd_name = ''call-'' @ go_itoa (cr_id row) @ ext,
        rd_content = c \<rparr>"
proof -
  obtain a :: actor and u ct ext d phone b c where up: "uc_form x = Some u" "upload_form u = Inr (ct, ext, d, phone)" "ru_content u = Inr c"
    and free: "map_of (rs_files st) (to_lower (hex_encode_upper b) @ ext) = None"
    and stored: "let name = to_lower (hex_encode_upper b) @ ext;
            row' = \<lparr> cr_id = uc_fresh x, cr_iccid = trim_space (uc_iccid x), cr_phone = phone, cr_file_name = name, cr_content_type = ct,
               cr_size_bytes = int (length c), cr_duration_seconds = d, cr_created_by = u_id (ac_user a), cr_created_at = uc_now x \<rparr>
        in st1 = \<lparr> rs_db = (rs_db st)\<lparr>t_recordings := t_recordings (rs_db st) @ [row']\<rparr>, rs_files = (name, c) # rs_files st \<rparr> \<and>
           Answered code row = Answered 201 row'"
    using upload_cases [OF assms(1) [unfolded upload_def]] by (elim disjE exE conjE) (simp, rule that, assumption+)
  have row: "row = \<lparr> cr_id = uc_fresh x, cr_iccid = trim_space (uc_iccid x), cr_phone = phone,
          cr_file_name = to_lower (hex_encode_upper b) @ ext, cr_content_type = ct,
          cr_size_bytes = int (length c), cr_duration_seconds = d, cr_created_by = u_id (ac_user a), cr_created_at = uc_now x \<rparr>"
    and st1: "st1 = \<lparr> rs_db = (rs_db st)\<lparr>t_recordings := t_recordings (rs_db st) @ [row]\<rparr>,
          rs_files = (to_lower (hex_encode_upper b) @ ext, c) # rs_files st \<rparr>"
    using stored by (simp_all add: Let_def)
  have r: "cr_id row = uc_fresh x" "cr_iccid row = trim_space (uc_iccid x)" "cr_content_type row = ct"
    "cr_file_name row = to_lower (hex_encode_upper b) @ ext" by (simp_all add: row)
  have io: "no_faults l = None" for l by (simp add: no_faults_def)
  let ?name = "to_lower (hex_encode_upper b) @ ext"
  have ct: "ct = base_content_type (ru_content_type u)" and ext: "map_of call_recording_extensions ct = Some ext"
    using up(2) by (auto simp: upload_form_def Let_def split: option.splits if_splits)
  obtain new where new: "store_grown st1 (uploads later st1) new" using uploads_grow by blast
  then obtain files where db: "rs_db (uploads later st1) = (rs_db st1)\<lparr>t_recordings := t_recordings (rs_db st1) @ new\<rparr>"
    and kept: "rs_files (uploads later st1) = files @ rs_files st1" "set (map fst files) \<inter> set (map fst (rs_files st1)) = {}"
    unfolding store_grown_def by blast
  have "map_of files ?name = None" using kept(2) by (auto simp: st1 map_of_eq_None_iff)
  then have content: "map_of (rs_files (uploads later st1)) ?name = Some c"
    unfolding kept(1) by (simp add: st1 map_add_def)
  have "find (\<lambda>r. cr_id r = uc_fresh x \<and> cr_iccid r = trim_space (uc_iccid x)) (t_recordings (rs_db st)) = None"
    using assms(4) by (auto simp: find_None_iff)
  then have found: "find (\<lambda>r. cr_id r = uc_fresh x \<and> cr_iccid r = trim_space (uc_iccid x)) (t_recordings (rs_db (uploads later st1))) = Some row"
    unfolding db by (simp add: st1 find_append row)
  have access: "actor_can_access no_faults (rs_db (uploads later st1)) actor (trim_space (uc_iccid x)) perm_make_call = Granted"
    using assms(5) unfolding db by (simp add: st1 recordings_grant_nothing)
  have "api_download_recording no_faults no_faults actor (uc_iccid x) (go_itoa (cr_id row)) (uploads later st1) =
      Answered 200 \<lparr> rd_content_type = ct, rd_name = ''call-'' @ go_itoa (cr_id row) @ ext, rd_content = c \<rparr>"
    using parse_uint_itoa [of "uc_fresh x"] assms(2,3) recording_name_plain [OF ext, of b] content access found
    by (simp add: api_download_recording_def enforced_def r io Let_def)
  then show ?thesis using up(1,3) ext row by (auto simp: ct)
qed

theorem recording_comes_back_witness:
  "\<exists>st1 row. upload (demo_upload ''x'') demo_store = (st1, Answered 201 row) \<and>
     api_download_recording no_faults no_faults (Some demo_view_actor) ''c1'' (go_itoa (cr_id row)) (uploads [demo_upload ''y''] st1) =
       Answered 200 \<lparr> rd_content_type = ''audio/ogg'', rd_name = ''call-'' @ go_itoa 7 @ ''.ogg'', rd_content = ''abc'' \<rparr>"
proof -
  have access: "actor_can_access no_faults (rs_db demo_store) (Some demo_view_actor) (trim_space (uc_iccid (demo_upload ''x''))) perm_make_call = Granted"
    by code_simp
  have "case upload (demo_upload ''x'') demo_store of (_, Answered code _) \<Rightarrow> code = 201 | _ \<Rightarrow> False"
    by code_simp
  then obtain st1 row where up: "upload (demo_upload ''x'') demo_store = (st1, Answered 201 row)"
    by (auto split: prod.splits reply.splits)
  have ct: "base_content_type ''audio/ogg; codecs=opus'' = ''audio/ogg''" by code_simp
  have x: "uc_fresh (demo_upload ''x'') = 7" "t_recordings (rs_db demo_store) = []" "uc_iccid (demo_upload ''x'') = ''c1''"
    "uc_form (demo_upload ''x'') = Some u \<Longrightarrow> ru_content_type u = ''audio/ogg; codecs=opus'' \<and> ru_content u = Inr ''abc''" for u
    by (auto simp: demo_upload_def demo_store_def empty_db_def)
  obtain u c ext where u: "uc_form (demo_upload ''x'') = Some u" "ru_content u = Inr c"
    "map_of call_recording_extensions (base_content_type (ru_content_type u)) = Some ext" "cr_id row = 7"
    and read: "api_download_recording no_faults no_faults (Some demo_view_actor) ''c1'' (go_itoa (cr_id row)) (uploads [demo_upload ''y''] st1) =
      Answered 200 \<lparr> rd_content_type = base_content_type (ru_content_type u), rd_name = ''call-'' @ go_itoa (cr_id row) @ ext,
        rd_content = c \<rparr>"
    using recording_comes_back [OF up _ _ _ access, of "[demo_upload ''y'']"] x(1,2,3) by auto
  have "ext = ''.ogg''" "c = ''abc''" "base_content_type (ru_content_type u) = ''audio/ogg''"
    using u x(4) [OF u(1)] by (simp_all add: ct call_recording_extensions_def)
  with up read u(4) show ?thesis by (intro exI [of _ st1] exI [of _ row] conjI) (simp_all only: append_Nil)
qed

end
