(* ===== verification/Mcp_Api.thy ===== *)
theory Mcp_Api
  imports Sms_Api
begin

text \<open>
  \<open>internal/api/mcp_server.go\<close>: the tools that the program offers to a language model over the Model Context
  Protocol. The protocol and the check of the bearer header belong to the SDK and call what is here. A message
  is known by its place in the table, so its number in the database is the place plus one. The parser of the SMS
  library is the parameter \<open>unmarshal\<close>, the error that the SDK calls an invalid token the parameter \<open>bad\<close>.
\<close>

subsection \<open>The key\<close>

record token_info =
  ti_user_id :: string
  ti_expiration :: gtime
  ti_actor :: actor

text \<open>The last second of the year 9999.\<close>

definition far_expiry :: gtime where
  "far_expiry = 253402300799 * second_ns"

definition verify_api_key_token ::
    "faults \<Rightarrow> (string \<Rightarrow> string) \<Rightarrow> string \<Rightarrow> gtime \<Rightarrow> string \<Rightarrow> database \<Rightarrow> database \<times> token_info result" where
  "verify_api_key_token faults hash bad now raw db =
     (let tok = trim_space raw
      in if tok = [] \<or> \<not> is_smsie_api_key tok then (db, Inl (bad @ '': smsie api key required''))
         else
           (case db_call faults ''auth.key'' (find_active_key db (hash tok)) of
              Inl _ \<Rightarrow> (db, Inl (bad @ '': invalid API key''))
            | Inr None \<Rightarrow> (db, Inl (bad @ '': invalid API key''))
            | Inr (Some key) \<Rightarrow>
                if (case k_expires_at key of None \<Rightarrow> False | Some e \<Rightarrow> now > e) then (db, Inl (bad @ '': API key expired''))
                else
                  (case db_call faults ''auth.user'' (find_user db (k_user_id key)) of
                     Inl _ \<Rightarrow> (db, Inl (bad @ '': user not found''))
                   | Inr None \<Rightarrow> (db, Inl (bad @ '': user not found''))
                   | Inr (Some u) \<Rightarrow>
                       (db_or faults ''auth.touch'' db (touch_key (k_id key) now db),
                        Inr \<lparr> ti_user_id = ''apikey:'' @ go_itoa (k_id key),
                              ti_expiration = (case k_expires_at key of None \<Rightarrow> far_expiry | Some e \<Rightarrow> e),
                              ti_actor = \<lparr> ac_user = u, ac_key = Some key \<rparr> \<rparr>))))"

definition get_mcp_actor :: "actor option \<Rightarrow> (actor \<times> api_key) result" where
  "get_mcp_actor actor =
     (case actor of None \<Rightarrow> Inl ''authenticated API key context missing''
      | Some a \<Rightarrow> (case ac_key a of None \<Rightarrow> Inl ''authenticated API key context missing'' | Some k \<Rightarrow> Inr (a, k)))"

subsection \<open>The inputs\<close>

definition clamp_int :: "int \<Rightarrow> int \<Rightarrow> int \<Rightarrow> int \<Rightarrow> int" where
  "clamp_int v fallback least greatest =
     (let v1 = (if v \<le> 0 then fallback else v); v2 = (if v1 < least then least else v1)
      in if greatest > 0 \<and> v2 > greatest then greatest else v2)"

definition normalize_mcp_permission :: "string \<Rightarrow> string result" where
  "normalize_mcp_permission raw =
     (let p = trim_space (to_lower raw)
      in if p = [] \<or> p = ''any'' then Inr []
         else if p = perm_make_call \<or> p = perm_view_sms \<or> p = perm_send_sms \<or> p = perm_send_at then Inr p
         else Inl (''permission must be one of any, '' @ perm_make_call @ '', '' @ perm_view_sms @ '', '' @ perm_send_sms @ '', '' @ perm_send_at))"

definition normalize_sms_type :: "string \<Rightarrow> string \<Rightarrow> string result" where
  "normalize_sms_type raw d =
     (let v = trim_space (to_lower raw)
      in if v = [] then Inr d else if v = ''all'' then Inr []
         else if v = ''sent'' \<or> v = ''received'' then Inr v
         else Inl ''type must be one of all, sent, received'')"

subsection \<open>The messages in reach\<close>

definition scope_request :: "string \<Rightarrow> string \<Rightarrow> sms_request" where
  "scope_request iccid ty = \<lparr> sr_limit = None, sr_page = None, sr_iccid = iccid, sr_type = ty \<rparr>"

definition scoped_sms_query :: "faults \<Rightarrow> database \<Rightarrow> actor \<Rightarrow> string \<Rightarrow> string \<Rightarrow> (nat \<times> sms) list result" where
  "scoped_sms_query faults db a iccid ty =
     (let rows = (\<lambda>allowed. filter (\<lambda>(i, m). sms_selected (ac_user a) allowed (scope_request iccid ty) m) (enumerate 0 (t_sms db)))
      in if iccid \<noteq> []
         then (case actor_can_access faults db (Some a) iccid perm_view_sms of
                 Denied _ msg \<Rightarrow> Inl msg | Granted \<Rightarrow> Inr (rows []))
         else (case allowed_iccids_for_permission faults db (ac_user a) perm_view_sms of
                 Inl e \<Rightarrow> Inl (''permission check failed: '' @ e) | Inr allowed \<Rightarrow> Inr (rows allowed)))"

text \<open>The same decoding as in \<open>ListSMS\<close>.\<close>

definition hydrate_sms_content ::
    "faults \<Rightarrow> (string \<Rightarrow> stored_tpdu option) \<Rightarrow> (nat \<times> sms) list \<Rightarrow> database \<Rightarrow> database \<times> (nat \<times> sms) list" where
  "hydrate_sms_content faults unmarshal ms db =
     (case decode_page faults unmarshal ms db of (db', shown) \<Rightarrow> (db', zip (map fst ms) shown))"

subsection \<open>Listing\<close>

record mcp_list_input =
  ml_iccid :: string
  ml_page :: int
  ml_page_size :: int
  ml_max_records :: int
  ml_type :: string

record mcp_list_output =
  mo_data :: "(nat \<times> sms) list"
  mo_page :: int
  mo_page_size :: int
  mo_max_records :: int
  mo_total :: int
  mo_total_available :: int
  mo_returned :: nat
  mo_has_more :: bool
  mo_iccid :: string
  mo_type :: string

definition tool_list_sms ::
    "faults \<Rightarrow> (string \<Rightarrow> stored_tpdu option) \<Rightarrow> actor option \<Rightarrow> mcp_list_input \<Rightarrow> database \<Rightarrow> database \<times> mcp_list_output result" where
  "tool_list_sms faults unmarshal actor inp db =
     (case get_mcp_actor actor of Inl e \<Rightarrow> (db, Inl e)
      | Inr (a, k) \<Rightarrow>
          if \<not> k_can_view_sms k then (db, Inl ''API key permission denied'')
          else case normalize_sms_type (ml_type inp) [] of Inl e \<Rightarrow> (db, Inl e)
          | Inr ty \<Rightarrow>
              let page = clamp_int (ml_page inp) 1 1 1000000; n = clamp_int (ml_page_size inp) 20 1 100;
                  most = clamp_int (ml_max_records inp) 100 1 500; iccid = trim_space (ml_iccid inp)
              in case and_then (scoped_sms_query faults db a iccid ty) (\<lambda>rows.
                        and_then (db_call faults ''mcp.count'' (int (length rows))) (\<lambda>available. Inr (rows, available))) of
                   Inl e \<Rightarrow> (db, Inl e)
                 | Inr (rows, available) \<Rightarrow>
                     let amount = min available most; offset = (page - 1) * n;
                         out = (\<lambda>ms. \<lparr> mo_data = ms, mo_page = page, mo_page_size = n, mo_max_records = most, mo_total = amount,
                                 mo_total_available = available, mo_returned = length ms,
                                 mo_has_more = (offset + int (length ms) < amount), mo_iccid = iccid, mo_type = ty \<rparr>)
                     in if offset < amount
                        then (case db_call faults ''mcp.find''
                                     (take (nat (min n (amount - offset))) (drop (nat offset) (newest_first (s_timestamp \<circ> snd) rows))) of
                                Inl e \<Rightarrow> (db, Inl e)
                              | Inr ms \<Rightarrow> (case hydrate_sms_content faults unmarshal ms db of (db', ms') \<Rightarrow> (db', Inr (out ms'))))
                        else (db, Inr (out [])))"

subsection \<open>Waiting\<close>

record mcp_wait_input =
  mw_in_iccid :: string
  mw_after_id :: "int option"
  mw_timeout_sec :: int
  mw_max_records :: int
  mw_type :: string

record mcp_wait_output =
  wo_data :: "(nat \<times> sms) list"
  wo_timeout :: bool
  wo_after_id :: int
  wo_next_after_id :: int
  wo_timeout_sec :: int
  wo_iccid :: string
  wo_type :: string

text \<open>
  What a turn of the loop meets: the database at that moment, the clock after the query, and whether the
  context ends before the next tick.
\<close>

record wait_turn =
  pl_db :: database
  pl_now :: gtime
  pl_cancelled :: "string option"

text \<open>The loop, over the turns it may still take; it waits for more when they are used up.\<close>

fun wait_poll ::
    "faults \<Rightarrow> (string \<Rightarrow> stored_tpdu option) \<Rightarrow> actor \<Rightarrow> string \<Rightarrow> string \<Rightarrow> int \<Rightarrow> int \<Rightarrow> int \<Rightarrow> gtime \<Rightarrow> wait_turn list \<Rightarrow>
     (database \<times> mcp_wait_output result) option" where
  "wait_poll faults unmarshal a iccid ty after_id most secs deadline [] = None"
| "wait_poll faults unmarshal a iccid ty after_id most secs deadline (p # ps) =
     (let db = pl_db p;
          out = (\<lambda>ms late nxt. \<lparr> wo_data = ms, wo_timeout = late, wo_after_id = after_id, wo_next_after_id = nxt,
                  wo_timeout_sec = secs, wo_iccid = iccid, wo_type = ty \<rparr>)
      in case and_then (scoped_sms_query faults db a iccid ty) (\<lambda>rows.
                db_call faults ''mcp.poll'' (take (nat most) (filter (\<lambda>(i, m). int i + 1 > after_id) rows))) of
           Inl e \<Rightarrow> Some (db, Inl e)
         | Inr ms \<Rightarrow>
             if ms \<noteq> []
             then (case hydrate_sms_content faults unmarshal ms db of
                     (db', ms') \<Rightarrow> Some (db', Inr (out ms' False (max after_id (int (fst (last ms')) + 1)))))
             else if pl_now p > deadline then Some (db, Inr (out [] True after_id))
             else (case pl_cancelled p of
                     Some e \<Rightarrow> Some (db, Inl e)
                   | None \<Rightarrow> wait_poll faults unmarshal a iccid ty after_id most secs deadline ps))"

text \<open>Where the waiting starts when no number is given: at the latest message in reach.\<close>

definition start_after :: "faults \<Rightarrow> (nat \<times> sms) list \<Rightarrow> int option \<Rightarrow> int result" where
  "start_after faults rows given =
     (case given of
        Some n \<Rightarrow> if n < 0 then Inl ''after_id must be >= 0'' else Inr n
      | None \<Rightarrow> db_call faults ''mcp.latest'' (if rows = [] then 0 else int (fst (last rows)) + 1))"

definition tool_wait_sms ::
    "faults \<Rightarrow> (string \<Rightarrow> stored_tpdu option) \<Rightarrow> gtime \<Rightarrow> actor option \<Rightarrow> mcp_wait_input \<Rightarrow> database \<Rightarrow> wait_turn list \<Rightarrow>
     (database \<times> mcp_wait_output result) option" where
  "tool_wait_sms faults unmarshal start actor inp db polls =
     (case get_mcp_actor actor of Inl e \<Rightarrow> Some (db, Inl e)
      | Inr (a, k) \<Rightarrow>
          if \<not> k_can_view_sms k then Some (db, Inl ''API key permission denied'')
          else case normalize_sms_type (mw_type inp) ''received'' of Inl e \<Rightarrow> Some (db, Inl e)
          | Inr ty \<Rightarrow>
              let secs = clamp_int (mw_timeout_sec inp) 30 1 120; most = clamp_int (mw_max_records inp) 20 1 100;
                  iccid = trim_space (mw_in_iccid inp)
              in case and_then (scoped_sms_query faults db a iccid ty) (\<lambda>rows. start_after faults rows (mw_after_id inp)) of
                   Inl e \<Rightarrow> Some (db, Inl e)
                 | Inr after_id \<Rightarrow>
                     wait_poll faults unmarshal a iccid ty after_id most secs (time_add start (secs * second_ns)) polls)"

subsection \<open>Sending and the modems\<close>

record mcp_send_input =
  mn_iccid :: string
  mn_phone :: string
  mn_message :: string

text \<open>The answer names the SIM and the number; the worker is the one that the manager finds.\<close>

definition tool_send_sms ::
    "worker_env \<Rightarrow> faults \<Rightarrow> database \<Rightarrow> actor option \<Rightarrow> mcp_send_input \<Rightarrow> wstate option \<Rightarrow> wstate option \<times> (string \<times> string) result" where
  "tool_send_sms env faults db actor inp w =
     (case get_mcp_actor actor of Inl e \<Rightarrow> (w, Inl e)
      | Inr (a, k) \<Rightarrow>
          if \<not> k_can_send_sms k then (w, Inl ''API key permission denied'')
          else let iccid = trim_space (mn_iccid inp)
               in if iccid = [] then (w, Inl ''iccid is required'')
                  else case actor_can_access faults db (Some a) iccid perm_send_sms of
                    Denied _ msg \<Rightarrow> (w, Inl msg)
                  | Granted \<Rightarrow>
                      if trim_space (mn_phone inp) = [] then (w, Inl ''phone is required'')
                      else if trim_space (mn_message inp) = [] then (w, Inl ''message is required'')
                      else (case w of None \<Rightarrow> (None, Inl ''modem not active (worker not found)'')
                            | Some s \<Rightarrow>
                                (case send_sms env (mn_phone inp) (mn_message inp) s of
                                   (s', Inl e) \<Rightarrow> (Some s', Inl (''send SMS failed: '' @ e))
                                 | (s', Inr _) \<Rightarrow> (Some s', Inr (iccid, mn_phone inp)))))"

record mcp_modem_permissions =
  mp_can_view_sms :: bool
  mp_can_send_sms :: bool
  mp_can_send_at :: bool
  mp_can_make_call :: bool

record mcp_modem_item =
  mi_modem :: modem
  mi_busy :: bool
  mi_uac_ready :: bool
  mi_permissions :: mcp_modem_permissions

text \<open>The entry of a modem, if it is shown: its worker runs, and can carry calls where calls are asked for.\<close>

definition mcp_modem_entry ::
    "faults \<Rightarrow> (string \<Rightarrow> worker option) \<Rightarrow> (worker \<Rightarrow> bool) \<Rightarrow> database \<Rightarrow> actor \<Rightarrow> string \<Rightarrow> modem \<Rightarrow> mcp_modem_item option" where
  "mcp_modem_entry faults wk busy db a perm m0 =
     (case wk (m_iccid m0) of None \<Rightarrow> None
      | Some w \<Rightarrow>
          (case worker_runtime w of None \<Rightarrow> None
           | Some rt \<Rightarrow>
               let m = modem_with_runtime_state m0 (Some rt);
                   may = (\<lambda>p. actor_can_access faults db (Some a) (m_iccid m) p = Granted)
               in if to_lower (trim_space (m_status m)) \<noteq> ''online'' then None
                  else if perm = perm_make_call \<and> \<not> wk_uac_ready w then None
                  else Some \<lparr> mi_modem = m, mi_busy = busy w, mi_uac_ready = wk_uac_ready w,
                         mi_permissions = \<lparr> mp_can_view_sms = may perm_view_sms, mp_can_send_sms = may perm_send_sms,
                           mp_can_send_at = may perm_send_at, mp_can_make_call = may perm_make_call \<rparr> \<rparr>))"

definition tool_list_modems ::
    "faults \<Rightarrow> (string \<Rightarrow> worker option) \<Rightarrow> (worker \<Rightarrow> bool) \<Rightarrow> actor option \<Rightarrow> string \<Rightarrow> database \<Rightarrow>
     (mcp_modem_item list \<times> string) result" where
  "tool_list_modems faults wk busy actor permission db =
     (case get_mcp_actor actor of Inl e \<Rightarrow> Inl e
      | Inr (a, k) \<Rightarrow>
          (case normalize_mcp_permission permission of Inl e \<Rightarrow> Inl e
           | Inr perm \<Rightarrow>
               if \<not> permission_flag_from_key (Some k) perm then Inl ''API key permission denied''
               else
                 (case allowed_iccids_for_permission faults db (ac_user a) perm of
                    Inl e \<Rightarrow> Inl (''permission check failed: '' @ e)
                  | Inr allowed \<Rightarrow>
                      and_then (db_call faults ''mcp.modems''
                          (sort_key m_iccid (filter (\<lambda>m. can_see (ac_user a) allowed (m_iccid m)) (t_modems db)))) (\<lambda>ms.
                        Inr (List.map_filter (mcp_modem_entry faults wk busy db a perm) ms, perm)))))"

end
