(* ===== verification/Mcp_Properties.thy ===== *)
theory Mcp_Properties
  imports Mcp_Api
begin

text \<open>
  What the tools of \<open>Mcp_Api\<close> promise: the keys they take are those of the REST interface, the pages of a list
  make up its window, following the numbers that \<open>wait_sms\<close> returns misses no message and repeats none, and
  sending and listing modems keep to the permissions.
\<close>

subsection \<open>Keys\<close>

text \<open>
  C37: The tools accept the same keys as the REST interface, for the same users, and note their use in the same
  way: a token is accepted if it looks like a key of the program and the middleware accepts it.
\<close>

theorem mcp_accepts_same_keys:
  "(case verify_api_key_token faults hash bad now raw db of (db', Inr t) \<Rightarrow> Some (db', ti_actor t) | _ \<Rightarrow> None) =
   (if is_smsie_api_key (trim_space raw)
    then (case auth_api_key faults hash now (trim_space raw) db of (db', Answered _ c) \<Rightarrow> Some (db', actor_of c) | _ \<Rightarrow> None)
    else None)"
proof -
  have "\<not> is_smsie_api_key []" by (simp add: is_smsie_api_key_def has_prefix_def)
  then show ?thesis
    by (auto simp: verify_api_key_token_def auth_api_key_def actor_of_def db_or_def Let_def split: option.splits sum.splits)
qed

subsection \<open>Rows and pages\<close>

lemma decode_page_length: "length (snd (decode_page faults unmarshal ms db)) = length ms"
  by (induction ms arbitrary: db) (auto simp: Let_def split_def)

lemma hydrate_ids: "map fst (snd (hydrate_sms_content faults unmarshal ms db)) = map fst ms"
  using decode_page_length [of faults unmarshal ms db]
  by (simp add: hydrate_sms_content_def split: prod.split) (metis length_map map_fst_zip snd_conv)

text \<open>The messages that the actor may read and that were asked for, in the order of their numbers.\<close>

definition in_reach :: "database \<Rightarrow> actor \<Rightarrow> string \<Rightarrow> string \<Rightarrow> (nat \<times> sms) list" where
  "in_reach db a iccid ty = filter (\<lambda>(i, m). may_view db a (s_iccid m) \<and> (iccid = [] \<or> s_iccid m = iccid) \<and> (ty = [] \<or> s_type m = ty))
     (enumerate 0 (t_sms db))"

lemma scoped_in_reach:
  assumes "rules_plain db" "permission_flag_from_key (ac_key a) perm_view_sms" "\<forall>m \<in> set (t_sms db). s_iccid m \<noteq> wildcard"
  shows "scoped_sms_query no_faults db a iccid ty = Inr rows \<Longrightarrow> rows = in_reach db a iccid ty"
    "iccid = [] \<or> may_view db a iccid \<Longrightarrow> scoped_sms_query no_faults db a iccid ty = Inr (in_reach db a iccid ty)"
proof -
  obtain l where l: "allowed_iccids_for_permission no_faults db (ac_user a) perm_view_sms = Inr l"
    using viewer_answers [OF assms(2), where db = db] by metis
  have sel: "filter (\<lambda>(i, m). sms_selected (ac_user a) l (scope_request iccid ty) m) (enumerate 0 (t_sms db)) = in_reach db a iccid ty"
    if "iccid = [] \<or> may_view db a iccid"
    unfolding in_reach_def
  proof (rule filter_cong [OF refl], clarify)
    fix i m
    assume "(i, m) \<in> set (enumerate 0 (t_sms db))"
    then have "m \<in> set (t_sms db)" by (auto simp: in_set_enumerate_eq)
    then show "sms_selected (ac_user a) l (scope_request iccid ty) m \<longleftrightarrow>
        may_view db a (s_iccid m) \<and> (iccid = [] \<or> s_iccid m = iccid) \<and> (ty = [] \<or> s_type m = ty)"
      using selected_may_view [OF assms(1,2) l, of m "scope_request iccid ty"] assms(3) that by (auto simp: scope_request_def)
  qed
  have any: "sms_selected (ac_user a) [] (scope_request iccid ty) = sms_selected (ac_user a) l (scope_request iccid ty)"
    if "iccid \<noteq> []"
    using that by (simp add: sms_selected_def scope_request_def fun_eq_iff)
  show "scoped_sms_query no_faults db a iccid ty = Inr (in_reach db a iccid ty)" if "iccid = [] \<or> may_view db a iccid"
    using sel [OF that] that l any by (auto simp: scoped_sms_query_def may_view_def)
  show "rows = in_reach db a iccid ty" if "scoped_sms_query no_faults db a iccid ty = Inr rows"
    using sel that l any by (auto simp: scoped_sms_query_def may_view_def split: if_splits access.splits)
qed

lemma clamp_range: "0 < fallback \<Longrightarrow> 0 < greatest \<Longrightarrow> 1 \<le> clamp_int v fallback 1 greatest \<and> clamp_int v fallback 1 greatest \<le> greatest"
  by (auto simp: clamp_int_def Let_def)

lemma clamp_page: "1 \<le> p \<Longrightarrow> p \<le> 1000000 \<Longrightarrow> clamp_int p 1 1 1000000 = p"
  by (simp add: clamp_int_def)

text \<open>The newest messages in reach, as many as the window takes.\<close>

definition mcp_window :: "actor \<Rightarrow> mcp_list_input \<Rightarrow> string \<Rightarrow> database \<Rightarrow> nat list" where
  "mcp_window a inp ty db = take (nat (clamp_int (ml_max_records inp) 100 1 500))
     (map fst (newest_first (s_timestamp \<circ> snd) (in_reach db a (trim_space (ml_iccid inp)) ty)))"

definition page_numbers :: "(string \<Rightarrow> stored_tpdu option) \<Rightarrow> actor \<Rightarrow> mcp_list_input \<Rightarrow> database \<Rightarrow> nat \<Rightarrow> nat list" where
  "page_numbers unmarshal a inp db p =
     (case tool_list_sms no_faults unmarshal (Some a) (inp\<lparr>ml_page := int p\<rparr>) db of
        (_, Inr out) \<Rightarrow> map fst (mo_data out) | _ \<Rightarrow> [])"

lemma one_page:
  assumes "rules_plain db" "ac_key a = Some k" "k_can_view_sms k" "\<forall>m \<in> set (t_sms db). s_iccid m \<noteq> wildcard"
    "normalize_sms_type (ml_type inp) [] = Inr ty" "trim_space (ml_iccid inp) = [] \<or> may_view db a (trim_space (ml_iccid inp))"
    "1 \<le> p" "p \<le> 1000000"
  defines "n \<equiv> nat (clamp_int (ml_page_size inp) 20 1 100)"
  shows "\<exists>db' out. tool_list_sms no_faults unmarshal (Some a) (inp\<lparr>ml_page := int p\<rparr>) db = (db', Inr out) \<and>
    map fst (mo_data out) = take n (drop ((p - 1) * n) (mcp_window a inp ty db)) \<and>
    (mo_has_more out \<longleftrightarrow> p * n < length (mcp_window a inp ty db))"
proof -
  let ?most = "clamp_int (ml_max_records inp) 100 1 500" and ?n = "clamp_int (ml_page_size inp) 20 1 100"
    and ?iccid = "trim_space (ml_iccid inp)"
  define L where "L = newest_first (s_timestamp \<circ> snd) (in_reach db a ?iccid ty)"
  define amount where "amount = min (length L) (nat ?most)"
  have n: "?n = int n" "1 \<le> n" using clamp_range [of 20 100 "ml_page_size inp"] unfolding n_def by linarith+
  have most: "1 \<le> ?most" using clamp_range [of 100 500 "ml_max_records inp"] by simp
  have key: "permission_flag_from_key (ac_key a) perm_view_sms"
    using assms(2,3) by (simp add: permission_flag_from_key_def perm_view_sms_def perm_make_call_def)
  have rows: "scoped_sms_query no_faults db a ?iccid ty = Inr (in_reach db a ?iccid ty)"
    by (rule scoped_in_reach(2) [OF assms(1) key assms(4,6)])
  have page: "clamp_int (int p) 1 1 1000000 = int p" using assms(7,8) by (intro clamp_page) simp_all
  have len: "length (in_reach db a ?iccid ty) = length L" by (simp add: L_def)
  have am: "min (int (length L)) ?most = int amount" using most by (simp add: amount_def)
  define x where "x = (p - 1) * n"
  have off: "(int p - 1) * ?n = int x" using assms(7) by (simp add: n(1) of_nat_diff x_def)
  have W: "mcp_window a inp ty db = map fst (take amount L)"
    by (simp add: mcp_window_def L_def [symmetric] amount_def take_map min_def)
  have W_len: "length (mcp_window a inp ty db) = amount" by (simp add: W amount_def)
  define ms where "ms = take (nat (min ?n (int amount - int x))) (drop x L)"
  obtain db' ms' where h: "hydrate_sms_content no_faults unmarshal ms db = (db', ms')" by fastforce
  then have ids: "map fst ms' = map fst ms" using hydrate_ids [of no_faults unmarshal ms db] by simp
  have ms: "ms = take n (drop x (take amount L))" if "x < amount"
  proof -
    have "int amount - int x = int (amount - x)" using that by linarith
    then show ?thesis unfolding ms_def n(1) by (simp only: of_nat_min [symmetric] nat_int drop_take take_take)
  qed
  define out where "out = (\<lambda>ms. \<lparr> mo_data = ms, mo_page = int p, mo_page_size = ?n, mo_max_records = ?most, mo_total = int amount,
        mo_total_available = int (length L), mo_returned = length ms,
        mo_has_more = (int x + int (length ms) < int amount), mo_iccid = ?iccid, mo_type = ty \<rparr>)"
  have run: "tool_list_sms no_faults unmarshal (Some a) (inp\<lparr>ml_page := int p\<rparr>) db =
      (if x < amount then (db', Inr (out ms')) else (db, Inr (out [])))"
    using assms(2,3,5) rows h
    by (simp add: tool_list_sms_def get_mcp_actor_def Let_def page len am off L_def [symmetric] ms_def out_def
        del: min_less_iff_conj length_newest_first)
  have p: "p * n = x + n" using assms(7) by (cases p) (simp_all add: x_def)
  show ?thesis
  proof (cases "x < amount")
    case True
    have l: "length ms' = min n (amount - x)"
      using ids [THEN arg_cong [of _ _ length]] ms [OF True] by (simp add: amount_def min.commute)
    have "mo_has_more (out ms') \<longleftrightarrow> x + length ms' < amount" unfolding out_def mcp_list_output.simps by linarith
    also have "\<dots> \<longleftrightarrow> p * n < amount" using True unfolding p l by linarith
    finally show ?thesis using True unfolding x_def [symmetric] by (simp add: run W_len) (simp add: out_def ids ms W take_map drop_map)
  next
    case False
    then show ?thesis using p unfolding x_def [symmetric] by (simp add: run W_len) (simp add: out_def W amount_def)
  qed
qed

text \<open>
  C36: Asking \<open>list_sms\<close> for one page after the other yields the window, no message twice and none left out:
  the newest of the messages that the caller may read and asked for, newest first. The answer says that there
  is more exactly when the pages so far do not make up the window.
\<close>

theorem mcp_pages_make_window:
  assumes "rules_plain db" "ac_key a = Some k" "k_can_view_sms k" "\<forall>m \<in> set (t_sms db). s_iccid m \<noteq> wildcard"
    "normalize_sms_type (ml_type inp) [] = Inr ty" "trim_space (ml_iccid inp) = [] \<or> may_view db a (trim_space (ml_iccid inp))"
    "1 \<le> p" "p \<le> 1000000"
  shows "concat (map (page_numbers unmarshal a inp db) [1..<Suc p]) =
      take (p * nat (clamp_int (ml_page_size inp) 20 1 100)) (mcp_window a inp ty db) \<and>
    (\<exists>db' out. tool_list_sms no_faults unmarshal (Some a) (inp\<lparr>ml_page := int p\<rparr>) db = (db', Inr out) \<and>
       (mo_has_more out \<longleftrightarrow> p * nat (clamp_int (ml_page_size inp) 20 1 100) < length (mcp_window a inp ty db)))"
proof -
  let ?n = "nat (clamp_int (ml_page_size inp) 20 1 100)" and ?W = "mcp_window a inp ty db"
  have page: "page_numbers unmarshal a inp db q = take ?n (drop ((q - 1) * ?n) ?W)" if "1 \<le> q" "q \<le> 1000000" for q
    using one_page [OF assms(1-6) that, of unmarshal] by (auto simp: page_numbers_def)
  have "q \<le> 1000000 \<Longrightarrow> concat (map (page_numbers unmarshal a inp db) [1..<Suc q]) = take (q * ?n) ?W" for q
  proof (induction q)
    case (Suc q)
    then show ?case using page [of "Suc q"] by (simp add: take_add add.commute [of ?n])
  qed simp
  then show ?thesis using one_page [OF assms, of unmarshal] assms(8) by blast
qed

subsection \<open>Waiting\<close>

lemma no_fault: "no_faults l = None"
  by (simp add: no_faults_def)

lemma allowed_despite_faults:
  "allowed_iccids_for_permission faults db u perm = Inr l \<Longrightarrow> allowed_iccids_for_permission no_faults db u perm = Inr l"
  by (simp add: allowed_iccids_for_permission_def Let_def db_call_def no_fault split: if_splits option.splits)

lemma access_despite_faults:
  assumes "actor_can_access faults db actor iccid perm = Granted"
  shows "actor_can_access no_faults db actor iccid perm = Granted"
proof (cases actor)
  case (Some a)
  then show ?thesis
    using assms by (cases "is_admin (ac_user a)"; cases "faults ''rules.count''"; cases "faults ''rules.first''")
      (auto simp: actor_can_access_def db_call_def no_fault split: if_splits option.splits)
qed (use assms in \<open>simp add: actor_can_access_def\<close>)

lemma scoped_despite_faults:
  assumes "scoped_sms_query faults db a iccid ty = Inr rows"
  shows "scoped_sms_query no_faults db a iccid ty = Inr rows"
proof (cases "iccid = []")
  case True
  then show ?thesis
    using assms allowed_despite_faults [of faults db "ac_user a" perm_view_sms] by (auto simp: scoped_sms_query_def split: sum.splits)
next
  case False
  then show ?thesis
    using assms access_despite_faults [of faults db "Some a" iccid perm_view_sms]
    by (auto simp: scoped_sms_query_def split: access.splits)
qed

text \<open>The messages in reach with a number beyond the given one.\<close>

definition beyond :: "int \<Rightarrow> (nat \<times> sms) list \<Rightarrow> (nat \<times> sms) list" where
  "beyond after_id rows = filter (\<lambda>(i, m). int i + 1 > after_id) rows"

lemma wait_poll_result:
  assumes "wait_poll faults unmarshal a iccid ty after_id most secs deadline ps = Some (db', Inr out)"
  shows "\<exists>p \<in> set ps. \<exists>rows. scoped_sms_query no_faults (pl_db p) a iccid ty = Inr rows \<and>
    map fst (wo_data out) = map fst (take (nat most) (beyond after_id rows)) \<and>
    wo_next_after_id out = (if wo_data out = [] then after_id else max after_id (int (last (map fst (wo_data out))) + 1))"
  using assms
proof (induction ps)
  case (Cons p ps)
  show ?case
  proof (cases "scoped_sms_query faults (pl_db p) a iccid ty")
    case (Inr rows)
    define ms where "ms = take (nat most) (beyond after_id rows)"
    obtain db1 ms' where h: "hydrate_sms_content faults unmarshal ms (pl_db p) = (db1, ms')" by fastforce
    have ids: "map fst ms' = map fst ms" using hydrate_ids [of faults unmarshal ms "pl_db p"] h by simp
    have none: "faults ''mcp.poll'' = None"
      using Cons.prems Inr by (auto simp: Let_def db_call_def split: option.splits)
    show ?thesis
    proof (cases "ms = []")
      case True
      then show ?thesis
        using Cons Inr none scoped_despite_faults [OF Inr]
        by (auto simp: Let_def db_call_def ms_def beyond_def split: if_splits option.splits)
    next
      case False
      then have some: "ms' \<noteq> []" using ids by auto
      have "out = \<lparr> wo_data = ms', wo_timeout = False, wo_after_id = after_id,
          wo_next_after_id = max after_id (int (fst (last ms')) + 1), wo_timeout_sec = secs, wo_iccid = iccid, wo_type = ty \<rparr>"
        using Cons.prems Inr none False h unfolding ms_def beyond_def by (simp add: Let_def db_call_def)
      then have "map fst (wo_data out) = map fst (take (nat most) (beyond after_id rows)) \<and>
          wo_next_after_id out = (if wo_data out = [] then after_id else max after_id (int (last (map fst (wo_data out))) + 1))"
        using some ids last_map [OF some, of fst, symmetric] by (simp add: ms_def)
      then show ?thesis using scoped_despite_faults [OF Inr] by (intro bexI [of _ p] exI [of _ rows]) simp_all
    qed
  qed (use Cons.prems in \<open>simp add: Let_def\<close>)
qed simp

text \<open>A table that has grown: later messages are added, and who may read what has not changed.\<close>

definition table_grows :: "database \<Rightarrow> database \<Rightarrow> bool" where
  "table_grows db db' \<longleftrightarrow> t_permissions db' = t_permissions db \<and> length (t_sms db) \<le> length (t_sms db') \<and>
     (\<forall>i < length (t_sms db). s_iccid (t_sms db' ! i) = s_iccid (t_sms db ! i) \<and> s_type (t_sms db' ! i) = s_type (t_sms db ! i))"

lemma same_rules_same_access:
  assumes "t_permissions db' = t_permissions db"
  shows "actor_can_access faults db' actor iccid perm = actor_can_access faults db actor iccid perm"
proof -
  have rules: "rules_of db' u = rules_of db u" for u using assms by (simp add: rules_of_def)
  show ?thesis unfolding actor_can_access_def rules ..
qed

lemma filter_enumerate_ids: "map fst (filter P (enumerate 0 xs)) = filter (\<lambda>i. P (i, xs ! i)) [0..<length xs]"
proof -
  have "enumerate 0 xs = map (\<lambda>i. (i, xs ! i)) [0..<length xs]"
    by (rule nth_equalityI) (simp_all add: nth_enumerate_eq)
  then show ?thesis by (simp add: filter_map comp_def)
qed

lemma grown_reach:
  assumes "table_grows db fin"
  shows "map fst (in_reach db a iccid ty) = filter (\<lambda>i. i < length (t_sms db)) (map fst (in_reach fin a iccid ty))"
proof -
  have view: "may_view fin a c = may_view db a c" for c
    using assms same_rules_same_access [of fin db] by (simp add: may_view_def table_grows_def)
  have len: "length (t_sms db) \<le> length (t_sms fin)" using assms by (simp add: table_grows_def)
  have "[0..<length (t_sms fin)] = [0..<length (t_sms db)] @ [length (t_sms db)..<length (t_sms fin)]"
    using upt_add_eq_append [of 0 "length (t_sms db)" "length (t_sms fin) - length (t_sms db)"] len by simp
  then show ?thesis
    unfolding in_reach_def filter_enumerate_ids
    using assms by (auto simp: view table_grows_def filter_empty_conv intro!: filter_cong)
qed

lemma reach_sorted: "sorted_wrt (<) (map fst (in_reach db a iccid ty))"
  unfolding in_reach_def filter_enumerate_ids by (simp add: sorted_wrt_filter sorted_wrt_upt)

lemma filter_ranges:
  assumes "sorted_wrt (<) (R :: nat list)" "b \<le> c" "c \<le> e"
  shows "filter (\<lambda>i. b \<le> int i \<and> int i < c) R @ filter (\<lambda>i. c \<le> int i \<and> int i < e) R = filter (\<lambda>i. b \<le> int i \<and> int i < e) R"
  using assms(1)
proof (induction R)
  case (Cons i R)
  show ?case
  proof (cases "int i < c")
    case True
    then show ?thesis using Cons assms(2,3) by auto
  next
    case False
    then have "filter (\<lambda>i. b \<le> int i \<and> int i < c) (i # R) = []"
      using Cons.prems by (auto simp: filter_empty_conv)
    moreover have "filter (\<lambda>i. c \<le> int i \<and> int i < e) (i # R) = filter (\<lambda>i. b \<le> int i \<and> int i < e) (i # R)"
      using Cons.prems False assms(2) by (intro filter_cong) auto
    ultimately show ?thesis by (simp only: append_Nil)
  qed
qed simp

lemma take_until_last:
  assumes "sorted_wrt (<) (ys :: nat list)" "take k ys \<noteq> []"
  shows "take k ys = filter (\<lambda>i. i \<le> last (take k ys)) ys"
proof -
  have ord: "x < y" if "x \<in> set (take k ys)" "y \<in> set (drop k ys)" for x y
    using assms(1) that by (metis append_take_drop_id sorted_wrt_append)
  obtain zs z where z: "take k ys = zs @ [z]" using assms(2) by (metis rev_exhaust)
  have "sorted_wrt (<) (zs @ [z])" using assms(1) by (metis append_take_drop_id sorted_wrt_append z)
  then have le: "x \<le> last (take k ys)" if "x \<in> set (take k ys)" for x
    using that by (auto simp: z sorted_wrt_append)
  have "filter (\<lambda>i. i \<le> last (take k ys)) (take k ys) = take k ys" using le by simp
  moreover have "filter (\<lambda>i. i \<le> last (take k ys)) (drop k ys) = []"
    using ord [OF last_in_set [OF assms(2)]] by (auto simp: filter_empty_conv not_le)
  ultimately show ?thesis by (metis append.right_neutral append_take_drop_id filter_append)
qed

text \<open>A client that goes on from the number that every answer returns, and calls again after an error.\<close>

record wait_call =
  wc_faults :: faults
  wc_start :: gtime
  wc_db :: database
  wc_polls :: "wait_turn list"

fun follow_sms ::
    "(string \<Rightarrow> stored_tpdu option) \<Rightarrow> actor \<Rightarrow> mcp_wait_input \<Rightarrow> int \<Rightarrow> wait_call list \<Rightarrow> int \<times> nat list" where
  "follow_sms unmarshal a inp after_id [] = (after_id, [])"
| "follow_sms unmarshal a inp after_id (c # cs) =
     (case tool_wait_sms (wc_faults c) unmarshal (wc_start c) (Some a) (inp\<lparr>mw_after_id := Some after_id\<rparr>) (wc_db c) (wc_polls c) of
        Some (_, Inr out) \<Rightarrow>
          (case follow_sms unmarshal a inp (wo_next_after_id out) cs of (e, ns) \<Rightarrow> (e, map fst (wo_data out) @ ns))
      | _ \<Rightarrow> follow_sms unmarshal a inp after_id cs)"

lemma wait_call_numbers:
  assumes "tool_wait_sms faults unmarshal start (Some a) (inp\<lparr>mw_after_id := Some cur\<rparr>) db polls = Some (db', Inr out)"
    and "normalize_sms_type (mw_type inp) ''received'' = Inr ty" "rules_plain fin"
    "\<forall>m \<in> set (t_sms fin). s_iccid m \<noteq> wildcard" "\<forall>p \<in> set polls. table_grows (pl_db p) fin"
  defines "R \<equiv> map fst (in_reach fin a (trim_space (mw_in_iccid inp)) ty)"
  shows "0 \<le> cur \<and> cur \<le> wo_next_after_id out \<and>
    map fst (wo_data out) = filter (\<lambda>i. cur \<le> int i \<and> int i < wo_next_after_id out) R"
proof -
  let ?iccid = "trim_space (mw_in_iccid inp)"
  obtain k where k: "ac_key a = Some k" "k_can_view_sms k" and cur: "0 \<le> cur"
    and run: "\<exists>most secs deadline. wait_poll faults unmarshal a ?iccid ty cur most secs deadline polls = Some (db', Inr out)"
    using assms(1,2)
    by (cases "scoped_sms_query faults db a (trim_space (mw_in_iccid inp)) ty") (auto simp: tool_wait_sms_def get_mcp_actor_def start_after_def Let_def split: option.splits if_splits sum.splits)
  from run obtain most secs deadline where
    wait: "wait_poll faults unmarshal a ?iccid ty cur most secs deadline polls = Some (db', Inr out)" by blast
  from wait_poll_result [OF wait] obtain p rows where p: "p \<in> set polls"
    and rows: "scoped_sms_query no_faults (pl_db p) a ?iccid ty = Inr rows"
    and ids: "map fst (wo_data out) = map fst (take (nat most) (beyond cur rows))"
    and nxt: "wo_next_after_id out = (if wo_data out = [] then cur else max cur (int (last (map fst (wo_data out))) + 1))" by blast
  have grows: "table_grows (pl_db p) fin" using assms(5) p by blast
  have key: "permission_flag_from_key (ac_key a) perm_view_sms"
    using k by (simp add: permission_flag_from_key_def perm_view_sms_def perm_make_call_def)
  have plain: "rules_plain (pl_db p)" using assms(3) grows by (simp add: rules_plain_def rules_unique_def table_grows_def)
  have sims: "\<forall>m \<in> set (t_sms (pl_db p)). s_iccid m \<noteq> wildcard"
    using assms(4) grows by (auto simp: table_grows_def in_set_conv_nth) (metis nth_mem order_less_le_trans)
  have "rows = in_reach (pl_db p) a ?iccid ty" by (rule scoped_in_reach(1) [OF plain key sims rows])
  then have R: "map fst rows = filter (\<lambda>i. i < length (t_sms (pl_db p))) R" by (simp add: R_def grown_reach [OF grows])
  have num: "cur < int i + 1 \<longleftrightarrow> cur \<le> int i" for i by linarith
  have b: "map fst (beyond cur rows) = filter (\<lambda>i. cur \<le> int i) (map fst rows)"
    using num by (simp add: beyond_def filter_map comp_def split_def)
  define ys where "ys = filter (\<lambda>i. cur \<le> int i \<and> i < length (t_sms (pl_db p))) R"
  have ys: "map fst (beyond cur rows) = ys" by (simp add: b R ys_def conj_commute)
  have sorted: "sorted_wrt (<) ys" unfolding ys_def R_def by (rule sorted_wrt_filter [OF reach_sorted])
  have ns: "map fst (wo_data out) = take (nat most) ys" by (simp add: ids ys [symmetric] take_map)
  show ?thesis
  proof (cases "wo_data out = []")
    case True
    then show ?thesis using cur nxt by (auto simp: filter_empty_conv)
  next
    case False
    then have some: "take (nat most) ys \<noteq> []" using ns by auto
    define l where "l = last (take (nat most) ys)"
    have "l \<in> set ys" unfolding l_def using last_in_set [OF some] by (rule in_set_takeD)
    then have l: "cur \<le> int l" "l < length (t_sms (pl_db p))" by (simp_all add: ys_def)
    have reached: "wo_next_after_id out = int l + 1" using nxt False l(1) by (simp add: ns l_def)
    have "map fst (wo_data out) = filter (\<lambda>i. i \<le> l) ys" using take_until_last [OF sorted some] by (simp add: ns l_def)
    also have "\<dots> = filter (\<lambda>i. cur \<le> int i \<and> int i < int l + 1) R"
      unfolding ys_def filter_filter using l(2) by (intro filter_cong) auto
    finally show ?thesis using cur l(1) reached by simp
  qed
qed

lemma follow_sms_numbers:
  assumes "follow_sms unmarshal a inp cur calls = (reached, numbers)"
    and "normalize_sms_type (mw_type inp) ''received'' = Inr ty" "rules_plain fin"
    "\<forall>m \<in> set (t_sms fin). s_iccid m \<noteq> wildcard"
    "\<forall>c \<in> set calls. \<forall>p \<in> set (wc_polls c). table_grows (pl_db p) fin"
  shows "cur \<le> reached \<and>
    numbers = filter (\<lambda>i. cur \<le> int i \<and> int i < reached) (map fst (in_reach fin a (trim_space (mw_in_iccid inp)) ty))"
  using assms(1,5)
proof (induction calls arbitrary: cur reached numbers)
  case Nil
  then show ?case by (auto simp: filter_empty_conv)
next
  case (Cons c cs)
  let ?R = "map fst (in_reach fin a (trim_space (mw_in_iccid inp)) ty)"
  let ?run = "tool_wait_sms (wc_faults c) unmarshal (wc_start c) (Some a) (inp\<lparr>mw_after_id := Some cur\<rparr>) (wc_db c) (wc_polls c)"
  show ?case
  proof (cases "\<exists>db' out. ?run = Some (db', Inr out)")
    case True
    then obtain db' out where out: "?run = Some (db', Inr out)" by blast
    obtain e ns where rest: "follow_sms unmarshal a inp (wo_next_after_id out) cs = (e, ns)" by fastforce
    have res: "reached = e" "numbers = map fst (wo_data out) @ ns" using Cons.prems(1) by (simp_all add: out rest)
    have one: "cur \<le> wo_next_after_id out"
      "map fst (wo_data out) = filter (\<lambda>i. cur \<le> int i \<and> int i < wo_next_after_id out) ?R"
      using wait_call_numbers [OF out assms(2-4)] Cons.prems(2) by simp_all
    have ih: "wo_next_after_id out \<le> e" "ns = filter (\<lambda>i. wo_next_after_id out \<le> int i \<and> int i < e) ?R"
      using Cons.IH [OF rest] Cons.prems(2) by simp_all
    show ?thesis using filter_ranges [OF reach_sorted one(1) ih(1)] one ih(1) unfolding res one(2) ih(2) by simp
  next
    case False
    then have "follow_sms unmarshal a inp cur cs = (reached, numbers)"
      using Cons.prems(1) by (auto split: option.splits prod.splits sum.splits)
    then show ?thesis using Cons.IH Cons.prems(2) by simp
  qed
qed

text \<open>Every call returns, at the latest with the first turn after its time has run out.\<close>

lemma wait_poll_returns:
  "p \<in> set polls \<Longrightarrow> deadline < pl_now p \<Longrightarrow>
    wait_poll faults unmarshal a iccid ty after_id most secs deadline polls \<noteq> None"
  by (induction polls) (auto simp: Let_def split: sum.split prod.split option.split)

lemma tool_wait_sms_returns:
  assumes "p \<in> set polls" "time_add start (120 * second_ns) < pl_now p"
  shows "tool_wait_sms faults unmarshal start actor inp db polls \<noteq> None"
proof -
  have "time_add start (clamp_int (mw_timeout_sec inp) 30 1 120 * second_ns) < pl_now p"
    using assms(2) clamp_range [of 30 120 "mw_timeout_sec inp"] by (simp add: time_add_def second_ns_def)
  from wait_poll_returns [OF assms(1) this] show ?thesis
    by (auto simp: tool_wait_sms_def Let_def split: sum.split prod.split)
qed

text \<open>
  C3: Following the numbers that \<open>wait_sms\<close> returns delivers every message once: whatever else fails, the
  messages of all the answers, in their order, are exactly those that the caller may read and asked for, from
  the number it started with to the number it has reached, none missing, none twice, whenever they arrived. And every call
  returns, at the latest with the first turn that comes more than two minutes after it began.
\<close>

theorem mcp_wait_exactly_once:
  assumes "follow_sms unmarshal a inp cur calls = (reached, numbers)"
    and "normalize_sms_type (mw_type inp) ''received'' = Inr ty" "rules_plain fin"
    "\<forall>m \<in> set (t_sms fin). s_iccid m \<noteq> wildcard"
    "\<forall>c \<in> set calls. \<forall>p \<in> set (wc_polls c). table_grows (pl_db p) fin"
  shows "cur \<le> reached \<and>
    numbers = filter (\<lambda>i. cur \<le> int i \<and> int i < reached) (map fst (in_reach fin a (trim_space (mw_in_iccid inp)) ty)) \<and>
    list_all (\<lambda>c. list_ex (\<lambda>p. time_add (wc_start c) (120 * second_ns) < pl_now p) (wc_polls c) \<longrightarrow>
      tool_wait_sms (wc_faults c) unmarshal (wc_start c) (Some a) (inp\<lparr>mw_after_id := Some n\<rparr>) (wc_db c) (wc_polls c) \<noteq> None) calls"
  using follow_sms_numbers [OF assms] tool_wait_sms_returns by (simp add: list_all_iff list_ex_iff) blast

subsection \<open>Permissions\<close>

text \<open>The modems that a filter of \<open>list_modems\<close> should show: granted, present, running, able to call if asked for.\<close>

definition mcp_usable :: "(string \<Rightarrow> worker option) \<Rightarrow> database \<Rightarrow> actor \<Rightarrow> string \<Rightarrow> string \<Rightarrow> bool" where
  "mcp_usable wk db a perm c \<longleftrightarrow>
     actor_can_access no_faults db (Some a) c perm = Granted \<and>
     (case wk c of None \<Rightarrow> False
      | Some w \<Rightarrow> wk_modem w \<noteq> None \<and> \<not> wk_stopped w \<and> (perm \<noteq> perm_make_call \<or> wk_uac_ready w))"

lemma runtime_online:
  "worker_runtime w = Some rt \<Longrightarrow> to_lower (trim_space (rt_status rt)) = ''online'' \<longleftrightarrow> \<not> wk_stopped w"
  by (auto simp: worker_runtime_def runtime_modem_state_def to_lower_def trim_space_def trim_by_def trim_right_def is_space_def
      go_spaces_def less_eq_char_def split: option.splits if_splits)

lemma worker_runtime_some: "worker_runtime w = None \<longleftrightarrow> wk_modem w = None"
  by (simp add: worker_runtime_def runtime_modem_state_def split: option.split)

text \<open>
  C38: The tools keep to the permissions of the key and its user: \<open>list_modems\<close> shows exactly the modems whose
  worker runs and for which the permission asked for is granted, and \<open>send_sms\<close> touches a modem, or says that
  it has sent, only for a key that may send with a SIM for which sending is granted.
\<close>

theorem mcp_tools_guarded:
  assumes "rules_plain db" "\<forall>m \<in> set (t_modems db). m_iccid m \<noteq> wildcard"
    and "\<And>c w rt. wk c = Some w \<Longrightarrow> worker_runtime w = Some rt \<Longrightarrow> rt_iccid rt = c"
    and "tool_list_modems no_faults wk busy (Some a) permission db = Inr (items, perm)"
  shows "(\<lambda>i. m_iccid (mi_modem i)) ` set items = {c \<in> m_iccid ` set (t_modems db). mcp_usable wk db a perm c} \<and>
    ((\<exists>e. tool_send_sms env faults db actor inp s = (s, Inl e)) \<or>
     (\<exists>b k. actor = Some b \<and> ac_key b = Some k \<and> k_can_send_sms k \<and>
       actor_can_access faults db (Some b) (trim_space (mn_iccid inp)) perm_send_sms = Granted))"
proof
  obtain k l where k: "ac_key a = Some k" "permission_flag_from_key (Some k) perm"
    and l: "allowed_iccids_for_permission no_faults db (ac_user a) perm = Inr l"
    and items: "items = List.map_filter (mcp_modem_entry no_faults wk busy db a perm)
         (sort_key m_iccid (filter (\<lambda>m. can_see (ac_user a) l (m_iccid m)) (t_modems db)))"
    using assms(4) by (auto simp: tool_list_modems_def get_mcp_actor_def split: option.splits sum.splits if_splits)
  have see: "can_see (ac_user a) l (m_iccid m) \<longleftrightarrow> actor_can_access no_faults db (Some a) (m_iccid m) perm = Granted"
    if "m \<in> set (t_modems db)" for m
    using can_see_granted [OF assms(1) _ _ l, of "m_iccid m"] k assms(2) that by simp
  have entry: "(\<exists>i. mcp_modem_entry no_faults wk busy db a perm m = Some i \<and> m_iccid (mi_modem i) = c) \<longleftrightarrow>
      c = m_iccid m \<and> (case wk (m_iccid m) of None \<Rightarrow> False
        | Some w \<Rightarrow> wk_modem w \<noteq> None \<and> \<not> wk_stopped w \<and> (perm \<noteq> perm_make_call \<or> wk_uac_ready w))" for m c
  proof (cases "wk (m_iccid m)")
    case None
    then show ?thesis by (simp add: mcp_modem_entry_def)
  next
    case (Some w)
    show ?thesis
    proof (cases "worker_runtime w")
      case None
      then show ?thesis using Some worker_runtime_some [of w] by (simp add: mcp_modem_entry_def)
    next
      case (Some rt)
      have c: "rt_iccid rt = m_iccid m" by (rule assms(3) [OF \<open>wk (m_iccid m) = Some w\<close> Some])
      show ?thesis
        using \<open>wk (m_iccid m) = Some w\<close> Some c runtime_online [OF Some] worker_runtime_some [of w]
        by (auto simp: mcp_modem_entry_def modem_with_runtime_state_def Let_def)
    qed
  qed
  have shown: "c \<in> (\<lambda>i. m_iccid (mi_modem i)) ` set items \<longleftrightarrow>
      (\<exists>m \<in> set (t_modems db). can_see (ac_user a) l (m_iccid m) \<and>
         (\<exists>i. mcp_modem_entry no_faults wk busy db a perm m = Some i \<and> m_iccid (mi_modem i) = c))" for c
    unfolding items by (auto simp: List.map_filter_def image_iff)
  have "c \<in> (\<lambda>i. m_iccid (mi_modem i)) ` set items \<longleftrightarrow>
      (\<exists>m \<in> set (t_modems db). c = m_iccid m \<and> mcp_usable wk db a perm (m_iccid m))" for c
    unfolding shown entry mcp_usable_def by (rule bex_cong [OF refl]) (auto simp: see)
  then show "(\<lambda>i. m_iccid (mi_modem i)) ` set items = {c \<in> m_iccid ` set (t_modems db). mcp_usable wk db a perm c}"
    by (intro set_eqI) (simp only: mem_Collect_eq image_iff, blast)
next
  show "(\<exists>e. tool_send_sms env faults db actor inp s = (s, Inl e)) \<or>
     (\<exists>b k. actor = Some b \<and> ac_key b = Some k \<and> k_can_send_sms k \<and>
       actor_can_access faults db (Some b) (trim_space (mn_iccid inp)) perm_send_sms = Granted)"
    by (cases actor; cases "ac_key (the actor)"; cases "actor_can_access faults db actor (trim_space (mn_iccid inp)) perm_send_sms")
      (auto simp: tool_send_sms_def get_mcp_actor_def Let_def)
qed

subsection \<open>Concrete runs\<close>

definition demo_mcp_key :: api_key where
  "demo_mcp_key = \<lparr> k_id = 1, k_user_id = 7, k_name = [], k_prefix = [], k_hash = ''h'', k_can_make_call = False, k_can_view_sms = True,
     k_can_send_sms = True, k_can_send_at = False, k_is_active = True, k_last_used_at = None, k_expires_at = None \<rparr>"

definition demo_mcp_actor :: actor where
  "demo_mcp_actor = \<lparr> ac_user = demo_user ''*'', ac_key = Some demo_mcp_key \<rparr>"

lemma demo_mcp_facts:
  "rules_plain demo_sms_db" "ac_key demo_mcp_actor = Some demo_mcp_key" "k_can_view_sms demo_mcp_key"
  "\<forall>m \<in> set (t_sms demo_sms_db). s_iccid m \<noteq> wildcard"
  by (simp_all add: rules_plain_def rules_unique_def demo_sms_db_def demo_rule_def empty_db_def wildcard_def demo_mcp_actor_def
      demo_mcp_key_def demo_sms_def)

definition demo_list_input :: mcp_list_input where
  "demo_list_input = \<lparr> ml_iccid = [], ml_page = 1, ml_page_size = 1, ml_max_records = 0, ml_type = ''all'' \<rparr>"

theorem mcp_pages_make_window_witness:
  "concat (map (page_numbers demo_unmarshal demo_mcp_actor demo_list_input demo_sms_db) [1..<Suc 2]) = [2, 0]"
proof -
  have ty: "normalize_sms_type (ml_type demo_list_input) [] = Inr []" by code_simp
  have all: "trim_space (ml_iccid demo_list_input) = [] \<or> may_view demo_sms_db demo_mcp_actor (trim_space (ml_iccid demo_list_input))"
    by code_simp
  have "mcp_window demo_mcp_actor demo_list_input [] demo_sms_db = [2, 0]"
    "nat (clamp_int (ml_page_size demo_list_input) 20 1 100) = 1" by code_simp+
  then show ?thesis using mcp_pages_make_window [OF demo_mcp_facts ty all, of 2 demo_unmarshal] by simp
qed

definition demo_wait_input :: mcp_wait_input where
  "demo_wait_input = \<lparr> mw_in_iccid = [], mw_after_id = None, mw_timeout_sec = 1, mw_max_records = 1, mw_type = [] \<rparr>"

definition demo_wait_call :: wait_call where
  "demo_wait_call = \<lparr> wc_faults = no_faults, wc_start = 0, wc_db = demo_sms_db,
     wc_polls = [\<lparr> pl_db = demo_sms_db, pl_now = 0, pl_cancelled = None \<rparr>] \<rparr>"

theorem mcp_wait_exactly_once_witness:
  "follow_sms demo_unmarshal demo_mcp_actor demo_wait_input 0 [demo_wait_call, demo_wait_call] = (3, [0, 2]) \<and>
   [0, 2] = filter (\<lambda>i. 0 \<le> int i \<and> int i < 3) (map fst (in_reach demo_sms_db demo_mcp_actor [] ''received''))"
proof -
  have run: "follow_sms demo_unmarshal demo_mcp_actor demo_wait_input 0 [demo_wait_call, demo_wait_call] = (3, [0, 2])" by code_simp
  have ty: "normalize_sms_type (mw_type demo_wait_input) ''received'' = Inr ''received''" by code_simp
  have all: "trim_space (mw_in_iccid demo_wait_input) = []" by code_simp
  have "\<forall>c \<in> set [demo_wait_call, demo_wait_call]. \<forall>p \<in> set (wc_polls c). table_grows (pl_db p) demo_sms_db"
    by (simp add: demo_wait_call_def table_grows_def)
  from mcp_wait_exactly_once [OF run ty demo_mcp_facts(1,4) this] run all show ?thesis by simp
qed

definition demo_mcp_worker :: "string \<Rightarrow> worker option" where
  "demo_mcp_worker c = (if c = ''c1'' then Some ((new_modem_worker ''p1'' 0)\<lparr>wk_modem := Some (new_modem ''c1'')\<rparr>) else None)"

definition demo_mcp_db :: database where
  "demo_mcp_db = demo_sms_db\<lparr>t_modems := [new_modem ''c1'', new_modem ''c2'']\<rparr>"

theorem mcp_tools_guarded_witness:
  "\<exists>items. tool_list_modems no_faults demo_mcp_worker (\<lambda>_. False) (Some demo_mcp_actor) ''view_sms'' demo_mcp_db = Inr (items, perm_view_sms) \<and>
     (\<lambda>i. m_iccid (mi_modem i)) ` set items = {''c1''}"
proof -
  have "case tool_list_modems no_faults demo_mcp_worker (\<lambda>_. False) (Some demo_mcp_actor) ''view_sms'' demo_mcp_db of
      Inr (_, p) \<Rightarrow> p = perm_view_sms | _ \<Rightarrow> False" by code_simp
  then obtain items where items: "tool_list_modems no_faults demo_mcp_worker (\<lambda>_. False) (Some demo_mcp_actor) ''view_sms'' demo_mcp_db =
      Inr (items, perm_view_sms)" by (auto split: sum.splits prod.splits)
  have rules: "rules_plain demo_mcp_db" using demo_mcp_facts(1) by (simp add: rules_plain_def rules_unique_def demo_mcp_db_def)
  have sims: "\<forall>m \<in> set (t_modems demo_mcp_db). m_iccid m \<noteq> wildcard"
    by (simp add: demo_mcp_db_def new_modem_def wildcard_def)
  have found: "rt_iccid rt = c" if "demo_mcp_worker c = Some w" "worker_runtime w = Some rt" for c w rt
    using that by (auto simp: demo_mcp_worker_def worker_runtime_def runtime_modem_state_def new_modem_def split: if_splits)
  have "c = ''c1'' \<longleftrightarrow> c \<in> m_iccid ` set (t_modems demo_mcp_db) \<and> mcp_usable demo_mcp_worker demo_mcp_db demo_mcp_actor perm_view_sms c" for c
  proof (cases "c = ''c1''")
    case True
    have "mcp_usable demo_mcp_worker demo_mcp_db demo_mcp_actor perm_view_sms ''c1''" by code_simp
    then show ?thesis using True by (simp add: demo_mcp_db_def new_modem_def)
  qed (simp add: mcp_usable_def demo_mcp_worker_def)
  then have "{c \<in> m_iccid ` set (t_modems demo_mcp_db). mcp_usable demo_mcp_worker demo_mcp_db demo_mcp_actor perm_view_sms c} = {''c1''}"
    by blast
  with mcp_tools_guarded [OF rules sims found items, THEN conjunct1] items show ?thesis by auto
qed

end
