(* ===== verification/Audio_Device.thy ===== *)
theory Audio_Device
  imports Sip_Gateway Call_Recordings
begin

text \<open>
  The choice of the audio device of a modem: \<open>internal/calling/alsa_sysfs.go\<close>, \<open>alsa_linux.go\<close>,
  \<open>usb_port_linux.go\<close>, \<open>usb.go\<close> and \<open>uac_device.go\<close>. The files under \<open>/sys\<close>, the devices on the USB and
  the devices that PortAudio lists are parameters.
\<close>

subsection \<open>Paths\<close>

text \<open>\<open>filepath.Clean\<close>, \<open>filepath.Join\<close> and \<open>filepath.Dir\<close> on Unix.\<close>

definition clean_step :: "bool \<Rightarrow> string list \<Rightarrow> string \<Rightarrow> string list" where
  "clean_step rooted st c =
     (if c = [] \<or> c = ''.'' then st
      else if c = ''..'' then
        (if st \<noteq> [] \<and> last st \<noteq> ''..'' then butlast st else if rooted then st else st @ [''..''])
      else st @ [c])"

definition path_clean :: "string \<Rightarrow> string" where
  "path_clean p =
     (let rooted = has_prefix p ''/''; body = join_with ''/'' (foldl (clean_step rooted) [] (split_on (CHR ''/'') p))
      in if rooted then ''/'' @ body else if body = [] then ''.'' else body)"

definition path_join :: "string list \<Rightarrow> string" where
  "path_join parts =
     (let ne = filter (\<lambda>x. x \<noteq> []) parts in if ne = [] then [] else path_clean (join_with ''/'' ne))"

definition path_dir :: "string \<Rightarrow> string" where
  "path_dir p = path_clean (rev (dropWhile (\<lambda>c. c \<noteq> CHR ''/'') (rev p)))"

subsection \<open>The files under \<open>/sys\<close>\<close>

record sysfs =
  fs_eval_symlinks :: "string \<Rightarrow> string result"
  fs_exists :: "string \<Rightarrow> bool"
  fs_read_dir :: "string \<Rightarrow> string list result"
  fs_read_file :: "string \<Rightarrow> string result"

text \<open>The search for the directory with \<open>idVendor\<close> goes at most ten levels up.\<close>

fun usb_ancestor :: "sysfs \<Rightarrow> nat \<Rightarrow> string \<Rightarrow> string option" where
  "usb_ancestor fs 0 cur = None"
| "usb_ancestor fs (Suc n) cur =
     (if fs_exists fs (path_join [cur, ''idVendor'']) then Some cur
      else let up = path_dir cur in if up = cur then None else usb_ancestor fs n up)"

definition find_usb_device_path :: "sysfs \<Rightarrow> string \<Rightarrow> string result" where
  "find_usb_device_path fs start =
     (case usb_ancestor fs 10 start of Some p \<Rightarrow> Inr p | None \<Rightarrow> Inl (''usb device root not found from '' @ start))"

definition read_sys_value :: "sysfs \<Rightarrow> string \<Rightarrow> string result" where
  "read_sys_value fs path =
     (case fs_read_file fs path of Inl e \<Rightarrow> Inl (''read '' @ path @ '' failed: '' @ e) | Inr b \<Rightarrow> Inr (trim_space b))"

definition resolve_usb_device_path_from_tty_port :: "sysfs \<Rightarrow> string \<Rightarrow> string \<Rightarrow> string result" where
  "resolve_usb_device_path_from_tty_port fs port_name tty_root =
     (let port = trim_space port_name
      in if port = [] then Inl ''empty port name''
         else let base0 = file_base port; base = (if has_prefix base0 ''tty'' then base0 else ''tty'' @ base0)
              in case fs_eval_symlinks fs (path_join [tty_root, base, ''device'']) of
                   Inl e \<Rightarrow> Inl (''resolve tty path failed: '' @ e)
                 | Inr resolved \<Rightarrow> find_usb_device_path fs resolved)"

definition pcm_device_no :: "string \<Rightarrow> string \<Rightarrow> string option" where
  "pcm_device_no prefix name =
     (if has_prefix name prefix
      then let ds = takeWhile is_digit (drop (length prefix) name) in if ds = [] then None else Some ds
      else None)"

definition list_alsa_pcm_devices :: "sysfs \<Rightarrow> string \<Rightarrow> string \<Rightarrow> string list" where
  "list_alsa_pcm_devices fs sound_root card_no =
     (if card_no = [] then []
      else case fs_read_dir fs sound_root of
        Inl _ \<Rightarrow> []
      | Inr names \<Rightarrow> sort (remdups (List.map_filter (pcm_device_no (''pcmC'' @ card_no @ ''D'')) names)))"

text \<open>What one entry of the directory adds: the names of a card on the USB device, if it is one.\<close>

definition card_hints :: "sysfs \<Rightarrow> string \<Rightarrow> string \<Rightarrow> string \<Rightarrow> string list" where
  "card_hints fs usb_path sound_root entry =
     (let name = trim_space entry; card_path = path_join [sound_root, name]
      in if \<not> has_prefix name ''card'' then []
         else case and_then (fs_eval_symlinks fs (path_join [card_path, ''device''])) (find_usb_device_path fs) of
           Inl _ \<Rightarrow> []
         | Inr p \<Rightarrow>
             if path_clean p \<noteq> path_clean usb_path then []
             else
               let n = trim_prefix name ''card'';
                   i = (case read_sys_value fs (path_join [card_path, ''id'']) of Inl _ \<Rightarrow> [] | Inr v \<Rightarrow> v);
                   devs = list_alsa_pcm_devices fs sound_root n
               in [name] @ (if i \<noteq> [] then [i, ''card='' @ i] else []) @
                  (if n \<noteq> [] then [''hw:'' @ n, ''plughw:'' @ n] else []) @
                  concat (map (\<lambda>d. (if n \<noteq> [] then [''hw:'' @ n @ '','' @ d, ''plughw:'' @ n @ '','' @ d] else []) @
                                   (if i \<noteq> [] then [''card='' @ i @ '',dev='' @ d] else [])) devs))"

definition normalized_hint :: "string \<Rightarrow> string option" where
  "normalized_hint v = (let x = trim_space (to_lower v) in if x = [] then None else Some x)"

definition resolve_alsa_card_hints_from_usb_path :: "sysfs \<Rightarrow> string \<Rightarrow> string \<Rightarrow> string list" where
  "resolve_alsa_card_hints_from_usb_path fs usb_path sound_root =
     (case fs_read_dir fs sound_root of
        Inl _ \<Rightarrow> []
      | Inr entries \<Rightarrow>
          sort (remdups (List.map_filter normalized_hint (concat (map (card_hints fs usb_path sound_root) entries)))))"

definition resolve_alsa_card_hints_from_port :: "sysfs \<Rightarrow> modem_target \<Rightarrow> string list" where
  "resolve_alsa_card_hints_from_port fs target =
     (case resolve_usb_device_path_from_tty_port fs (mt_port_name target) ''/sys/class/tty'' of
        Inl _ \<Rightarrow> [] | Inr usb \<Rightarrow> resolve_alsa_card_hints_from_usb_path fs usb ''/sys/class/sound'')"

record usb_identity =
  ui_vid :: string
  ui_pid :: string
  ui_serial :: string

definition resolve_usb_identity_from_port :: "sysfs \<Rightarrow> modem_target \<Rightarrow> usb_identity result" where
  "resolve_usb_identity_from_port fs target =
     and_then (resolve_usb_device_path_from_tty_port fs (mt_port_name target) ''/sys/class/tty'') (\<lambda>usb.
     and_then (read_sys_value fs (path_join [usb, ''idVendor''])) (\<lambda>vid.
     and_then (read_sys_value fs (path_join [usb, ''idProduct''])) (\<lambda>pid.
       Inr \<lparr> ui_vid = to_upper vid, ui_pid = to_upper pid,
             ui_serial = (case read_sys_value fs (path_join [usb, ''serial'']) of Inl _ \<Rightarrow> [] | Inr s \<Rightarrow> s) \<rparr>)))"

subsection \<open>Devices on the USB\<close>

text \<open>
  A device as the USB library describes it; for each configuration, interface and alternate setting it says
  whether its class is that of audio. The errors of the search have no reader, so they are left out.
\<close>

record usb_descriptor =
  ud_bus :: int
  ud_address :: int
  ud_vendor :: nat
  ud_product :: nat
  ud_product_name :: "string result"
  ud_audio_classes :: "bool list list list"

record usb_device_info =
  us_bus :: int
  us_address :: int
  us_vid :: string
  us_pid :: string
  us_product :: string
  us_has_audio :: bool

definition parse_hex_id :: "string \<Rightarrow> nat option" where
  "parse_hex_id s =
     (let v = trim_prefix (trim_space (to_lower s)) ''0x''; ds = map hex_digit_val v
      in if v = [] \<or> list_ex (\<lambda>d. d = None) ds then None
         else let n = foldl (\<lambda>a d. 16 * a + the d) 0 ds in if n < 2 ^ 16 then Some n else None)"

definition hex_word :: "nat \<Rightarrow> string" where
  "hex_word n = hex_encode_upper [char_of (n div 256), char_of (n mod 256)]"

definition describe_usb :: "usb_descriptor \<Rightarrow> usb_device_info" where
  "describe_usb d =
     \<lparr> us_bus = ud_bus d, us_address = ud_address d, us_vid = hex_word (ud_vendor d), us_pid = hex_word (ud_product d),
       us_product = (case ud_product_name d of
           Inr p \<Rightarrow> if trim_space p \<noteq> [] then trim_space p else ''0x'' @ hex_word (ud_product d)
         | Inl _ \<Rightarrow> ''0x'' @ hex_word (ud_product d)),
       us_has_audio = list_ex (list_ex (list_ex id)) (ud_audio_classes d) \<rparr>"

definition enumerate_by_vid_pid :: "bool \<Rightarrow> usb_descriptor list \<Rightarrow> string \<Rightarrow> string \<Rightarrow> usb_device_info list option" where
  "enumerate_by_vid_pid opens devices vid_hex pid_hex =
     (case (parse_hex_id vid_hex, parse_hex_id pid_hex) of
        (Some v, Some p) \<Rightarrow>
          if opens then Some (map describe_usb (filter (\<lambda>d. ud_vendor d = v \<and> ud_product d = p) devices)) else None
      | _ \<Rightarrow> None)"

subsection \<open>The choice\<close>

record pa_device =
  pa_name :: string
  pa_max_input :: int
  pa_max_output :: int

definition normalized :: "string \<Rightarrow> string" where
  "normalized s = to_lower (trim_space s)"

definition generic_usb_hint :: "string \<Rightarrow> bool" where
  "generic_usb_hint n \<longleftrightarrow> contains n ''usb'' \<or> contains n ''ac interface'' \<or> contains n ''android''"

definition has_hint :: "string list \<Rightarrow> string \<Rightarrow> bool" where
  "has_hint hints n \<longleftrightarrow> list_ex (contains n) hints"

definition device_score :: "string list \<Rightarrow> string list \<Rightarrow> string \<Rightarrow> string \<Rightarrow> int" where
  "device_score alsa targets keyword n =
     (if has_hint alsa n then 600 else 0) + (if has_hint targets n then 220 else 0) +
     (if generic_usb_hint n then 120 else 0) + (if keyword \<noteq> [] \<and> contains n keyword then 80 else 0) +
     (if contains n ''plughw'' then 50 else 0) + (if contains n ''hw:'' then 40 else 0) + (if contains n ''front'' then 25 else 0) -
     (if contains n ''sysdefault'' then 40 else if contains n ''default'' then 20 else 0) -
     (if contains n ''surround'' \<or> contains n ''rear'' \<or> contains n ''center_lfe'' \<or> contains n ''side'' then 120 else 0) -
     (if contains n ''dmix'' then 70 else 0) - (if contains n ''iec958'' \<or> contains n ''hdmi'' then 60 else 0) -
     (if contains n ''jack'' \<or> contains n ''pulse'' then 60 else 0) - (if contains n ''null'' then 200 else 0)"

text \<open>The best device that passes; of equally good ones the first.\<close>

definition best_device :: "(pa_device \<Rightarrow> bool) \<Rightarrow> (pa_device \<Rightarrow> int) \<Rightarrow> pa_device list \<Rightarrow> pa_device option" where
  "best_device ok score =
     foldl (\<lambda>best d. if ok d \<and> (case best of None \<Rightarrow> True | Some b \<Rightarrow> score d > score b) then Some d else best) None"

definition find_pair ::
    "(string \<Rightarrow> int) \<Rightarrow> pa_device list \<Rightarrow> (string \<Rightarrow> bool) \<Rightarrow> pa_device option \<times> pa_device option" where
  "find_pair score devices passes =
     (let ok = (\<lambda>d. passes (normalized (pa_name d))); s = (\<lambda>d. score (normalized (pa_name d)))
      in (best_device (\<lambda>d. ok d \<and> pa_max_input d > 0) s devices, best_device (\<lambda>d. ok d \<and> pa_max_output d > 0) s devices))"

definition incomplete :: "'a option \<times> 'a option \<Rightarrow> bool" where
  "incomplete p \<longleftrightarrow> fst p = None \<or> snd p = None"

text \<open>
  The eight searches, in order: whether one runs although both devices are found, what else it needs, and the
  names it takes.
\<close>

definition searches :: "string list \<Rightarrow> string list \<Rightarrow> string \<Rightarrow> bool \<Rightarrow> (bool \<times> bool \<times> (string \<Rightarrow> bool)) list" where
  "searches alsa targets keyword has_audio =
     [(True, keyword \<noteq> [] \<and> alsa \<noteq> [], \<lambda>n. contains n keyword \<and> has_hint alsa n),
      (False, alsa \<noteq> [], has_hint alsa),
      (True, keyword \<noteq> [] \<and> has_audio, \<lambda>n. contains n keyword \<and> has_hint targets n),
      (False, has_audio, has_hint targets),
      (False, True, \<lambda>n. keyword \<noteq> [] \<and> contains n keyword \<and> generic_usb_hint n),
      (False, True, generic_usb_hint),
      (False, keyword \<noteq> [], \<lambda>n. contains n keyword),
      (False, True, \<lambda>_. True)]"

fun search_step :: "((string \<Rightarrow> bool) \<Rightarrow> 'a option \<times> 'a option) \<Rightarrow> 'a option \<times> 'a option \<Rightarrow> bool \<times> bool \<times> (string \<Rightarrow> bool) \<Rightarrow>
    'a option \<times> 'a option" where
  "search_step look found (always, needed, passes) = (if needed \<and> (always \<or> incomplete found) then look passes else found)"

definition search_devices ::
    "pa_device list \<Rightarrow> string list \<Rightarrow> string list \<Rightarrow> string \<Rightarrow> bool \<Rightarrow> pa_device option \<times> pa_device option" where
  "search_devices devices alsa targets keyword has_audio =
     foldl (search_step (find_pair (device_score alsa targets keyword) devices)) (None, None) (searches alsa targets keyword has_audio)"

text \<open>The way \<open>fmt\<close> quotes the keyword in the last message is the parameter \<open>quote_go\<close>.\<close>

definition pick_uac_audio_device ::
    "(string \<Rightarrow> string) \<Rightarrow> pa_device list result \<Rightarrow> usb_identity result \<Rightarrow> (string \<Rightarrow> string \<Rightarrow> usb_device_info list option) \<Rightarrow> string list \<Rightarrow>
     audio_cfg \<Rightarrow> modem_target \<Rightarrow> (pa_device \<times> pa_device) result" where
  "pick_uac_audio_device quote_go devs idr usb card_names cfg tgt =
     and_then devs (\<lambda>ds. and_then idr (\<lambda>idn.
       let keyword = normalized (ac_device_keyword cfg);
           usb_list = (case usb (ui_vid idn) (ui_pid idn) of None \<Rightarrow> [] | Some l \<Rightarrow> l);
           hints = (\<lambda>l. filter (\<lambda>n. n \<noteq> []) (map normalized l));
           audio = find us_has_audio usb_list;
           alsa = hints card_names;
           targets = hints [ui_vid idn, ui_pid idn] @ alsa @ (case audio of None \<Rightarrow> [] | Some d \<Rightarrow> hints [us_product d])
       in case search_devices ds alsa targets keyword (audio \<noteq> None) of
            (Some i, Some out) \<Rightarrow> Inr (i, out)
          | _ \<Rightarrow>
              if ds = [] then Inl ''no audio devices from PortAudio''
              else Inl (''cannot find UAC audio device for port='' @ mt_port_name tgt @ '' (vid='' @ ui_vid idn @ '' pid='' @
                ui_pid idn @ '' keyword='' @ quote_go (ac_device_keyword cfg) @ '')'')))"

subsection \<open>What is found\<close>

lemma best_device_fold:
  defines "step ok score \<equiv> \<lambda>best d. if ok d \<and> (case best of None \<Rightarrow> True | Some b \<Rightarrow> score d > (score b :: int)) then Some d else best"
  assumes "case best of None \<Rightarrow> True | Some b \<Rightarrow> ok b"
  shows "case foldl (step ok score) best ds of
      None \<Rightarrow> best = None \<and> (\<forall>d \<in> set ds. \<not> ok d)
    | Some b \<Rightarrow> ok b \<and> (Some b = best \<or> b \<in> set ds) \<and> (\<forall>d \<in> set ds. ok d \<longrightarrow> score d \<le> score b) \<and>
        (case best of None \<Rightarrow> True | Some x \<Rightarrow> score x \<le> score b)"
  using assms(2)
proof (induction ds arbitrary: best)
  case Nil
  then show ?case by (auto split: option.split)
next
  case (Cons d ds)
  have "case step ok score best d of None \<Rightarrow> True | Some b \<Rightarrow> ok b"
    using Cons.prems by (auto simp: step_def split: option.splits)
  from Cons.IH [OF this] show ?case
    using Cons.prems by (cases best; cases "foldl (step ok score) (step ok score best d) ds") (auto simp: step_def split: if_splits)
qed

lemma best_device_spec:
  "best_device ok score ds = None \<longleftrightarrow> (\<forall>d \<in> set ds. \<not> ok d)"
  "best_device ok score ds = Some b \<Longrightarrow> ok b \<and> b \<in> set ds \<and> (\<forall>d \<in> set ds. ok d \<longrightarrow> score d \<le> score b)"
  using best_device_fold [where best = None and ok = ok and score = score and ds = ds] unfolding best_device_def by (auto split: option.splits)

lemma find_pair_spec:
  assumes "find_pair score ds passes = (i, out)"
  shows "i = None \<longleftrightarrow> (\<forall>d \<in> set ds. \<not> (passes (normalized (pa_name d)) \<and> pa_max_input d > 0))"
    "out = None \<longleftrightarrow> (\<forall>d \<in> set ds. \<not> (passes (normalized (pa_name d)) \<and> pa_max_output d > 0))"
    "i = Some d \<Longrightarrow> d \<in> set ds \<and> pa_max_input d > 0 \<and> passes (normalized (pa_name d))"
    "out = Some d \<Longrightarrow> d \<in> set ds \<and> pa_max_output d > 0 \<and> passes (normalized (pa_name d))"
proof -
  let ?s = "\<lambda>d. score (normalized (pa_name d))"
  have p: "i = best_device (\<lambda>d. passes (normalized (pa_name d)) \<and> pa_max_input d > 0) ?s ds"
    "out = best_device (\<lambda>d. passes (normalized (pa_name d)) \<and> pa_max_output d > 0) ?s ds"
    using assms by (simp_all add: find_pair_def Let_def)
  show "i = None \<longleftrightarrow> (\<forall>d \<in> set ds. \<not> (passes (normalized (pa_name d)) \<and> pa_max_input d > 0))"
    "out = None \<longleftrightarrow> (\<forall>d \<in> set ds. \<not> (passes (normalized (pa_name d)) \<and> pa_max_output d > 0))"
    unfolding p by (rule best_device_spec(1))+
  show "d \<in> set ds \<and> pa_max_input d > 0 \<and> passes (normalized (pa_name d))" if "i = Some d"
    using best_device_spec(2) [OF that [unfolded p]] by blast
  show "d \<in> set ds \<and> pa_max_output d > 0 \<and> passes (normalized (pa_name d))" if "out = Some d"
    using best_device_spec(2) [OF that [unfolded p]] by blast
qed

text \<open>A search that has found both devices, each one of the list with channels in its direction.\<close>

definition pair_of :: "pa_device list \<Rightarrow> pa_device option \<times> pa_device option \<Rightarrow> bool" where
  "pair_of ds p \<longleftrightarrow> (\<forall>d. fst p = Some d \<longrightarrow> d \<in> set ds \<and> pa_max_input d > 0) \<and>
     (\<forall>d. snd p = Some d \<longrightarrow> d \<in> set ds \<and> pa_max_output d > 0)"

lemma pair_of_find: "pair_of ds (find_pair score ds passes)"
proof -
  obtain i out where p: "find_pair score ds passes = (i, out)" by fastforce
  show ?thesis using find_pair_spec(3,4) [OF p] by (simp add: pair_of_def p)
qed

lemma search_steps_pair_of: "pair_of ds p \<Longrightarrow> pair_of ds (foldl (search_step (find_pair score ds)) p steps)"
proof (induction steps arbitrary: p)
  case (Cons st steps)
  obtain always needed passes where "st = (always, needed, passes)" by (rule prod_cases3)
  then have "pair_of ds (search_step (find_pair score ds) p st)" using Cons.prems pair_of_find by simp
  then show ?case using Cons.IH by simp
qed simp

lemma search_pair_of: "pair_of ds (search_devices ds alsa targets keyword has_audio)"
  unfolding search_devices_def by (rule search_steps_pair_of) (simp add: pair_of_def)

lemma find_any:
  assumes "incomplete (find_pair score ds (\<lambda>_. True))"
  shows "filter (\<lambda>d. pa_max_input d > 0) ds = [] \<or> filter (\<lambda>d. pa_max_output d > 0) ds = []"
proof -
  obtain i out where p: "find_pair score ds (\<lambda>_. True) = (i, out)" by fastforce
  then have "i = None \<or> out = None" using assms by (simp add: incomplete_def)
  then show ?thesis using find_pair_spec(1,2) [OF p] by (auto simp: filter_empty_conv)
qed

lemma search_incomplete:
  assumes "incomplete (search_devices ds alsa targets keyword has_audio)"
  shows "filter (\<lambda>d. pa_max_input d > 0) ds = [] \<or> filter (\<lambda>d. pa_max_output d > 0) ds = []"
proof -
  let ?look = "find_pair (device_score alsa targets keyword) ds"
  obtain p where "search_devices ds alsa targets keyword has_audio = search_step ?look p (False, True, \<lambda>_. True)"
    by (simp only: search_devices_def searches_def foldl.simps)
  then show ?thesis using assms by (intro find_any) (simp split: if_splits)
qed

text \<open>
  C39: Once the USB device of a modem is known, the choice of its audio devices gives up only if there is no
  device to record from or none to play on, whatever they are called; what it chooses is among the devices
  that were listed, with channels in the direction it is used for.
\<close>

theorem uac_device_choice:
  "case pick_uac_audio_device quote_go (Inr ds) (Inr idn) usb card_names cfg tgt of
     Inr (i, out) \<Rightarrow> i \<in> set ds \<and> pa_max_input i > 0 \<and> out \<in> set ds \<and> pa_max_output out > 0
   | Inl _ \<Rightarrow> filter (\<lambda>d. pa_max_input d > 0) ds = [] \<or> filter (\<lambda>d. pa_max_output d > 0) ds = []"
proof -
  have outcome: "case (case p of (Some i, Some out) \<Rightarrow> Inr (i, out) | _ \<Rightarrow> if b then Inl e1 else Inl e2) of
      Inr (i, out) \<Rightarrow> i \<in> set ds \<and> pa_max_input i > 0 \<and> out \<in> set ds \<and> pa_max_output out > 0
    | Inl _ \<Rightarrow> filter (\<lambda>d. pa_max_input d > 0) ds = [] \<or> filter (\<lambda>d. pa_max_output d > 0) ds = []"
    if "p = search_devices ds alsa targets keyword has_audio" for p alsa targets keyword has_audio b and e1 e2 :: string
    using search_pair_of [of ds alsa targets keyword has_audio] search_incomplete [of ds alsa targets keyword has_audio]
    unfolding that [symmetric] by (auto simp: pair_of_def incomplete_def split: option.split prod.split)
  show ?thesis
    unfolding pick_uac_audio_device_def and_then_simps Let_def by (rule outcome) (rule refl)
qed

text \<open>
  A search that should not run: with a keyword and an audio interface on the USB device the third search
  throws away the pair that the ALSA card of the modem gave, and takes another modem of the same model whose
  name has the keyword.
\<close>

definition demo_pa :: "string \<Rightarrow> pa_device" where
  "demo_pa n = \<lparr> pa_name = n, pa_max_input = 1, pa_max_output = 1 \<rparr>"

lemma third_search_discards:
  "search_devices [demo_pa ''card1 usb'', demo_pa ''card2 usb ec20 voice''] [''card1''] [''2c7c'', ''card1'', ''ec20''] ''voice'' False =
     (Some (demo_pa ''card1 usb''), Some (demo_pa ''card1 usb''))"
  "search_devices [demo_pa ''card1 usb'', demo_pa ''card2 usb ec20 voice''] [''card1''] [''2c7c'', ''card1'', ''ec20''] ''voice'' True =
     (Some (demo_pa ''card2 usb ec20 voice''), Some (demo_pa ''card2 usb ec20 voice''))"
  by code_simp+

end
