(* ===== verification/Audio_Bridge.thy ===== *)
theory Audio_Bridge
  imports Audio_Device "HOL-Library.Sublist"
begin

text \<open>
  \<open>internal/calling/bridge.go\<close>, the uplink of \<open>manager.go\<close> and the sound of \<open>webrtc_peer.go\<close>: the two loops
  between the audio device of a modem and a call. The loops run beside the rest of the program, so the bridge is
  a transition system whose events are what a loop, the reader of the channel or the owner does next; what
  PortAudio answers is in the events.
\<close>

subsection \<open>Opening and closing\<close>

text \<open>What PortAudio holds: how often it is initialised, and the streams that are open.\<close>

record audio_host =
  ah_inits :: int
  ah_streams :: "string list"

definition terminate_audio :: "audio_host \<Rightarrow> audio_host" where
  "terminate_audio h = h\<lparr>ah_inits := ah_inits h - 1\<rparr>"

definition close_stream :: "string \<Rightarrow> audio_host \<Rightarrow> audio_host" where
  "close_stream s h = h\<lparr>ah_streams := remove1 s (ah_streams h)\<rparr>"

datatype loop_state = Loop_Off | Loop_Checks | Loop_Waits | Loop_Done

record bridge =
  br_in :: string
  br_out :: string
  br_out_len :: nat
  br_ring :: ring
  br_frames :: "sample list list"
  br_stop :: bool
  br_frames_closed :: bool
  br_capture :: loop_state
  br_playback :: loop_state

text \<open>The room of the channel of captured frames.\<close>

definition frame_room :: nat where
  "frame_room = 128"

definition new_audio_bridge ::
    "audio_cfg \<Rightarrow> unit result \<Rightarrow> (pa_device \<times> pa_device) result \<Rightarrow> unit result \<Rightarrow> unit result \<Rightarrow> audio_host \<Rightarrow>
     audio_host \<times> bridge result" where
  "new_audio_bridge cfg init picked open_in open_out h =
     (if ac_sample_rate cfg \<le> 0 \<or> ac_channels cfg \<noteq> 1 \<or> ac_bits_per_sample cfg \<noteq> 16
      then (h, Inl ''audio config must be mono/16bit/valid rate'')
      else case init of Inl e \<Rightarrow> (h, Inl e)
      | Inr _ \<Rightarrow>
          let h1 = h\<lparr>ah_inits := ah_inits h + 1\<rparr>
          in case picked of Inl e \<Rightarrow> (terminate_audio h1, Inl e)
             | Inr (i, out) \<Rightarrow>
                 (case open_in of
                    Inl e \<Rightarrow> (terminate_audio h1, Inl (''open input stream failed (device='' @ pa_name i @ ''): '' @ e))
                  | Inr _ \<Rightarrow>
                      let h2 = h1\<lparr>ah_streams := (''in '' @ pa_name i) # ah_streams h1\<rparr>
                      in case open_out of
                           Inl e \<Rightarrow> (terminate_audio (close_stream (''in '' @ pa_name i) h2),
                                    Inl (''open output stream failed (device='' @ pa_name out @ ''): '' @ e))
                         | Inr _ \<Rightarrow>
                             (h2\<lparr>ah_streams := (''out '' @ pa_name out) # ah_streams h2\<rparr>,
                              Inr \<lparr> br_in = ''in '' @ pa_name i, br_out = ''out '' @ pa_name out,
                                    br_out_len = nat (playback_samples cfg), br_ring = new_int16_ring (ac_sample_rate cfg * 3),
                                    br_frames = [], br_stop = False, br_frames_closed = False,
                                    br_capture = Loop_Off, br_playback = Loop_Off \<rparr>)))"

definition start_bridge :: "unit result \<Rightarrow> unit result \<Rightarrow> bridge \<Rightarrow> bridge \<times> unit result" where
  "start_bridge start_in start_out b =
     (case start_in of Inl e \<Rightarrow> (b, Inl e)
      | Inr _ \<Rightarrow>
          (case start_out of Inl e \<Rightarrow> (b, Inl e)
           | Inr _ \<Rightarrow> (b\<lparr>br_capture := Loop_Checks, br_playback := Loop_Checks\<rparr>, Inr ())))"

text \<open>
  \<open>Close\<close> asks the loops to stop, waits for them, and releases the streams; a later call does nothing. The
  first of the three errors is the answer.
\<close>

definition ask_stop :: "bridge \<Rightarrow> bridge" where
  "ask_stop b = b\<lparr>br_stop := True, br_ring := close_ring (br_ring b)\<rparr>"

definition loops_over :: "bridge \<Rightarrow> bool" where
  "loops_over b \<longleftrightarrow> br_capture b \<in> {Loop_Off, Loop_Done} \<and> br_playback b \<in> {Loop_Off, Loop_Done}"

definition finish_close :: "unit result \<Rightarrow> unit result \<Rightarrow> unit result \<Rightarrow> bridge \<times> audio_host \<Rightarrow> (bridge \<times> audio_host) \<times> unit result" where
  "finish_close close_in close_out ended s =
     (case s of (b, h) \<Rightarrow>
        ((b\<lparr>br_frames_closed := True\<rparr>, terminate_audio (close_stream (br_out b) (close_stream (br_in b) h))),
         and_then close_in (\<lambda>_. and_then close_out (\<lambda>_. ended))))"

text \<open>The part of \<open>EnsureAudio\<close> that opens a bridge: one that does not start is closed again.\<close>

definition open_bridge ::
    "audio_cfg \<Rightarrow> unit result \<Rightarrow> (pa_device \<times> pa_device) result \<Rightarrow> unit result \<Rightarrow> unit result \<Rightarrow> unit result \<Rightarrow> unit result \<Rightarrow>
     audio_host \<Rightarrow> audio_host \<times> bridge result" where
  "open_bridge cfg init picked open_in open_out start_in start_out h =
     (case new_audio_bridge cfg init picked open_in open_out h of
        (h1, Inl e) \<Rightarrow> (h1, Inl e)
      | (h1, Inr b) \<Rightarrow>
          (case start_bridge start_in start_out b of
             (b', Inr _) \<Rightarrow> (h1, Inr b')
           | (b', Inl e) \<Rightarrow> (snd (fst (finish_close (Inr ()) (Inr ()) (Inr ()) (ask_stop b', h1))), Inl e)))"

subsection \<open>The loops\<close>

definition push_from_webrtc :: "sample list \<Rightarrow> bridge \<Rightarrow> bridge" where
  "push_from_webrtc samples b = (if samples = [] then b else b\<lparr>br_ring := write_ring samples (br_ring b)\<rparr>)"

text \<open>A packet from the browser, whose payload goes to the sink of the peer, which is the bridge.\<close>

definition browser_packet :: "string \<Rightarrow> byte list \<Rightarrow> bridge \<Rightarrow> bridge" where
  "browser_packet mime payload b =
     (case decode_remote_payload mime payload of Inl _ \<Rightarrow> b | Inr samples \<Rightarrow> push_from_webrtc samples b)"

definition keep_frame :: "sample list \<Rightarrow> bridge \<Rightarrow> bridge" where
  "keep_frame f b = (if length (br_frames b) < frame_room then b\<lparr>br_frames := br_frames b @ [f]\<rparr> else b)"

text \<open>What the playback loop writes: the samples of the ring, and silence up to the length of the buffer.\<close>

definition fill_buffer :: "sample list \<Rightarrow> ring \<Rightarrow> (sample list option) \<times> ring" where
  "fill_buffer buf r =
     (case read_partial buf r of
        ((n, ok), buf', r') \<Rightarrow> if ok then (Some (take n buf' @ replicate (length buf - n) 0), r') else (None, r'))"

datatype bridge_event =
    Capture_Checked | Captured "sample list" | Capture_Failed
  | Playback_Checked | Played "sample list" "sample list" | Playback_Over
  | Pushed "sample list" | Frame_Taken "sample list" | Stop_Asked_For | Frames_Closed

text \<open>
  A loop looks whether it should stop, and then does one turn; the owner may ask it to stop in between. The
  channel is closed when both loops have ended.
\<close>

inductive bridge_step :: "bridge \<Rightarrow> bridge_event \<Rightarrow> bridge \<Rightarrow> bool" where
  capture_checks: "br_capture b = Loop_Checks \<Longrightarrow>
     bridge_step b Capture_Checked (b\<lparr>br_capture := (if br_stop b then Loop_Done else Loop_Waits)\<rparr>)"
| captures: "br_capture b = Loop_Waits \<Longrightarrow> bridge_step b (Captured f) ((keep_frame f b)\<lparr>br_capture := Loop_Checks\<rparr>)"
| capture_fails: "br_capture b = Loop_Waits \<Longrightarrow> bridge_step b Capture_Failed (b\<lparr>br_capture := Loop_Checks\<rparr>)"
| playback_checks: "br_playback b = Loop_Checks \<Longrightarrow>
     bridge_step b Playback_Checked (b\<lparr>br_playback := (if br_stop b then Loop_Done else Loop_Waits)\<rparr>)"
| plays: "br_playback b = Loop_Waits \<Longrightarrow> length buf = br_out_len b \<Longrightarrow> fill_buffer buf (br_ring b) = (Some out, r) \<Longrightarrow>
     bridge_step b (Played buf out) (b\<lparr>br_playback := Loop_Checks, br_ring := r\<rparr>)"
| playback_ends: "br_playback b = Loop_Waits \<Longrightarrow> fill_buffer buf (br_ring b) = (None, r) \<Longrightarrow>
     bridge_step b Playback_Over (b\<lparr>br_playback := Loop_Done, br_ring := r\<rparr>)"
| pushes: "bridge_step b (Pushed samples) (push_from_webrtc samples b)"
| takes: "br_frames b = f # fs \<Longrightarrow> bridge_step b (Frame_Taken f) (b\<lparr>br_frames := fs\<rparr>)"
| stops: "\<not> br_stop b \<Longrightarrow> bridge_step b Stop_Asked_For (ask_stop b)"
| closes: "br_stop b \<Longrightarrow> \<not> br_frames_closed b \<Longrightarrow> loops_over b \<Longrightarrow> bridge_step b Frames_Closed (b\<lparr>br_frames_closed := True\<rparr>)"

inductive_cases step_capturedE: "bridge_step b (Captured f) b'"
inductive_simps step_simps:
  "bridge_step b Capture_Checked b'" "bridge_step b (Captured f) b'" "bridge_step b Capture_Failed b'"
  "bridge_step b Playback_Checked b'" "bridge_step b (Played buf out) b'" "bridge_step b Playback_Over b'"
  "bridge_step b (Pushed samples) b'" "bridge_step b (Frame_Taken f) b'" "bridge_step b Stop_Asked_For b'"
  "bridge_step b Frames_Closed b'"

inductive bridge_run :: "bridge \<Rightarrow> bridge_event list \<Rightarrow> bridge \<Rightarrow> bool" where
  run_nil: "bridge_run b [] b"
| run_snoc: "bridge_run b es b' \<Longrightarrow> bridge_step b' e b'' \<Longrightarrow> bridge_run b (es @ [e]) b''"

subsection \<open>The uplink\<close>

text \<open>
  A turn of \<open>uplinkAudioLoop\<close>: the stream of the SIP call if there is one, whether the browser is connected,
  and what the network does with the packets of each. Errors are only logged.
\<close>

record uplink_turn =
  ut_frame :: "sample list"
  ut_sip :: "rtp_stream option"
  ut_sip_net :: "rtp_packet \<Rightarrow> send_outcome"
  ut_connected :: bool
  ut_browser_net :: "rtp_packet \<Rightarrow> send_outcome"

definition uplink_turn_step ::
    "uplink_turn \<Rightarrow> 32 word \<times> 16 word \<Rightarrow> (rtp_packet list \<times> rtp_stream option \<times> rtp_packet list) \<times> (32 word \<times> 16 word)" where
  "uplink_turn_step t pos =
     (let sip = (case ut_sip t of None \<Rightarrow> ([], None)
                 | Some st \<Rightarrow> (case send_pcm_from_uac (ut_sip_net t) (ut_frame t) st of (ps, st', _) \<Rightarrow> (ps, Some st')))
      in if \<not> ut_connected t then ((fst sip, snd sip, []), pos)
         else (case send_pcm_to_browser (ut_browser_net t) (ut_frame t) pos of
                 (ps, pos', _) \<Rightarrow> ((fst sip, snd sip, ps), pos')))"

fun uplink_audio_loop :: "uplink_turn list \<Rightarrow> 32 word \<times> 16 word \<Rightarrow> (rtp_packet list \<times> rtp_stream option \<times> rtp_packet list) list" where
  "uplink_audio_loop [] pos = []"
| "uplink_audio_loop (t # ts) pos = (case uplink_turn_step t pos of (x, pos') \<Rightarrow> x # uplink_audio_loop ts pos')"

definition to_browser :: "uplink_turn list \<Rightarrow> rtp_packet list" where
  "to_browser ts = concat (map (\<lambda>(_, _, ps). ps) (uplink_audio_loop ts (0, 1)))"

text \<open>
  A turn of \<open>readRTPToLocal\<close>, which carries the sound of a SIP peer to the modem and to the browser that listens:
  the error of the socket, a packet that cannot be read, or the type and payload of one. The loop has numbers
  of its own for what it sends to the browser.
\<close>

record rtp_turn =
  rt_read :: "(8 word \<times> byte list) option result"
  rt_stream :: rtp_stream
  rt_connected :: bool
  rt_browser_net :: "rtp_packet \<Rightarrow> send_outcome"

fun read_rtp_to_local :: "rtp_turn list \<Rightarrow> bridge option \<Rightarrow> 32 word \<times> 16 word \<Rightarrow> bridge option \<times> rtp_packet list" where
  "read_rtp_to_local [] b pos = (b, [])"
| "read_rtp_to_local (t # ts) b pos =
     (case rt_read t of
        Inl _ \<Rightarrow> (b, [])
      | Inr None \<Rightarrow> read_rtp_to_local ts b pos
      | Inr (Some (pt, payload)) \<Rightarrow>
          (case decode_sip_rtp (rt_stream t) pt payload of
             None \<Rightarrow> read_rtp_to_local ts b pos
           | Some pcm \<Rightarrow>
               if pcm = [] then read_rtp_to_local ts b pos
               else let b' = map_option (push_from_webrtc pcm) b
                    in if \<not> rt_connected t then read_rtp_to_local ts b' pos
                       else (case send_pcm_to_browser (rt_browser_net t) pcm pos of
                               (ps, pos', _) \<Rightarrow> (case read_rtp_to_local ts b' pos' of (b'', qs) \<Rightarrow> (b'', ps @ qs)))))"

definition rtp_to_browser :: "rtp_turn list \<Rightarrow> bridge option \<Rightarrow> rtp_packet list" where
  "rtp_to_browser ts b = snd (read_rtp_to_local ts b (0, 1))"

subsection \<open>What the bridge keeps\<close>

lemma fill_buffer_spec:
  assumes "ring_ok r" "fill_buffer buf r = (Some out, r')"
  shows "out = take (length buf) (ring_items r) @ replicate (length buf - length (ring_items r)) 0 \<and> ring_ok r' \<and>
    ring_items r' = drop (length buf) (ring_items r)"
proof (cases "length buf = 0 \<or> r_count r = 0")
  case True
  then show ?thesis using assms by (auto simp: fill_buffer_def read_partial_def ring_items_def split: if_splits)
next
  case False
  define n where "n = (if length buf > r_count r then r_count r else length buf)"
  have n: "n \<le> r_count r" "0 + n \<le> length buf" by (simp_all add: n_def)
  from ring_get_spec [OF assms(1) this] obtain r1 where
    g: "ring_get n 0 buf r = (take n (ring_items r) @ drop n buf, r1)" "ring_ok r1" "ring_items r1 = drop n (ring_items r)" by auto
  have open_ring: "\<not> r_shutdown r" using assms(2) by (auto simp: fill_buffer_def read_partial_def)
  have "read_partial buf r = ((n, True), take n (ring_items r) @ drop n buf, r1)"
    using False open_ring g(1) by (simp add: read_partial_def n_def Let_def)
  then have "out = take n (ring_items r) @ replicate (length buf - n) 0" "r' = r1"
    using assms(2) n by (simp_all add: fill_buffer_def)
  moreover have "take n (ring_items r) = take (length buf) (ring_items r)" "drop n (ring_items r) = drop (length buf) (ring_items r)"
    "length buf - n = length buf - length (ring_items r)"
    by (simp_all add: n_def)
  ultimately show ?thesis using g(2,3) by simp
qed

definition bridge_ok :: "bridge \<Rightarrow> bool" where
  "bridge_ok b \<longleftrightarrow> ring_ok (br_ring b) \<and> length (br_frames b) \<le> frame_room \<and> (br_frames_closed b \<longrightarrow> br_stop b \<and> loops_over b)"

lemma step_keeps:
  assumes "bridge_step b e b'" "bridge_ok b"
  shows "bridge_ok b' \<and> br_out_len b' = br_out_len b"
  using assms
proof cases
  case (plays buf out r)
  then show ?thesis using assms(2) fill_buffer_spec [of "br_ring b" buf out r] by (auto simp: bridge_ok_def loops_over_def)
next
  case (playback_ends buf r)
  then have "r = br_ring b" by (auto simp: fill_buffer_def read_partial_def Let_def split: if_splits prod.splits)
  with playback_ends show ?thesis using assms(2) by (auto simp: bridge_ok_def loops_over_def)
next
  case (pushes samples)
  then show ?thesis using assms(2) write_ring_spec [of "br_ring b" samples]
    by (auto simp: bridge_ok_def loops_over_def push_from_webrtc_def)
qed (auto simp: bridge_ok_def loops_over_def keep_frame_def ask_stop_def close_ring_spec)

lemma run_keeps: "bridge_run b es b' \<Longrightarrow> bridge_ok b \<Longrightarrow> bridge_ok b' \<and> br_out_len b' = br_out_len b"
  by (induction rule: bridge_run.induct) (auto dest: step_keeps)

fun captured_in :: "bridge_event \<Rightarrow> sample list list" where
  "captured_in (Captured f) = [f]"
| "captured_in _ = []"

fun taken_in :: "bridge_event \<Rightarrow> sample list list" where
  "taken_in (Frame_Taken f) = [f]"
| "taken_in _ = []"

abbreviation captured :: "bridge_event list \<Rightarrow> sample list list" where
  "captured es \<equiv> concat (map captured_in es)"

abbreviation taken :: "bridge_event list \<Rightarrow> sample list list" where
  "taken es \<equiv> concat (map taken_in es)"

lemma step_frames:
  assumes "bridge_step b e b'"
  shows "taken_in e @ br_frames b' = br_frames b @ captured_in e \<or>
    taken_in e @ br_frames b' = br_frames b \<and> frame_room \<le> length (br_frames b) \<and> captured_in e \<noteq> []"
  using assms by cases (auto simp: keep_frame_def push_from_webrtc_def ask_stop_def)

text \<open>
  C7: However the loops, the reader and the owner take turns, the frames that are read from the channel and
  those that wait in it are frames that were captured, in that order and none twice; none is missing as long as
  no more than 128 have been captured. Nothing is put into the channel once it is closed.
\<close>

theorem bridge_frames_in_order:
  assumes "bridge_run b es b'" "bridge_ok b" "br_frames b = []"
  shows "subseq (taken es @ br_frames b') (captured es) \<and>
    (taken es @ br_frames b' = captured es \<or> frame_room < length (captured es)) \<and>
    (br_frames_closed b' \<longrightarrow> \<not> (\<exists>f b''. bridge_step b' (Captured f) b''))"
proof (intro conjI)
  show "subseq (taken es @ br_frames b') (captured es)"
    "taken es @ br_frames b' = captured es \<or> frame_room < length (captured es)"
    using assms
  proof (induction rule: bridge_run.induct)
    case (run_snoc b es b' e b'')
    {
      case 1
      have "subseq (taken es @ br_frames b' @ captured_in e) (captured es @ captured_in e)"
        using list_emb_append_mono [OF run_snoc.IH(1) [OF 1], of "captured_in e" "captured_in e"] by simp
      moreover have "subseq (taken es @ br_frames b') (captured es @ captured_in e)"
        using list_emb_append_mono [OF run_snoc.IH(1) [OF 1], of "[]" "captured_in e"] by simp
      ultimately show ?case using step_frames [OF run_snoc.hyps(2)] by auto
    next
      case 2
      show ?case
      proof (cases "frame_room < length (captured es)")
        case False
        then have same: "taken es @ br_frames b' = captured es" using run_snoc.IH(2) [OF 2] by simp
        then have len: "length (br_frames b') \<le> length (captured es)" by (metis le_add2 length_append)
        from step_frames [OF run_snoc.hyps(2)] show ?thesis
        proof (elim disjE conjE)
          assume "taken_in e @ br_frames b'' = br_frames b' @ captured_in e"
          then have "taken (es @ [e]) @ br_frames b'' = captured (es @ [e])" using same by simp
          then show ?thesis ..
        next
          assume "frame_room \<le> length (br_frames b')" "captured_in e \<noteq> []"
          then have "frame_room < length (captured (es @ [e]))" using len by (cases "captured_in e") auto
          then show ?thesis ..
        qed
      qed simp
    }
  qed simp_all
  have "bridge_ok b'" using run_keeps [OF assms(1,2)] by blast
  then show "br_frames_closed b' \<longrightarrow> \<not> (\<exists>f b''. bridge_step b' (Captured f) b'')"
    by (auto simp: bridge_ok_def loops_over_def step_simps)
qed

text \<open>A run of a bridge that is stopped while it captures a third frame.\<close>

definition demo_bridge :: bridge where
  "demo_bridge = \<lparr> br_in = ''in d'', br_out = ''out d'', br_out_len = 3, br_ring = new_int16_ring 4, br_frames = [], br_stop = False,
     br_frames_closed = False, br_capture = Loop_Checks, br_playback = Loop_Done \<rparr>"

lemma demo_bridge_ok: "bridge_ok demo_bridge"
  using new_int16_ring_spec(1) [of 4] by (simp add: bridge_ok_def demo_bridge_def)

lemma demo_run:
  "\<exists>b. bridge_run demo_bridge [Capture_Checked, Captured [1], Capture_Checked, Stop_Asked_For, Frame_Taken [1], Captured [2],
     Capture_Checked, Frames_Closed] b \<and> br_frames b = [[2]] \<and> br_frames_closed b"
proof -
  have chain: "bridge_run b (es @ [e]) b''" if "bridge_run b es b'" "bridge_step b' e b''" for b es b' e b''
    using that by (rule run_snoc)
  let ?b1 = "demo_bridge\<lparr>br_capture := Loop_Waits\<rparr>"
  let ?b2 = "?b1\<lparr>br_frames := [[1]], br_capture := Loop_Checks\<rparr>"
  let ?b4 = "ask_stop (?b2\<lparr>br_capture := Loop_Waits\<rparr>)"
  let ?b5 = "?b4\<lparr>br_frames := []\<rparr>"
  let ?b6 = "?b5\<lparr>br_frames := [[2]], br_capture := Loop_Checks\<rparr>"
  let ?b8 = "?b6\<lparr>br_capture := Loop_Done, br_frames_closed := True\<rparr>"
  have "bridge_run demo_bridge ([] @ [Capture_Checked]) ?b1"
    by (rule chain [OF run_nil]) (simp add: step_simps demo_bridge_def)
  then have "bridge_run demo_bridge (([] @ [Capture_Checked]) @ [Captured [1]]) ?b2"
    by (rule chain) (simp add: step_simps demo_bridge_def keep_frame_def frame_room_def)
  then have "bridge_run demo_bridge ((([] @ [Capture_Checked]) @ [Captured [1]]) @ [Capture_Checked]) (?b2\<lparr>br_capture := Loop_Waits\<rparr>)"
    by (rule chain) (simp add: step_simps demo_bridge_def)
  note chain [OF this, of Stop_Asked_For ?b4]
  then have "bridge_run demo_bridge (((([] @ [Capture_Checked]) @ [Captured [1]]) @ [Capture_Checked]) @ [Stop_Asked_For]) ?b4"
    by (simp add: step_simps demo_bridge_def)
  note chain [OF this, of "Frame_Taken [1]" ?b5]
  then have "bridge_run demo_bridge ((((([] @ [Capture_Checked]) @ [Captured [1]]) @ [Capture_Checked]) @ [Stop_Asked_For]) @ [Frame_Taken [1]]) ?b5"
    by (simp add: step_simps demo_bridge_def ask_stop_def)
  note chain [OF this, of "Captured [2]" ?b6]
  then have r6: "bridge_run demo_bridge ([Capture_Checked, Captured [1], Capture_Checked, Stop_Asked_For, Frame_Taken [1]] @ [Captured [2]]) ?b6"
    by (simp add: step_simps demo_bridge_def ask_stop_def keep_frame_def frame_room_def)
  note chain [OF r6, of Capture_Checked "?b6\<lparr>br_capture := Loop_Done\<rparr>"]
  then have r7: "bridge_run demo_bridge (([Capture_Checked, Captured [1], Capture_Checked, Stop_Asked_For, Frame_Taken [1]] @ [Captured [2]]) @
      [Capture_Checked]) (?b6\<lparr>br_capture := Loop_Done\<rparr>)"
    by (simp add: step_simps demo_bridge_def ask_stop_def)
  note chain [OF r7, of Frames_Closed ?b8]
  then show ?thesis by (intro exI [of _ ?b8]) (simp add: step_simps demo_bridge_def ask_stop_def loops_over_def)
qed

theorem bridge_frames_in_order_witness:
  "\<exists>b. bridge_run demo_bridge [Capture_Checked, Captured [1], Capture_Checked, Stop_Asked_For, Frame_Taken [1], Captured [2],
     Capture_Checked, Frames_Closed] b \<and> [[1]] @ br_frames b = [[1], [2]] \<and> \<not> (\<exists>f b''. bridge_step b (Captured f) b'')"
proof -
  obtain b where b: "bridge_run demo_bridge [Capture_Checked, Captured [1], Capture_Checked, Stop_Asked_For, Frame_Taken [1], Captured [2],
     Capture_Checked, Frames_Closed] b" "br_frames_closed b"
    using demo_run by blast
  have empty: "br_frames demo_bridge = []" by (simp add: demo_bridge_def)
  from bridge_frames_in_order [OF b(1) demo_bridge_ok empty] b show ?thesis by (auto simp: frame_room_def)
qed

text \<open>
  What the playback loop writes is the oldest samples that the ring holds, followed by silence, and always a
  full buffer; the samples it wrote are gone from the ring and no others.
\<close>

lemma bridge_playback:
  assumes "bridge_run b es b'" "bridge_ok b" "bridge_step b' (Played buf out) b''"
  shows "out = take (br_out_len b) (ring_items (br_ring b')) @ replicate (br_out_len b - length (ring_items (br_ring b'))) 0 \<and>
    length out = br_out_len b \<and> ring_items (br_ring b'') = drop (br_out_len b) (ring_items (br_ring b'))"
proof -
  have ok: "bridge_ok b'" "br_out_len b' = br_out_len b" using run_keeps [OF assms(1,2)] by simp_all
  from assms(3) obtain r where r: "fill_buffer buf (br_ring b') = (Some out, r)" "length buf = br_out_len b'" "br_ring b'' = r"
    by (auto simp: step_simps)
  show ?thesis using fill_buffer_spec [OF _ r(1)] ok r(2,3) by (auto simp: bridge_ok_def)
qed

text \<open>A bridge that cannot be opened or started leaves PortAudio as it was, and so does one that is closed.\<close>

lemma audio_released:
  "case open_bridge cfg init picked open_in open_out start_in start_out h of
     (h', Inl _) \<Rightarrow> h' = h
   | (h', Inr b) \<Rightarrow> snd (fst (finish_close x y z (ask_stop b, h'))) = h"
  by (auto simp: open_bridge_def new_audio_bridge_def start_bridge_def finish_close_def ask_stop_def Let_def terminate_audio_def
      close_stream_def split: sum.splits prod.splits)

subsection \<open>The packets to the browser\<close>

text \<open>
  Both loops send by \<open>send_pcm_to_browser\<close> and keep the position that it returns, so what holds of such a
  series of calls holds of either.
\<close>

fun browser_sends :: "((rtp_packet \<Rightarrow> send_outcome) \<times> sample list) list \<Rightarrow> 32 word \<times> 16 word \<Rightarrow> rtp_packet list" where
  "browser_sends [] pos = []"
| "browser_sends ((net, f) # xs) pos = (case send_pcm_to_browser net f pos of (ps, pos', _) \<Rightarrow> ps @ browser_sends xs pos')"

lemma send_one:
  assumes "send_pcm_to_browser net samples pos = (ps, pos', r)"
  shows "ps = [] \<and> pos' = pos \<or>
    (\<exists>p. ps = [p] \<and> rp_sequence p = snd pos \<and> rp_timestamp p = fst pos \<and> rp_payload p = encode_ulaw samples \<and>
       pos' = (fst pos + of_nat (length samples), snd pos + 1))"
  using assms by (auto simp: send_pcm_to_browser_def Let_def split: prod.splits if_splits send_outcome.splits)

definition numbered_from :: "32 word \<times> 16 word \<Rightarrow> rtp_packet list \<Rightarrow> bool" where
  "numbered_from pos ps \<longleftrightarrow>
     map rp_sequence ps = map (\<lambda>i. snd pos + of_nat i) [0..<length ps] \<and>
     map rp_timestamp ps =
       map (\<lambda>i. fst pos + of_nat (sum_list (map (\<lambda>p. length (rp_payload p)) (take i ps)))) [0..<length ps]"

lemma numbered_Cons:
  assumes "rp_sequence p = s" "rp_timestamp p = t" "numbered_from (t + of_nat (length (rp_payload p)), s + 1) ps"
  shows "numbered_from (t, s) (p # ps)"
  using assms unfolding numbered_from_def
  by (simp add: upt_conv_Cons map_Suc_upt [symmetric] add.assoc del: upt_Suc)

lemma sends_numbered: "numbered_from pos (browser_sends xs pos)"
proof (induction xs arbitrary: pos)
  case (Cons x xs)
  obtain net f where x: "x = (net, f)" by fastforce
  obtain t s where pos: "pos = (t, s)" by fastforce
  obtain ps pos' r where send: "send_pcm_to_browser net f (t, s) = (ps, pos', r)" by (rule prod_cases3)
  have len: "length (encode_ulaw f) = length f" by (simp add: encode_ulaw_def)
  from send_one [OF send] show ?case
    using Cons.IH [of pos'] by (auto simp: x pos send len intro!: numbered_Cons)
qed (simp add: numbered_from_def)

lemma uplink_sends:
  "concat (map (\<lambda>(_, _, ps). ps) (uplink_audio_loop ts pos)) =
     browser_sends (map (\<lambda>t. (ut_browser_net t, ut_frame t)) (filter ut_connected ts)) pos"
  by (induction ts arbitrary: pos) (auto simp: uplink_turn_step_def Let_def split: prod.split)

text \<open>The sounds that \<open>readRTPToLocal\<close> understands before the socket fails; all of them reach the bridge.\<close>

fun rtp_heard :: "rtp_turn list \<Rightarrow> (rtp_turn \<times> sample list) list" where
  "rtp_heard [] = []"
| "rtp_heard (t # ts) =
     (case rt_read t of
        Inl _ \<Rightarrow> []
      | Inr None \<Rightarrow> rtp_heard ts
      | Inr (Some (pt, payload)) \<Rightarrow>
          (case decode_sip_rtp (rt_stream t) pt payload of
             None \<Rightarrow> rtp_heard ts | Some pcm \<Rightarrow> if pcm = [] then rtp_heard ts else (t, pcm) # rtp_heard ts))"

lemma rtp_sends:
  "read_rtp_to_local ts b pos =
     (map_option (\<lambda>x. fold push_from_webrtc (map snd (rtp_heard ts)) x) b,
      browser_sends (map (\<lambda>(t, pcm). (rt_browser_net t, pcm)) (filter (rt_connected \<circ> fst) (rtp_heard ts))) pos)"
proof (induction ts arbitrary: b pos)
  case (Cons t ts)
  then show ?case
    by (auto simp: option.map_comp comp_def option.map_ident split: sum.split option.split prod.split)
qed (simp add: option.map_id0)

text \<open>
  C40: The packets that the uplink sends to the browser, and those that the sound of a SIP peer makes, are each
  numbered one after the other from 1, modulo \<open>2 ^ 16\<close>, and carry as their time the number of samples sent
  before them, modulo \<open>2 ^ 32\<close>, whatever frames and packets come, whenever the browser is connected and
  whichever packets the network refuses.
\<close>

theorem uplink_packets_numbered:
  "numbered_from (0, 1) (to_browser ts) \<and> numbered_from (0, 1) (rtp_to_browser rs b)"
  unfolding to_browser_def rtp_to_browser_def uplink_sends rtp_sends using sends_numbered by simp

text \<open>
  But both loops send into one stream of the same source, and each counts from 1: as soon as both have sent,
  two packets of the stream have the same number.
\<close>

lemma numbered_first: "numbered_from (t, s) ps \<Longrightarrow> ps \<noteq> [] \<Longrightarrow> rp_sequence (hd ps) = s"
  by (cases ps) (simp_all add: numbered_from_def upt_conv_Cons del: upt_Suc)

lemma two_senders_clash:
  assumes "to_browser ts \<noteq> []" "rtp_to_browser rs b \<noteq> []"
  shows "rp_sequence (hd (to_browser ts)) = rp_sequence (hd (rtp_to_browser rs b))"
  using assms sends_numbered [THEN numbered_first, of _ 0 1] unfolding to_browser_def rtp_to_browser_def uplink_sends rtp_sends
  by simp

end
