(* ===== verification/Call_Listeners.thy ===== *)
theory Call_Listeners
  imports Worker_Core
begin

text \<open>
  \<open>internal/worker/call_listener.go\<close>: the listeners of the manager that are told every change of a call. A
  listener changes the state \<open>'s\<close> of the rest of the program; the order in which Go walks the map of the
  listeners is the parameter \<open>order\<close>. The snapshots that a worker hands over are its \<open>wk_notified\<close>.
\<close>

type_synonym 's call_listener = "worker \<Rightarrow> call_snapshot \<Rightarrow> 's \<Rightarrow> 's"

record 's listener_table =
  lt_next :: nat
  lt_listeners :: "(nat \<times> 's call_listener) list"

definition no_listeners :: "'s listener_table" where
  "no_listeners = \<lparr> lt_next = 0, lt_listeners = [] \<rparr>"

definition add_call_state_listener :: "'s call_listener \<Rightarrow> 's listener_table \<Rightarrow> nat \<times> 's listener_table" where
  "add_call_state_listener l t =
     (lt_next t, t\<lparr>lt_next := lt_next t + 1, lt_listeners := (lt_next t, l) # lt_listeners t\<rparr>)"

text \<open>What the function that \<open>AddCallStateListener\<close> returns does.\<close>

definition remove_call_state_listener :: "nat \<Rightarrow> 's listener_table \<Rightarrow> 's listener_table" where
  "remove_call_state_listener n t = t\<lparr>lt_listeners := filter (\<lambda>x. fst x \<noteq> n) (lt_listeners t)\<rparr>"

definition notify_call_state_changed ::
    "((nat \<times> 's call_listener) list \<Rightarrow> (nat \<times> 's call_listener) list) \<Rightarrow> 's listener_table \<Rightarrow> worker \<Rightarrow> call_snapshot \<Rightarrow> 's \<Rightarrow> 's" where
  "notify_call_state_changed order t w cs = fold (\<lambda>x. snd x w cs) (order (lt_listeners t))"

text \<open>Numbers are given once, so that removing a listener never removes another.\<close>

definition listeners_ok :: "'s listener_table \<Rightarrow> bool" where
  "listeners_ok t \<longleftrightarrow> distinct (map fst (lt_listeners t)) \<and> (\<forall>x \<in> set (lt_listeners t). fst x < lt_next t)"

lemma listeners_ok_kept:
  "listeners_ok no_listeners"
  "listeners_ok t \<Longrightarrow> listeners_ok (snd (add_call_state_listener l t))"
  "listeners_ok t \<Longrightarrow> listeners_ok (remove_call_state_listener n t)"
  by (auto simp: listeners_ok_def no_listeners_def add_call_state_listener_def remove_call_state_listener_def distinct_map_filter)

lemma added_then_removed:
  assumes "listeners_ok t" "add_call_state_listener l t = (n, t')"
  shows "lt_listeners (remove_call_state_listener n t') = lt_listeners t"
  using assms by (force simp: listeners_ok_def add_call_state_listener_def remove_call_state_listener_def filter_id_conv)

end
